(* ===== verification/Prelude.thy ===== *)
theory Prelude
  imports Main "HOL-Library.Sublist"
begin

section \<open>Prelude: Go strings, results and shared list lemmas\<close>

text \<open>
  Shared vocabulary of the development.  A Go \<open>string\<close> and a Go \<open>[]byte\<close> are both the
  HOL type \<open>string\<close>: a list of 8-bit characters, so \<open>length\<close> is Go's \<open>len\<close> and a
  non-ASCII rune is the sequence of its UTF-8 bytes.  The functions of Go's package
  \<open>strings\<close> which the program calls are defined here with Go's results on every input;
  case mapping and white space are those of the ASCII range (bytes from 128 up are left
  alone by \<open>to_lower\<close> and are never white space).

  A fallible Go function \<open>(T, error)\<close> is a function into the sum type \<open>'e res\<close>-style
  \<open>'e + 'a\<close>, with \<open>Inl\<close> the error; \<open>bnd\<close> is the early return \<open>if err != nil\<close>.
\<close>

named_theorems res_simps \<open>unfolding rules of the result combinators\<close>
named_theorems str_simps \<open>simplification rules on Go strings\<close>

subsection \<open>Results\<close>

definition bnd :: "'e + 'a \<Rightarrow> ('a \<Rightarrow> 'e + 'b) \<Rightarrow> 'e + 'b" where
  "bnd m f = (case m of Inl e \<Rightarrow> Inl e | Inr a \<Rightarrow> f a)"

lemma bnd_simps [simp, res_simps]:
  "bnd (Inl e) f = Inl e"
  "bnd (Inr a) f = f a"
  by (simp_all add: bnd_def)

lemma bnd_eq_Inr: "bnd m f = Inr b \<longleftrightarrow> (\<exists>a. m = Inr a \<and> f a = Inr b)"
  by (cases m) auto

lemma bnd_eq_Inl: "bnd m f = Inl e \<longleftrightarrow> m = Inl e \<or> (\<exists>a. m = Inr a \<and> f a = Inl e)"
  by (cases m) auto

definition is_err :: "'e + 'a \<Rightarrow> bool" where
  "is_err r = (case r of Inl _ \<Rightarrow> True | Inr _ \<Rightarrow> False)"

lemma is_err_simps [simp, res_simps]: "is_err (Inl e)" "\<not> is_err (Inr a)"
  by (simp_all add: is_err_def)

definition of_opt :: "'e \<Rightarrow> 'a option \<Rightarrow> 'e + 'a" where
  "of_opt e x = (case x of None \<Rightarrow> Inl e | Some a \<Rightarrow> Inr a)"

lemma of_opt_simps [simp, res_simps]: "of_opt e None = Inl e" "of_opt e (Some a) = Inr a"
  by (simp_all add: of_opt_def)

lemma of_opt_eq_Inr [simp]: "of_opt e x = Inr a \<longleftrightarrow> x = Some a"
  by (cases x) auto

subsection \<open>Characters\<close>

definition is_digit :: "char \<Rightarrow> bool" where
  "is_digit c \<longleftrightarrow> 48 \<le> (of_char c :: nat) \<and> (of_char c :: nat) \<le> 57"

definition is_upper_c :: "char \<Rightarrow> bool" where
  "is_upper_c c \<longleftrightarrow> 65 \<le> (of_char c :: nat) \<and> (of_char c :: nat) \<le> 90"

definition is_lower_c :: "char \<Rightarrow> bool" where
  "is_lower_c c \<longleftrightarrow> 97 \<le> (of_char c :: nat) \<and> (of_char c :: nat) \<le> 122"

definition is_hex_c :: "char \<Rightarrow> bool" where
  "is_hex_c c \<longleftrightarrow> is_digit c \<or> (97 \<le> (of_char c :: nat) \<and> (of_char c :: nat) \<le> 102)
     \<or> (65 \<le> (of_char c :: nat) \<and> (of_char c :: nat) \<le> 70)"

definition is_alnum_c :: "char \<Rightarrow> bool" where
  "is_alnum_c c \<longleftrightarrow> is_digit c \<or> is_upper_c c \<or> is_lower_c c"

text \<open>White space of \<open>strings.TrimSpace\<close> in the ASCII range: tab to carriage return, space.\<close>

definition is_space_c :: "char \<Rightarrow> bool" where
  "is_space_c c \<longleftrightarrow> (9 \<le> (of_char c :: nat) \<and> (of_char c :: nat) \<le> 13) \<or> (of_char c :: nat) = 32"

definition lower_c :: "char \<Rightarrow> char" where
  "lower_c c = (if is_upper_c c then char_of ((of_char c :: nat) + 32) else c)"

abbreviation nl :: char where "nl \<equiv> CHR 0x0A"

lemma lower_c_not_upper [simp]: "\<not> is_upper_c (lower_c c)"
  by (auto simp: lower_c_def is_upper_c_def)

lemma lower_c_idem [simp]: "lower_c (lower_c c) = lower_c c"
  using lower_c_not_upper by (simp add: lower_c_def)

lemma lower_c_space [simp]: "is_space_c (lower_c c) = is_space_c c"
  by (auto simp: lower_c_def is_upper_c_def is_space_c_def)

subsection \<open>Go strings\<close>

definition has_prefix :: "string \<Rightarrow> string \<Rightarrow> bool" where
  "has_prefix s p \<longleftrightarrow> take (length p) s = p"

definition has_suffix :: "string \<Rightarrow> string \<Rightarrow> bool" where
  "has_suffix s p \<longleftrightarrow> length p \<le> length s \<and> drop (length s - length p) s = p"

lemma has_prefix_append [simp, str_simps]: "has_prefix (p @ s) p"
  by (simp add: has_prefix_def)

lemma has_prefix_iff: "has_prefix s p \<longleftrightarrow> (\<exists>t. s = p @ t)"
  by (metis append_eq_conv_conj append_take_drop_id has_prefix_def)

lemma has_suffix_iff: "has_suffix s p \<longleftrightarrow> (\<exists>t. s = t @ p)"
proof
  assume "has_suffix s p"
  then show "\<exists>t. s = t @ p"
    by (metis append_take_drop_id has_suffix_def)
next
  assume "\<exists>t. s = t @ p"
  then show "has_suffix s p" by (auto simp: has_suffix_def)
qed

text \<open>\<open>strings.Index\<close>, with \<open>None\<close> for -1: the first position where \<open>sub\<close> occurs.\<close>

fun index_of :: "string \<Rightarrow> string \<Rightarrow> nat option" where
  "index_of [] sub = (if sub = [] then Some 0 else None)"
| "index_of (c # s) sub =
     (if has_prefix (c # s) sub then Some 0 else map_option Suc (index_of s sub))"

text \<open>\<open>strings.IndexByte\<close> and \<open>strings.IndexAny\<close>: the first character satisfying \<open>P\<close>.\<close>

fun index_if :: "(char \<Rightarrow> bool) \<Rightarrow> string \<Rightarrow> nat option" where
  "index_if P [] = None"
| "index_if P (c # s) = (if P c then Some 0 else map_option Suc (index_if P s))"

abbreviation index_byte :: "string \<Rightarrow> char \<Rightarrow> nat option" where
  "index_byte s b \<equiv> index_if (\<lambda>c. c = b) s"

definition contains :: "string \<Rightarrow> string \<Rightarrow> bool" where
  "contains s sub \<longleftrightarrow> index_of s sub \<noteq> None"

text \<open>\<open>strings.LastIndex\<close> of a one-byte string.\<close>

definition last_index_byte :: "string \<Rightarrow> char \<Rightarrow> nat option" where
  "last_index_byte s b =
     (case index_byte (rev s) b of None \<Rightarrow> None | Some i \<Rightarrow> Some (length s - 1 - i))"

lemma index_if_Some: "index_if P s = Some i \<longleftrightarrow>
    i < length s \<and> P (s ! i) \<and> (\<forall>j<i. \<not> P (s ! j))"
proof (induction s arbitrary: i)
  case Nil
  then show ?case by simp
next
  case (Cons c s)
  show ?case
    by (cases i) (auto simp: Cons.IH less_Suc_eq_0_disj)
qed

lemma index_if_None: "index_if P s = None \<longleftrightarrow> (\<forall>c\<in>set s. \<not> P c)"
  by (induction s) auto

lemma index_if_append: "(\<forall>c\<in>set s. \<not> P c) \<Longrightarrow> P b \<Longrightarrow> index_if P (s @ b # t) = Some (length s)"
  by (induction s) auto

lemma index_of_Some: "index_of s sub = Some i \<Longrightarrow> i + length sub \<le> length s \<and> take (length sub) (drop i s) = sub"
proof (induction s arbitrary: i)
  case Nil
  then show ?case by (auto split: if_splits)
next
  case (Cons c s)
  show ?case
  proof (cases "has_prefix (c # s) sub")
    case True
    with Cons.prems have "i = 0" by simp
    with True show ?thesis
      by (metis add_0 drop_0 has_prefix_def le_add1 length_append append_take_drop_id)
  next
    case False
    with Cons.prems obtain j where "i = Suc j" "index_of s sub = Some j" by auto
    with Cons.IH[of j] show ?thesis by simp
  qed
qed

lemma has_prefix_Cons [simp, str_simps]:
  "has_prefix (c # s) (d # p) \<longleftrightarrow> c = d \<and> has_prefix s p"
  "has_prefix s []"
  "\<not> has_prefix [] (d # p)"
  by (auto simp: has_prefix_def)

lemma index_of_append: "sub \<noteq> [] \<Longrightarrow> hd sub \<notin> set w \<Longrightarrow> index_of (w @ sub @ t) sub = Some (length w)"
proof (induction w)
  case Nil
  then show ?case by (cases sub) simp_all
next
  case (Cons c w)
  then have "\<not> has_prefix ((c # w) @ sub @ t) sub" by (cases sub) auto
  with Cons show ?case by simp
qed

lemma index_of_missing: "sub \<noteq> [] \<Longrightarrow> hd sub \<notin> set w \<Longrightarrow> index_of w sub = None"
proof (induction w)
  case (Cons c w)
  then have "\<not> has_prefix (c # w) sub" by (cases sub) auto
  with Cons show ?case by simp
qed simp

text \<open>\<open>strings.Cut\<close>: before, after, found.\<close>

definition cut :: "string \<Rightarrow> string \<Rightarrow> string \<times> string \<times> bool" where
  "cut s sep = (case index_of s sep of
     None \<Rightarrow> (s, [], False)
   | Some i \<Rightarrow> (take i s, drop (i + length sep) s, True))"

text \<open>\<open>strings.Split\<close> on a one-byte separator: always at least one field.\<close>

fun split_on :: "char \<Rightarrow> string \<Rightarrow> string list" where
  "split_on b [] = [[]]"
| "split_on b (c # s) =
     (if c = b then [] # split_on b s
      else (case split_on b s of [] \<Rightarrow> [[c]] | w # ws \<Rightarrow> (c # w) # ws))"

fun join :: "string \<Rightarrow> string list \<Rightarrow> string" where
  "join sep [] = []"
| "join sep [w] = w"
| "join sep (w # v # ws) = w @ sep @ join sep (v # ws)"

definition trim_left :: "(char \<Rightarrow> bool) \<Rightarrow> string \<Rightarrow> string" where
  "trim_left P s = dropWhile P s"

definition trim_right :: "(char \<Rightarrow> bool) \<Rightarrow> string \<Rightarrow> string" where
  "trim_right P s = rev (dropWhile P (rev s))"

definition trim_space :: "string \<Rightarrow> string" where
  "trim_space s = trim_right is_space_c (trim_left is_space_c s)"

definition to_lower :: "string \<Rightarrow> string" where
  "to_lower s = map lower_c s"

definition to_upper_c :: "char \<Rightarrow> char" where
  "to_upper_c c = (if is_lower_c c then char_of ((of_char c :: nat) - 32) else c)"

definition to_upper :: "string \<Rightarrow> string" where
  "to_upper s = map to_upper_c s"

definition equal_fold :: "string \<Rightarrow> string \<Rightarrow> bool" where
  "equal_fold a b \<longleftrightarrow> to_lower a = to_lower b"

definition trim_prefix :: "string \<Rightarrow> string \<Rightarrow> string" where
  "trim_prefix s p = (if has_prefix s p then drop (length p) s else s)"

definition trim_suffix :: "string \<Rightarrow> string \<Rightarrow> string" where
  "trim_suffix s p = (if has_suffix s p then take (length s - length p) s else s)"

definition first_non_empty :: "string \<Rightarrow> string \<Rightarrow> string" where
  "first_non_empty a b = (if a \<noteq> [] then a else b)"

lemma split_on_nonempty [simp]: "split_on b s \<noteq> []"
  by (cases s) (auto split: list.splits)

lemma split_on_clean: "w \<in> set (split_on b s) \<Longrightarrow> b \<notin> set w"
  by (induction s arbitrary: w) (auto split: if_splits list.splits)

lemma join_split_on: "join [b] (split_on b s) = s"
proof (induction s)
  case Nil
  then show ?case by simp
next
  case (Cons c s)
  obtain w ws where w: "split_on b s = w # ws"
    by (metis neq_Nil_conv split_on_nonempty)
  with Cons.IH show ?case by (cases ws) auto
qed

lemma split_on_single: "b \<notin> set w \<Longrightarrow> split_on b w = [w]"
  by (induction w) auto

lemma split_on_append: "b \<notin> set w \<Longrightarrow> split_on b (w @ b # s) = w # split_on b s"
  by (induction w) auto

lemma split_on_snoc: "b \<notin> set w \<Longrightarrow> split_on b (s @ b # w) = split_on b s @ [w]"
  by (induction s) (auto simp: split_on_single split: list.splits)

lemma last_sep_unique:
  "x @ b # y = x' @ b # y' \<Longrightarrow> b \<notin> set y \<Longrightarrow> b \<notin> set y' \<Longrightarrow> x = x' \<and> y = y'"
proof -
  assume a: "x @ b # y = x' @ b # y'" "b \<notin> set y" "b \<notin> set y'"
  from a(1) obtain us where "x = x' @ us \<and> us @ b # y = b # y' \<or> x @ us = x' \<and> b # y = us @ b # y'"
    by (auto simp: append_eq_append_conv2)
  then show ?thesis using a(2,3) by (cases us) auto
qed

lemma sep_cross: "x @ b # y = a @ c # h \<Longrightarrow> b \<noteq> c \<Longrightarrow> c \<notin> set y \<Longrightarrow> b \<in> set h"
proof -
  assume e: "x @ b # y = a @ c # h" and n: "b \<noteq> c" "c \<notin> set y"
  from e obtain us where "x = a @ us \<and> us @ b # y = c # h \<or> x @ us = a \<and> b # y = us @ c # h"
    by (auto simp: append_eq_append_conv2)
  then show ?thesis
  proof
    assume "x = a @ us \<and> us @ b # y = c # h"
    with n show ?thesis by (cases us) auto
  next
    assume "x @ us = a \<and> b # y = us @ c # h"
    with n show ?thesis by (cases us) auto
  qed
qed

lemma split_on_join:
  "ws \<noteq> [] \<Longrightarrow> \<forall>w\<in>set ws. b \<notin> set w \<Longrightarrow> split_on b (join [b] ws) = ws"
proof (induction ws)
  case Nil
  then show ?case by simp
next
  case (Cons w ws)
  then show ?case by (cases ws) (auto simp: split_on_single split_on_append)
qed

lemma to_lower_idem [simp]: "to_lower (to_lower s) = to_lower s"
  by (simp add: to_lower_def comp_def)

lemma length_to_lower [simp]: "length (to_lower s) = length s"
  by (simp add: to_lower_def)

lemma dropWhile_hd: "dropWhile P s = c # t \<Longrightarrow> \<not> P c"
  by (metis hd_dropWhile list.sel(1) list.distinct(1))

lemma trim_right_last: "trim_right P s \<noteq> [] \<Longrightarrow> \<not> P (last (trim_right P s))"
  unfolding trim_right_def
  by (metis hd_dropWhile last_rev rev.simps(1))

lemma trim_right_eq: "s = [] \<or> \<not> P (last s) \<Longrightarrow> trim_right P s = s"
proof -
  assume "s = [] \<or> \<not> P (last s)"
  then have "dropWhile P (rev s) = rev s"
    by (metis dropWhile_eq_self_iff hd_rev rev_is_Nil_conv)
  then show ?thesis by (simp add: trim_right_def)
qed

lemma trim_right_prefix: "prefix (trim_right P s) s"
proof -
  have "suffix (dropWhile P (rev s)) (rev s)" by (rule suffix_dropWhile)
  then show ?thesis by (simp add: trim_right_def suffix_to_prefix)
qed

lemma set_trim_right: "set (trim_right P s) \<subseteq> set s"
  using trim_right_prefix set_mono_prefix by metis

lemma trim_space_hd: "trim_space s \<noteq> [] \<Longrightarrow> \<not> is_space_c (hd (trim_space s))"
proof -
  assume ne: "trim_space s \<noteq> []"
  let ?l = "trim_left is_space_c s"
  obtain t where t: "?l = trim_space s @ t"
    using trim_right_prefix[of is_space_c ?l] by (auto simp: trim_space_def elim: prefixE)
  with ne have "hd (trim_space s) = hd ?l" and "?l \<noteq> []" by simp_all
  then show ?thesis by (simp add: trim_left_def hd_dropWhile)
qed

lemma trim_space_idem [simp]: "trim_space (trim_space s) = trim_space s"
proof (cases "trim_space s = []")
  case True
  moreover have "trim_space [] = []" by (simp add: trim_space_def trim_left_def trim_right_def)
  ultimately show ?thesis by simp
next
  case False
  let ?t = "trim_space s"
  have l: "trim_left is_space_c ?t = ?t"
    using trim_space_hd[OF False] False
    by (metis dropWhile_eq_self_iff trim_left_def)
  have "\<not> is_space_c (last ?t)"
    using False trim_right_last unfolding trim_space_def by blast
  then have "trim_right is_space_c ?t = ?t" by (simp add: trim_right_eq)
  with l show ?thesis by (simp add: trim_space_def [of ?t])
qed

lemma set_trim_space: "set (trim_space s) \<subseteq> set s"
  unfolding trim_space_def trim_left_def
  by (meson dual_order.trans set_dropWhileD set_trim_right subsetI)

subsection \<open>Decimal numbers\<close>

definition digit_char :: "nat \<Rightarrow> char" where
  "digit_char n = char_of (48 + n)"

fun show_nat :: "nat \<Rightarrow> string" where
  "show_nat n = (if n < 10 then [digit_char n] else show_nat (n div 10) @ [digit_char (n mod 10)])"

declare show_nat.simps [simp del]

text \<open>\<open>fmt.Sprintf("%d", i)\<close>.\<close>

definition show_int :: "int \<Rightarrow> string" where
  "show_int i = (if i < 0 then ''-'' @ show_nat (nat (- i)) else show_nat (nat i))"

lemma is_digit_digit_char: "n < 10 \<Longrightarrow> is_digit (digit_char n)"
  by (simp add: digit_char_def is_digit_def)

lemma show_nat_digits: "list_all is_digit (show_nat n) \<and> show_nat n \<noteq> []"
proof (induction n rule: show_nat.induct)
  case (1 n)
  then show ?case
    by (subst (1 2) show_nat.simps) (auto simp: is_digit_digit_char)
qed

end
