(* ===== verification/Json.thy ===== *)
theory Json
  imports Prelude
begin

section \<open>JSON documents and decoding into structs (Go's encoding/json)\<close>

text \<open>
  Every payload of the program passes through \<open>json.Unmarshal\<close>.  \<open>json_parse\<close> is Go's grammar
  over bytes: white space, literals, strings with their escapes (surrogate pairs joined, invalid
  UTF-8 replaced by U+FFFD), numbers kept as their literal text.  A document nested deeper than
  the 10000 levels of Go's decoder is not rejected here.

  Decoding is state passing, as in Go: a decoder gets the JSON value and the value already stored
  in the destination (\<open>null\<close> leaves a string, number, bool or struct as it was, a repeated key
  decodes again over the first result) and fails with \<open>None\<close> on a type mismatch.  Keys match field names without
  regard to ASCII case; unknown keys are skipped.
\<close>

datatype json =
    JNull
  | JBool bool
  | JNum string
  | JStr string
  | JArr "json list"
  | JObj "(string \<times> json) list"

subsection \<open>UTF-8\<close>

definition byte_nat :: "char \<Rightarrow> nat" where "byte_nat c = of_char c"

definition cont_byte :: "char \<Rightarrow> bool" where
  "cont_byte c \<longleftrightarrow> 128 \<le> byte_nat c \<and> byte_nat c \<le> 191"

text \<open>Width in bytes of the valid rune a string starts with; 0 when the first byte starts none.\<close>

definition rune_width :: "string \<Rightarrow> nat" where
  "rune_width s = (case s of
     [] \<Rightarrow> 0
   | a # s1 \<Rightarrow>
      let x = byte_nat a in
      if x < 128 then 1
      else case s1 of [] \<Rightarrow> 0
      | b # s2 \<Rightarrow>
        let y = byte_nat b in
        if 194 \<le> x \<and> x \<le> 223 then (if cont_byte b then 2 else 0)
        else case s2 of [] \<Rightarrow> 0
        | c # s3 \<Rightarrow>
          if 224 \<le> x \<and> x \<le> 239 then
            (if cont_byte b \<and> cont_byte c \<and> (x = 224 \<longrightarrow> 160 \<le> y) \<and> (x = 237 \<longrightarrow> y \<le> 159)
             then 3 else 0)
          else case s3 of [] \<Rightarrow> 0
          | d # s4 \<Rightarrow>
            if 240 \<le> x \<and> x \<le> 244 \<and> cont_byte b \<and> cont_byte c \<and> cont_byte d
               \<and> (x = 240 \<longrightarrow> 144 \<le> y) \<and> (x = 244 \<longrightarrow> y \<le> 143)
            then 4 else 0)"

definition replacement_rune :: string where
  "replacement_rune = [CHR 0xEF, CHR 0xBF, CHR 0xBD]"

function fix_utf8 :: "string \<Rightarrow> string" where
  "fix_utf8 s =
     (if s = [] then []
      else let w = rune_width s in
        if w = 0 then replacement_rune @ fix_utf8 (drop 1 s)
        else take w s @ fix_utf8 (drop w s))"
  by pat_completeness auto
termination by (relation "measure length") auto

declare fix_utf8.simps [simp del]

definition utf8_enc :: "nat \<Rightarrow> string" where
  "utf8_enc r =
     (if r < 128 then [char_of r]
      else if r < 2048 then [char_of (192 + r div 64), char_of (128 + r mod 64)]
      else if r < 65536 then
        [char_of (224 + r div 4096), char_of (128 + r div 64 mod 64), char_of (128 + r mod 64)]
      else [char_of (240 + r div 262144), char_of (128 + r div 4096 mod 64),
            char_of (128 + r div 64 mod 64), char_of (128 + r mod 64)])"

subsection \<open>Strings and numbers\<close>

definition json_ws :: "char \<Rightarrow> bool" where
  "json_ws c \<longleftrightarrow> c = CHR '' '' \<or> c = CHR 0x09 \<or> c = nl \<or> c = CHR 0x0D"

definition skip_ws :: "string \<Rightarrow> string" where
  "skip_ws s = dropWhile json_ws s"

definition hex_val :: "char \<Rightarrow> nat option" where
  "hex_val c =
     (let n = byte_nat c in
      if is_digit c then Some (n - 48)
      else if 97 \<le> n \<and> n \<le> 102 then Some (n - 87)
      else if 65 \<le> n \<and> n \<le> 70 then Some (n - 55) else None)"

fun hex4 :: "string \<Rightarrow> nat option" where
  "hex4 [a, b, c, d] =
     (case (hex_val a, hex_val b, hex_val c, hex_val d) of
        (Some w, Some x, Some y, Some z) \<Rightarrow> Some (4096 * w + 256 * x + 16 * y + z)
      | _ \<Rightarrow> None)"
| "hex4 _ = None"

definition simple_escape :: "char \<Rightarrow> char option" where
  "simple_escape e =
     (if e = CHR 0x22 \<or> e = CHR 0x5C \<or> e = CHR ''/'' then Some e
      else if e = CHR ''b'' then Some (CHR 0x08)
      else if e = CHR ''f'' then Some (CHR 0x0C)
      else if e = CHR ''n'' then Some nl
      else if e = CHR ''r'' then Some (CHR 0x0D)
      else if e = CHR ''t'' then Some (CHR 0x09)
      else None)"

text \<open>The low surrogate that completes a high one, when the text continues with its escape.\<close>

definition low_surrogate :: "string \<Rightarrow> nat option" where
  "low_surrogate s =
     (if has_prefix s [CHR 0x5C, CHR ''u''] then
        (case hex4 (take 4 (drop 2 s)) of
           Some r \<Rightarrow> if 56320 \<le> r \<and> r \<le> 57343 then Some r else None
         | None \<Rightarrow> None)
      else None)"

text \<open>The text after an opening quote, up to the closing one: its bytes and what follows.\<close>

function str_body :: "string \<Rightarrow> (string \<times> string) option" where
  "str_body [] = None"
| "str_body (c # s) =
     (if c = CHR 0x22 then Some ([], s)
      else if c = CHR 0x5C then
        (if s = [] then None
         else if hd s = CHR ''u'' then
           (case hex4 (take 4 (tl s)) of
              None \<Rightarrow> None
            | Some r \<Rightarrow>
                let rest = drop 4 (tl s) in
                if 55296 \<le> r \<and> r \<le> 57343 then
                  (case (r \<le> 56319, low_surrogate rest) of
                     (True, Some l) \<Rightarrow>
                        map_option (\<lambda>(b, t). (utf8_enc (65536 + (r - 55296) * 1024 + (l - 56320)) @ b, t))
                          (str_body (drop 6 rest))
                   | _ \<Rightarrow> map_option (\<lambda>(b, t). (replacement_rune @ b, t)) (str_body rest))
                else map_option (\<lambda>(b, t). (utf8_enc r @ b, t)) (str_body rest))
         else (case simple_escape (hd s) of
                 None \<Rightarrow> None
               | Some x \<Rightarrow> map_option (\<lambda>(b, t). (x # b, t)) (str_body (tl s))))
      else if byte_nat c < 32 then None
      else map_option (\<lambda>(b, t). (c # b, t)) (str_body s))"
  by pat_completeness auto
termination by (relation "measure length") (auto simp: neq_Nil_conv)

declare str_body.simps(2) [simp del]

definition span_digits :: "string \<Rightarrow> string \<times> string" where
  "span_digits s = (takeWhile is_digit s, dropWhile is_digit s)"

text \<open>A number literal: optional minus, integer part, optional fraction, optional exponent.\<close>

definition num_int_part :: "string \<Rightarrow> (string \<times> string) option" where
  "num_int_part s = (case s of
     [] \<Rightarrow> None
   | c # t \<Rightarrow> if c = CHR ''0'' then Some ([c], t)
             else if is_digit c then Some (span_digits s) else None)"

definition num_frac_part :: "string \<Rightarrow> (string \<times> string) option" where
  "num_frac_part s = (case s of
     [] \<Rightarrow> Some ([], [])
   | c # t \<Rightarrow> if c = CHR ''.'' then
                (case span_digits t of (ds, r) \<Rightarrow> if ds = [] then None else Some (c # ds, r))
             else Some ([], s))"

definition num_exp_part :: "string \<Rightarrow> (string \<times> string) option" where
  "num_exp_part s = (case s of
     [] \<Rightarrow> Some ([], [])
   | c # t \<Rightarrow> if c = CHR ''e'' \<or> c = CHR ''E'' then
                (let sg = (case t of d # _ \<Rightarrow> if d = CHR ''+'' \<or> d = CHR ''-'' then [d] else [] | [] \<Rightarrow> []);
                     u = drop (length sg) t in
                 case span_digits u of (ds, r) \<Rightarrow> if ds = [] then None else Some (c # sg @ ds, r))
             else Some ([], s))"

definition scan_num :: "string \<Rightarrow> (string \<times> string) option" where
  "scan_num s =
     (let sg = (if has_prefix s ''-'' then ''-'' else []) in
      case num_int_part (drop (length sg) s) of None \<Rightarrow> None
      | Some (i, s1) \<Rightarrow>
        (case num_frac_part s1 of None \<Rightarrow> None
         | Some (f, s2) \<Rightarrow>
           (case num_exp_part s2 of None \<Rightarrow> None
            | Some (e, s3) \<Rightarrow> Some (sg @ i @ f @ e, s3))))"

subsection \<open>Values\<close>

definition expect :: "char \<Rightarrow> string \<Rightarrow> string option" where
  "expect c s = (case skip_ws s of [] \<Rightarrow> None | d # t \<Rightarrow> if c = d then Some t else None)"

text \<open>
  \<open>pval\<close> reads a value, \<open>parr\<close> the elements after an opening bracket and \<open>pobj\<close> the members after
  an opening brace.  The first argument is fuel; \<open>json_parse_fuel\<close> below shows that the amount
  \<open>json_parse\<close> starts with is never the reason for a failure.
\<close>

fun pval :: "nat \<Rightarrow> string \<Rightarrow> (json \<times> string) option"
and parr :: "nat \<Rightarrow> string \<Rightarrow> (json list \<times> string) option"
and pobj :: "nat \<Rightarrow> string \<Rightarrow> ((string \<times> json) list \<times> string) option" where
  "pval 0 s = None"
| "pval (Suc n) s =
     (case skip_ws s of
        [] \<Rightarrow> None
      | c # t \<Rightarrow>
          if c = CHR 0x22 then map_option (\<lambda>(b, r). (JStr (fix_utf8 b), r)) (str_body t)
          else if c = CHR ''['' then
            (case expect (CHR '']'') t of
               Some r \<Rightarrow> Some (JArr [], r)
             | None \<Rightarrow> map_option (\<lambda>(xs, r). (JArr xs, r)) (parr n t))
          else if c = CHR ''{'' then
            (case expect (CHR ''}'') t of
               Some r \<Rightarrow> Some (JObj [], r)
             | None \<Rightarrow> map_option (\<lambda>(xs, r). (JObj xs, r)) (pobj n t))
          else if has_prefix (c # t) ''true'' then Some (JBool True, drop 3 t)
          else if has_prefix (c # t) ''false'' then Some (JBool False, drop 4 t)
          else if has_prefix (c # t) ''null'' then Some (JNull, drop 3 t)
          else map_option (\<lambda>(x, r). (JNum x, r)) (scan_num (c # t)))"
| "parr 0 s = None"
| "parr (Suc n) s =
     (case pval n s of
        None \<Rightarrow> None
      | Some (v, r) \<Rightarrow>
          (case expect (CHR '','') r of
             Some r' \<Rightarrow> map_option (\<lambda>(vs, q). (v # vs, q)) (parr n r')
           | None \<Rightarrow> map_option (\<lambda>q. ([v], q)) (expect (CHR '']'') r)))"
| "pobj 0 s = None"
| "pobj (Suc n) s =
     (case expect (CHR 0x22) s of
        None \<Rightarrow> None
      | Some s1 \<Rightarrow>
          (case str_body s1 of
             None \<Rightarrow> None
           | Some (k, s2) \<Rightarrow>
               (case expect (CHR '':'') s2 of
                  None \<Rightarrow> None
                | Some s3 \<Rightarrow>
                    (case pval n s3 of
                       None \<Rightarrow> None
                     | Some (v, r) \<Rightarrow>
                         (case expect (CHR '','') r of
                            Some r' \<Rightarrow> map_option (\<lambda>(kvs, q). ((fix_utf8 k, v) # kvs, q)) (pobj n r')
                          | None \<Rightarrow> map_option (\<lambda>q. ([(fix_utf8 k, v)], q)) (expect (CHR ''}'') r))))))"

definition json_fuel :: "string \<Rightarrow> nat" where
  "json_fuel s = 2 * length s + 2"

definition json_parse :: "string \<Rightarrow> json option" where
  "json_parse s =
     (case pval (json_fuel s) s of
        Some (v, r) \<Rightarrow> if skip_ws r = [] then Some v else None
      | None \<Rightarrow> None)"


subsection \<open>The fuel is enough\<close>

named_theorems json_len \<open>every scanner returns a shorter rest\<close>

lemma length_skip_ws: "length (skip_ws s) \<le> length s"
  by (simp add: skip_ws_def length_dropWhile_le)

lemma skip_ws_Cons: "skip_ws s = c # t \<Longrightarrow> length t < length s"
  using length_skip_ws[of s] by simp

lemma length_expect [json_len]: "expect c s = Some t \<Longrightarrow> length t < length s"
  using length_skip_ws[of s] by (auto simp: expect_def split: list.splits if_splits)

lemma str_body_step:
  "str_body (c # s) = Some (b, r) \<Longrightarrow> r = s \<or> (\<exists>t b'. str_body t = Some (b', r) \<and> length t \<le> length s)"
proof -
  assume a: "str_body (c # s) = Some (b, r)"
  have ex: "str_body t = Some (b', r) \<Longrightarrow> length t \<le> length s \<Longrightarrow>
      \<exists>t b'. str_body t = Some (b', r) \<and> length t \<le> length s" for t b'
    by blast
  from a show ?thesis
    by (auto simp: str_body.simps(2) Let_def intro: ex split: if_splits option.splits bool.splits)
qed

lemma length_str_body [json_len]: "str_body s = Some (b, r) \<Longrightarrow> length r < length s"
proof (induction "length s" arbitrary: s b rule: less_induct)
  case less
  then obtain c t where s: "s = c # t" by (cases s) auto
  from str_body_step[OF less.prems[unfolded s]] show ?case
  proof
    assume "r = t"
    then show ?thesis by (simp add: s)
  next
    assume "\<exists>u b'. str_body u = Some (b', r) \<and> length u \<le> length t"
    then obtain u b' where "str_body u = Some (b', r)" "length u \<le> length t" by blast
    then show ?thesis using less.hyps[of u b'] s by auto
  qed
qed

lemma length_span: "span_digits s = (ds, r) \<Longrightarrow> length ds + length r = length s"
  by (auto simp: span_digits_def simp flip: length_append)

lemma length_int_part: "num_int_part s = Some (i, r) \<Longrightarrow> length r < length s"
  using length_span[of s i r]
  by (cases s) (auto simp: num_int_part_def span_digits_def split: if_splits)

lemma length_frac_part: "num_frac_part s = Some (i, r) \<Longrightarrow> length r \<le> length s"
  using length_span[of "tl s"]
  by (cases s) (fastforce simp: num_frac_part_def split: if_splits prod.splits)+

lemma length_exp_part: "num_exp_part s = Some (i, r) \<Longrightarrow> length r \<le> length s"
proof (cases s)
  case (Cons c t)
  assume "num_exp_part s = Some (i, r)"
  moreover have sp: "length r' \<le> Suc (length t)" if "span_digits (drop k t) = (ds, r')" for k ds r'
    using length_span[OF that] by simp
  ultimately show ?thesis
    using Cons by (auto simp: num_exp_part_def Let_def dest!: sp split: if_splits prod.splits)
qed (simp add: num_exp_part_def)

lemma length_scan_num [json_len]: "scan_num s = Some (x, r) \<Longrightarrow> length r < length s"
proof -
  assume a: "scan_num s = Some (x, r)"
  obtain k i f e s1 s2 where "num_int_part (drop k s) = Some (i, s1)"
      "num_frac_part s1 = Some (f, s2)" "num_exp_part s2 = Some (e, r)"
    using a by (auto simp: scan_num_def Let_def split: option.splits)
  then show ?thesis
    using length_int_part length_frac_part length_exp_part by fastforce
qed

lemma length_parse:
  "pval n s = Some (v, r) \<Longrightarrow> length r < length s"
  "parr n s = Some (vs, r) \<Longrightarrow> length r < length s"
  "pobj n s = Some (kvs, r) \<Longrightarrow> length r < length s"
proof (induction n s and n s and n s arbitrary: v r and vs r and kvs r rule: pval_parr_pobj.induct)
  case (2 n s)
  obtain c t where ct: "skip_ws s = c # t" using "2.prems" by (auto split: list.splits)
  note lt = skip_ws_Cons[OF ct]
  have "length r \<le> length t"
  proof -
    consider (str) "c = CHR 0x22" | (arr) "c = CHR ''[''" | (obj) "c = CHR ''{''"
      | (other) "c \<noteq> CHR 0x22" "c \<noteq> CHR ''[''" "c \<noteq> CHR ''{''" by blast
    then show ?thesis
    proof cases
      case str
      then obtain b where "str_body t = Some (b, r)" using "2.prems" ct by auto
      then show ?thesis using length_str_body by (simp add: less_imp_le)
    next
      case arr
      show ?thesis
      proof (cases "expect (CHR '']'') t")
        case None
        then obtain xs where "parr n t = Some (xs, r)" using "2.prems" ct arr by auto
        then show ?thesis using "2.IH"(1)[OF ct] arr None by (simp add: less_imp_le)
      next
        case (Some q)
        then show ?thesis using "2.prems" ct arr length_expect[OF Some] by auto
      qed
    next
      case obj
      show ?thesis
      proof (cases "expect (CHR ''}'') t")
        case None
        then obtain xs where "pobj n t = Some (xs, r)" using "2.prems" ct obj by auto
        then show ?thesis using "2.IH"(2)[OF ct] obj None by (simp add: less_imp_le)
      next
        case (Some q)
        then show ?thesis using "2.prems" ct obj length_expect[OF Some] by auto
      qed
    next
      case other
      then show ?thesis using "2.prems" ct length_scan_num[of "c # t"]
        by (auto split: if_splits)
    qed
  qed
  with lt show ?case by simp
next
  case (4 n s)
  then show ?case using length_expect
    by (auto split: option.splits) (fastforce dest: less_trans)+
next
  case (6 n s)
  obtain s1 k s2 s3 v r' where
    "expect (CHR 0x22) s = Some s1" "str_body s1 = Some (k, s2)" "expect (CHR '':'') s2 = Some s3"
    "pval n s3 = Some (v, r')" and rest:
    "(case expect (CHR '','') r' of
        Some q' \<Rightarrow> map_option (\<lambda>(kvs, q). ((fix_utf8 k, v) # kvs, q)) (pobj n q')
      | None \<Rightarrow> map_option (\<lambda>q. ([(fix_utf8 k, v)], q)) (expect (CHR ''}'') r')) = Some (kvs, r)"
    using "6.prems" by (auto split: option.splits)
  note c = this
  have l: "length r' < length s"
  proof -
    have "length r' < length s3" using "6.IH"(1) c(1-4) by blast
    also have "length s3 < length s2" by (rule length_expect[OF c(3)])
    also have "length s2 < length s1" by (rule length_str_body[OF c(2)])
    also have "length s1 < length s" by (rule length_expect[OF c(1)])
    finally show ?thesis .
  qed
  have "length r < length r'"
  proof (cases "expect (CHR '','') r'")
    case None
    then show ?thesis using rest length_expect by auto
  next
    case (Some q')
    then obtain kvs' where "pobj n q' = Some (kvs', r)" using rest by auto
    then have "length r < length q'" using "6.IH"(2) c Some by blast
    then show ?thesis using length_expect[OF Some] by simp
  qed
  with l show ?case by simp
qed simp_all

lemma parse_fuel_step:
  "(\<forall>s. 2 * length s + 1 \<le> n \<longrightarrow> pval (Suc n) s = pval n s) \<and>
   (\<forall>s. 2 * length s + 2 \<le> n \<longrightarrow> parr (Suc n) s = parr n s) \<and>
   (\<forall>s. 2 * length s + 2 \<le> n \<longrightarrow> pobj (Suc n) s = pobj n s)"
proof (induction n)
  case 0
  then show ?case by simp
next
  case (Suc n)
  have v: "pval (Suc (Suc n)) s = pval (Suc n) s" if "2 * length s + 1 \<le> Suc n" for s
  proof (cases "skip_ws s")
    case (Cons c t)
    then have "length t < length s" by (rule skip_ws_Cons)
    with that Suc.IH have "parr (Suc n) t = parr n t" "pobj (Suc n) t = pobj n t" by auto
    with Cons show ?thesis by (simp only: pval.simps list.case)
  qed simp
  have a: "parr (Suc (Suc n)) s = parr (Suc n) s" if "2 * length s + 2 \<le> Suc n" for s
  proof -
    have eq: "pval (Suc n) s = pval n s" using Suc.IH that by simp
    show ?thesis
    proof (cases "pval n s")
      case (Some vr)
      obtain w r where vr: "vr = (w, r)" by (cases vr)
      have r: "length r < length s" using length_parse(1) Some vr by blast
      have "parr (Suc n) r' = parr n r'" if "expect (CHR '','') r = Some r'" for r'
        using Suc.IH length_expect[OF that] r \<open>2 * length s + 2 \<le> Suc n\<close> by auto
      then show ?thesis
        unfolding parr.simps(2) eq by (auto simp: Some vr split: option.splits)
    qed (simp only: parr.simps eq option.case)
  qed
  have o: "pobj (Suc (Suc n)) s = pobj (Suc n) s" if "2 * length s + 2 \<le> Suc n" for s
  proof -
    have eq: "pval (Suc n) s3 = pval n s3" and step: "pval n s3 = Some (w, r) \<Longrightarrow>
        expect (CHR '','') r = Some r' \<Longrightarrow> pobj (Suc n) r' = pobj n r'"
      if "expect (CHR 0x22) s = Some s1" "str_body s1 = Some (k, s2)" "expect (CHR '':'') s2 = Some s3"
      for s1 s2 s3 k w r r'
    proof -
      have l: "length s3 < length s"
        using length_expect[OF that(1)] length_str_body[OF that(2)] length_expect[OF that(3)] by simp
      then show "pval (Suc n) s3 = pval n s3" using Suc.IH \<open>2 * length s + 2 \<le> Suc n\<close> by auto
      assume "pval n s3 = Some (w, r)" "expect (CHR '','') r = Some r'"
      then have "length r' < length s3" using length_parse(1) length_expect by (meson less_trans)
      with l show "pobj (Suc n) r' = pobj n r'" using Suc.IH \<open>2 * length s + 2 \<le> Suc n\<close> by auto
    qed
    show ?thesis
      unfolding pobj.simps(2)[of "Suc n" s] pobj.simps(2)[of n s] using eq step
      by (auto split: option.splits simp del: pobj.simps pval.simps)
  qed
  show ?case using v a o by blast
qed

lemma json_parse_fuel: "json_fuel s \<le> n \<Longrightarrow> pval n s = pval (json_fuel s) s"
proof (induction n rule: dec_induct)
  case (step n)
  then have "pval (Suc n) s = pval n s"
    using parse_fuel_step by (auto simp: json_fuel_def)
  with step show ?case by simp
qed simp

subsection \<open>Decoders\<close>

type_synonym 'a dec = "json \<Rightarrow> 'a \<Rightarrow> 'a option"

definition dec_string :: "string dec" where
  "dec_string v old = (case v of JNull \<Rightarrow> Some old | JStr s \<Rightarrow> Some s | _ \<Rightarrow> None)"

definition dec_bool :: "bool dec" where
  "dec_bool v old = (case v of JNull \<Rightarrow> Some old | JBool b \<Rightarrow> Some b | _ \<Rightarrow> None)"

fun digits_val :: "int \<Rightarrow> string \<Rightarrow> int" where
  "digits_val acc [] = acc"
| "digits_val acc (c # s) = digits_val (10 * acc + (of_char c - 48)) s"

text \<open>\<open>strconv.ParseInt\<close> of a literal: an optional minus and digits only.\<close>

definition lit_int :: "string \<Rightarrow> int option" where
  "lit_int s =
     (let neg = has_prefix s ''-''; ds = (if neg then drop 1 s else s) in
      if ds \<noteq> [] \<and> list_all is_digit ds
      then Some (if neg then - digits_val 0 ds else digits_val 0 ds) else None)"

definition in_int64 :: "int \<Rightarrow> bool" where
  "in_int64 i \<longleftrightarrow> - (2 ^ 63) \<le> i \<and> i < 2 ^ 63"

definition dec_int :: "int dec" where
  "dec_int v old = (case v of
     JNull \<Rightarrow> Some old
   | JNum s \<Rightarrow> (case lit_int s of Some i \<Rightarrow> if in_int64 i then Some i else None | None \<Rightarrow> None)
   | _ \<Rightarrow> None)"

text \<open>A \<open>json.RawMessage\<close> field takes any value, \<open>null\<close> included; \<open>None\<close> is the absent field.\<close>

definition dec_raw :: "json option dec" where
  "dec_raw v old = Some (Some v)"

definition dec_ptr :: "'a \<Rightarrow> 'a dec \<Rightarrow> 'a option dec" where
  "dec_ptr zero d v old = (case v of JNull \<Rightarrow> Some None
     | _ \<Rightarrow> map_option Some (d v (case old of None \<Rightarrow> zero | Some x \<Rightarrow> x)))"

fun dec_elems :: "'a \<Rightarrow> 'a dec \<Rightarrow> json list \<Rightarrow> 'a list option" where
  "dec_elems zero d [] = Some []"
| "dec_elems zero d (v # vs) =
     (case d v zero of None \<Rightarrow> None
      | Some x \<Rightarrow> map_option (\<lambda>xs. x # xs) (dec_elems zero d vs))"

definition dec_list :: "'a \<Rightarrow> 'a dec \<Rightarrow> 'a list dec" where
  "dec_list zero d v old = (case v of
     JNull \<Rightarrow> Some [] | JArr vs \<Rightarrow> dec_elems zero d vs | _ \<Rightarrow> None)"

text \<open>A Go map is an association list in order of first insertion; a repeated key overwrites.\<close>

fun alist_put :: "'k \<Rightarrow> 'v \<Rightarrow> ('k \<times> 'v) list \<Rightarrow> ('k \<times> 'v) list" where
  "alist_put k v [] = [(k, v)]"
| "alist_put k v ((k', v') # kvs) = (if k = k' then (k, v) # kvs else (k', v') # alist_put k v kvs)"

fun dec_members :: "'a \<Rightarrow> 'a dec \<Rightarrow> (string \<times> json) list \<Rightarrow> (string \<times> 'a) list \<Rightarrow> (string \<times> 'a) list option" where
  "dec_members zero d [] m = Some m"
| "dec_members zero d ((k, v) # kvs) m =
     (case d v zero of None \<Rightarrow> None | Some x \<Rightarrow> dec_members zero d kvs (alist_put k x m))"

definition dec_map :: "'a \<Rightarrow> 'a dec \<Rightarrow> (string \<times> 'a) list dec" where
  "dec_map zero d v old = (case v of
     JNull \<Rightarrow> Some [] | JObj kvs \<Rightarrow> dec_members zero d kvs old | _ \<Rightarrow> None)"

type_synonym 'a fields = "(string \<times> (json \<Rightarrow> 'a \<Rightarrow> 'a option)) list"

definition on :: "('r \<Rightarrow> 'f) \<Rightarrow> (('f \<Rightarrow> 'f) \<Rightarrow> 'r \<Rightarrow> 'r) \<Rightarrow> 'f dec \<Rightarrow> json \<Rightarrow> 'r \<Rightarrow> 'r option" where
  "on get upd d v r = map_option (\<lambda>x. upd (\<lambda>_. x) r) (d v (get r))"

fun dec_fields :: "'a fields \<Rightarrow> (string \<times> json) list \<Rightarrow> 'a \<Rightarrow> 'a option" where
  "dec_fields fs [] r = Some r"
| "dec_fields fs ((k, v) # kvs) r =
     (case find (\<lambda>(n, _). equal_fold n k) fs of
        None \<Rightarrow> dec_fields fs kvs r
      | Some (_, f) \<Rightarrow> (case f v r of None \<Rightarrow> None | Some r' \<Rightarrow> dec_fields fs kvs r'))"

definition dec_struct :: "'a fields \<Rightarrow> 'a dec" where
  "dec_struct fs v old = (case v of
     JNull \<Rightarrow> Some old | JObj kvs \<Rightarrow> dec_fields fs kvs old | _ \<Rightarrow> None)"

text \<open>\<open>json.Unmarshal(data, &x)\<close> with \<open>x\<close> holding \<open>zero\<close>: \<open>None\<close> is a non-nil error.\<close>

definition unmarshal :: "'a dec \<Rightarrow> 'a \<Rightarrow> string \<Rightarrow> 'a option" where
  "unmarshal d zero s = (case json_parse s of None \<Rightarrow> None | Some v \<Rightarrow> d v zero)"

lemma map_of_alist_put: "map_of (alist_put k v m) = (map_of m)(k \<mapsto> v)"
  by (induction m) auto

lemma keys_alist_put: "fst ` set (alist_put k v m) = insert k (fst ` set m)"
  by (induction k v m rule: alist_put.induct) (simp_all add: insert_commute)

lemma distinct_alist_put: "distinct (map fst m) \<Longrightarrow> distinct (map fst (alist_put k v m))"
  by (induction k v m rule: alist_put.induct) (simp_all add: keys_alist_put)

end
