(* ===== verification/GoTime.thy ===== *)
theory GoTime
  imports Json
begin

section \<open>Times and floating-point numbers (Go's package time, float64)\<close>

text \<open>
  A \<open>time.Time\<close> is its instant in nanoseconds since 1970-01-01 UTC, an \<^typ>\<open>int\<close>; the zero
  \<open>time.Time\<close> is the first instant of year 1.  \<open>time_parse\<close> is \<open>time.Parse\<close> for the three layouts
  the program uses (RFC 3339 with and without fraction, and the same without a zone), with Go's
  leniencies: a one-digit hour, a comma before the fraction, zone offsets up to 24:60.

  A finite \<open>float64\<close> is a pair \<open>(m, e)\<close> standing for \<open>m * 2^e\<close>; results are rounded to 53 bits,
  ties to even (subnormals keep the full 53 bits, which no time can distinguish).
\<close>

type_synonym time = int  \<comment> \<open>nanoseconds since the Unix epoch\<close>
type_synonym duration = int  \<comment> \<open>nanoseconds\<close>

definition nanosecond :: duration where "nanosecond = 1"
definition millisecond :: duration where "millisecond = 1000000"
definition second :: duration where "second = 1000000000"
definition minute :: duration where "minute = 60 * second"
definition hour :: duration where "hour = 60 * minute"
definition day :: duration where "day = 24 * hour"

named_theorems time_simps \<open>the units of time as numbers\<close>

lemma units [time_simps]:
  "second = 1000000000" "minute = 60000000000" "hour = 3600000000000" "day = 86400000000000"
  "millisecond = 1000000"
  by (simp_all add: second_def minute_def hour_def day_def millisecond_def)

subsection \<open>The calendar\<close>

definition is_leap :: "int \<Rightarrow> bool" where
  "is_leap y \<longleftrightarrow> y mod 4 = 0 \<and> (y mod 100 \<noteq> 0 \<or> y mod 400 = 0)"

definition days_in :: "int \<Rightarrow> int \<Rightarrow> int" where
  "days_in y m = (if m = 2 then (if is_leap y then 29 else 28)
     else if m = 4 \<or> m = 6 \<or> m = 9 \<or> m = 11 then 30 else 31)"

text \<open>Days from the first day of year 1 to the first day of year \<open>y\<close>, and within the year.\<close>

definition days_before_year :: "int \<Rightarrow> int" where
  "days_before_year y = (let p = y - 1 in 365 * p + p div 4 - p div 100 + p div 400)"

definition days_before_month :: "int \<Rightarrow> int \<Rightarrow> int" where
  "days_before_month y m =
     (367 * m - 362) div 12 + (if m \<le> 2 then 0 else if is_leap y then -1 else -2)"

definition epoch_days :: "int \<Rightarrow> int \<Rightarrow> int \<Rightarrow> int" where
  "epoch_days y m d = days_before_year y + days_before_month y m + (d - 1) - 719162"

definition zero_time :: time where "zero_time = - 719162 * day"

definition truncate_to :: "time \<Rightarrow> duration \<Rightarrow> time" where
  "truncate_to t d = (if d \<le> 0 then t else t - (t - zero_time) mod d)"

definition unix_milli :: "int \<Rightarrow> time" where "unix_milli ms = ms * millisecond"

lemma truncate_mod: "0 < d \<Longrightarrow> zero_time mod d = 0 \<Longrightarrow> truncate_to t d = t - t mod d"
  by (simp add: truncate_to_def mod_diff_right_eq[symmetric] flip: mod_diff_right_eq)

lemma truncate_hour: "truncate_to t hour = t - t mod hour"
  and truncate_minute: "truncate_to t minute = t - t mod minute"
  by (intro truncate_mod; simp add: zero_time_def time_simps)+

lemma hour_pos [simp]: "0 < hour" and minute_pos [simp]: "0 < minute"
  by (simp_all add: time_simps)

lemma truncate_hour_bounds: "truncate_to t hour \<le> t" "t < truncate_to t hour + hour"
  unfolding truncate_hour using pos_mod_bound[OF hour_pos, of t] pos_mod_sign[OF hour_pos, of t]
  by linarith+

lemma truncate_hour_idem [simp]: "truncate_to (truncate_to t hour) hour = truncate_to t hour"
  unfolding truncate_hour by (simp add: mod_diff_left_eq)

subsection \<open>Parsing\<close>

definition digit_at :: "string \<Rightarrow> nat \<Rightarrow> bool" where
  "digit_at s i \<longleftrightarrow> i < length s \<and> is_digit (s ! i)"

definition digit_val :: "char \<Rightarrow> int" where "digit_val c = of_char c - 48"

text \<open>\<open>getnum\<close>: two digits, or one when \<open>fixed\<close> is false.\<close>

definition getnum :: "bool \<Rightarrow> string \<Rightarrow> (int \<times> string) option" where
  "getnum fixed s =
     (if \<not> digit_at s 0 then None
      else if \<not> digit_at s 1 then (if fixed then None else Some (digit_val (s ! 0), drop 1 s))
      else Some (10 * digit_val (s ! 0) + digit_val (s ! 1), drop 2 s))"

definition year4 :: "string \<Rightarrow> (int \<times> string) option" where
  "year4 s =
     (if length s \<ge> 4 \<and> list_all is_digit (take 4 s)
      then Some (digits_val 0 (take 4 s), drop 4 s) else None)"

definition lit_char :: "char \<Rightarrow> string \<Rightarrow> string option" where
  "lit_char c s = (case s of [] \<Rightarrow> None | d # t \<Rightarrow> if d = c then Some t else None)"

text \<open>The optional fraction: its first nine digits count.\<close>

definition frac_part :: "string \<Rightarrow> int \<times> string" where
  "frac_part s =
     (if length s \<ge> 2 \<and> (s ! 0 = CHR ''.'' \<or> s ! 0 = CHR '','') \<and> digit_at s 1 then
        let ds = takeWhile is_digit (tl s); k = take 9 ds in
        (digits_val 0 k * 10 ^ (9 - length k), dropWhile is_digit (tl s))
      else (0, s))"

text \<open>\<open>Z07:00\<close>: the offset in seconds; nothing may follow it.\<close>

definition zone_part :: "string \<Rightarrow> int option" where
  "zone_part s =
     (if s = ''Z'' then Some 0
      else if length s = 6 \<and> s ! 3 = CHR '':'' \<and> (s ! 0 = CHR ''+'' \<or> s ! 0 = CHR ''-'') then
        (case (getnum True (take 2 (drop 1 s)), getnum True (drop 4 s)) of
           (Some (hr, _), Some (mm, _)) \<Rightarrow>
             if hr > 24 \<or> mm > 60 then None
             else Some (if s ! 0 = CHR ''-'' then - ((hr * 60 + mm) * 60) else (hr * 60 + mm) * 60)
         | _ \<Rightarrow> None)
      else None)"

definition obind :: "'a option \<Rightarrow> ('a \<Rightarrow> 'b option) \<Rightarrow> 'b option" where
  "obind x f = (case x of None \<Rightarrow> None | Some a \<Rightarrow> f a)"

lemma obind_simps [simp]: "obind None f = None" "obind (Some a) f = f a"
  by (simp_all add: obind_def)

definition layout_parse :: "char \<Rightarrow> (string \<Rightarrow> int option) \<Rightarrow> string \<Rightarrow> time option" where
  "layout_parse sep zone s =
     obind (year4 s) (\<lambda>(y, s). obind (lit_char CHR ''-'' s) (\<lambda>s.
     obind (getnum True s) (\<lambda>(mo, s). obind (lit_char CHR ''-'' s) (\<lambda>s.
     obind (getnum True s) (\<lambda>(d, s). obind (lit_char sep s) (\<lambda>s.
     obind (getnum False s) (\<lambda>(h, s). obind (lit_char CHR '':'' s) (\<lambda>s.
     obind (getnum True s) (\<lambda>(mi, s). obind (lit_char CHR '':'' s) (\<lambda>s.
     obind (getnum True s) (\<lambda>(sec, s).
       let ns = fst (frac_part s); s = snd (frac_part s) in
       obind (zone s) (\<lambda>off.
         if 1 \<le> mo \<and> mo \<le> 12 \<and> 1 \<le> d \<and> d \<le> days_in y mo \<and> h < 24 \<and> mi < 60 \<and> sec < 60
         then Some (epoch_days y mo d * day + h * hour + mi * minute + sec * second + ns - off * second)
         else None))))))))))))"

definition no_zone :: "string \<Rightarrow> int option" where
  "no_zone s = (if s = [] then Some 0 else None)"

definition time_parse :: "bool \<Rightarrow> string \<Rightarrow> time option" where
  "time_parse zoned s = layout_parse CHR ''T'' (if zoned then zone_part else no_zone) s"

definition parse_rfc3339 :: "string \<Rightarrow> time option" where
  "parse_rfc3339 s = time_parse True s"

subsection \<open>Floating-point numbers\<close>

type_synonym f64 = "int \<times> int"

fun bitlen_upto :: "nat \<Rightarrow> int \<Rightarrow> int" where
  "bitlen_upto 0 n = 0"
| "bitlen_upto (Suc k) n = (if n \<le> 0 then 0 else 1 + bitlen_upto k (n div 2))"

text \<open>The number of bits of \<open>n\<close>, for \<open>n\<close> below $2^{1200}$.\<close>

definition bitlen :: "int \<Rightarrow> int" where "bitlen n = bitlen_upto 1200 n"

definition round_div :: "int \<Rightarrow> int \<Rightarrow> int" where
  "round_div n d =
     (let q = n div d; r = n mod d in
      if 2 * r < d then q else if d < 2 * r then q + 1 else q + q mod 2)"

definition pow2 :: "int \<Rightarrow> int" where "pow2 e = 2 ^ nat e"

text \<open>The double nearest to \<open>n / d\<close>, for \<open>n \<ge> 0\<close> and \<open>d > 0\<close>.\<close>

definition f64_frac :: "int \<Rightarrow> int \<Rightarrow> f64" where
  "f64_frac n d =
     (if n = 0 then (0, 0)
      else
        let s0 = 53 - (bitlen n - bitlen d);
            scaled = (\<lambda>s. round_div (n * pow2 s) (d * pow2 (- s)));
            big = (n * pow2 s0) div (d * pow2 (- s0)) \<ge> 2 ^ 53;
            s = (if big then s0 - 1 else s0)
        in (scaled s, - s))"

definition f64_neg :: "f64 \<Rightarrow> f64" where "f64_neg f = (- fst f, snd f)"

text \<open>A product rounded to 53 bits.\<close>

definition f64_mul_int :: "f64 \<Rightarrow> int \<Rightarrow> f64" where
  "f64_mul_int f k =
     (let m = \<bar>fst f * k\<bar>; x = bitlen m - 53;
          r = (if x \<le> 0 then (m, snd f) else (round_div m (pow2 x), snd f + x))
      in if fst f * k < 0 then f64_neg r else r)"

text \<open>Conversion to \<open>int64\<close>: toward zero; out of range, amd64's most negative number.\<close>

definition f64_to_int :: "f64 \<Rightarrow> int" where
  "f64_to_int f =
     (let a = (\<bar>fst f\<bar> * pow2 (snd f)) div pow2 (- snd f); i = (if fst f < 0 then - a else a)
      in if in_int64 i then i else - (2 ^ 63))"

text \<open>A JSON number literal: sign, digits and decimal exponent as \<open>(negative, n, e)\<close>.\<close>

definition lit_parts :: "string \<Rightarrow> bool \<times> int \<times> int" where
  "lit_parts s =
     (let neg = has_prefix s ''-''; s = (if neg then drop 1 s else s);
          i = takeWhile is_digit s; s1 = dropWhile is_digit s;
          f = (if has_prefix s1 ''.'' then takeWhile is_digit (tl s1) else []);
          s2 = (if has_prefix s1 ''.'' then dropWhile is_digit (tl s1) else s1);
          x = (if s2 = [] then 0
               else let t = tl s2 in
                 if has_prefix t ''-'' then - digits_val 0 (tl t)
                 else if has_prefix t ''+'' then digits_val 0 (tl t) else digits_val 0 t)
      in (neg, digits_val 0 (i @ f), x - int (length f)))"

text \<open>\<open>strconv.ParseFloat\<close> of a literal; \<open>None\<close> beyond the range of doubles.\<close>

definition f64_of_lit :: "string \<Rightarrow> f64 option" where
  "f64_of_lit s =
     (case lit_parts s of (neg, n, e) \<Rightarrow>
        if n = 0 then Some (0, 0)
        else if e + int (length s) < - 400 then Some (0, 0)
        else if e > 400 then None
        else
          let r = (if e \<ge> 0 then f64_frac (n * 10 ^ nat e) 1 else f64_frac n (10 ^ nat (- e)))
          in if bitlen \<bar>fst r\<bar> + snd r > 1024 then None
             else Some (if neg then f64_neg r else r))"

definition dec_float :: "f64 dec" where
  "dec_float v old = (case v of JNull \<Rightarrow> Some old | JNum s \<Rightarrow> f64_of_lit s | _ \<Rightarrow> None)"

end
