(* ===== verification/Sha256.thy ===== *)
theory Sha256
  imports Prelude "HOL-Library.Word"
begin

section \<open>SHA-256, HMAC and hexadecimal (Go's crypto/sha256, crypto/hmac, encoding/hex)\<close>

text \<open>
  The program hashes with Go's standard library: \<open>sha256.Sum256\<close> (group fingerprints, user
  hashes, token hashes, sketch indices, artifact keys), \<open>hmac.New(sha256.New, _)\<close> (webhook
  signatures) and \<open>hex.EncodeToString\<close>.  They are defined here from FIPS 180-4 and RFC 2104 on
  \<^typ>\<open>32 word\<close>, so every function that hashes is executable.  What the proofs of the other
  theories use is collected in \<open>digest_simps\<close>: lengths and the alphabet of the hexadecimal form.
\<close>

unbundle bit_operations_syntax

named_theorems digest_simps \<open>lengths and alphabets of digests\<close>

type_synonym u32 = "32 word"

text \<open>
  The constants are computed: the first 32 bits of the fractional parts of the cube roots of the
  first 64 primes, and of the square roots of the first 8.  \<open>iroot k n b r\<close> improves the root \<open>r\<close>
  by its low \<open>b\<close> bits.
\<close>

definition first_primes :: "nat list" where
  "first_primes = [2, 3, 5, 7, 11, 13, 17, 19, 23, 29, 31, 37, 41, 43, 47, 53,
     59, 61, 67, 71, 73, 79, 83, 89, 97, 101, 103, 107, 109, 113, 127, 131,
     137, 139, 149, 151, 157, 163, 167, 173, 179, 181, 191, 193, 197, 199, 211, 223,
     227, 229, 233, 239, 241, 251, 257, 263, 269, 271, 277, 281, 283, 293, 307, 311]"

fun iroot :: "nat \<Rightarrow> nat \<Rightarrow> nat \<Rightarrow> nat \<Rightarrow> nat" where
  "iroot k n 0 r = r"
| "iroot k n (Suc b) r = iroot k n b (if (r + 2 ^ b) ^ k \<le> n then r + 2 ^ b else r)"

definition frac_root :: "nat \<Rightarrow> nat \<Rightarrow> u32" where
  "frac_root k p = of_nat (iroot k (p * 2 ^ (32 * k)) 36 0)"

definition sha_k :: "u32 list" where
  "sha_k = map (frac_root 3) first_primes"

definition sha_h0 :: "u32 list" where
  "sha_h0 = map (frac_root 2) (take 8 first_primes)"

definition rotr32 :: "nat \<Rightarrow> u32 \<Rightarrow> u32" where
  "rotr32 n x = drop_bit n x OR push_bit (32 - n) x"

definition big_sigma0 :: "u32 \<Rightarrow> u32" where
  "big_sigma0 x = rotr32 2 x XOR rotr32 13 x XOR rotr32 22 x"
definition big_sigma1 :: "u32 \<Rightarrow> u32" where
  "big_sigma1 x = rotr32 6 x XOR rotr32 11 x XOR rotr32 25 x"
definition small_sigma0 :: "u32 \<Rightarrow> u32" where
  "small_sigma0 x = rotr32 7 x XOR rotr32 18 x XOR drop_bit 3 x"
definition small_sigma1 :: "u32 \<Rightarrow> u32" where
  "small_sigma1 x = rotr32 17 x XOR rotr32 19 x XOR drop_bit 10 x"
definition sha_ch :: "u32 \<Rightarrow> u32 \<Rightarrow> u32 \<Rightarrow> u32" where
  "sha_ch x y z = (x AND y) XOR (NOT x AND z)"
definition sha_maj :: "u32 \<Rightarrow> u32 \<Rightarrow> u32 \<Rightarrow> u32" where
  "sha_maj x y z = (x AND y) XOR (x AND z) XOR (y AND z)"

text \<open>Bytes: characters as numbers, words in big-endian order.\<close>

definition byte_of :: "char \<Rightarrow> nat" where "byte_of c = of_char c"
definition char_of_byte :: "nat \<Rightarrow> char" where "char_of_byte n = char_of n"

fun be_nat :: "string \<Rightarrow> nat \<Rightarrow> nat" where
  "be_nat [] acc = acc"
| "be_nat (c # s) acc = be_nat s (256 * acc + byte_of c)"

fun be_bytes :: "nat \<Rightarrow> nat \<Rightarrow> string" where
  "be_bytes 0 n = []"
| "be_bytes (Suc k) n = be_bytes k (n div 256) @ [char_of_byte (n mod 256)]"

lemma length_be_bytes [simp, digest_simps]: "length (be_bytes k n) = k"
  by (induction k arbitrary: n) auto

definition sha_pad :: "string \<Rightarrow> string" where
  "sha_pad s = s @ [CHR 0x80] @ replicate ((119 - length s mod 64) mod 64) (CHR 0x00)
     @ be_bytes 8 (8 * length s)"

fun chunks :: "nat \<Rightarrow> nat \<Rightarrow> string \<Rightarrow> string list" where
  "chunks 0 k s = []"
| "chunks (Suc n) k s = take k s # chunks n k (drop k s)"

fun sha_schedule :: "nat \<Rightarrow> u32 list \<Rightarrow> u32 list" where
  "sha_schedule 0 w = w"
| "sha_schedule (Suc n) w =
     (let i = length w in
      sha_schedule n (w @ [small_sigma1 (w ! (i - 2)) + w ! (i - 7)
                           + small_sigma0 (w ! (i - 15)) + w ! (i - 16)]))"

fun sha_round :: "u32 \<times> u32 \<Rightarrow> u32 list \<Rightarrow> u32 list" where
  "sha_round (k, w) [a, b, c, d, e, f, g, h] =
     (let t1 = h + big_sigma1 e + sha_ch e f g + k + w;
          t2 = big_sigma0 a + sha_maj a b c
      in [t1 + t2, a, b, c, d + t1, e, f, g])"
| "sha_round _ st = st"

definition sha_block :: "string \<Rightarrow> u32 list \<Rightarrow> u32 list" where
  "sha_block blk st =
     (let w = sha_schedule 48 (map (\<lambda>q. of_nat (be_nat q 0)) (chunks 16 4 blk))
      in map2 (+) st (fold sha_round (zip sha_k w) st))"

definition sha256 :: "string \<Rightarrow> string" where
  "sha256 s =
     (let p = sha_pad s
      in concat (map (\<lambda>w. be_bytes 4 (unat w))
           (fold sha_block (chunks (length p div 64) 64 p) sha_h0)))"

lemma length_sha_round: "length st = 8 \<Longrightarrow> length (sha_round kw st) = 8"
  by (induction kw st rule: sha_round.induct) (auto simp: Let_def)

lemma length_sha_fold: "length st = 8 \<Longrightarrow> length (fold sha_round kws st) = 8"
  by (induction kws arbitrary: st) (auto simp: length_sha_round)

lemma length_sha_block: "length st = 8 \<Longrightarrow> length (sha_block b st) = 8"
  by (simp add: sha_block_def Let_def length_sha_fold)

lemma length_sha_blocks: "length st = 8 \<Longrightarrow> length (fold sha_block bs st) = 8"
  by (induction bs arbitrary: st) (auto simp: length_sha_block)

lemma length_concat_const:
  "(\<And>x. x \<in> set xs \<Longrightarrow> length (f x) = k) \<Longrightarrow> length (concat (map f xs)) = k * length xs"
  by (induction xs) auto

lemma length_sha256 [simp, digest_simps]: "length (sha256 s) = 32"
proof -
  let ?st = "fold sha_block (chunks (length (sha_pad s) div 64) 64 (sha_pad s)) sha_h0"
  have "length ?st = 8" by (rule length_sha_blocks) (simp add: sha_h0_def first_primes_def)
  then show ?thesis
    by (simp add: sha256_def Let_def length_concat_const [where k = 4])
qed

subsection \<open>Hexadecimal\<close>

definition hex_digits :: string where "hex_digits = ''0123456789abcdef''"

definition hex_byte :: "char \<Rightarrow> string" where
  "hex_byte c = [hex_digits ! (byte_of c div 16), hex_digits ! (byte_of c mod 16)]"

definition hex_encode :: "string \<Rightarrow> string" where
  "hex_encode s = concat (map hex_byte s)"

lemma length_hex_encode [simp, digest_simps]: "length (hex_encode s) = 2 * length s"
  by (simp add: hex_encode_def length_concat_const [where k = 2] hex_byte_def)

lemma byte_of_less: "byte_of c < 256"
  by (simp add: byte_of_def)

lemma set_hex_encode: "set (hex_encode s) \<subseteq> set hex_digits"
proof -
  have "set (hex_byte c) \<subseteq> set hex_digits" for c
  proof -
    have "byte_of c div 16 < length hex_digits" "byte_of c mod 16 < length hex_digits"
      using byte_of_less[of c] by (simp_all add: hex_digits_def)
    then show ?thesis by (auto simp: hex_byte_def dest: nth_mem)
  qed
  then show ?thesis by (auto simp: hex_encode_def)
qed

lemma hex_digits_lower: "c \<in> set hex_digits \<Longrightarrow> is_digit c \<or> 97 \<le> (of_char c :: nat) \<and> (of_char c :: nat) \<le> 102"
  by (auto simp: hex_digits_def is_digit_def)

lemma hex_digits_is_hex: "c \<in> set hex_digits \<Longrightarrow> is_hex_c c"
  using hex_digits_lower by (auto simp: is_hex_c_def)

lemma hex_encode_is_hex: "c \<in> set (hex_encode s) \<Longrightarrow> is_hex_c c"
  using set_hex_encode hex_digits_is_hex by blast

definition sha256_hex :: "string \<Rightarrow> string" where
  "sha256_hex s = hex_encode (sha256 s)"

lemma length_sha256_hex [simp, digest_simps]: "length (sha256_hex s) = 64"
  by (simp add: sha256_hex_def)

subsection \<open>HMAC\<close>

definition xor_pad :: "nat \<Rightarrow> string \<Rightarrow> string" where
  "xor_pad v k = map (\<lambda>c. char_of_byte (byte_of c XOR v)) (k @ replicate (64 - length k) (CHR 0x00))"

definition hmac_sha256 :: "string \<Rightarrow> string \<Rightarrow> string" where
  "hmac_sha256 key msg =
     (let k = (if length key > 64 then sha256 key else key)
      in sha256 (xor_pad 0x5c k @ sha256 (xor_pad 0x36 k @ msg)))"

lemma length_hmac [simp, digest_simps]: "length (hmac_sha256 k m) = 32"
  by (simp add: hmac_sha256_def Let_def)

end
