(* ===== verification/Payload.thy ===== *)
theory Payload
  imports Envelope GoTime Sha256
begin

section \<open>Payloads of envelope items (internal/ingest/pipeline.go)\<close>

text \<open>
  The structs the ingest pipeline decodes payloads into, with their JSON decoders, and the pure
  helpers of \<open>pipeline.go\<close>: \<open>parse_timestamp\<close>, \<open>event_id_from\<close>, \<open>user_hash\<close> and \<open>parse_tags\<close>.  An
  absent \<open>json.RawMessage\<close> is \<open>None\<close>.  The function \<open>uuid_parse\<close> (google/uuid) is a parameter.
\<close>

record payload_user =
  u_ident :: string
  u_email :: string
  u_username :: string
  u_ip :: string

record payload_trace =
  tr_trace_id :: string
  tr_span_id :: string
  tr_parent_span_id :: string
  tr_op :: string
  tr_status :: string

record event_payload =
  pl_event_id :: string
  pl_timestamp :: "json option"
  pl_platform :: string
  pl_level :: string
  pl_environment :: string
  pl_release :: string
  pl_dist :: string
  pl_message :: string
  pl_tags :: "json option"
  pl_user :: payload_user
  pl_trace :: payload_trace
  pl_transaction :: string
  pl_fingerprint :: "string list"
  pl_extra :: "json option"
  pl_sdk :: "json option"

record tx_payload = event_payload +
  pl_start_timestamp :: "json option"
  pl_source :: string
  pl_status :: string
  pl_measurements :: "json option"

definition user0 :: payload_user where
  "user0 = \<lparr>u_ident = [], u_email = [], u_username = [], u_ip = []\<rparr>"

definition trace0 :: payload_trace where
  "trace0 = \<lparr>tr_trace_id = [], tr_span_id = [], tr_parent_span_id = [], tr_op = [], tr_status = []\<rparr>"

definition event_payload0 :: event_payload where
  "event_payload0 = \<lparr>pl_event_id = [], pl_timestamp = None, pl_platform = [], pl_level = [],
     pl_environment = [], pl_release = [], pl_dist = [], pl_message = [], pl_tags = None,
     pl_user = user0, pl_trace = trace0, pl_transaction = [], pl_fingerprint = [], pl_extra = None,
     pl_sdk = None\<rparr>"

definition tx_payload0 :: tx_payload where
  "tx_payload0 = event_payload.extend event_payload0
     \<lparr>pl_start_timestamp = None, pl_source = [], pl_status = [], pl_measurements = None\<rparr>"

definition dec_user :: "payload_user dec" where
  "dec_user = dec_struct
     [(''id'', on u_ident u_ident_update dec_string),
      (''email'', on u_email u_email_update dec_string),
      (''username'', on u_username u_username_update dec_string),
      (''ip_address'', on u_ip u_ip_update dec_string)]"

definition dec_trace :: "payload_trace dec" where
  "dec_trace = dec_struct
     [(''trace_id'', on tr_trace_id tr_trace_id_update dec_string),
      (''span_id'', on tr_span_id tr_span_id_update dec_string),
      (''parent_span_id'', on tr_parent_span_id tr_parent_span_id_update dec_string),
      (''op'', on tr_op tr_op_update dec_string),
      (''status'', on tr_status tr_status_update dec_string)]"

text \<open>The fields of \<open>eventPayload\<close>, after the fields \<open>own\<close> of a struct that embeds it.\<close>

definition event_fields :: "('a event_payload_scheme) fields \<Rightarrow> ('a event_payload_scheme) fields" where
  "event_fields own = own @
     [(''event_id'', on pl_event_id pl_event_id_update dec_string),
      (''timestamp'', on pl_timestamp pl_timestamp_update dec_raw),
      (''platform'', on pl_platform pl_platform_update dec_string),
      (''level'', on pl_level pl_level_update dec_string),
      (''environment'', on pl_environment pl_environment_update dec_string),
      (''release'', on pl_release pl_release_update dec_string),
      (''dist'', on pl_dist pl_dist_update dec_string),
      (''message'', on pl_message pl_message_update dec_string),
      (''tags'', on pl_tags pl_tags_update dec_raw),
      (''user'', on pl_user pl_user_update dec_user),
      (''contexts'', dec_struct [(''trace'', on pl_trace pl_trace_update dec_trace)]),
      (''transaction'', on pl_transaction pl_transaction_update dec_string),
      (''fingerprint'', on pl_fingerprint pl_fingerprint_update (dec_list [] dec_string)),
      (''extra'', on pl_extra pl_extra_update dec_raw),
      (''sdk'', on pl_sdk pl_sdk_update dec_raw)]"

definition dec_event_payload :: "event_payload dec" where
  "dec_event_payload = dec_struct (event_fields [])"

text \<open>
  In the transaction struct the outer \<open>Transaction\<close> shadows the embedded one; as no code reads the
  embedded one, both are the one field \<open>pl_transaction\<close>.
\<close>

definition dec_tx_payload :: "tx_payload dec" where
  "dec_tx_payload = dec_struct (event_fields
     [(''start_timestamp'', on pl_start_timestamp pl_start_timestamp_update dec_raw),
       (''transaction_info'', dec_struct [(''source'', on pl_source pl_source_update dec_string)]),
       (''status'', on pl_status pl_status_update dec_string),
       (''measurements'', on pl_measurements pl_measurements_update dec_raw)])"

record session_payload =
  ss_sid :: string
  ss_init :: bool
  ss_started :: string
  ss_timestamp :: string
  ss_status :: string
  ss_errors :: int
  ss_duration :: "f64 option"
  ss_did :: string
  ss_release :: string
  ss_environment :: string

definition session_payload0 :: session_payload where
  "session_payload0 = \<lparr>ss_sid = [], ss_init = False, ss_started = [], ss_timestamp = [],
     ss_status = [], ss_errors = 0, ss_duration = None, ss_did = [], ss_release = [],
     ss_environment = []\<rparr>"

definition dec_session_payload :: "session_payload dec" where
  "dec_session_payload = dec_struct
     [(''sid'', on ss_sid ss_sid_update dec_string),
      (''init'', on ss_init ss_init_update dec_bool),
      (''started'', on ss_started ss_started_update dec_string),
      (''timestamp'', on ss_timestamp ss_timestamp_update dec_string),
      (''status'', on ss_status ss_status_update dec_string),
      (''errors'', on ss_errors ss_errors_update dec_int),
      (''duration'', on ss_duration ss_duration_update (dec_ptr (0, 0) dec_float)),
      (''did'', on ss_did ss_did_update dec_string),
      (''attrs'', dec_struct
        [(''release'', on ss_release ss_release_update dec_string),
         (''environment'', on ss_environment ss_environment_update dec_string)])]"

record aggregate =
  ag_started :: string
  ag_exited :: int
  ag_abnormal :: int
  ag_crashed :: int
  ag_errored :: int

record sessions_payload =
  sa_release :: string
  sa_environment :: string
  sa_aggregates :: "aggregate list"

definition aggregate0 :: aggregate where
  "aggregate0 = \<lparr>ag_started = [], ag_exited = 0, ag_abnormal = 0, ag_crashed = 0, ag_errored = 0\<rparr>"

definition sessions_payload0 :: sessions_payload where
  "sessions_payload0 = \<lparr>sa_release = [], sa_environment = [], sa_aggregates = []\<rparr>"

definition dec_aggregate :: "aggregate dec" where
  "dec_aggregate = dec_struct
     [(''started'', on ag_started ag_started_update dec_string),
      (''exited'', on ag_exited ag_exited_update dec_int),
      (''abnormal'', on ag_abnormal ag_abnormal_update dec_int),
      (''crashed'', on ag_crashed ag_crashed_update dec_int),
      (''errored'', on ag_errored ag_errored_update dec_int)]"

definition dec_sessions_payload :: "sessions_payload dec" where
  "dec_sessions_payload = dec_struct
     [(''attrs'', dec_struct
        [(''release'', on sa_release sa_release_update dec_string),
         (''environment'', on sa_environment sa_environment_update dec_string)]),
      (''aggregates'', on sa_aggregates sa_aggregates_update (dec_list aggregate0 dec_aggregate))]"

record feedback_payload =
  fp_event_id :: string
  fp_timestamp :: "json option"
  fp_message :: string
  fp_contact_email :: string
  fp_name :: string
  fp_url :: string
  fp_associated :: string

definition feedback_payload0 :: feedback_payload where
  "feedback_payload0 = \<lparr>fp_event_id = [], fp_timestamp = None, fp_message = [],
     fp_contact_email = [], fp_name = [], fp_url = [], fp_associated = []\<rparr>"

definition dec_feedback_payload :: "feedback_payload dec" where
  "dec_feedback_payload = dec_struct
     [(''event_id'', on fp_event_id fp_event_id_update dec_string),
      (''timestamp'', on fp_timestamp fp_timestamp_update dec_raw),
      (''contexts'', dec_struct [(''feedback'', dec_struct
        [(''message'', on fp_message fp_message_update dec_string),
         (''contact_email'', on fp_contact_email fp_contact_email_update dec_string),
         (''name'', on fp_name fp_name_update dec_string),
         (''url'', on fp_url fp_url_update dec_string),
         (''associated_event_id'', on fp_associated fp_associated_update dec_string)])])]"

record report_payload =
  rp_event_id :: string
  rp_email :: string
  rp_name :: string
  rp_comments :: string

definition report_payload0 :: report_payload where
  "report_payload0 = \<lparr>rp_event_id = [], rp_email = [], rp_name = [], rp_comments = []\<rparr>"

definition dec_report_payload :: "report_payload dec" where
  "dec_report_payload = dec_struct
     [(''event_id'', on rp_event_id rp_event_id_update dec_string),
      (''email'', on rp_email rp_email_update dec_string),
      (''name'', on rp_name rp_name_update dec_string),
      (''comments'', on rp_comments rp_comments_update dec_string)]"

subsection \<open>Helpers\<close>

datatype store_error =
    E_payload | E_missing_event_id | E_bad_event_id | E_timestamp | E_normalize
  | E_sql | E_issue | E_start_timestamp | E_order | E_started | E_release | E_sid
  | E_sketch | E_aggregates | E_message | E_not_feedback | E_commit

definition parse_timestamp :: "json option \<Rightarrow> store_error + time" where
  "parse_timestamp raw =
     (case raw of
        None \<Rightarrow> Inl E_timestamp
      | Some v \<Rightarrow>
          (case dec_string v [] of
             Some s \<Rightarrow>
               (case time_parse True s of
                  Some t \<Rightarrow> Inr t
                | None \<Rightarrow> of_opt E_timestamp (time_parse False s))
           | None \<Rightarrow>
               (case dec_float v (0, 0) of
                  Some f \<Rightarrow> Inr (unix_milli (f64_to_int (f64_mul_int f 1000)))
                | None \<Rightarrow> Inl E_timestamp)))"

definition event_id_from :: "(string \<Rightarrow> string option) \<Rightarrow> envelope \<Rightarrow> string \<Rightarrow> store_error + string" where
  "event_id_from uuid_parse env payload_id =
     (let id_str = h_event_id (e_header env);
          id_str = (if id_str = [] then payload_id else id_str)
      in if id_str = [] then Inl E_missing_event_id
         else of_opt E_bad_event_id (uuid_parse (to_lower id_str)))"

definition user_hash :: "payload_user \<Rightarrow> string" where
  "user_hash u =
     (if u_ident u = [] \<and> u_email u = [] \<and> u_username u = [] \<and> u_ip u = [] then []
      else
        let ident = u_ident u;
            ident = (if ident = [] then u_email u else ident);
            ident = (if ident = [] then u_username u else ident);
            ident = (if ident = [] then u_ip u else ident)
        in hex_encode (take 16 (sha256 ident)))"

definition dec_tag_pair :: "(string \<times> string) dec" where
  "dec_tag_pair = dec_struct
     [(''key'', on fst (\<lambda>f p. (f (fst p), snd p)) dec_string),
      (''value'', on snd (\<lambda>f p. (fst p, f (snd p))) dec_string)]"

definition parse_tags :: "json option \<Rightarrow> (string \<times> string) list" where
  "parse_tags raw =
     (case raw of
        None \<Rightarrow> []
      | Some v \<Rightarrow>
          (case dec_map [] dec_string v [] of
             Some m \<Rightarrow> m
           | None \<Rightarrow>
               (case dec_list ([], []) dec_tag_pair v [] of
                  Some kvs \<Rightarrow> foldl (\<lambda>m (k, v). alist_put k v m) [] kvs
                | None \<Rightarrow> [])))"

end
