(* ===== verification/Regex.thy ===== *)
theory Regex
  imports Prelude
begin

section \<open>Regular expressions (Go's package regexp)\<close>

text \<open>
  The patterns of the program are sequences of repeated character classes with an optional group.
  A run returns every way to match a prefix, in the preference order of Go's leftmost-first
  semantics (repetition is greedy, an optional group is tried before skipping it), as the text
  matched by each item and the rest of the input; the first of them is the match.  An anchored
  pattern \<open>^...$\<close> is the first result with an empty rest.

  The patterns work on bytes: every class of the program is a set of ASCII characters, or ``any
  character but a newline'' followed by an ASCII character, for which bytes and runes agree.
\<close>

type_synonym cls = "(char \<Rightarrow> bool) \<times> nat \<times> nat option"  \<comment> \<open>class, least and greatest repetition\<close>

datatype rx = One cls | Opt "cls list"

definition lit :: "char \<Rightarrow> cls" where "lit c = ((\<lambda>x. x = c), 1, Some 1)"
definition plus :: "(char \<Rightarrow> bool) \<Rightarrow> cls" where "plus P = (P, 1, None)"
definition exactly :: "(char \<Rightarrow> bool) \<Rightarrow> nat \<Rightarrow> cls" where "exactly P n = (P, n, Some n)"
definition at_least :: "(char \<Rightarrow> bool) \<Rightarrow> nat \<Rightarrow> cls" where "at_least P n = (P, n, None)"

definition any_c :: "char \<Rightarrow> bool" where "any_c c \<longleftrightarrow> c \<noteq> nl"

text \<open>The admissible repetition counts at the start of \<open>s\<close>, the greatest first.\<close>

definition cls_counts :: "cls \<Rightarrow> string \<Rightarrow> nat list" where
  "cls_counts c s = (case c of (P, lo, hi) \<Rightarrow>
     let n = length (takeWhile P s);
         m = (case hi of None \<Rightarrow> n | Some h \<Rightarrow> min h n)
     in rev [lo..<Suc m])"

fun run_cls :: "cls list \<Rightarrow> string \<Rightarrow> (string list \<times> string) list" where
  "run_cls [] s = [([], s)]"
| "run_cls (c # cs) s =
     concat (map (\<lambda>k. map (\<lambda>(ms, r). (take k s # ms, r)) (run_cls cs (drop k s))) (cls_counts c s))"

fun rx_item :: "rx \<Rightarrow> string \<Rightarrow> (string \<times> string) list" where
  "rx_item (One c) s = map (\<lambda>k. (take k s, drop k s)) (cls_counts c s)"
| "rx_item (Opt cs) s = map (\<lambda>(ms, r). (concat ms, r)) (run_cls cs s) @ [([], s)]"

fun rx_run :: "rx list \<Rightarrow> string \<Rightarrow> (string list \<times> string) list" where
  "rx_run [] s = [([], s)]"
| "rx_run (x # xs) s =
     concat (map (\<lambda>(m, s'). map (\<lambda>(ms, r). (m # ms, r)) (rx_run xs s')) (rx_item x s))"

definition rx_full :: "rx list \<Rightarrow> string \<Rightarrow> string list option" where
  "rx_full xs s = map_option fst (find (\<lambda>(_, r). r = []) (rx_run xs s))"

text \<open>\<open>MatchString\<close> of an unanchored pattern.\<close>

fun rx_search :: "rx list \<Rightarrow> string \<Rightarrow> bool" where
  "rx_search xs [] = (rx_run xs [] \<noteq> [])"
| "rx_search xs (c # s) = (rx_run xs (c # s) \<noteq> [] \<or> rx_search xs s)"

text \<open>\<open>ReplaceAllString\<close> of a pattern that matches no empty string by a text without \<open>$\<close>.\<close>

function replace_all :: "rx list \<Rightarrow> string \<Rightarrow> string \<Rightarrow> string" where
  "replace_all xs repl [] = []"
| "replace_all xs repl (c # s) =
     (case rx_run xs (c # s) of
        [] \<Rightarrow> c # replace_all xs repl s
      | (_, r) # _ \<Rightarrow> if length r \<le> length s then repl @ replace_all xs repl r
                      else c # replace_all xs repl s)"
  by pat_completeness auto
termination by (relation "measure (\<lambda>(_, _, s). length s)") auto

subsection \<open>What a run finds\<close>

definition cls_ok :: "cls \<Rightarrow> string \<Rightarrow> bool" where
  "cls_ok c m = (case c of (P, lo, hi) \<Rightarrow>
     list_all P m \<and> lo \<le> length m \<and> (case hi of None \<Rightarrow> True | Some h \<Rightarrow> length m \<le> h))"

fun rx_ok :: "rx \<Rightarrow> string \<Rightarrow> bool" where
  "rx_ok (One c) m = cls_ok c m"
| "rx_ok (Opt cs) m = (m = [] \<or> (\<exists>ms. list_all2 cls_ok cs ms \<and> concat ms = m))"

lemma takeWhile_take: "k \<le> length (takeWhile P s) \<longleftrightarrow> k \<le> length s \<and> list_all P (take k s)"
proof (induction s arbitrary: k)
  case (Cons c s)
  then show ?case by (cases k) auto
qed simp

lemma cls_counts_ok:
  "k \<in> set (cls_counts c s) \<longleftrightarrow> k \<le> length s \<and> cls_ok c (take k s)"
proof -
  obtain P lo hi where c: "c = (P, lo, hi)" by (cases c)
  have len: "k \<le> length s \<Longrightarrow> length (take k s) = k" by simp
  show ?thesis
    using takeWhile_take[of k P s]
    by (cases hi) (auto simp: cls_counts_def cls_ok_def c Let_def less_Suc_eq_le)
qed

lemma run_cls_ok:
  "(ms, r) \<in> set (run_cls cs s) \<longleftrightarrow> concat ms @ r = s \<and> list_all2 cls_ok cs ms"
proof (induction cs arbitrary: s ms)
  case Nil
  then show ?case by auto
next
  case (Cons c cs)
  show ?case
  proof
    assume "(ms, r) \<in> set (run_cls (c # cs) s)"
    then obtain k ms' where k: "k \<in> set (cls_counts c s)" "ms = take k s # ms'"
        "(ms', r) \<in> set (run_cls cs (drop k s))" by auto
    with Cons.IH[of ms' "drop k s"] show "concat ms @ r = s \<and> list_all2 cls_ok (c # cs) ms"
      by (auto simp: cls_counts_ok)
  next
    assume a: "concat ms @ r = s \<and> list_all2 cls_ok (c # cs) ms"
    then obtain m ms' where m: "ms = m # ms'" "cls_ok c m" "list_all2 cls_ok cs ms'"
      by (auto simp: list_all2_Cons1)
    then have s: "s = m @ concat ms' @ r" using a by auto
    then have "length m \<in> set (cls_counts c s)" using m by (simp add: cls_counts_ok)
    moreover have "(ms', r) \<in> set (run_cls cs (drop (length m) s))"
      using Cons.IH[of ms' "drop (length m) s"] s m by auto
    moreover have "take (length m) s = m" by (simp add: s)
    ultimately show "(ms, r) \<in> set (run_cls (c # cs) s)"
      using m(1) by (auto intro!: bexI[of _ "length m"])
  qed
qed

lemma rx_item_ok: "(m, r) \<in> set (rx_item x s) \<longleftrightarrow> m @ r = s \<and> rx_ok x m"
proof (cases x)
  case (One c)
  then show ?thesis
    by (auto simp: cls_counts_ok intro!: image_eqI[of _ _ "length m"])
next
  case (Opt cs)
  then show ?thesis using run_cls_ok[of _ r cs s] by force
qed

lemma rx_run_ok:
  "(ms, r) \<in> set (rx_run xs s) \<longleftrightarrow> concat ms @ r = s \<and> list_all2 rx_ok xs ms"
proof (induction xs arbitrary: s ms)
  case Nil
  then show ?case by auto
next
  case (Cons x xs)
  have "(ms, r) \<in> set (rx_run (x # xs) s) \<longleftrightarrow>
     (\<exists>p\<in>set (rx_item x s). \<exists>q\<in>set (rx_run xs (snd p)). ms = fst p # fst q \<and> r = snd q)"
    by (simp add: image_iff split_beta)
  also have "\<dots> \<longleftrightarrow>
     (\<exists>m s' ms'. ms = m # ms' \<and> (m, s') \<in> set (rx_item x s) \<and> (ms', r) \<in> set (rx_run xs s'))"
  proof
    assume "\<exists>p\<in>set (rx_item x s). \<exists>q\<in>set (rx_run xs (snd p)). ms = fst p # fst q \<and> r = snd q"
    then obtain p q where "p \<in> set (rx_item x s)" "q \<in> set (rx_run xs (snd p))"
      "ms = fst p # fst q" "r = snd q" by blast
    then show "\<exists>m s' ms'. ms = m # ms' \<and> (m, s') \<in> set (rx_item x s) \<and> (ms', r) \<in> set (rx_run xs s')"
      by (intro exI[of _ "fst p"] exI[of _ "snd p"] exI[of _ "fst q"]) simp
  next
    assume "\<exists>m s' ms'. ms = m # ms' \<and> (m, s') \<in> set (rx_item x s) \<and> (ms', r) \<in> set (rx_run xs s')"
    then obtain m s' ms' where a: "ms = m # ms'" "(m, s') \<in> set (rx_item x s)"
      "(ms', r) \<in> set (rx_run xs s')" by blast
    show "\<exists>p\<in>set (rx_item x s). \<exists>q\<in>set (rx_run xs (snd p)). ms = fst p # fst q \<and> r = snd q"
    proof (rule bexI)
      show "\<exists>q\<in>set (rx_run xs (snd (m, s'))). ms = fst (m, s') # fst q \<and> r = snd q"
        using a(1,3) by (intro bexI[of _ "(ms', r)"]) simp_all
    qed (rule a(2))
  qed
  also have "\<dots> \<longleftrightarrow> (\<exists>m s' ms'. ms = m # ms' \<and> m @ s' = s \<and> rx_ok x m \<and>
      concat ms' @ r = s' \<and> list_all2 rx_ok xs ms')"
    by (simp add: rx_item_ok Cons.IH)
  also have "\<dots> \<longleftrightarrow> concat ms @ r = s \<and> list_all2 rx_ok (x # xs) ms"
    by (auto simp: list_all2_Cons1)
  finally show ?case .
qed

lemma rx_full_Some: "rx_full xs s = Some ms \<Longrightarrow> concat ms = s \<and> list_all2 rx_ok xs ms"
proof -
  assume "rx_full xs s = Some ms"
  then obtain r where "find (\<lambda>(_, r). r = []) (rx_run xs s) = Some (ms, r)"
    by (auto simp: rx_full_def)
  then have "(ms, r) \<in> set (rx_run xs s)" "r = []"
    by (auto simp: find_Some_iff in_set_conv_nth)
  then show ?thesis by (simp add: rx_run_ok)
qed

lemma rx_full_unique:
  assumes "concat ms = s" "list_all2 rx_ok xs ms"
    "\<And>ms'. concat ms' = s \<Longrightarrow> list_all2 rx_ok xs ms' \<Longrightarrow> ms' = ms"
  shows "rx_full xs s = Some ms"
proof (cases "rx_full xs s")
  case None
  have "(ms, []) \<in> set (rx_run xs s)" using assms(1,2) by (simp add: rx_run_ok)
  with None show ?thesis by (auto simp: rx_full_def find_None_iff)
next
  case (Some ms')
  then show ?thesis using rx_full_Some assms(3) by metis
qed

subsection \<open>Replacing runs\<close>

text \<open>No \<open>n\<close> consecutive characters of \<open>s\<close> satisfy \<open>P\<close>.\<close>

fun no_run :: "(char \<Rightarrow> bool) \<Rightarrow> nat \<Rightarrow> string \<Rightarrow> bool" where
  "no_run P n [] = True"
| "no_run P n (c # s) = (length (takeWhile P (c # s)) < n \<and> no_run P n s)"

lemma no_run_hd: "0 < n \<Longrightarrow> no_run P n s \<Longrightarrow> length (takeWhile P s) < n"
  by (cases s) auto

lemma no_run_append:
  "a \<noteq> [] \<Longrightarrow> \<not> P (last a) \<Longrightarrow> no_run P n (a @ b) \<longleftrightarrow> no_run P n a \<and> no_run P n b"
proof (induction a)
  case (Cons c a)
  show ?case
  proof (cases "a = []")
    case True
    then show ?thesis using Cons.prems by (cases "0 < n") (auto intro: no_run.simps)
  next
    case False
    have "takeWhile P ((c # a) @ b) = takeWhile P (c # a)"
      using Cons.prems by (intro takeWhile_append1[of "last (c # a)"]) auto
    then show ?thesis using Cons False by (auto simp del: takeWhile.simps)
  qed
qed simp

lemma no_run_one: "no_run P 1 s \<longleftrightarrow> (\<forall>c\<in>set s. \<not> P c)"
  by (induction s) (auto split: if_splits)

lemma no_run_prefix: "no_run P n (a @ b) \<Longrightarrow> no_run P n a"
proof (induction a)
  case (Cons c a)
  have "length (takeWhile P (c # a)) \<le> length (takeWhile P ((c # a) @ b))"
  proof (cases "list_all P (c # a)")
    case True
    then have "takeWhile P ((c # a) @ b) = (c # a) @ takeWhile P b"
      by (intro takeWhile_append2) (auto simp: list_all_iff)
    then show ?thesis using length_takeWhile_le[of P "c # a"] by (simp del: takeWhile.simps)
  next
    case False
    then obtain x where "x \<in> set (c # a)" "\<not> P x" by (auto simp: list_all_iff)
    then have "takeWhile P ((c # a) @ b) = takeWhile P (c # a)" by (rule takeWhile_append1)
    then show ?thesis by simp
  qed
  then show ?case using Cons by (auto simp del: takeWhile.simps)
qed simp

lemma run_at_least:
  "rx_run [One (at_least P n)] s \<noteq> [] \<longleftrightarrow> n \<le> length (takeWhile P s)"
  by (auto simp: at_least_def cls_counts_def Let_def)

lemma rx_run_at_least_hd:
  "n \<le> length (takeWhile P s) \<Longrightarrow>
   rx_run [One (at_least P n)] s = ([takeWhile P s], dropWhile P s) # tl (rx_run [One (at_least P n)] s)"
  by (auto simp: at_least_def cls_counts_def Let_def takeWhile_eq_take[symmetric] dropWhile_eq_drop[symmetric])

text \<open>
  Replacing every run of at least \<open>n\<close> characters of \<open>P\<close> keeps a text free of long \<open>Q\<close> runs when
  \<open>P\<close> is contained in \<open>Q\<close>, and makes it free of them when \<open>P = Q\<close>.
\<close>

lemma replace_runs:
  assumes n: "0 < n" and m: "0 < m"
    and pq: "\<And>c. P c \<Longrightarrow> Q c"
    and repl: "repl \<noteq> []" "\<not> Q (hd repl)" "\<not> Q (last repl)" "no_run Q m repl"
    and src: "no_run Q m s \<or> (P = Q \<and> n = m)"
  shows "no_run Q m (replace_all [One (at_least P n)] repl s) \<and>
    length (takeWhile Q (replace_all [One (at_least P n)] repl s)) \<le> length (takeWhile Q s)"
  using src
proof (induction "length s" arbitrary: s rule: less_induct)
  case less
  let ?xs = "[One (at_least P n)]"
  show ?case
  proof (cases s)
    case Nil
    then show ?thesis by simp
  next
    case (Cons c t)
    have src_t: "no_run Q m u \<or> (P = Q \<and> n = m)" if "suffix u s" for u
      using less.prems that
    proof (elim disjE)
      assume "no_run Q m s"
      moreover obtain w where "s = w @ u" using \<open>suffix u s\<close> unfolding suffix_def by blast
      moreover have "no_run Q m (w @ u) \<Longrightarrow> no_run Q m u" by (induction w) auto
      ultimately show ?thesis by simp
    qed simp
    show ?thesis
    proof (cases "n \<le> length (takeWhile P s)")
      case True
      have shorter: "length (dropWhile P s) < length s"
      proof -
        have "length s = length (takeWhile P s) + length (dropWhile P s)"
          by (metis length_append takeWhile_dropWhile_id)
        then show ?thesis using True n by linarith
      qed
      have r: "replace_all ?xs repl s = repl @ replace_all ?xs repl (dropWhile P s)"
      proof -
        have "length (dropWhile P s) < length s"
          by (rule shorter)
        then have "length (dropWhile P s) \<le> length t" using Cons by simp
        then show ?thesis
          using rx_run_at_least_hd[OF True] unfolding Cons
          by (subst replace_all.simps(2), cases "rx_run ?xs (c # t)") (simp, simp del: dropWhile.simps takeWhile.simps rx_run.simps)
      qed
      from shorter have "no_run Q m (replace_all ?xs repl (dropWhile P s))"
        using less.hyps src_t[OF suffix_dropWhile] by blast
      moreover have "takeWhile Q (replace_all ?xs repl s) = []"
        unfolding r using repl by (cases repl) simp_all
      ultimately show ?thesis unfolding r using repl by (simp add: no_run_append)
    next
      case False
      then have e: "rx_run ?xs (c # t) = []" using run_at_least[of P n s] Cons by metis
      have r: "replace_all ?xs repl s = c # replace_all ?xs repl t"
        unfolding Cons by (subst replace_all.simps(2)) (simp only: e list.case)
      have ih: "no_run Q m (replace_all ?xs repl t)"
        "length (takeWhile Q (replace_all ?xs repl t)) \<le> length (takeWhile Q t)"
        using less.hyps[of t] src_t[of t] Cons by (auto simp: suffix_Cons)
      have tw: "length (takeWhile Q (c # replace_all ?xs repl t)) \<le> length (takeWhile Q (c # t))"
        using ih(2) by simp
      moreover have "length (takeWhile Q (c # t)) < m"
        using less.prems
      proof
        assume "no_run Q m s"
        then show ?thesis unfolding Cons by (simp del: takeWhile.simps)
      next
        assume "P = Q \<and> n = m"
        then show ?thesis using False Cons by simp
      qed
      ultimately show ?thesis unfolding r unfolding Cons using ih(1) by (simp del: takeWhile.simps)
    qed
  qed
qed

text \<open>A pattern that needs a long run finds nothing in a text without one.\<close>

lemma replace_all_none:
  "(\<And>u. suffix u s \<Longrightarrow> u \<noteq> [] \<Longrightarrow> rx_run xs u = []) \<Longrightarrow> replace_all xs repl s = s"
proof (induction s)
  case (Cons c s)
  have "rx_run xs (c # s) = []" using Cons.prems[of "c # s"] by simp
  moreover have "replace_all xs repl s = s"
    using Cons.prems by (intro Cons.IH) (auto simp: suffix_Cons)
  ultimately show ?case by simp
qed simp

lemma no_run_suffix: "no_run P n s \<Longrightarrow> suffix u s \<Longrightarrow> no_run P n u"
proof -
  assume "no_run P n s" "suffix u s"
  then obtain w where "s = w @ u" by (auto simp: suffix_def)
  moreover have "no_run P n (w @ u) \<Longrightarrow> no_run P n u" by (induction w) auto
  ultimately show ?thesis using \<open>no_run P n s\<close> by simp
qed

end
