(* ===== verification/Grouping.thy ===== *)
theory Grouping
  imports Regex Json Sha256
begin

section \<open>Grouping of error events (internal/ingest/grouping.go)\<close>

text \<open>
  \<open>normalize_event\<close> translates \<open>normalizeEvent\<close>: title, culprit and fingerprint of a raw payload,
  with the three parameterizing patterns, the bundle-path patterns and the \<open>{{ default }}\<close> token as
  regular expressions of theory \<open>Regex\<close>.  A pointer field \<open>*bool\<close> is a \<^typ>\<open>bool option\<close>.

  The lemmas show what grouping is for: titles carry no digits and no long hexadecimal runs,
  parameterizing twice changes nothing, bundle hashes of either style do not influence the culprit,
  and keys chosen by an SDK never collide with computed ones.
\<close>

definition grouping_version :: int where "grouping_version = 1"

record normalized_event =
  n_title :: string
  n_culprit :: string
  n_fingerprint :: string

record frame =
  f_filename :: string
  f_abs_path :: string
  f_function :: string
  f_module :: string
  f_in_app :: "bool option"

record exception =
  x_type :: string
  x_value :: string
  x_frames :: "frame list"

record group_payload =
  g_message :: string
  g_values :: "exception list"
  g_fingerprint :: "string list"

definition frame0 :: frame where
  "frame0 = \<lparr>f_filename = [], f_abs_path = [], f_function = [], f_module = [], f_in_app = None\<rparr>"

definition exception0 :: exception where
  "exception0 = \<lparr>x_type = [], x_value = [], x_frames = []\<rparr>"

definition group_payload0 :: group_payload where
  "group_payload0 = \<lparr>g_message = [], g_values = [], g_fingerprint = []\<rparr>"

definition dec_frame :: "frame dec" where
  "dec_frame = dec_struct
     [(''filename'', on f_filename f_filename_update dec_string),
      (''abs_path'', on f_abs_path f_abs_path_update dec_string),
      (''function'', on f_function f_function_update dec_string),
      (''module'', on f_module f_module_update dec_string),
      (''in_app'', on f_in_app f_in_app_update (dec_ptr False dec_bool))]"

definition dec_stacktrace :: "exception dec" where
  "dec_stacktrace = dec_struct [(''frames'', on x_frames x_frames_update (dec_list frame0 dec_frame))]"

definition dec_exception :: "exception dec" where
  "dec_exception = dec_struct
     [(''type'', on x_type x_type_update dec_string),
      (''value'', on x_value x_value_update dec_string),
      (''stacktrace'', dec_stacktrace)]"

definition dec_group :: "group_payload dec" where
  "dec_group = dec_struct
     [(''message'', on g_message g_message_update dec_string),
      (''exception'', dec_struct
        [(''values'', on g_values g_values_update (dec_list exception0 dec_exception))]),
      (''fingerprint'', on g_fingerprint g_fingerprint_update (dec_list [] dec_string))]"

definition in_app :: "frame \<Rightarrow> bool" where "in_app f \<longleftrightarrow> f_in_app f = Some True"

subsection \<open>Titles\<close>

definition uuid_re :: "rx list" where
  "uuid_re = [One (exactly is_hex_c 8), One (lit CHR ''-''), One (exactly is_hex_c 4),
     One (lit CHR ''-''), One (exactly is_hex_c 4), One (lit CHR ''-''),
     One (exactly is_hex_c 4), One (lit CHR ''-''), One (exactly is_hex_c 12)]"

definition hex_re :: "rx list" where "hex_re = [One (at_least is_hex_c 8)]"
definition num_re :: "rx list" where "num_re = [One (at_least is_digit 1)]"

definition parameterize :: "string \<Rightarrow> string" where
  "parameterize s =
     (let s = replace_all uuid_re ''{uuid}'' s;
          s = replace_all hex_re ''{hex}'' s
      in replace_all num_re ''{num}'' s)"

definition truncate_grouping :: "string \<Rightarrow> nat \<Rightarrow> string" where
  "truncate_grouping s n = (if length s \<le> n then s else take n s)"

definition normalize_title :: "string \<Rightarrow> string \<Rightarrow> string" where
  "normalize_title typ v =
     (let v = (if typ \<noteq> [] then typ @ '': '' @ v else v)
      in truncate_grouping (parameterize v) 256)"

subsection \<open>Culprits\<close>

definition is_anonymous_frame :: "frame \<Rightarrow> bool" where
  "is_anonymous_frame f \<longleftrightarrow> f_function f \<in> {[], ''?'', ''<anonymous>'', ''anonymous''}"

definition is_webpack_frame :: "frame \<Rightarrow> bool" where
  "is_webpack_frame f \<longleftrightarrow> has_prefix (f_module f) ''webpack'' \<or>
     contains (f_filename f) ''webpack'' \<or> contains (f_abs_path f) ''webpack''"

definition strip_query_fragment :: "string \<Rightarrow> string" where
  "strip_query_fragment s =
     (case index_if (\<lambda>c. c = CHR ''?'' \<or> c = CHR 0x23) s of None \<Rightarrow> s | Some i \<Rightarrow> take i s)"

definition dotted_hash_re :: "rx list" where
  "dotted_hash_re = [One (plus any_c), One (lit CHR ''.''), One (at_least is_hex_c 6),
     One (lit CHR ''.''), One (plus is_alnum_c)]"

definition dash_hash_re :: "rx list" where
  "dash_hash_re = [One (plus any_c), One (lit CHR ''-''), One (at_least is_hex_c 8),
     Opt [lit CHR ''.'', plus is_alnum_c]]"

definition is_all_hex :: "string \<Rightarrow> bool" where
  "is_all_hex s \<longleftrightarrow> list_all is_hex_c s \<and> length s > 0"

definition normalize_seg :: "string \<Rightarrow> string" where
  "normalize_seg seg =
     (case rx_full dotted_hash_re seg of
        Some m \<Rightarrow> m ! 0 @ ''.{hash}.'' @ m ! 4
      | None \<Rightarrow>
         (case rx_full dash_hash_re seg of
            Some m \<Rightarrow> m ! 0 @ ''-{hash}'' @ m ! 3
          | None \<Rightarrow> if length seg \<ge> 8 \<and> is_all_hex seg then ''{hash}'' else seg))"

definition normalize_bundle_path :: "string \<Rightarrow> string" where
  "normalize_bundle_path path = join ''/'' (map normalize_seg (split_on CHR ''/'' path))"

definition normalized_culprit :: "frame list \<Rightarrow> string" where
  "normalized_culprit frames =
     (case find (\<lambda>f. in_app f \<and> \<not> (is_anonymous_frame f \<or> is_webpack_frame f)) (rev frames) of
        None \<Rightarrow> []
      | Some f \<Rightarrow>
          let path = (if f_filename f = [] then f_abs_path f else f_filename f);
              path = normalize_bundle_path (strip_query_fragment path)
          in if f_function f = [] then path else path @ '' in '' @ f_function f)"

subsection \<open>Fingerprints\<close>

definition default_token_re :: "rx list" where
  "default_token_re = [One (exactly (\<lambda>c. c = CHR ''{'') 2),
     One ((\<lambda>c. c \<in> {CHR 0x09, nl, CHR 0x0C, CHR 0x0D, CHR '' ''}), 0, None)] @
     map (\<lambda>c. One (lit c)) ''default'' @
     [One ((\<lambda>c. c \<in> {CHR 0x09, nl, CHR 0x0C, CHR 0x0D, CHR '' ''}), 0, None),
      One (exactly (\<lambda>c. c = CHR ''}'') 2)]"

definition default_hash :: "string \<Rightarrow> string \<Rightarrow> string" where
  "default_hash title culprit =
     sha256_hex (''grouping_v1'' @ [CHR 0x00] @ ''error'' @ [CHR 0x00] @ title @ [CHR 0x00] @ culprit)"

definition expand_part :: "string \<Rightarrow> string \<Rightarrow> string" where
  "expand_part def p =
     (let p = trim_space p in if rx_search default_token_re p then def else p)"

definition fingerprint_v1 :: "string list \<Rightarrow> string \<Rightarrow> string \<Rightarrow> string" where
  "fingerprint_v1 sdk_fp title culprit =
     (let def = default_hash title culprit in
      if sdk_fp = [] then def
      else ''f:'' @ join [CHR 0x1F] (map (expand_part def) sdk_fp))"

definition normalize_event :: "string \<Rightarrow> normalized_event option" where
  "normalize_event raw =
     (case unmarshal dec_group group_payload0 raw of
        None \<Rightarrow> None
      | Some p \<Rightarrow>
          let (title, culprit) =
            (if g_values p \<noteq> [] then
               let exc = last (g_values p)
               in (normalize_title (x_type exc) (x_value exc), normalized_culprit (x_frames exc))
             else (normalize_title [] (g_message p), []))
          in Some \<lparr>n_title = title, n_culprit = culprit,
                   n_fingerprint = fingerprint_v1 (g_fingerprint p) title culprit\<rparr>)"

subsection \<open>Titles are stable\<close>

lemma digit_hex: "is_digit c \<Longrightarrow> is_hex_c c"
  by (simp add: is_hex_c_def)

lemma hex_repl_clean: "\<not> is_hex_c CHR ''{''" "\<not> is_hex_c CHR ''}''"
    "\<not> is_digit CHR ''{''" "\<not> is_digit CHR ''}''"
  by (simp_all add: is_hex_c_def is_digit_def)

lemma parameterize_runs:
  "no_run is_hex_c 8 (parameterize s)" "no_run is_digit 1 (parameterize s)"
proof -
  let ?s = "replace_all hex_re ''{hex}'' (replace_all uuid_re ''{uuid}'' s)"
  have h: "no_run is_hex_c 8 ?s"
    unfolding hex_re_def
    by (rule replace_runs[THEN conjunct1]) (simp_all add: hex_repl_clean is_hex_c_def is_digit_def)
  show "no_run is_hex_c 8 (parameterize s)"
    unfolding parameterize_def Let_def num_re_def
    by (rule replace_runs[THEN conjunct1])
       (use h in \<open>simp_all add: hex_repl_clean digit_hex is_hex_c_def is_digit_def\<close>)
  show "no_run is_digit 1 (parameterize s)"
    unfolding parameterize_def Let_def num_re_def
    by (rule replace_runs[THEN conjunct1]) (simp_all add: hex_repl_clean is_digit_def)
qed

lemma uuid_re_needs_run: "rx_run (One (exactly P n) # xs) u \<noteq> [] \<Longrightarrow> n \<le> length (takeWhile P u)"
proof -
  assume "rx_run (One (exactly P n) # xs) u \<noteq> []"
  then obtain ms r where "(ms, r) \<in> set (rx_run (One (exactly P n) # xs) u)"
    by (metis list.set_intros(1) neq_Nil_conv surj_pair)
  then obtain m ms' where "concat (m # ms') @ r = u" "rx_ok (One (exactly P n)) m"
    by (auto simp only: rx_run_ok list_all2_Cons1)
  then have "n \<le> length u \<and> list_all P (take n u)"
    by (auto simp: cls_ok_def exactly_def)
  then show ?thesis by (simp add: takeWhile_take)
qed

lemma no_run_quiet:
  assumes "no_run P n s" "0 < n"
  shows "replace_all [One (at_least P n)] repl s = s"
    "replace_all (One (exactly P n) # xs) repl s = s"
proof -
  have lt: "length (takeWhile P u) < n" if "suffix u s" for u
    using no_run_hd[OF assms(2)] no_run_suffix[OF assms(1) that] by blast
  show "replace_all [One (at_least P n)] repl s = s"
  proof (rule replace_all_none)
    fix u assume "suffix u s"
    then show "rx_run [One (at_least P n)] u = []" using lt[of u] run_at_least[of P n u] by linarith
  qed
  show "replace_all (One (exactly P n) # xs) repl s = s"
  proof (rule replace_all_none)
    fix u assume "suffix u s"
    then show "rx_run (One (exactly P n) # xs) u = []" using lt[of u] uuid_re_needs_run[of P n xs u] by linarith
  qed
qed

lemma parameterize_quiet:
  "no_run is_hex_c 8 s \<Longrightarrow> no_run is_digit 1 s \<Longrightarrow> parameterize s = s"
  by (simp add: parameterize_def Let_def hex_re_def num_re_def uuid_re_def no_run_quiet)

lemma truncate_prefix: "\<exists>t. s = truncate_grouping s n @ t"
  by (auto simp: truncate_grouping_def intro: exI[of _ "drop n s"])

subsection \<open>Bundle hashes\<close>

lemma hex_no_sep: "list_all is_hex_c h \<Longrightarrow> CHR ''.'' \<notin> set h \<and> CHR ''-'' \<notin> set h \<and> CHR ''/'' \<notin> set h"
  by (auto simp: list_all_iff is_hex_c_def is_digit_def)

lemma alnum_no_sep: "list_all is_alnum_c e \<Longrightarrow> CHR ''.'' \<notin> set e \<and> CHR ''-'' \<notin> set e \<and> CHR ''/'' \<notin> set e"
  by (auto simp: list_all_iff is_alnum_c_def is_digit_def is_upper_c_def is_lower_c_def)

lemma dotted_ok_iff: "list_all2 rx_ok dotted_hash_re ms \<longleftrightarrow>
   (\<exists>a h e. ms = [a, ''.'', h, ''.'', e] \<and> list_all any_c a \<and> a \<noteq> [] \<and> list_all is_hex_c h \<and>
      6 \<le> length h \<and> list_all is_alnum_c e \<and> e \<noteq> [])"
  by (auto simp: dotted_hash_re_def list_all2_Cons1 cls_ok_def plus_def lit_def at_least_def
      Suc_le_eq length_Suc_conv le_Suc_eq numeral_eq_Suc)

text \<open>The end of a segment of the dash style: nothing, or a dot and an extension.\<close>

definition dash_ext :: "string \<Rightarrow> bool" where
  "dash_ext s \<longleftrightarrow> s = [] \<or> (\<exists>e. s = CHR ''.'' # e \<and> list_all is_alnum_c e \<and> e \<noteq> [])"

lemma opt_ext_ok: "rx_ok (Opt [lit CHR ''.'', plus is_alnum_c]) s \<longleftrightarrow> dash_ext s"
proof
  assume "rx_ok (Opt [lit CHR ''.'', plus is_alnum_c]) s"
  then show "dash_ext s"
    by (auto simp: dash_ext_def list_all2_Cons1 cls_ok_def plus_def lit_def Suc_le_eq length_Suc_conv
        le_Suc_eq)
next
  assume "dash_ext s"
  then show "rx_ok (Opt [lit CHR ''.'', plus is_alnum_c]) s"
    unfolding dash_ext_def
  proof (elim disjE exE conjE)
    fix e assume e: "s = CHR ''.'' # e" "list_all is_alnum_c e" "e \<noteq> []"
    then have "list_all2 cls_ok [lit CHR ''.'', plus is_alnum_c] [''.'', e] \<and> concat [''.'', e] = s"
      by (simp add: cls_ok_def plus_def lit_def Suc_le_eq)
    then show ?thesis unfolding rx_ok.simps by blast
  qed simp
qed

lemma dash_ok_iff: "list_all2 rx_ok dash_hash_re ms \<longleftrightarrow>
   (\<exists>a h s. ms = [a, ''-'', h, s] \<and> list_all any_c a \<and> a \<noteq> [] \<and> list_all is_hex_c h \<and>
      8 \<le> length h \<and> dash_ext s)"
  by (auto simp: dash_hash_re_def list_all2_Cons1 cls_ok_def plus_def lit_def at_least_def
      Suc_le_eq length_Suc_conv le_Suc_eq numeral_eq_Suc
      opt_ext_ok[unfolded plus_def lit_def One_nat_def] simp del: rx_ok.simps(2))

lemma dotted_match:
  assumes "list_all any_c a" "a \<noteq> []" "list_all is_hex_c h" "6 \<le> length h"
    "list_all is_alnum_c e" "e \<noteq> []"
  shows "rx_full dotted_hash_re (a @ ''.'' @ h @ ''.'' @ e) = Some [a, ''.'', h, ''.'', e]"
proof (rule rx_full_unique)
  fix ms'
  assume c: "concat ms' = a @ ''.'' @ h @ ''.'' @ e" and "list_all2 rx_ok dotted_hash_re ms'"
  then obtain a' h' e' where m: "ms' = [a', ''.'', h', ''.'', e']" "list_all is_hex_c h'" "list_all is_alnum_c e'"
    unfolding dotted_ok_iff by blast
  have "(a' @ ''.'' @ h') @ CHR ''.'' # e' = (a @ ''.'' @ h) @ CHR ''.'' # e" using c m(1) by simp
  then have "a' @ CHR ''.'' # h' = a @ CHR ''.'' # h" "e' = e"
    using last_sep_unique alnum_no_sep assms(5) m(3) by (metis append_Cons append_Nil)+
  then show "ms' = [a, ''.'', h, ''.'', e]"
    using last_sep_unique[of a' _ h' a h] hex_no_sep assms(3) m(1,2) by simp
qed (use assms in \<open>simp_all add: dotted_ok_iff\<close>)

lemma dotted_none:
  assumes "list_all is_hex_c h" "dash_ext s"
  shows "rx_full dotted_hash_re (a @ ''-'' @ h @ s) = None"
proof (rule ccontr)
  assume "rx_full dotted_hash_re (a @ ''-'' @ h @ s) \<noteq> None"
  then obtain ms where "rx_full dotted_hash_re (a @ ''-'' @ h @ s) = Some ms" by blast
  from rx_full_Some[OF this] obtain a' h' e' where
    c: "a' @ ''.'' @ h' @ ''.'' @ e' = a @ ''-'' @ h @ s" "list_all is_hex_c h'" "list_all is_alnum_c e'"
    unfolding dotted_ok_iff by force
  note sep = hex_no_sep[OF assms(1)] hex_no_sep[OF c(2)] alnum_no_sep[OF c(3)]
  from assms(2)[unfolded dash_ext_def] show False
  proof (elim disjE exE conjE)
    assume "s = []"
    with c have "(a' @ ''.'' @ h') @ CHR ''.'' # e' = a @ CHR ''-'' # h" by simp
    from sep_cross[OF this] sep show False by simp
  next
    fix e assume s: "s = CHR ''.'' # e" "list_all is_alnum_c e"
    have "(a' @ ''.'' @ h') @ CHR ''.'' # e' = (a @ ''-'' @ h) @ CHR ''.'' # e" using c s by simp
    from last_sep_unique[OF this] have "a' @ CHR ''.'' # h' = a @ CHR ''-'' # h"
      using sep alnum_no_sep[OF s(2)] by simp
    from sep_cross[OF this] sep show False by simp
  qed
qed

lemma dash_match:
  assumes "list_all any_c a" "a \<noteq> []" "list_all is_hex_c h" "8 \<le> length h" "dash_ext s"
  shows "rx_full dash_hash_re (a @ ''-'' @ h @ s) = Some [a, ''-'', h, s]"
proof (rule rx_full_unique)
  fix ms'
  assume c: "concat ms' = a @ ''-'' @ h @ s" and "list_all2 rx_ok dash_hash_re ms'"
  then obtain a' h' s' where m: "ms' = [a', ''-'', h', s']" "list_all is_hex_c h'" "dash_ext s'"
    unfolding dash_ok_iff by blast
  have nd: "CHR ''-'' \<notin> set t" if "dash_ext t" for t
    using that alnum_no_sep by (auto simp: dash_ext_def)
  have "a' @ CHR ''-'' # (h' @ s') = a @ CHR ''-'' # (h @ s)" using c m(1) by simp
  from last_sep_unique[OF this] have e: "a' = a" "h' @ s' = h @ s"
    using nd[OF m(3)] nd[OF assms(5)] hex_no_sep[OF m(2)] hex_no_sep[OF assms(3)] by auto
  have "takeWhile (\<lambda>c. c \<noteq> CHR ''.'') (k @ t) = k" if "list_all is_hex_c k" "dash_ext t" for k t
  proof -
    have "\<forall>c\<in>set k. c \<noteq> CHR ''.''" using hex_no_sep[OF that(1)] by blast
    then have "takeWhile (\<lambda>c. c \<noteq> CHR ''.'') (k @ t) = k @ takeWhile (\<lambda>c. c \<noteq> CHR ''.'') t"
      by (intro takeWhile_append2) blast
    then show ?thesis using that(2) by (auto simp: dash_ext_def)
  qed
  from this[OF m(2,3)] this[OF assms(3,5)] e(2) have "h' = h" by metis
  with e m(1) show "ms' = [a, ''-'', h, s]" by simp
qed (use assms in \<open>auto simp: dash_ok_iff dash_ext_def\<close>)

lemma bare_none:
  assumes "list_all is_hex_c h"
  shows "rx_full dotted_hash_re h = None" "rx_full dash_hash_re h = None"
proof -
  have "CHR ''.'' \<in> set h" if "rx_full dotted_hash_re h \<noteq> None"
    using that rx_full_Some[of dotted_hash_re h] by (fastforce simp: dotted_ok_iff)
  then show "rx_full dotted_hash_re h = None" using hex_no_sep[OF assms] by blast
  have "CHR ''-'' \<in> set h" if "rx_full dash_hash_re h \<noteq> None"
    using that rx_full_Some[of dash_hash_re h] by (fastforce simp: dash_ok_iff)
  then show "rx_full dash_hash_re h = None" using hex_no_sep[OF assms] by blast
qed

lemma normalize_seg_styles:
  assumes "list_all any_c a" "a \<noteq> []" "list_all is_hex_c h" "8 \<le> length h"
  shows "list_all is_alnum_c e \<Longrightarrow> e \<noteq> [] \<Longrightarrow> normalize_seg (a @ ''.'' @ h @ ''.'' @ e) = a @ ''.{hash}.'' @ e"
    "dash_ext s \<Longrightarrow> normalize_seg (a @ ''-'' @ h @ s) = a @ ''-{hash}'' @ s"
    "normalize_seg h = ''{hash}''"
  using assms dotted_match[of a h e] dotted_none[of h s a] dash_match[of a h s] bare_none[of h]
  by (auto simp: normalize_seg_def is_all_hex_def)

lemma normalize_path_snoc:
  "CHR ''/'' \<notin> set w \<Longrightarrow>
   normalize_bundle_path (d @ ''/'' @ w) = normalize_bundle_path d @ ''/'' @ normalize_seg w"
proof -
  have j: "ws \<noteq> [] \<Longrightarrow> join ''/'' (ws @ [v]) = join ''/'' ws @ ''/'' @ v" for ws v
  proof (induction ws)
    case (Cons x ws)
    then show ?case by (cases ws) simp_all
  qed simp
  assume "CHR ''/'' \<notin> set w"
  then show ?thesis by (simp add: normalize_bundle_path_def split_on_snoc j)
qed

subsection \<open>Properties\<close>

text \<open>a normalized title is stable: it holds no digit and no run of eight hexadecimal digits
  (so no id, hash or UUID can split a group), is at most 256 bytes long, and parameterizing an
  already parameterized text changes nothing.\<close>

theorem titles_stable:
  "list_all (\<lambda>c. \<not> is_digit c) (normalize_title typ v) \<and>
   no_run is_hex_c 8 (normalize_title typ v) \<and>
   length (normalize_title typ v) \<le> 256 \<and>
   parameterize (parameterize v) = parameterize v"
proof -
  let ?v = "if typ \<noteq> [] then typ @ '': '' @ v else v"
  obtain t where t: "parameterize ?v = normalize_title typ v @ t"
    using truncate_prefix[of "parameterize ?v" 256] by (auto simp: normalize_title_def Let_def)
  have "no_run is_digit 1 (normalize_title typ v)" "no_run is_hex_c 8 (normalize_title typ v)"
    using parameterize_runs[of ?v] no_run_prefix unfolding t by blast+
  moreover have "length (normalize_title typ v) \<le> 256"
    by (simp add: normalize_title_def truncate_grouping_def Let_def)
  moreover have "parameterize (parameterize v) = parameterize v"
    by (intro parameterize_quiet parameterize_runs)
  ultimately show ?thesis unfolding no_run_one list_all_iff by blast
qed

text \<open>a redeploy does not split groups: in the last segment of a path, a bundle hash of eight or
  more hexadecimal digits in dotted style (\<open>main.<hash>.js\<close>), dash style (\<open>index-<hash>.js\<close>, with
  or without extension) or as the whole segment does not influence the normalized path.\<close>

theorem bundle_hash_ignored:
  assumes "list_all any_c a" "a \<noteq> []" "CHR ''/'' \<notin> set a" "list_all is_alnum_c e" "e \<noteq> []"
    "list_all is_hex_c h" "8 \<le> length h" "list_all is_hex_c k" "8 \<le> length k"
  shows "normalize_bundle_path (d @ ''/'' @ a @ ''.'' @ h @ ''.'' @ e) =
           normalize_bundle_path (d @ ''/'' @ a @ ''.'' @ k @ ''.'' @ e) \<and>
         normalize_bundle_path (d @ ''/'' @ a @ ''-'' @ h @ ''.'' @ e) =
           normalize_bundle_path (d @ ''/'' @ a @ ''-'' @ k @ ''.'' @ e) \<and>
         normalize_bundle_path (d @ ''/'' @ a @ ''-'' @ h) =
           normalize_bundle_path (d @ ''/'' @ a @ ''-'' @ k) \<and>
         normalize_bundle_path (d @ ''/'' @ h) = normalize_bundle_path (d @ ''/'' @ k)"
proof -
  have ext: "dash_ext (CHR ''.'' # e)" "dash_ext []" using assms(4,5) by (auto simp: dash_ext_def)
  note styles = normalize_seg_styles(1)[OF assms(1,2) _ _ assms(4,5)]
    normalize_seg_styles(2)[OF assms(1,2) _ _ ext(1), simplified]
    normalize_seg_styles(2)[OF assms(1,2) _ _ ext(2), simplified]
    normalize_seg_styles(3)[OF assms(1,2)]
  note clean = hex_no_sep[OF assms(6)] hex_no_sep[OF assms(8)] alnum_no_sep[OF assms(4)]
  show ?thesis
    using clean assms(3) styles[OF assms(6,7)] styles[OF assms(8,9)]
    by (simp add: normalize_path_snoc[simplified])
qed

theorem bundle_hash_ignored_witness:
  "normalize_bundle_path (''static'' @ ''/'' @ ''main'' @ ''.'' @ ''9ab34f12'' @ ''.'' @ ''js'') =
   normalize_bundle_path (''static'' @ ''/'' @ ''main'' @ ''.'' @ ''00c0ffee77'' @ ''.'' @ ''js'')"
  by (rule bundle_hash_ignored[THEN conjunct1])
     (simp_all add: any_c_def is_alnum_c_def is_hex_c_def is_digit_def is_lower_c_def)

text \<open>group keys live in two disjoint namespaces: a key is prefixed \<open>f:\<close> exactly when the SDK sent
  a fingerprint, and a computed key is 64 lower-case hexadecimal digits, so no SDK fingerprint can
  join a computed group unless it asks for it with \<open>{{ default }}\<close>, which stays inside the prefix.\<close>

theorem fingerprint_namespaces:
  "(has_prefix (fingerprint_v1 fp title culprit) ''f:'' \<longleftrightarrow> fp \<noteq> []) \<and>
   (if fp = [] then length (fingerprint_v1 fp title culprit) = 64 \<and>
                    list_all is_hex_c (fingerprint_v1 fp title culprit)
    else fingerprint_v1 fp title culprit \<noteq> default_hash title' culprit')"
proof -
  have hex: "length (default_hash t c) = 64" "list_all is_hex_c (default_hash t c)" for t c
    using length_sha256_hex hex_encode_is_hex by (auto simp: default_hash_def sha256_hex_def list_all_iff)
  have "CHR '':'' \<notin> set (default_hash t c)" for t c
    using hex(2)[of t c] by (auto simp: list_all_iff is_hex_c_def is_digit_def)
  note colon = this
  have "\<not> has_prefix (default_hash t c) ''f:''" for t c
  proof
    assume "has_prefix (default_hash t c) ''f:''"
    then obtain u where "default_hash t c = ''f:'' @ u" unfolding has_prefix_iff by blast
    then have "CHR '':'' \<in> set (default_hash t c)" by simp
    with colon show False by blast
  qed
  moreover from this have "''f:'' @ x \<noteq> default_hash t c" for x t c
    by (metis has_prefix_append)
  ultimately show ?thesis using hex by (auto simp: fingerprint_v1_def Let_def)
qed

end
