(* ===== verification/Tables.thy ===== *)
theory Tables
  imports Main
begin

section \<open>Tables and SQL statements\<close>

text \<open>
  A table is the list of its rows in insertion order.  The statements of the program reduce to few
  operations: reading the row with a key, \<open>INSERT ... ON CONFLICT DO UPDATE\<close> (\<open>upsert\<close>),
  \<open>INSERT ... ON CONFLICT DO NOTHING\<close> (\<open>insert_new\<close>, with the affected row count),
  \<open>UPDATE ... WHERE\<close> and \<open>DELETE ... WHERE\<close>.

  The locale \<open>upsert_stmt\<close> is the contract of one upsert statement of the program: the conflict
  target is a key of the table, the inserted row carries the key and the update keeps it.  Under it
  the primary key stays a key, the row of the key becomes the inserted or updated row, and rows
  with other keys do not change.  \<open>counter_stmt\<close> extends it to statements that add to a counter.
\<close>

fun upsert :: "('r \<Rightarrow> bool) \<Rightarrow> ('r \<Rightarrow> 'r) \<Rightarrow> 'r \<Rightarrow> 'r list \<Rightarrow> 'r list" where
  "upsert hit upd new [] = [new]"
| "upsert hit upd new (r # rs) = (if hit r then upd r # rs else r # upsert hit upd new rs)"

definition insert_new :: "('r \<Rightarrow> bool) \<Rightarrow> 'r \<Rightarrow> 'r list \<Rightarrow> nat \<times> 'r list" where
  "insert_new hit new rs = (if list_ex hit rs then (0, rs) else (1, rs @ [new]))"

definition update_where :: "('r \<Rightarrow> bool) \<Rightarrow> ('r \<Rightarrow> 'r) \<Rightarrow> 'r list \<Rightarrow> 'r list" where
  "update_where hit upd rs = map (\<lambda>r. if hit r then upd r else r) rs"

definition delete_where :: "('r \<Rightarrow> bool) \<Rightarrow> 'r list \<Rightarrow> 'r list" where
  "delete_where hit rs = filter (\<lambda>r. \<not> hit r) rs"

definition key_ok :: "('r \<Rightarrow> 'k) \<Rightarrow> 'r list \<Rightarrow> bool" where
  "key_ok key rs \<longleftrightarrow> distinct (map key rs)"

definition get_key :: "('r \<Rightarrow> 'k) \<Rightarrow> 'k \<Rightarrow> 'r list \<Rightarrow> 'r option" where
  "get_key key k rs = find (\<lambda>r. key r = k) rs"

named_theorems table_simps \<open>unfolding rules of table statements\<close>

lemma key_ok_Nil [simp, table_simps]: "key_ok key []"
  by (simp add: key_ok_def)

lemma key_ok_snoc [simp, table_simps]: "key_ok key (rs @ [r]) \<longleftrightarrow> key_ok key rs \<and> key r \<notin> key ` set rs"
  by (auto simp: key_ok_def)

lemma key_ok_update_where [intro]:
  "key_ok key rs \<Longrightarrow> (\<And>r. key (upd r) = key r) \<Longrightarrow> key_ok key (update_where hit upd rs)"
  by (simp add: key_ok_def update_where_def comp_def if_distrib cong: if_cong)

lemma key_ok_filter [intro]: "key_ok key rs \<Longrightarrow> key_ok key (filter P rs)"
  by (simp add: key_ok_def distinct_map_filter)

lemma key_ok_delete_where [intro]: "key_ok key rs \<Longrightarrow> key_ok key (delete_where hit rs)"
  by (simp add: delete_where_def key_ok_filter)

lemma get_key_Some: "get_key key k rs = Some r \<Longrightarrow> r \<in> set rs \<and> key r = k"
  by (auto simp: get_key_def find_Some_iff)

lemma get_key_None: "get_key key k rs = None \<longleftrightarrow> (\<forall>r\<in>set rs. key r \<noteq> k)"
  by (auto simp: get_key_def find_None_iff)

lemma get_key_unique: "key_ok key rs \<Longrightarrow> r \<in> set rs \<Longrightarrow> get_key key (key r) rs = Some r"
  by (induction rs) (auto simp: key_ok_def get_key_def)

lemma get_key_append: "get_key key k (xs @ ys) = (case get_key key k xs of None \<Rightarrow> get_key key k ys | Some r \<Rightarrow> Some r)"
  by (induction xs) (simp_all add: get_key_def)

lemma insert_new_key_ok:
  "key_ok key rs \<Longrightarrow> (\<And>r. hit r \<longleftrightarrow> key r = key new) \<Longrightarrow> key_ok key (snd (insert_new hit new rs))"
  by (auto simp: insert_new_def list_ex_iff)

lemma insert_new_zero: "fst (insert_new hit new rs) = 0 \<Longrightarrow> snd (insert_new hit new rs) = rs"
  by (simp add: insert_new_def split: if_splits)

lemma set_update_where: "set (update_where hit upd rs) = (\<lambda>r. if hit r then upd r else r) ` set rs"
  by (simp add: update_where_def)

text \<open>Sums over the rows of a table.\<close>

definition sum_rows :: "('r \<Rightarrow> int) \<Rightarrow> 'r list \<Rightarrow> int" where
  "sum_rows f rs = sum_list (map f rs)"

lemma sum_rows_simps [simp, table_simps]:
  "sum_rows f [] = 0" "sum_rows f (r # rs) = f r + sum_rows f rs"
  "sum_rows f (xs @ ys) = sum_rows f xs + sum_rows f ys"
  by (simp_all add: sum_rows_def)

locale upsert_stmt =
  fixes key :: "'r \<Rightarrow> 'k" and k :: 'k and upd :: "'r \<Rightarrow> 'r" and new :: 'r
  assumes key_upd: "key (upd r) = key r"
    and key_new: "key new = k"
begin

definition stmt :: "'r list \<Rightarrow> 'r list" where
  "stmt rs = upsert (\<lambda>r. key r = k) upd new rs"

lemma keys_stmt: "key ` set (stmt rs) = insert k (key ` set rs)"
  by (induction rs) (auto simp: stmt_def key_upd key_new)

lemma key_ok_stmt: "key_ok key rs \<Longrightarrow> key_ok key (stmt rs)"
proof (induction rs)
  case Nil
  then show ?case by (simp add: stmt_def key_ok_def)
next
  case (Cons r rs)
  show ?case
  proof (cases "key r = k")
    case True
    with Cons show ?thesis by (simp add: stmt_def key_ok_def key_upd)
  next
    case False
    with Cons keys_stmt[of rs] show ?thesis
      by (simp add: stmt_def key_ok_def flip: image_set)
  qed
qed

lemma get_stmt: "get_key key k (stmt rs) =
    Some (case get_key key k rs of None \<Rightarrow> new | Some r \<Rightarrow> upd r)"
  by (induction rs) (auto simp: stmt_def get_key_def key_upd key_new)

lemma get_stmt_other: "k' \<noteq> k \<Longrightarrow> get_key key k' (stmt rs) = get_key key k' rs"
  by (induction rs) (auto simp: stmt_def get_key_def key_upd key_new)

lemma others_stmt: "filter (\<lambda>r. key r \<noteq> k) (stmt rs) = filter (\<lambda>r. key r \<noteq> k) rs"
  by (induction rs) (auto simp: stmt_def key_upd key_new)

lemma mem_stmt:
  assumes "key_ok key rs"
  shows "r \<in> set (stmt rs) \<longleftrightarrow>
    (r \<in> set rs \<and> key r \<noteq> k) \<or> r = (case get_key key k rs of None \<Rightarrow> new | Some r \<Rightarrow> upd r)"
proof (cases "key r = k")
  case True
  have "r \<in> set (stmt rs) \<longleftrightarrow> get_key key k (stmt rs) = Some r"
    using get_key_unique[OF key_ok_stmt[OF assms], of r] get_key_Some[of key k "stmt rs" r] True by auto
  then show ?thesis using True get_stmt by auto
next
  case False
  have "r \<in> set (stmt rs) \<longleftrightarrow> r \<in> set (filter (\<lambda>r. key r \<noteq> k) (stmt rs))" using False by simp
  also have "\<dots> \<longleftrightarrow> r \<in> set rs" unfolding others_stmt using False by simp
  finally have "r \<in> set (stmt rs) \<longleftrightarrow> r \<in> set rs" .
  moreover have "key (case get_key key k rs of None \<Rightarrow> new | Some r \<Rightarrow> upd r) = k"
    using key_new key_upd get_key_Some[of key k rs] by (auto split: option.splits)
  ultimately show ?thesis using False by auto
qed

lemma set_stmt: "r \<in> set (stmt rs) \<Longrightarrow> r \<in> set rs \<or> r = new \<or> (\<exists>r'\<in>set rs. key r' = k \<and> r = upd r')"
  by (induction rs) (auto simp: stmt_def split: if_splits)

lemma stmt_all: "(\<forall>r\<in>set rs. P r) \<Longrightarrow> P new \<Longrightarrow> (\<And>r. P r \<Longrightarrow> P (upd r)) \<Longrightarrow> \<forall>r\<in>set (stmt rs). P r"
  using set_stmt by blast

end

locale counter_stmt = upsert_stmt +
  fixes cnt :: "'a \<Rightarrow> int" and delta :: int
  assumes cnt_upd: "cnt (upd r) = cnt r + delta"
    and cnt_new: "cnt new = delta"
begin

lemma sum_stmt: "sum_rows cnt (stmt rs) = sum_rows cnt rs + delta"
  by (induction rs) (auto simp: stmt_def cnt_upd cnt_new)

definition count_of :: "'b \<Rightarrow> 'a list \<Rightarrow> int" where
  "count_of k' rs = (case get_key key k' rs of None \<Rightarrow> 0 | Some r \<Rightarrow> cnt r)"

lemma count_of_stmt: "count_of k' (stmt rs) = count_of k' rs + (if k' = k then delta else 0)"
  by (cases "k' = k") (auto simp: count_of_def get_stmt get_stmt_other cnt_upd cnt_new split: option.splits)

lemma sum_where: "sum_rows cnt (filter (\<lambda>r. Q (key r)) (stmt rs)) =
    sum_rows cnt (filter (\<lambda>r. Q (key r)) rs) + (if Q k then delta else 0)"
  by (induction rs) (auto simp: stmt_def cnt_upd cnt_new key_upd key_new)

end

end
