(* ===== verification/Hll.thy ===== *)
theory Hll
  imports Sha256
begin

section \<open>HyperLogLog sketches (internal/hll/hll.go)\<close>

text \<open>
  A \<open>Sketch\<close> is its array of 4096 byte registers, here a list of \<^typ>\<open>8 word\<close> of that length
  (invariant \<open>sketch_ok\<close>: the length, and every register below 64).  \<open>insert_hash\<close>,
  \<open>hll_merge\<close>, \<open>marshal_binary\<close> and \<open>unmarshal_binary\<close> translate the methods of the same names,
  loops included; the floating-point \<open>Estimate\<close> is not modelled.

  The lemmas show that insertion computes register-wise maxima of one-element sketches, so that a
  sketch depends only on the set of inserted hashes and merging is union, and that packing six
  bits per register loses nothing.
\<close>

type_synonym u64 = "64 word"
type_synonym u8 = "8 word"

definition hll_p :: nat where "hll_p = 12"
definition hll_m :: nat where "hll_m = 4096"
definition blob_size :: nat where "blob_size = 3072"

record sketch =
  registers :: "u8 list"

definition hll_new :: sketch where
  "hll_new = \<lparr>registers = replicate hll_m 0\<rparr>"

function rank_loop :: "u8 \<Rightarrow> u64 \<Rightarrow> u8" where
  "rank_loop rank remainder =
     (if rank < 63 \<and> drop_bit 63 remainder = 0
      then rank_loop (rank + 1) (push_bit 1 remainder) else rank)"
  by pat_completeness auto
termination
proof (relation "measure (\<lambda>(rank, _). 63 - unat rank)", goal_cases)
  case 1
  show ?case by simp
next
  case (2 rank remainder)
  then have "unat rank < 63" by (simp add: word_less_nat_alt)
  then have "unat (rank + 1) = unat rank + 1"
    by (simp add: unat_word_ariths)
  with \<open>unat rank < 63\<close> show ?case by simp
qed

declare rank_loop.simps [simp del]

definition hll_index :: "u64 \<Rightarrow> nat" where
  "hll_index h = unat (drop_bit (64 - hll_p) h)"

definition hll_rank :: "u64 \<Rightarrow> u8" where
  "hll_rank h = rank_loop 1 (push_bit hll_p h)"

definition insert_hash :: "sketch \<Rightarrow> u64 \<Rightarrow> sketch" where
  "insert_hash s h =
     (let idx = hll_index h; rank = hll_rank h
      in if rank > registers s ! idx then s\<lparr>registers := (registers s)[idx := rank]\<rparr> else s)"

definition hll_insert :: "sketch \<Rightarrow> string \<Rightarrow> sketch" where
  "hll_insert s v = insert_hash s (of_nat (be_nat (take 8 (sha256 v)) 0))"

definition insert_all :: "sketch \<Rightarrow> string list \<Rightarrow> sketch" where
  "insert_all s vs = foldl hll_insert s vs"

definition hll_merge :: "sketch \<Rightarrow> sketch \<Rightarrow> sketch" where
  "hll_merge s other =
     s\<lparr>registers := map2 (\<lambda>a r. if r > a then r else a) (registers s) (registers other)\<rparr>"

subsection \<open>Packing six bits per register\<close>

definition set_blob_bit :: "u8 list \<Rightarrow> nat \<Rightarrow> u8 list" where
  "set_blob_bit blob b = blob[b div 8 := (blob ! (b div 8)) OR push_bit (b mod 8) 1]"

definition marshal_step :: "u8 \<Rightarrow> nat \<Rightarrow> u8 list \<times> nat \<Rightarrow> u8 list \<times> nat" where
  "marshal_step r b st =
     (case st of (blob, bitpos) \<Rightarrow>
       (if r AND push_bit b 1 \<noteq> 0 then set_blob_bit blob bitpos else blob, bitpos + 1))"

definition marshal_reg :: "u8 \<Rightarrow> u8 list \<times> nat \<Rightarrow> u8 list \<times> nat" where
  "marshal_reg r st = fold (marshal_step r) [0..<6] st"

definition marshal_binary :: "sketch \<Rightarrow> u8 list" where
  "marshal_binary s = fst (fold marshal_reg (registers s) (replicate blob_size 0, 0))"

definition unmarshal_step :: "u8 list \<Rightarrow> nat \<Rightarrow> u8 \<times> nat \<Rightarrow> u8 \<times> nat" where
  "unmarshal_step blob b st =
     (case st of (r, bitpos) \<Rightarrow>
       (if (blob ! (bitpos div 8)) AND push_bit (bitpos mod 8) 1 \<noteq> 0 then r OR push_bit b 1 else r,
        bitpos + 1))"

fun unmarshal_regs :: "u8 list \<Rightarrow> nat \<Rightarrow> nat \<Rightarrow> u8 list" where
  "unmarshal_regs blob 0 bitpos = []"
| "unmarshal_regs blob (Suc n) bitpos =
     (case fold (unmarshal_step blob) [0..<6] (0, bitpos) of
        (r, bitpos') \<Rightarrow> r # unmarshal_regs blob n bitpos')"

datatype hll_error = Blob_size

definition unmarshal_binary :: "u8 list \<Rightarrow> hll_error + sketch" where
  "unmarshal_binary blob =
     (if length blob \<noteq> blob_size then Inl Blob_size
      else Inr \<lparr>registers = unmarshal_regs blob hll_m 0\<rparr>)"

subsection \<open>The invariant\<close>

definition sketch_ok :: "sketch \<Rightarrow> bool" where
  "sketch_ok s \<longleftrightarrow> length (registers s) = hll_m \<and> (\<forall>r\<in>set (registers s). r < 64)"

lemma sketch_ok_new [intro, simp]: "sketch_ok hll_new"
  by (simp add: sketch_ok_def hll_new_def)

lemma drop_bit_unat_less: "unat (drop_bit n (w :: 'a::len word)) < 2 ^ (LENGTH('a) - n)"
proof -
  have "unat w div 2 ^ n < 2 ^ (LENGTH('a) - n)"
  proof (cases "n \<le> LENGTH('a)")
    case True
    have "unat w < 2 ^ (LENGTH('a) - n) * 2 ^ n"
      using unsigned_less[of w, where ?'a = nat] True by (simp flip: power_add)
    then show ?thesis by (simp add: less_mult_imp_div_less)
  next
    case False
    then have "unat w < 2 ^ n"
      using unsigned_less[of w, where ?'a = nat] by (meson less_le_trans nat_le_linear one_le_numeral power_increasing)
    then show ?thesis by simp
  qed
  then show ?thesis unfolding unat_drop_bit_eq by (simp add: drop_bit_eq_div)
qed

lemma hll_index_less [simp]: "hll_index h < hll_m"
  using drop_bit_unat_less[of 52 h] by (simp add: hll_index_def hll_p_def hll_m_def)

lemma rank_loop_bounds: "r \<le> 63 \<Longrightarrow> rank_loop r w \<le> 63 \<and> r \<le> rank_loop r w"
proof (induction r w rule: rank_loop.induct)
  case (1 r w)
  show ?case
  proof (cases "r < 63 \<and> drop_bit 63 w = 0")
    case True
    have u: "unat (r + 1) = unat r + 1"
      using True by (simp add: unat_word_ariths word_less_nat_alt)
    then have "r + 1 \<le> 63" "r \<le> r + 1"
      using True by (simp_all add: word_le_nat_alt word_less_nat_alt)
    with 1 True show ?thesis
      by (metis order_trans rank_loop.simps)
  next
    case False
    then have "rank_loop r w = r" by (subst rank_loop.simps) (rule if_not_P)
    with "1.prems" show ?thesis by simp
  qed
qed

lemma hll_rank_bounds: "hll_rank h \<le> 63" "1 \<le> hll_rank h"
  using rank_loop_bounds[of 1 "push_bit hll_p h"] by (simp_all add: hll_rank_def)

lemma hll_rank_less: "hll_rank h < 64"
  using hll_rank_bounds(1)[of h] by (simp add: word_less_nat_alt word_le_nat_alt)


lemma sketch_ok_insert [intro, simp]: "sketch_ok s \<Longrightarrow> sketch_ok (insert_hash s h)"
  using hll_rank_less[of h]
  by (auto simp: sketch_ok_def insert_hash_def Let_def dest!: set_update_subset_insert[THEN subsetD])

lemma nth_insert_hash:
  "sketch_ok s \<Longrightarrow> i < hll_m \<Longrightarrow>
   registers (insert_hash s h) ! i =
     (if i = hll_index h then max (registers s ! i) (hll_rank h) else registers s ! i)"
  by (auto simp: insert_hash_def Let_def sketch_ok_def nth_list_update max_def)

lemma sketch_eqI:
  assumes "sketch_ok s" "sketch_ok t" "\<And>i. i < hll_m \<Longrightarrow> registers s ! i = registers t ! i"
  shows "s = (t :: sketch)"
proof -
  have "registers s = registers t"
    using assms by (intro nth_equalityI) (auto simp: sketch_ok_def)
  then show ?thesis by (cases s, cases t) simp
qed

lemma length_merge: "length (registers (hll_merge s t)) = min (length (registers s)) (length (registers t))"
  by (simp add: hll_merge_def)

lemma nth_merge:
  "sketch_ok s \<Longrightarrow> sketch_ok t \<Longrightarrow> i < hll_m \<Longrightarrow>
   registers (hll_merge s t) ! i = max (registers s ! i) (registers t ! i)"
  by (auto simp: hll_merge_def sketch_ok_def max_def)

lemma sketch_ok_merge [intro, simp]: "sketch_ok s \<Longrightarrow> sketch_ok t \<Longrightarrow> sketch_ok (hll_merge s t)"
proof -
  assume s: "sketch_ok s" and t: "sketch_ok t"
  have "registers (hll_merge s t) ! i < 64" if "i < hll_m" for i
  proof -
    have "registers s ! i < 64" "registers t ! i < 64"
      using s t that by (auto simp: sketch_ok_def)
    then show ?thesis using nth_merge[OF s t that] by (simp add: max_def)
  qed
  moreover have "length (registers (hll_merge s t)) = hll_m"
    using s t by (simp add: length_merge sketch_ok_def)
  ultimately show ?thesis by (auto simp: sketch_ok_def in_set_conv_nth)
qed

lemma nth_new [simp]: "i < hll_m \<Longrightarrow> registers hll_new ! i = 0"
  by (simp add: hll_new_def)

subsection \<open>Idempotent accumulators\<close>

text \<open>
  The interface the session rollups rely on: an accumulator whose insertion is a join with the
  one-element accumulator.  Its state depends on the set of inserted values only, and joining two
  accumulators gives the accumulator of all values of both.
\<close>

locale join_accumulator =
  fixes ok :: "'s \<Rightarrow> bool" and emp :: 's and ins :: "'s \<Rightarrow> 'a \<Rightarrow> 's" and mrg :: "'s \<Rightarrow> 's \<Rightarrow> 's"
  assumes ok_emp: "ok emp"
    and ok_ins: "ok a \<Longrightarrow> ok (ins a x)"
    and ok_mrg: "ok a \<Longrightarrow> ok b \<Longrightarrow> ok (mrg a b)"
    and mrg_assoc: "ok a \<Longrightarrow> ok b \<Longrightarrow> ok c \<Longrightarrow> mrg (mrg a b) c = mrg a (mrg b c)"
    and mrg_comm: "ok a \<Longrightarrow> ok b \<Longrightarrow> mrg a b = mrg b a"
    and mrg_idem: "ok a \<Longrightarrow> mrg a a = a"
    and mrg_emp: "ok a \<Longrightarrow> mrg a emp = a"
    and ins_mrg: "ok a \<Longrightarrow> ins a x = mrg a (ins emp x)"
begin

lemma ok_foldl: "ok a \<Longrightarrow> ok (foldl ins a xs)"
  by (induction xs arbitrary: a) (auto intro: ok_ins)

lemma foldl_mrg: "ok a \<Longrightarrow> foldl ins a xs = mrg a (foldl ins emp xs)"
proof (induction xs rule: rev_induct)
  case Nil
  then show ?case by (simp add: mrg_emp)
next
  case (snoc x xs)
  have "foldl ins a (xs @ [x]) = mrg (foldl ins a xs) (ins emp x)"
    using snoc.prems by (simp add: ins_mrg[of "foldl ins a xs"] ok_foldl)
  also have "\<dots> = mrg (mrg a (foldl ins emp xs)) (ins emp x)"
    using snoc by simp
  also have "\<dots> = mrg a (mrg (foldl ins emp xs) (ins emp x))"
    using snoc.prems by (simp add: mrg_assoc ok_foldl ok_emp ok_ins)
  also have "mrg (foldl ins emp xs) (ins emp x) = foldl ins emp (xs @ [x])"
    by (simp add: ins_mrg[of "foldl ins emp xs"] ok_foldl ok_emp)
  finally show ?case .
qed

lemma accum_append:
  "foldl ins emp (xs @ ys) = mrg (foldl ins emp xs) (foldl ins emp ys)"
  by (simp add: foldl_mrg[of "foldl ins emp xs"] ok_foldl ok_emp)

lemma ins_twice: "ok a \<Longrightarrow> ins (ins a x) x = ins a x"
proof -
  assume a: "ok a"
  have "ins (ins a x) x = mrg (mrg a (ins emp x)) (ins emp x)"
    using a ins_mrg ok_ins by metis
  also have "\<dots> = mrg a (ins emp x)"
    using a by (simp add: mrg_assoc mrg_idem ok_emp ok_ins)
  finally show ?thesis using a by (simp add: ins_mrg)
qed

lemma ins_commute: "ok a \<Longrightarrow> ins (ins a x) y = ins (ins a y) x"
proof -
  assume a: "ok a"
  have "ins (ins a x) y = mrg (mrg a (ins emp x)) (ins emp y)"
    using a ins_mrg ok_ins by metis
  also have "\<dots> = mrg a (mrg (ins emp y) (ins emp x))"
    using a by (simp add: mrg_assoc ok_emp ok_ins mrg_comm[of "ins emp x"])
  also have "\<dots> = ins (ins a y) x"
    using a ins_mrg ok_ins mrg_assoc ok_emp by metis
  finally show ?thesis .
qed

lemma absorbed: "x \<in> set xs \<Longrightarrow> ok a \<Longrightarrow> ins (foldl ins a xs) x = foldl ins a xs"
proof (induction xs arbitrary: a rule: rev_induct)
  case Nil
  then show ?case by simp
next
  case (snoc y ys)
  show ?case
  proof (cases "x = y")
    case True
    with snoc.prems show ?thesis by (simp add: ins_twice ok_foldl)
  next
    case False
    with snoc.prems have "ins (foldl ins a ys) x = foldl ins a ys"
      by (auto intro: snoc.IH)
    with snoc.prems show ?thesis by (simp add: ins_commute[of "foldl ins a ys" y] ok_foldl)
  qed
qed

lemma absorbed_set: "set ys \<subseteq> set xs \<Longrightarrow> foldl ins emp (xs @ ys) = foldl ins emp xs"
  by (induction ys rule: rev_induct) (simp_all add: absorbed ok_emp)

lemma accum_set_eq: "set xs = set ys \<Longrightarrow> foldl ins emp xs = foldl ins emp ys"
proof -
  assume eq: "set xs = set ys"
  have "foldl ins emp xs = mrg (foldl ins emp xs) (foldl ins emp ys)"
    using absorbed_set[of ys xs] eq accum_append[of xs ys] by (metis order_refl)
  also have "\<dots> = mrg (foldl ins emp ys) (foldl ins emp xs)"
    by (rule mrg_comm) (simp_all add: ok_foldl ok_emp)
  also have "\<dots> = foldl ins emp ys"
    using absorbed_set[of xs ys] eq accum_append[of ys xs] by (metis order_refl)
  finally show ?thesis .
qed

end

interpretation hll_hash: join_accumulator sketch_ok hll_new insert_hash hll_merge
proof (unfold_locales, goal_cases)
  case (4 a b c)
  then show ?case by (intro sketch_eqI) (simp_all add: nth_merge max.assoc)
next
  case (5 a b)
  then show ?case by (intro sketch_eqI) (simp_all add: nth_merge max.commute)
next
  case (6 a)
  then show ?case by (intro sketch_eqI) (simp_all add: nth_merge)
next
  case (7 a)
  then show ?case by (intro sketch_eqI) (simp_all add: nth_merge)
next
  case (8 a x)
  then show ?case by (intro sketch_eqI) (simp_all add: nth_merge nth_insert_hash)
qed simp_all

interpretation hll_val: join_accumulator sketch_ok hll_new hll_insert hll_merge
proof (unfold_locales, goal_cases)
  case (8 a x)
  then show ?case unfolding hll_insert_def by (rule hll_hash.ins_mrg)
qed (auto simp: hll_insert_def intro: hll_hash.mrg_assoc hll_hash.mrg_comm hll_hash.mrg_idem
      hll_hash.mrg_emp)


subsection \<open>The packed form\<close>

text \<open>Bit \<open>k\<close> of a blob: bit \<open>k mod 8\<close> of byte \<open>k div 8\<close>.\<close>

definition blob_bit :: "u8 list \<Rightarrow> nat \<Rightarrow> bool" where
  "blob_bit blob k = bit (blob ! (k div 8)) (k mod 8)"

definition reg_bit :: "u8 list \<Rightarrow> nat \<Rightarrow> bool" where
  "reg_bit rs k = bit (rs ! (k div 6)) (k mod 6)"

lemma and_push_bit_one: "(w :: 'a::len word) AND push_bit n 1 \<noteq> 0 \<longleftrightarrow> n < LENGTH('a) \<and> bit w n"
proof
  assume "w AND push_bit n 1 \<noteq> 0"
  then obtain i where "bit (w AND push_bit n 1) i"
    using bit_eq_iff[of "w AND push_bit n 1" 0] by auto
  then show "n < LENGTH('a) \<and> bit w n"
    by (auto simp: bit_simps)
next
  assume "n < LENGTH('a) \<and> bit w n"
  then have "bit (w AND push_bit n 1) n" by (auto simp: bit_simps)
  then show "w AND push_bit n 1 \<noteq> 0" by auto
qed

lemma and_pow_two_bit: "(w :: 'a::len word) AND 2 ^ n = 0 \<longleftrightarrow> \<not> (n < LENGTH('a) \<and> bit w n)"
  using and_push_bit_one[of w n] by (simp, blast)

lemma length_set_blob_bit [simp]: "length (set_blob_bit blob k) = length blob"
  by (simp add: set_blob_bit_def)

lemma blob_bit_set:
  assumes "k < 8 * length blob" "j < 8 * length blob"
  shows "blob_bit (set_blob_bit blob k) j \<longleftrightarrow> blob_bit blob j \<or> j = k"
proof (cases "j div 8 = k div 8")
  case True
  have "k div 8 < length blob" using assms(1) by (simp add: div_less_iff_less_mult mult.commute)
  moreover have "j mod 8 = k mod 8 \<longleftrightarrow> j = k" using True by (metis div_mult_mod_eq)
  ultimately show ?thesis
    using True by (auto simp: blob_bit_def set_blob_bit_def bit_simps)
next
  case False
  then show ?thesis by (auto simp: blob_bit_def set_blob_bit_def)
qed

lemma upt_add_Suc: "[b..<b + Suc n] = b # [Suc b..<Suc b + n]"
  by (subst upt_conv_Cons) simp_all

lemma marshal_steps:
  assumes "pos + n \<le> 8 * length blob" "b + n \<le> 8"
  shows "\<exists>blob'. fold (marshal_step r) [b..<b + n] (blob, pos) = (blob', pos + n) \<and>
     length blob' = length blob \<and>
     (\<forall>j < 8 * length blob. blob_bit blob' j \<longleftrightarrow>
        blob_bit blob j \<or> (pos \<le> j \<and> j < pos + n \<and> bit r (b + (j - pos))))"
  using assms
proof (induction n arbitrary: blob pos b)
  case 0
  then show ?case by auto
next
  case (Suc n)
  let ?blob = "if r AND push_bit b 1 \<noteq> 0 then set_blob_bit blob pos else blob"
  have len: "length ?blob = length blob" by simp
  obtain blob' where f: "fold (marshal_step r) [Suc b..<Suc b + n] (?blob, Suc pos) = (blob', Suc pos + n)"
      "length blob' = length blob"
      "\<forall>j < 8 * length blob. blob_bit blob' j \<longleftrightarrow>
        blob_bit ?blob j \<or> (Suc pos \<le> j \<and> j < Suc pos + n \<and> bit r (Suc b + (j - Suc pos)))"
    using Suc.IH[of "Suc pos" ?blob "Suc b"] Suc.prems unfolding len by auto
  have hd: "blob_bit ?blob j \<longleftrightarrow> blob_bit blob j \<or> (j = pos \<and> bit r b)"
    if "j < 8 * length blob" for j
    using that Suc.prems blob_bit_set[of pos blob j] by (auto simp: and_pow_two_bit)
  have "fold (marshal_step r) [b..<b + Suc n] (blob, pos) = (blob', pos + Suc n)"
    using f(1) unfolding upt_add_Suc by (simp add: marshal_step_def)
  moreover have "\<forall>j < 8 * length blob. blob_bit blob' j \<longleftrightarrow>
        blob_bit blob j \<or> (pos \<le> j \<and> j < pos + Suc n \<and> bit r (b + (j - pos)))"
  proof (intro allI impI)
    fix j assume j: "j < 8 * length blob"
    have "Suc b + (j - Suc pos) = b + (j - pos)" if "Suc pos \<le> j" using that by simp
    then show "blob_bit blob' j \<longleftrightarrow>
        blob_bit blob j \<or> (pos \<le> j \<and> j < pos + Suc n \<and> bit r (b + (j - pos)))"
      using f(3) j hd[OF j] by (cases "j = pos") (auto simp: not_less_eq_eq le_Suc_eq)
  qed
  ultimately show ?case using f(2) by blast
qed

lemma marshal_regs:
  assumes "6 * length rs + pos \<le> 8 * length blob" "pos mod 6 = 0"
  shows "\<exists>blob'. fold marshal_reg rs (blob, pos) = (blob', pos + 6 * length rs) \<and>
     length blob' = length blob \<and>
     (\<forall>j < 8 * length blob. blob_bit blob' j \<longleftrightarrow>
        blob_bit blob j \<or> (pos \<le> j \<and> j < pos + 6 * length rs \<and> reg_bit rs (j - pos)))"
  using assms
proof (induction rs arbitrary: blob pos)
  case Nil
  then show ?case by auto
next
  case (Cons r rs)
  obtain b1 where b1: "marshal_reg r (blob, pos) = (b1, pos + 6)" "length b1 = length blob"
     "\<forall>j < 8 * length blob. blob_bit b1 j \<longleftrightarrow>
        blob_bit blob j \<or> (pos \<le> j \<and> j < pos + 6 \<and> bit r (j - pos))"
    using marshal_steps[of pos 6 blob 0 r] Cons.prems by (auto simp: marshal_reg_def)
  obtain b2 where b2: "fold marshal_reg rs (b1, pos + 6) = (b2, pos + 6 + 6 * length rs)"
     "length b2 = length b1"
     "\<forall>j < 8 * length b1. blob_bit b2 j \<longleftrightarrow>
        blob_bit b1 j \<or> (pos + 6 \<le> j \<and> j < pos + 6 + 6 * length rs \<and> reg_bit rs (j - (pos + 6)))"
    using Cons.IH[of "pos + 6" b1] Cons.prems b1(2) by auto
  have rb: "reg_bit (r # rs) k \<longleftrightarrow> (if k < 6 then bit r k else reg_bit rs (k - 6))" for k
    by (auto simp: reg_bit_def nth_Cons' le_div_geq le_mod_geq not_less)
  have "\<forall>j < 8 * length blob. blob_bit b2 j \<longleftrightarrow>
        blob_bit blob j \<or> (pos \<le> j \<and> j < pos + 6 * length (r # rs) \<and> reg_bit (r # rs) (j - pos))"
  proof (intro allI impI)
    fix j assume j: "j < 8 * length blob"
    show "blob_bit b2 j \<longleftrightarrow>
        blob_bit blob j \<or> (pos \<le> j \<and> j < pos + 6 * length (r # rs) \<and> reg_bit (r # rs) (j - pos))"
      using b1(2,3) b2(3) j by (cases "j < pos + 6") (auto simp: rb diff_diff_left add.commute)
  qed
  then show ?case using b1 b2 by (simp add: ac_simps)
qed

lemma blob_bit_zero: "k < 8 * n \<Longrightarrow> \<not> blob_bit (replicate n 0) k"
  by (simp add: blob_bit_def div_less_iff_less_mult mult.commute)

lemma marshal_bits:
  assumes "sketch_ok s"
  shows "length (marshal_binary s) = blob_size"
    and "k < 8 * blob_size \<Longrightarrow> blob_bit (marshal_binary s) k \<longleftrightarrow> reg_bit (registers s) k"
proof -
  have len: "length (registers s) = hll_m" using assms by (simp add: sketch_ok_def)
  obtain blob' where "fold marshal_reg (registers s) (replicate blob_size 0, 0) = (blob', 6 * hll_m)"
     "length blob' = blob_size"
     "\<forall>j < 8 * blob_size. blob_bit blob' j \<longleftrightarrow>
        blob_bit (replicate blob_size 0) j \<or> (j < 6 * hll_m \<and> reg_bit (registers s) j)"
    using marshal_regs[of "registers s" 0 "replicate blob_size 0"] len
    by (auto simp: hll_m_def blob_size_def)
  then show "length (marshal_binary s) = blob_size"
    and "k < 8 * blob_size \<Longrightarrow> blob_bit (marshal_binary s) k \<longleftrightarrow> reg_bit (registers s) k"
    by (auto simp: marshal_binary_def blob_bit_zero hll_m_def blob_size_def)
qed

lemma unmarshal_steps:
  assumes "b + n \<le> 8"
  shows "\<exists>r'. fold (unmarshal_step blob) [b..<b + n] (r, pos) = (r', pos + n) \<and>
     (\<forall>j. bit r' j \<longleftrightarrow> bit r j \<or> (b \<le> j \<and> j < b + n \<and> blob_bit blob (pos + (j - b))))"
  using assms
proof (induction n arbitrary: r pos b)
  case 0
  then show ?case by auto
next
  case (Suc n)
  let ?r = "if (blob ! (pos div 8)) AND push_bit (pos mod 8) 1 \<noteq> 0 then r OR push_bit b 1 else r"
  obtain r' where r': "fold (unmarshal_step blob) [Suc b..<Suc b + n] (?r, Suc pos) = (r', Suc pos + n)"
     "\<forall>j. bit r' j \<longleftrightarrow> bit ?r j \<or> (Suc b \<le> j \<and> j < Suc b + n \<and> blob_bit blob (Suc pos + (j - Suc b)))"
    using Suc.IH[of "Suc b" ?r "Suc pos"] Suc.prems by auto
  have hd: "bit ?r j \<longleftrightarrow> bit r j \<or> (j = b \<and> blob_bit blob pos)" for j
    using Suc.prems by (auto simp: and_pow_two_bit blob_bit_def bit_simps)
  have "fold (unmarshal_step blob) [b..<b + Suc n] (r, pos) = (r', pos + Suc n)"
    using r'(1) unfolding upt_add_Suc by (simp add: unmarshal_step_def)
  moreover have "bit r' j \<longleftrightarrow> bit r j \<or> (b \<le> j \<and> j < b + Suc n \<and> blob_bit blob (pos + (j - b)))" for j
  proof -
    have lt: "(Suc b \<le> j \<and> j < Suc b + n) = (j \<noteq> b \<and> b \<le> j \<and> j < b + Suc n)" by auto
    have eq: "Suc pos + (j - Suc b) = pos + (j - b)" if "j \<noteq> b \<and> b \<le> j"
      using that by arith
    have "bit r' j \<longleftrightarrow> bit ?r j \<or> (j \<noteq> b \<and> b \<le> j \<and> j < b + Suc n \<and> blob_bit blob (pos + (j - b)))"
      using r'(2)[rule_format, of j] lt eq by metis
    then show ?thesis using hd[of j] by (cases "j = b") simp_all
  qed
  ultimately show ?case by blast
qed

lemma unmarshal_regs_nth:
  "length (unmarshal_regs blob n pos) = n \<and>
   (\<forall>i<n. \<forall>j. bit (unmarshal_regs blob n pos ! i) j \<longleftrightarrow> j < 6 \<and> blob_bit blob (pos + 6 * i + j))"
proof (induction n arbitrary: pos)
  case 0
  then show ?case by simp
next
  case (Suc n)
  obtain r' where r': "fold (unmarshal_step blob) [0..<6] (0, pos) = (r', pos + 6)"
     "\<forall>j. bit r' j \<longleftrightarrow> j < 6 \<and> blob_bit blob (pos + j)"
    using unmarshal_steps[of 0 6 blob 0 pos] by auto
  show ?case
    using r' Suc.IH[of "pos + 6"] by (auto simp: nth_Cons' algebra_simps)
qed

lemma word8_less64_bits: "(r :: u8) < 64 \<Longrightarrow> bit r j \<Longrightarrow> j < 6"
proof -
  assume r: "r < 64" and b: "bit r j"
  have "unat (take_bit 6 r) = unat r"
    using r by (simp add: unsigned_take_bit_eq take_bit_nat_eq_self word_less_nat_alt)
  then have "take_bit 6 r = r" by (simp only: word_unat_eq_iff)
  then have "bit (take_bit 6 r) j" using b by simp
  then show "j < 6" by (simp add: bit_take_bit_iff)
qed

lemma unmarshal_marshal: "sketch_ok s \<Longrightarrow> unmarshal_binary (marshal_binary s) = Inr s"
proof -
  assume ok: "sketch_ok s"
  let ?rs = "unmarshal_regs (marshal_binary s) hll_m 0"
  have len: "length (registers s) = hll_m" using ok by (simp add: sketch_ok_def)
  have "?rs ! i = registers s ! i" if i: "i < hll_m" for i
  proof (rule bit_word_eqI)
    fix j
    have "registers s ! i < 64" using ok i by (auto simp: sketch_ok_def)
    then have small: "bit (registers s ! i) j \<Longrightarrow> j < 6" by (rule word8_less64_bits)
    have "j < 6 \<Longrightarrow> blob_bit (marshal_binary s) (6 * i + j) \<longleftrightarrow> reg_bit (registers s) (6 * i + j)"
      using i by (intro marshal_bits(2)[OF ok]) (simp add: hll_m_def blob_size_def)
    then show "bit (?rs ! i) j \<longleftrightarrow> bit (registers s ! i) j"
      using unmarshal_regs_nth[of "marshal_binary s" hll_m 0] i small
      by (auto simp: reg_bit_def)
  qed
  then have "?rs = registers s"
    using len unmarshal_regs_nth[of "marshal_binary s" hll_m 0] by (intro nth_equalityI) auto
  then show ?thesis
    using marshal_bits(1)[OF ok] by (simp add: unmarshal_binary_def)
qed

subsection \<open>Ranks\<close>

lemma rank_loop_zero: "r \<le> 63 \<Longrightarrow> rank_loop r 0 = 63"
proof (induction "63 - unat r" arbitrary: r)
  case 0
  then have "r = 63" by (simp add: word_le_nat_alt word_unat_eq_iff)
  then show ?case by (subst rank_loop.simps) simp
next
  case (Suc n)
  then have r: "unat r < 63" by arith
  then have u: "unat (r + 1) = unat r + 1" by (simp add: unat_word_ariths)
  with Suc r have "rank_loop (r + 1) 0 = 63"
    by (intro Suc.hyps(1)) (simp_all add: word_le_nat_alt)
  with r show ?case by (subst rank_loop.simps) (simp add: word_less_nat_alt)
qed

lemma top_bit_zero_iff: "drop_bit 63 (w :: u64) = 0 \<longleftrightarrow> unat w < 2 ^ 63"
proof -
  have "drop_bit 63 w = 0 \<longleftrightarrow> unat w div 2 ^ 63 = 0"
    by (simp only: word_unat_eq_iff unat_drop_bit_eq drop_bit_nat_def unat_0)
  then show ?thesis by (simp add: div_eq_0_iff)
qed

lemma unat_shift_one: "unat (w :: u64) < 2 ^ 63 \<Longrightarrow> unat (push_bit 1 w) = 2 * unat w"
  by (simp add: push_bit_eq_mult unat_word_ariths)

lemma rank_loop_leading:
  "2 ^ (63 - k) \<le> unat w \<Longrightarrow> unat w < 2 ^ (64 - k) \<Longrightarrow> unat r + k \<le> 63 \<Longrightarrow>
   rank_loop r w = r + of_nat k"
proof (induction k arbitrary: r w)
  case 0
  then have "drop_bit 63 w \<noteq> 0" using top_bit_zero_iff[of w] by simp
  then show ?case by (subst rank_loop.simps) simp
next
  case (Suc k)
  then have k: "k \<le> 62" by simp
  have "(2::nat) ^ (64 - Suc k) \<le> 2 ^ 63" by (rule power_increasing) simp_all
  with Suc.prems have w: "unat w < 2 ^ 63" by linarith
  then have s: "unat (push_bit 1 w) = 2 * unat w" by (rule unat_shift_one)
  have "2 * 2 ^ (63 - Suc k) = (2::nat) ^ (63 - k)" "2 * 2 ^ (64 - Suc k) = (2::nat) ^ (64 - k)"
    using k by (simp_all flip: power_Suc add: Suc_diff_le Suc_diff_Suc)
  with Suc.prems s have "2 ^ (63 - k) \<le> unat (push_bit 1 w)" "unat (push_bit 1 w) < 2 ^ (64 - k)"
    by linarith+
  moreover have u: "unat (r + 1) = unat r + 1" using Suc.prems by (simp add: unat_word_ariths)
  ultimately have "rank_loop (r + 1) (push_bit 1 w) = r + 1 + of_nat k"
    using Suc.prems by (intro Suc.IH) simp_all
  with w top_bit_zero_iff[of w] Suc.prems show ?case
    by (subst rank_loop.simps) (simp add: word_less_nat_alt)
qed

lemma unat_hash_remainder: "unat (push_bit hll_p h) = (unat (h :: u64) mod 2 ^ 52) * 2 ^ 12"
proof -
  have "unat (push_bit hll_p h) = unat h * 2 ^ 12 mod (2 ^ 52 * 2 ^ 12)"
    by (simp add: hll_p_def push_bit_eq_mult unat_word_ariths)
  then show ?thesis by (simp only: mult_mod_left)
qed

subsection \<open>Properties\<close>

text \<open>C16: a sketch survives its storage as a 3072-byte blob: unpacking what \<open>MarshalBinary\<close> packed
  gives back every one of the 4096 registers.\<close>

theorem hll_blob_roundtrip:
  assumes "sketch_ok s"
  shows "length (marshal_binary s) = 3072 \<and> unmarshal_binary (marshal_binary s) = Inr s"
  using unmarshal_marshal[OF assms] marshal_bits(1)[OF assms] by (simp add: blob_size_def)

theorem hll_blob_roundtrip_witness:
  "sketch_ok (insert_hash hll_new 77) \<and>
   unmarshal_binary (marshal_binary (insert_hash hll_new 77)) = Inr (insert_hash hll_new 77)"
  using hll_blob_roundtrip[of "insert_hash hll_new 77"] by simp

text \<open>C17: merging two sketches is taking the union of the inserted values: the result is the sketch
  of any list of values with the same set, so neither order nor repetition of insertions, nor the
  grouping into rollup rows, changes an estimate.\<close>

theorem hll_merge_is_union:
  assumes "set zs = set xs \<union> set ys"
  shows "hll_merge (insert_all hll_new xs) (insert_all hll_new ys) = insert_all hll_new zs"
  using assms hll_val.accum_append[of xs ys] hll_val.accum_set_eq[of "xs @ ys" zs]
  by (simp add: insert_all_def)

theorem hll_merge_is_union_witness:
  "hll_merge (insert_all hll_new [''u1'', ''u2'']) (insert_all hll_new [''u2'']) =
   insert_all hll_new [''u2'', ''u1'']"
  by (rule hll_merge_is_union) auto

text \<open>the register index of a hash is its top twelve bits and its rank is one more than the
  number of leading zeros of the low 52 bits, 63 when they are all zero: what the loop of
  \<open>InsertHash\<close> computes by shifting.\<close>

theorem hll_rank_counts_zeros:
  "hll_index h = unat h div 2 ^ 52 \<and>
   (let low = unat h mod 2 ^ 52 in
    if low = 0 then hll_rank h = 63
    else (\<exists>k\<le>51. 2 ^ (51 - k) \<le> low \<and> low < 2 ^ (52 - k) \<and> hll_rank h = of_nat (k + 1)))"
proof -
  let ?low = "unat h mod 2 ^ 52"
  have idx: "hll_index h = unat h div 2 ^ 52"
    unfolding hll_index_def hll_p_def by (simp add: unat_drop_bit_eq drop_bit_nat_def del: drop_bit_eq_div)
  have "hll_rank h = 63" if "?low = 0"
  proof -
    have "push_bit hll_p h = 0" using that unat_hash_remainder[of h] by (simp add: word_unat_eq_iff)
    then show ?thesis using rank_loop_zero[of 1] by (simp add: hll_rank_def)
  qed
  moreover have "\<exists>k\<le>51. 2 ^ (51 - k) \<le> ?low \<and> ?low < 2 ^ (52 - k) \<and> hll_rank h = of_nat (k + 1)"
    if ne: "?low \<noteq> 0"
  proof -
    obtain n where n: "2 ^ n \<le> ?low" "?low < 2 ^ (n + 1)"
      using ex_power_ivl1[of 2 ?low] ne by auto
    have "2 ^ n < (2::nat) ^ 52" by (rule le_less_trans[OF n(1)]) (rule mod_less_divisor, simp)
    then have n52: "n < 52" by (rule power_less_imp_less_exp[rotated]) simp
    let ?k = "51 - n"
    have k: "51 - ?k = n" "52 - ?k = n + 1" "63 - ?k = n + 12" "64 - ?k = n + 13" "?k \<le> 51"
      using n52 by auto
    have "2 ^ (n + 12) \<le> unat (push_bit hll_p h)" "unat (push_bit hll_p h) < 2 ^ (n + 13)"
      using n unat_hash_remainder[of h] by (simp_all add: power_add)
    then have "rank_loop 1 (push_bit hll_p h) = 1 + of_nat ?k"
      using k by (intro rank_loop_leading) (simp_all only: k, simp_all)
    then show ?thesis using n k by (intro exI[of _ ?k]) (simp add: hll_rank_def)
  qed
  ultimately show ?thesis using idx by (simp add: Let_def)
qed

end
