(* ===== verification/Db.thy ===== *)
theory Db
  imports Tables GoTime Hll
begin

section \<open>The database and its transactions (internal/db)\<close>

text \<open>
  One record type per table of \<open>internal/db/migrations\<close>, with the columns the program reads or
  writes, and the record \<open>db\<close> of all tables.  Ids are uuids in canonical text form.

  What lies outside the repository is gathered in the record \<open>world\<close>, a parameter of every
  operation: the clock, \<open>uuid.Parse\<close>, the driver's conversion of a text to a uuid parameter, the supply of fresh uuids, Postgres' text form of a jsonb
  number and its cast of a text to \<open>timestamptz\<close>, and \<open>w_fault\<close>, which says for every statement
  of a transaction whether the server fails it (lost connection, disk full, ...).

  A computation inside a transaction has type \<open>('e, 'a) txm\<close>: it takes and returns the transaction's
  view of the database, the number of statements sent so far and whether Postgres has put the
  transaction into the aborted state, in which every later statement fails.  \<open>run_tx\<close> is
  \<open>Begin ... defer Rollback ... Commit\<close>: only a normal return of a transaction that is not
  aborted changes the database.
\<close>

subsection \<open>Rows\<close>

type_synonym uuid = string

record project_row =
  p_id :: uuid
  p_org :: uuid
  p_name :: string
  p_slug :: string
  p_platform :: string

record ingest_key_row =
  k_id :: uuid
  k_project :: uuid
  k_name :: string
  k_created :: time
  k_revoked :: bool

record release_row =
  r_project :: uuid
  r_version :: string
  r_first :: "time option"
  r_last :: "time option"

datatype issue_status = Unresolved | Resolved | Ignored

record issue_row =
  i_id :: uuid
  i_project :: uuid
  i_fingerprint :: string
  i_version :: int
  i_title :: string
  i_culprit :: string
  i_level :: string
  i_status :: issue_status
  i_substatus :: string
  i_first_seen :: time
  i_last_seen :: time
  i_count :: int
  i_user_count :: int
  i_assignee :: "uuid option"

record event_row =
  ev_id :: uuid
  ev_timestamp :: time
  ev_project :: uuid
  ev_issue :: "uuid option"
  ev_platform :: string
  ev_level :: string
  ev_environment :: string
  ev_release :: string
  ev_dist :: string
  ev_title :: string
  ev_culprit :: string
  ev_message :: string
  ev_trace :: "uuid option"
  ev_span :: string
  ev_user_hash :: string
  ev_tags :: "(string \<times> string) list"
  ev_payload :: string
  ev_symbolicated :: "json option"

record transaction_row =
  t_id :: uuid
  t_timestamp :: time
  t_project :: uuid
  t_start :: time
  t_duration :: duration
  t_trace :: "uuid option"
  t_span :: string
  t_name :: string
  t_source :: string
  t_status :: string
  t_environment :: string
  t_release :: string
  t_dist :: string
  t_measurements :: json
  t_payload :: string

record session_row =
  s_sid :: uuid
  s_started :: time
  s_project :: uuid
  s_status :: string
  s_errors :: int
  s_duration :: "f64 option"
  s_did_hash :: string
  s_release :: string
  s_environment :: string
  s_init :: bool

record session_rollup_row =
  sr_project :: uuid
  sr_release :: string
  sr_environment :: string
  sr_hour :: time
  sr_total :: int
  sr_crashed :: int
  sr_abnormal :: int
  sr_errored :: int
  sr_exited :: int
  sr_durations :: "f64 list"
  sr_distinct :: "u8 list option"
  sr_crashed_did :: "u8 list option"

record event_rollup_row =
  er_issue :: uuid
  er_hour :: time
  er_count :: int

record project_rollup_row =
  pr_project :: uuid
  pr_hour :: time
  pr_count :: int

record feedback_row =
  fb_id :: uuid
  fb_project :: uuid
  fb_event :: "uuid option"
  fb_issue :: "uuid option"
  fb_name :: string
  fb_email :: string
  fb_message :: string
  fb_url :: string
  fb_received :: time
  fb_payload :: json

record counter_row =
  c_project :: uuid
  c_window :: time
  c_count :: int

record unknown_row =
  u_project :: uuid
  u_type :: string
  u_day :: int
  u_count :: int

record user_hash_row =
  uh_issue :: uuid
  uh_hash :: string
  uh_first_seen :: time

record db =
  projects :: "project_row list"
  ingest_keys :: "ingest_key_row list"
  releases :: "release_row list"
  issues :: "issue_row list"
  events :: "event_row list"
  transactions :: "transaction_row list"
  sessions :: "session_row list"
  session_rollups :: "session_rollup_row list"
  event_rollups :: "event_rollup_row list"
  project_rollups :: "project_rollup_row list"
  feedbacks :: "feedback_row list"
  ingest_counters :: "counter_row list"
  unknown_stats :: "unknown_row list"
  user_hashes :: "user_hash_row list"
  partitions :: "(string \<times> time \<times> time) list"
  serial :: nat

definition empty_db :: db where
  "empty_db = \<lparr>projects = [], ingest_keys = [], releases = [], issues = [], events = [],
     transactions = [], sessions = [], session_rollups = [], event_rollups = [],
     project_rollups = [], feedbacks = [], ingest_counters = [], unknown_stats = [],
     user_hashes = [], partitions = [], serial = 0\<rparr>"

record world =
  w_now :: time
  w_uuid :: "string \<Rightarrow> uuid option"
  w_pg_uuid :: "string \<Rightarrow> uuid option"
  w_fresh :: "nat \<Rightarrow> uuid"
  w_numeric :: "string \<Rightarrow> string"
  w_timestamptz :: "string \<Rightarrow> time option"
  w_fault :: "nat \<Rightarrow> bool"

text \<open>Rows of a partitioned table need a partition that covers their timestamp.\<close>

definition has_partition :: "db \<Rightarrow> string \<Rightarrow> time \<Rightarrow> bool" where
  "has_partition d tbl t \<longleftrightarrow>
     list_ex (\<lambda>(n, from, to). n = tbl \<and> from \<le> t \<and> t < to) (partitions d)"

definition project_exists :: "db \<Rightarrow> uuid \<Rightarrow> bool" where
  "project_exists d pid \<longleftrightarrow> list_ex (\<lambda>p. p_id p = pid) (projects d)"

subsection \<open>Statements and transactions\<close>

text \<open>A statement answers and changes the database, or is rejected (\<open>None\<close>) by a constraint.\<close>

type_synonym 'a stmt = "db \<Rightarrow> ('a \<times> db) option"

record txs =
  tx_db :: db
  tx_count :: nat
  tx_aborted :: bool

type_synonym ('s, 'e, 'a) sm = "'s \<Rightarrow> ('e + 'a) \<times> 's"  \<comment> \<open>state and errors\<close>
type_synonym ('e, 'a) txm = "(txs, 'e, 'a) sm"

definition ret :: "'a \<Rightarrow> ('s, 'e, 'a) sm" where "ret a s = (Inr a, s)"

definition fail :: "'e \<Rightarrow> ('s, 'e, 'a) sm" where "fail e s = (Inl e, s)"

definition bind :: "('s, 'e, 'a) sm \<Rightarrow> ('a \<Rightarrow> ('s, 'e, 'b) sm) \<Rightarrow> ('s, 'e, 'b) sm" where
  "bind m f s = (case m s of (Inl e, s') \<Rightarrow> (Inl e, s') | (Inr a, s') \<Rightarrow> f a s')"

text \<open>\<open>tx.Exec\<close> and \<open>tx.QueryRow\<close>: a failing statement aborts the transaction.\<close>

definition exec :: "world \<Rightarrow> 'a stmt \<Rightarrow> (unit, 'a) txm" where
  "exec w q s =
     (let s' = s\<lparr>tx_count := Suc (tx_count s)\<rparr> in
      if tx_aborted s \<or> w_fault w (tx_count s) then (Inl (), s'\<lparr>tx_aborted := True\<rparr>)
      else case q (tx_db s) of
        None \<Rightarrow> (Inl (), s'\<lparr>tx_aborted := True\<rparr>)
      | Some (a, d) \<Rightarrow> (Inr a, s'\<lparr>tx_db := d\<rparr>))"

text \<open>\<open>if err != nil { return ... }\<close> after a statement, and a discarded error \<open>_, _ = ...\<close>.\<close>

definition must :: "'e \<Rightarrow> ('s, unit, 'a) sm \<Rightarrow> ('s, 'e, 'a) sm" where
  "must e m s = (case m s of (Inl _, s') \<Rightarrow> (Inl e, s') | (Inr a, s') \<Rightarrow> (Inr a, s'))"

definition attempt :: "('s, 'd, 'a) sm \<Rightarrow> ('s, 'e, 'a option) sm" where
  "attempt m s = (case m s of (Inl _, s') \<Rightarrow> (Inr None, s') | (Inr a, s') \<Rightarrow> (Inr (Some a), s'))"

definition lift_res :: "'e + 'a \<Rightarrow> ('s, 'e, 'a) sm" where
  "lift_res r s = (r, s)"

definition run_tx :: "world \<Rightarrow> 'e \<Rightarrow> ('e, 'a) txm \<Rightarrow> db \<Rightarrow> ('e + 'a) \<times> db" where
  "run_tx w commit_err m d =
     (if w_fault w 0 then (Inl commit_err, d)
      else case m \<lparr>tx_db = d, tx_count = 1, tx_aborted = False\<rparr> of
        (Inl e, s) \<Rightarrow> (Inl e, d)
      | (Inr a, s) \<Rightarrow>
          if tx_aborted s \<or> w_fault w (tx_count s) then (Inl commit_err, d) else (Inr a, tx_db s))"

text \<open>A statement outside a transaction commits at once.\<close>

definition auto :: "bool \<Rightarrow> 'a stmt \<Rightarrow> db \<Rightarrow> 'a option \<times> db" where
  "auto fault q d = (if fault then (None, d) else case q d of None \<Rightarrow> (None, d) | Some (a, d') \<Rightarrow> (Some a, d'))"

definition fresh_uuid :: "world \<Rightarrow> db \<Rightarrow> uuid \<times> db" where
  "fresh_uuid w d = (w_fresh w (serial d), d\<lparr>serial := Suc (serial d)\<rparr>)"

named_theorems tx_simps \<open>unfolding rules of the transaction combinators\<close>

lemma bind_simps [tx_simps]:
  "bind (ret a) f = f a" "bind (fail e) f = fail e" "bind m ret = m"
  by (auto simp: fun_eq_iff bind_def ret_def fail_def split: prod.splits sum.splits)

lemma bind_total: "m s = (Inr a, s') \<Longrightarrow> bind m f s = f a s'"
  by (simp add: bind_def)

lemma bind_Inr: "bind m f s = (Inr b, s'') \<longleftrightarrow> (\<exists>a s'. m s = (Inr a, s') \<and> f a s' = (Inr b, s''))"
  by (auto simp: bind_def split: prod.splits sum.splits)

lemma must_Inr [simp]: "must e m s = (Inr a, s') \<longleftrightarrow> m s = (Inr a, s')"
  by (auto simp: must_def split: prod.splits sum.splits)

lemma ret_Inr [simp]: "ret a s = (Inr b, s') \<longleftrightarrow> a = b \<and> s = s'"
  by (auto simp: ret_def)

lemma fail_Inr [simp]: "\<not> fail e s = (Inr b, s')"
  by (simp add: fail_def)

lemma lift_res_Inr [simp]: "lift_res r s = (Inr b, s') \<longleftrightarrow> r = Inr b \<and> s = s'"
  by (auto simp: lift_res_def)

lemma exec_Inr: "exec w q s = (Inr a, s') \<longleftrightarrow>
    \<not> tx_aborted s \<and> \<not> w_fault w (tx_count s) \<and>
    (\<exists>d. q (tx_db s) = Some (a, d) \<and> s' = s\<lparr>tx_count := Suc (tx_count s), tx_db := d\<rparr>)"
  by (auto simp: exec_def Let_def split: option.splits)

text \<open>
  Once aborted, a transaction stays aborted, whatever the program does next: a discarded error
  cannot be committed.
\<close>

definition sticky :: "('e, 'a) txm \<Rightarrow> bool" where
  "sticky m \<longleftrightarrow> (\<forall>s. tx_aborted s \<longrightarrow> tx_aborted (snd (m s)))"

named_theorems sticky_intros \<open>operations that keep an aborted transaction aborted\<close>

lemma sticky_ret [sticky_intros, intro]: "sticky (ret a)"
  by (simp add: sticky_def ret_def)

lemma sticky_fail [sticky_intros, intro]: "sticky (fail e)"
  by (simp add: sticky_def fail_def)

lemma sticky_lift [sticky_intros, intro]: "sticky (lift_res r)"
  by (simp add: sticky_def lift_res_def)

lemma sticky_exec [sticky_intros, intro]: "sticky (exec w q)"
  by (auto simp: sticky_def exec_def Let_def)

lemma sticky_must [sticky_intros, intro]: "sticky m \<Longrightarrow> sticky (must e m)"
  unfolding sticky_def must_def by (auto split: prod.splits sum.splits)

lemma sticky_attempt [sticky_intros, intro]: "sticky m \<Longrightarrow> sticky (attempt m)"
  unfolding sticky_def attempt_def by (auto split: prod.splits sum.splits)

lemma sticky_bind [sticky_intros, intro]: "sticky m \<Longrightarrow> (\<And>a. sticky (f a)) \<Longrightarrow> sticky (bind m f)"
  unfolding sticky_def bind_def by (auto split: prod.splits sum.splits)

lemma sticky_if [sticky_intros]: "sticky x \<Longrightarrow> sticky y \<Longrightarrow> sticky (if b then x else y)"
  by simp

lemma sticky_prod [sticky_intros]: "(\<And>a b. sticky (f a b)) \<Longrightarrow> sticky (case p of (a, b) \<Rightarrow> f a b)"
  by (simp split: prod.split)

lemma sticky_option [sticky_intros]:
  "sticky x \<Longrightarrow> (\<And>a. sticky (f a)) \<Longrightarrow> sticky (case z of None \<Rightarrow> x | Some a \<Rightarrow> f a)"
  by (simp split: option.split)

text \<open>A predicate on databases that every step of a computation keeps.\<close>

definition keeps :: "(db \<Rightarrow> bool) \<Rightarrow> ('e, 'a) txm \<Rightarrow> bool" where
  "keeps I m \<longleftrightarrow> (\<forall>s. I (tx_db s) \<longrightarrow> I (tx_db (snd (m s))))"

named_theorems keeps_intros \<open>operations that keep an invariant of the database\<close>

lemma keeps_ret [keeps_intros, intro]: "keeps I (ret a)"
  by (simp add: keeps_def ret_def)

lemma keeps_fail [keeps_intros, intro]: "keeps I (fail e)"
  by (simp add: keeps_def fail_def)

lemma keeps_lift [keeps_intros, intro]: "keeps I (lift_res r)"
  by (simp add: keeps_def lift_res_def)

lemma keeps_exec: "(\<And>d a d'. I d \<Longrightarrow> q d = Some (a, d') \<Longrightarrow> I d') \<Longrightarrow> keeps I (exec w q)"
  by (auto simp: keeps_def exec_def Let_def split: option.splits)

lemma keeps_must [keeps_intros, intro]: "keeps I m \<Longrightarrow> keeps I (must e m)"
  unfolding keeps_def must_def by (auto split: prod.splits sum.splits)

lemma keeps_attempt [keeps_intros, intro]: "keeps I m \<Longrightarrow> keeps I (attempt m)"
  unfolding keeps_def attempt_def by (auto split: prod.splits sum.splits)

lemma keeps_bind [keeps_intros, intro]: "keeps I m \<Longrightarrow> (\<And>a. keeps I (f a)) \<Longrightarrow> keeps I (bind m f)"
  unfolding keeps_def bind_def by (auto split: prod.splits sum.splits)

lemma keeps_if [keeps_intros]: "keeps I x \<Longrightarrow> keeps I y \<Longrightarrow> keeps I (if b then x else y)"
  by simp

lemma keeps_prod [keeps_intros]: "(\<And>a b. keeps I (f a b)) \<Longrightarrow> keeps I (case p of (a, b) \<Rightarrow> f a b)"
  by (simp split: prod.split)

lemma keeps_option [keeps_intros]:
  "keeps I x \<Longrightarrow> (\<And>a. keeps I (f a)) \<Longrightarrow> keeps I (case z of None \<Rightarrow> x | Some a \<Rightarrow> f a)"
  by (simp split: option.split)

lemma run_tx_cases:
  obtains (ok) a s where "run_tx w e m d = (Inr a, tx_db s)" "\<not> tx_aborted s"
      "m \<lparr>tx_db = d, tx_count = 1, tx_aborted = False\<rparr> = (Inr a, s)"
  | (err) e' where "run_tx w e m d = (Inl e', d)"
  by (fastforce simp: run_tx_def split: prod.splits sum.splits if_splits)

lemma run_tx_keeps: "keeps I m \<Longrightarrow> I d \<Longrightarrow> I (snd (run_tx w e m d))"
proof (cases rule: run_tx_cases[of w e m d])
  case (ok a s)
  assume "keeps I m" "I d"
  then show ?thesis using ok(1,3) unfolding keeps_def by (metis select_convs(1) snd_conv txs.select_convs(1))
qed simp

subsection \<open>Successful runs\<close>

text \<open>\<open>runs m s a s'\<close>: \<open>m\<close> returns \<open>a\<close> without error and leaves the transaction fit to commit.\<close>

definition runs :: "('e, 'a) txm \<Rightarrow> txs \<Rightarrow> 'a \<Rightarrow> txs \<Rightarrow> bool" where
  "runs m s a s' \<longleftrightarrow> m s = (Inr a, s') \<and> \<not> tx_aborted s'"

named_theorems runs_simps \<open>decomposition of successful runs\<close>

lemma runs_ret [runs_simps]: "runs (ret a) s b s' \<longleftrightarrow> b = a \<and> s' = s \<and> \<not> tx_aborted s"
  by (auto simp: runs_def)

lemma runs_fail [runs_simps]: "runs (fail e) s b s' \<longleftrightarrow> False"
  by (simp add: runs_def)

lemma runs_lift [runs_simps]: "runs (lift_res r) s b s' \<longleftrightarrow> r = Inr b \<and> s' = s \<and> \<not> tx_aborted s"
  by (auto simp: runs_def)

lemma runs_must [runs_simps]: "runs (must e m) s a s' \<longleftrightarrow> runs m s a s'"
  by (simp add: runs_def)

lemma runs_exec [runs_simps]: "runs (exec w q) s a s' \<longleftrightarrow>
    \<not> tx_aborted s \<and> \<not> w_fault w (tx_count s) \<and>
    (\<exists>d. q (tx_db s) = Some (a, d) \<and> s' = s\<lparr>tx_count := Suc (tx_count s), tx_db := d\<rparr>)"
  by (auto simp: runs_def exec_Inr)

lemma runs_attempt [runs_simps]: "runs (attempt (exec w q)) s x s' \<longleftrightarrow> (\<exists>a. x = Some a \<and> runs (exec w q) s a s')"
  unfolding runs_def attempt_def
  by (auto simp: exec_def Let_def split: option.splits if_splits)

lemma runs_bind: "(\<And>a. sticky (f a)) \<Longrightarrow>
    runs (bind m f) s b s'' \<longleftrightarrow> (\<exists>a s'. runs m s a s' \<and> runs (f a) s' b s'')"
  unfolding runs_def bind_Inr sticky_def by (metis sndI)

lemma run_tx_runs: "run_tx w e m d = (Inr a, d') \<Longrightarrow>
    \<exists>s'. runs m \<lparr>tx_db = d, tx_count = 1, tx_aborted = False\<rparr> a s' \<and> d' = tx_db s' \<and>
      \<not> w_fault w 0 \<and> \<not> w_fault w (tx_count s')"
  by (auto simp: run_tx_def runs_def split: prod.splits sum.splits if_splits)

lemma run_tx_error: "run_tx w e m d = (Inl x, d') \<Longrightarrow> d' = d"
  by (auto simp: run_tx_def split: prod.splits sum.splits if_splits)

text \<open>In a successful run no statement was failed by the server, not even one whose error is discarded.\<close>

definition honest :: "world \<Rightarrow> ('e, 'a) txm \<Rightarrow> bool" where
  "honest w m \<longleftrightarrow> (\<forall>s a s'. runs m s a s' \<longrightarrow> \<not> tx_aborted s \<and> tx_count s \<le> tx_count s' \<and>
     (\<forall>k. tx_count s \<le> k \<and> k < tx_count s' \<longrightarrow> \<not> w_fault w k))"

named_theorems honest_intros \<open>operations whose success means that no statement failed\<close>

lemma honest_ret [honest_intros]: "honest w (ret a)"
  by (auto simp: honest_def runs_simps)

lemma honest_fail [honest_intros]: "honest w (fail e)"
  by (simp add: honest_def runs_simps)

lemma honest_lift [honest_intros]: "honest w (lift_res r)"
  by (auto simp: honest_def runs_simps)

lemma honest_exec [honest_intros]: "honest w (exec w q)"
  by (auto simp: honest_def runs_simps less_Suc_eq)

lemma honest_must [honest_intros]: "honest w m \<Longrightarrow> honest w (must e m)"
  by (simp add: honest_def runs_simps)

lemma honest_attempt [honest_intros]: "honest w (attempt (exec w q))"
  using honest_exec[of w q] by (auto simp: honest_def runs_simps(6))

lemma honest_bind [honest_intros]:
  assumes "honest w m" "\<And>a. honest w (f a)" "\<And>a. sticky (f a)"
  shows "honest w (bind m f)"
  unfolding honest_def
proof (intro allI impI)
  fix s b s'' assume "runs (bind m f) s b s''"
  then obtain a s' where "runs m s a s'" "runs (f a) s' b s''"
    using runs_bind assms(3) by metis
  then have "\<not> tx_aborted s \<and> tx_count s \<le> tx_count s' \<and> (\<forall>k. tx_count s \<le> k \<and> k < tx_count s' \<longrightarrow> \<not> w_fault w k)"
    "tx_count s' \<le> tx_count s'' \<and> (\<forall>k. tx_count s' \<le> k \<and> k < tx_count s'' \<longrightarrow> \<not> w_fault w k)"
    using assms(1,2) unfolding honest_def by blast+
  then show "\<not> tx_aborted s \<and> tx_count s \<le> tx_count s'' \<and>
     (\<forall>k. tx_count s \<le> k \<and> k < tx_count s'' \<longrightarrow> \<not> w_fault w k)"
    by (meson le_less_linear le_trans)
qed

lemma honest_if [honest_intros]: "honest w x \<Longrightarrow> honest w y \<Longrightarrow> honest w (if b then x else y)"
  by simp

lemma honest_prod [honest_intros]: "(\<And>a b. honest w (f a b)) \<Longrightarrow> honest w (case p of (a, b) \<Rightarrow> f a b)"
  by (simp split: prod.split)

lemma honest_option [honest_intros]:
  "honest w x \<Longrightarrow> (\<And>a. honest w (f a)) \<Longrightarrow> honest w (case z of None \<Rightarrow> x | Some a \<Rightarrow> f a)"
  by (simp split: option.split)

lemma keeps_runs: "keeps I m \<Longrightarrow> runs m s a s' \<Longrightarrow> I (tx_db s) \<Longrightarrow> I (tx_db s')"
  unfolding keeps_def runs_def by (metis snd_conv)

end
