(* ===== verification/Store.thy ===== *)
theory Store
  imports Payload Grouping Db
begin

section \<open>Persisting envelope items (internal/ingest/store.go, Process of pipeline.go)\<close>

text \<open>
  Every handler is a computation in the transaction of \<open>Process\<close>; each SQL statement is a function
  on the database (\<open>None\<close> is a constraint violation) sent with \<open>exec\<close>.  \<open>must\<close> is a checked
  error, \<open>attempt\<close> a discarded one.  Timestamps are stored at Postgres' microsecond precision
  (\<open>pg_time\<close>).
\<close>

definition pg_time :: "time \<Rightarrow> time" where "pg_time t = t - t mod 1000"

definition in_int32 :: "int \<Rightarrow> bool" where "in_int32 i \<longleftrightarrow> - (2 ^ 31) \<le> i \<and> i < 2 ^ 31"

record alert_signal =
  sg_issue :: uuid
  sg_event :: uuid
  sg_new :: bool
  sg_regression :: bool
  sg_environment :: string
  sg_release :: string
  sg_level :: string

text \<open>\<open>gen_random_uuid()\<close> in a statement and \<open>uuid.New()\<close> in the program draw from one supply.\<close>

definition gen_uuid :: "world \<Rightarrow> ('e, uuid) txm" where
  "gen_uuid w s = (case fresh_uuid w (tx_db s) of (u, d) \<Rightarrow> (Inr u, s\<lparr>tx_db := d\<rparr>))"

subsection \<open>Issues\<close>

definition issue_key :: "issue_row \<Rightarrow> uuid \<times> string" where
  "issue_key i = (i_project i, i_fingerprint i)"

definition issue_upd :: "normalized_event \<Rightarrow> string \<Rightarrow> time \<Rightarrow> issue_row \<Rightarrow> issue_row" where
  "issue_upd norm level ts i = i\<lparr>
     i_count := i_count i + 1,
     i_last_seen := max (i_last_seen i) ts,
     i_level := level,
     i_title := n_title norm,
     i_culprit := n_culprit norm,
     i_status := (if i_status i = Resolved then Unresolved else i_status i),
     i_substatus := (if i_status i = Resolved then ''regressed'' else i_substatus i)\<rparr>"

definition issue_new :: "uuid \<Rightarrow> uuid \<Rightarrow> normalized_event \<Rightarrow> string \<Rightarrow> time \<Rightarrow> issue_row" where
  "issue_new u pid norm level ts = \<lparr>i_id = u, i_project = pid, i_fingerprint = n_fingerprint norm,
     i_version = grouping_version, i_title = n_title norm, i_culprit = n_culprit norm,
     i_level = level, i_status = Unresolved, i_substatus = [], i_first_seen = ts,
     i_last_seen = ts, i_count = 1, i_user_count = 0, i_assignee = None\<rparr>"

definition q_issue_status :: "uuid \<Rightarrow> string \<Rightarrow> issue_status option stmt" where
  "q_issue_status pid fp d = Some (map_option i_status (get_key issue_key (pid, fp) (issues d)), d)"

definition q_upsert_issue :: "world \<Rightarrow> uuid \<Rightarrow> normalized_event \<Rightarrow> string \<Rightarrow> time \<Rightarrow> uuid stmt" where
  "q_upsert_issue w pid norm level ts d =
     (if \<not> project_exists d pid then None
      else
        let k = (pid, n_fingerprint norm);
            (u, d) = fresh_uuid w d;
            rows = upsert (\<lambda>i. issue_key i = k) (issue_upd norm level ts)
                     (issue_new u pid norm level ts) (issues d)
        in map_option (\<lambda>i. (i_id i, d\<lparr>issues := rows\<rparr>)) (get_key issue_key k rows))"

definition q_user_hash :: "world \<Rightarrow> uuid \<Rightarrow> string \<Rightarrow> nat stmt" where
  "q_user_hash w iid h d =
     (case insert_new (\<lambda>r. uh_issue r = iid \<and> uh_hash r = h)
             \<lparr>uh_issue = iid, uh_hash = h, uh_first_seen = w_now w\<rparr> (user_hashes d) of
        (n, rows) \<Rightarrow> Some (n, d\<lparr>user_hashes := rows\<rparr>))"

definition q_bump_users :: "uuid \<Rightarrow> unit stmt" where
  "q_bump_users iid d = Some ((), d\<lparr>issues :=
     update_where (\<lambda>i. i_id i = iid) (\<lambda>i. i\<lparr>i_user_count := i_user_count i + 1\<rparr>) (issues d)\<rparr>)"

definition upsert_issue ::
    "world \<Rightarrow> uuid \<Rightarrow> normalized_event \<Rightarrow> string \<Rightarrow> string \<Rightarrow> time \<Rightarrow> (store_error, uuid \<times> bool \<times> bool) txm" where
  "upsert_issue w pid norm level user_h ts =
     bind (attempt (exec w (q_issue_status pid (n_fingerprint norm)))) (\<lambda>prev.
     let prev_status = (case prev of None \<Rightarrow> None | Some st \<Rightarrow> st);
         is_new = (prev_status = None);
         was_resolved = (prev_status = Some Resolved) in
     bind (must E_issue (exec w (q_upsert_issue w pid norm level (pg_time ts)))) (\<lambda>iid.
     bind (if user_h = [] then ret ()
           else
             bind (must E_issue (exec w (q_user_hash w iid user_h))) (\<lambda>n.
               if n > 0 then must E_issue (exec w (q_bump_users iid)) else ret ())) (\<lambda>_.
     ret (iid, is_new, was_resolved))))"

subsection \<open>Releases\<close>

definition release_key :: "release_row \<Rightarrow> uuid \<times> string" where
  "release_key r = (r_project r, r_version r)"

definition release_upd :: "time \<Rightarrow> release_row \<Rightarrow> release_row" where
  "release_upd ts r = r\<lparr>
     r_last := (case r_last r of None \<Rightarrow> Some ts | Some l \<Rightarrow> Some (max l ts)),
     r_first := (case r_first r of None \<Rightarrow> Some ts | Some f \<Rightarrow> Some f)\<rparr>"

definition release_new :: "uuid \<Rightarrow> string \<Rightarrow> time \<Rightarrow> release_row" where
  "release_new pid v ts = \<lparr>r_project = pid, r_version = v, r_first = Some ts, r_last = Some ts\<rparr>"

definition q_release :: "uuid \<Rightarrow> string \<Rightarrow> time \<Rightarrow> unit stmt" where
  "q_release pid v ts d =
     (if \<not> project_exists d pid then None
      else Some ((), d\<lparr>releases := upsert (\<lambda>r. release_key r = (pid, v)) (release_upd ts)
             (release_new pid v ts) (releases d)\<rparr>))"

definition touch_release :: "world \<Rightarrow> uuid \<Rightarrow> string \<Rightarrow> time \<Rightarrow> (store_error, unit) txm" where
  "touch_release w pid release ts =
     (if release = [] then ret () else must E_sql (exec w (q_release pid release (pg_time ts))))"

subsection \<open>Feedback that waits for its event\<close>

text \<open>
  \<open>payload->>'timestamp'\<close>: the text of the last member of that name.  Of an array or object only
  the opening bracket is kept: such a text is no number and no timestamp.
\<close>

definition json_text :: "world \<Rightarrow> json \<Rightarrow> string option" where
  "json_text w v = (case v of
     JNull \<Rightarrow> None
   | JBool b \<Rightarrow> Some (if b then ''true'' else ''false'')
   | JNum n \<Rightarrow> Some (w_numeric w n)
   | JStr s \<Rightarrow> Some s
   | JArr _ \<Rightarrow> Some ''[''
   | JObj _ \<Rightarrow> Some ''{'')"

definition payload_timestamp :: "world \<Rightarrow> json \<Rightarrow> string option" where
  "payload_timestamp w v = (case v of
     JObj kvs \<Rightarrow> (case map_of (rev kvs) ''timestamp'' of None \<Rightarrow> None | Some x \<Rightarrow> json_text w x)
   | _ \<Rightarrow> None)"

definition plain_number :: "string \<Rightarrow> bool" where
  "plain_number s \<longleftrightarrow>
     (let i = takeWhile is_digit s; r = dropWhile is_digit s in
      i \<noteq> [] \<and> (r = [] \<or> (hd r = CHR ''.'' \<and> tl r \<noteq> [] \<and> list_all is_digit (tl r))))"

text \<open>
  Whether a waiting row is linked to an event at \<open>ts\<close>; \<open>None\<close> when the cast of its timestamp to
  \<open>timestamptz\<close> is rejected, which fails the whole statement.
\<close>

definition in_window :: "world \<Rightarrow> time \<Rightarrow> json \<Rightarrow> bool option" where
  "in_window w ts v =
     (case payload_timestamp w v of
        None \<Rightarrow> Some True
      | Some s \<Rightarrow>
          if s = [] then Some True
          else
            (case (if plain_number s
                   then map_option (\<lambda>f. 1000 * f64_to_int (f64_mul_int f 1000000)) (f64_of_lit s)
                   else w_timestamptz w s) of
               None \<Rightarrow> None
             | Some t \<Rightarrow> Some (\<bar>t - pg_time ts\<bar> \<le> 1800 * second)))"

definition waits_for :: "uuid \<Rightarrow> uuid \<Rightarrow> feedback_row \<Rightarrow> bool" where
  "waits_for pid eid f \<longleftrightarrow> fb_project f = pid \<and> fb_event f = Some eid \<and> fb_issue f = None"

definition q_backfill :: "world \<Rightarrow> uuid \<Rightarrow> uuid \<Rightarrow> uuid \<Rightarrow> time \<Rightarrow> unit stmt" where
  "q_backfill w pid iid eid ts d =
     (if list_ex (\<lambda>f. waits_for pid eid f \<and> in_window w ts (fb_payload f) = None) (feedbacks d) then None
      else Some ((), d\<lparr>feedbacks := update_where
             (\<lambda>f. waits_for pid eid f \<and> in_window w ts (fb_payload f) = Some True)
             (\<lambda>f. f\<lparr>fb_issue := Some iid\<rparr>) (feedbacks d)\<rparr>))"

definition backfill_feedback :: "world \<Rightarrow> uuid \<Rightarrow> uuid \<Rightarrow> uuid \<Rightarrow> time \<Rightarrow> (store_error, unit) txm" where
  "backfill_feedback w pid iid eid ts =
     bind (attempt (exec w (q_backfill w pid iid eid ts))) (\<lambda>_. ret ())"

subsection \<open>Error events\<close>

definition event_key :: "event_row \<Rightarrow> uuid \<times> time" where
  "event_key e = (ev_id e, ev_timestamp e)"

definition q_insert_event :: "event_row \<Rightarrow> nat stmt" where
  "q_insert_event row d =
     (if \<not> project_exists d (ev_project row) \<or> \<not> has_partition d ''events_part'' (ev_timestamp row) then None
      else case insert_new (\<lambda>e. event_key e = event_key row) row (events d) of
        (n, rows) \<Rightarrow> Some (n, d\<lparr>events := rows\<rparr>))"

definition q_set_issue :: "uuid \<Rightarrow> uuid \<Rightarrow> time \<Rightarrow> unit stmt" where
  "q_set_issue eid iid ts d = Some ((), d\<lparr>events :=
     update_where (\<lambda>e. event_key e = (eid, ts)) (\<lambda>e. e\<lparr>ev_issue := Some iid\<rparr>) (events d)\<rparr>)"

definition rollup_key :: "event_rollup_row \<Rightarrow> uuid \<times> time" where
  "rollup_key r = (er_issue r, er_hour r)"

definition rollup_upd :: "event_rollup_row \<Rightarrow> event_rollup_row" where
  "rollup_upd r = r\<lparr>er_count := er_count r + 1\<rparr>"

definition rollup_new :: "uuid \<Rightarrow> time \<Rightarrow> event_rollup_row" where
  "rollup_new iid h = \<lparr>er_issue = iid, er_hour = h, er_count = 1\<rparr>"

definition q_event_rollup :: "uuid \<Rightarrow> time \<Rightarrow> unit stmt" where
  "q_event_rollup iid h d = Some ((), d\<lparr>event_rollups :=
     upsert (\<lambda>r. rollup_key r = (iid, h)) rollup_upd (rollup_new iid h) (event_rollups d)\<rparr>)"

definition prollup_key :: "project_rollup_row \<Rightarrow> uuid \<times> time" where
  "prollup_key r = (pr_project r, pr_hour r)"

definition prollup_upd :: "project_rollup_row \<Rightarrow> project_rollup_row" where
  "prollup_upd r = r\<lparr>pr_count := pr_count r + 1\<rparr>"

definition prollup_new :: "uuid \<Rightarrow> time \<Rightarrow> project_rollup_row" where
  "prollup_new pid h = \<lparr>pr_project = pid, pr_hour = h, pr_count = 1\<rparr>"

definition q_project_rollup :: "uuid \<Rightarrow> time \<Rightarrow> unit stmt" where
  "q_project_rollup pid h d =
     (if \<not> project_exists d pid then None
      else Some ((), d\<lparr>project_rollups :=
        upsert (\<lambda>r. prollup_key r = (pid, h)) prollup_upd (prollup_new pid h) (project_rollups d)\<rparr>))"

definition null_uuid :: "world \<Rightarrow> string \<Rightarrow> uuid option" where
  "null_uuid w s = (if s = [] then None else w_uuid w s)"

text \<open>
  Everything \<open>storeEvent\<close> computes before its first statement: the row, the event's time, the
  normalized event and the level.
\<close>

definition prepare_event ::
    "world \<Rightarrow> envelope \<Rightarrow> item \<Rightarrow> uuid \<Rightarrow> store_error + (event_row \<times> time \<times> normalized_event)" where
  "prepare_event w env item pid =
     bnd (of_opt E_payload (unmarshal dec_event_payload event_payload0 (it_payload item))) (\<lambda>p.
     bnd (event_id_from (w_uuid w) env (pl_event_id p)) (\<lambda>eid.
     bnd (if pl_timestamp p = None then Inr (w_now w) else parse_timestamp (pl_timestamp p)) (\<lambda>ts.
     let platform = (if pl_platform p = [] then ''javascript'' else pl_platform p);
         level = (if pl_level p = [] then ''error'' else pl_level p);
         environment = (if pl_environment p = [] then ''production'' else pl_environment p) in
     bnd (of_opt E_normalize (normalize_event (it_payload item))) (\<lambda>norm.
     Inr (\<lparr>ev_id = eid, ev_timestamp = pg_time ts, ev_project = pid, ev_issue = None,
           ev_platform = platform, ev_level = level, ev_environment = environment,
           ev_release = pl_release p, ev_dist = pl_dist p, ev_title = n_title norm,
           ev_culprit = n_culprit norm, ev_message = pl_message p,
           ev_trace = null_uuid w (tr_trace_id (pl_trace p)), ev_span = tr_span_id (pl_trace p),
           ev_user_hash = user_hash (pl_user p), ev_tags = parse_tags (pl_tags p),
           ev_payload = it_payload item, ev_symbolicated = None\<rparr>, ts, norm)))))"

text \<open>The rest of \<open>storeEvent\<close>; the answer is whether the event was a duplicate, and its signal.\<close>

definition store_row ::
    "world \<Rightarrow> event_row \<Rightarrow> time \<Rightarrow> normalized_event \<Rightarrow> (store_error, bool \<times> alert_signal option) txm" where
  "store_row w row ts norm =
     (let pid = ev_project row; eid = ev_id row in
      bind (must E_sql (exec w (q_insert_event row))) (\<lambda>n.
      if n = 0 then ret (True, None)
      else
        bind (upsert_issue w pid norm (ev_level row) (ev_user_hash row) ts) (\<lambda>(iid, is_new, is_regr).
        bind (must E_sql (exec w (q_set_issue eid iid (pg_time ts)))) (\<lambda>_.
        bind (backfill_feedback w pid iid eid ts) (\<lambda>_.
        bind (must E_sql (exec w (q_event_rollup iid (truncate_to ts hour)))) (\<lambda>_.
        bind (touch_release w pid (ev_release row) ts) (\<lambda>_.
        bind (attempt (exec w (q_project_rollup pid (truncate_to ts hour)))) (\<lambda>_.
        ret (False, Some \<lparr>sg_issue = iid, sg_event = eid, sg_new = is_new, sg_regression = is_regr,
               sg_environment = ev_environment row, sg_release = ev_release row,
               sg_level = ev_level row\<rparr>)))))))))"

definition store_event ::
    "world \<Rightarrow> envelope \<Rightarrow> item \<Rightarrow> uuid \<Rightarrow> (store_error, bool \<times> alert_signal option) txm" where
  "store_event w env item pid =
     bind (lift_res (prepare_event w env item pid)) (\<lambda>(row, ts, norm). store_row w row ts norm)"

subsection \<open>Transactions\<close>

definition tx_key :: "transaction_row \<Rightarrow> uuid \<times> time" where
  "tx_key t = (t_id t, t_timestamp t)"

text \<open>An absent \<open>measurements\<close> is sent as NULL into a NOT NULL column.\<close>

definition q_insert_tx :: "transaction_row \<Rightarrow> json option \<Rightarrow> nat stmt" where
  "q_insert_tx row meas d =
     (case meas of
        None \<Rightarrow> None
      | Some m \<Rightarrow>
          if \<not> project_exists d (t_project row) \<or> \<not> has_partition d ''transactions_part'' (t_timestamp row)
          then None
          else case insert_new (\<lambda>t. tx_key t = tx_key row) (row\<lparr>t_measurements := m\<rparr>) (transactions d) of
            (n, rows) \<Rightarrow> Some (n, d\<lparr>transactions := rows\<rparr>))"

definition prepare_tx ::
    "world \<Rightarrow> envelope \<Rightarrow> item \<Rightarrow> uuid \<Rightarrow> store_error + (transaction_row \<times> time \<times> json option)" where
  "prepare_tx w env item pid =
     bnd (of_opt E_payload (unmarshal dec_tx_payload tx_payload0 (it_payload item))) (\<lambda>p.
     bnd (event_id_from (w_uuid w) env (pl_event_id p)) (\<lambda>eid.
     if pl_start_timestamp p = None then Inl E_start_timestamp
     else bnd (parse_timestamp (pl_start_timestamp p)) (\<lambda>start_ts.
       let end_ts = (case parse_timestamp (pl_timestamp p) of Inl _ \<Rightarrow> w_now w | Inr t \<Rightarrow> t) in
       if end_ts < start_ts then Inl E_order
       else
         let environment = (if pl_environment p = [] then ''production'' else pl_environment p) in
         Inr (\<lparr>t_id = eid, t_timestamp = pg_time end_ts, t_project = pid, t_start = pg_time start_ts,
               t_duration = end_ts - start_ts, t_trace = null_uuid w (tr_trace_id (pl_trace p)),
               t_span = tr_span_id (pl_trace p), t_name = pl_transaction p, t_source = pl_source p,
               t_status = tr_status (pl_trace p), t_environment = environment,
               t_release = pl_release p, t_dist = pl_dist p, t_measurements = JNull,
               t_payload = it_payload item\<rparr>, start_ts, pl_measurements p))))"

definition store_transaction :: "world \<Rightarrow> envelope \<Rightarrow> item \<Rightarrow> uuid \<Rightarrow> (store_error, bool) txm" where
  "store_transaction w env item pid =
     bind (lift_res (prepare_tx w env item pid)) (\<lambda>(row, start_ts, meas).
     bind (must E_sql (exec w (q_insert_tx row meas))) (\<lambda>n.
     if n = 0 then ret True
     else bind (touch_release w pid (t_release row) start_ts) (\<lambda>_. ret False)))"

end
