(* ===== verification/Process.thy ===== *)
theory Process
  imports Store
begin

section \<open>Sessions, feedback and the pipeline (internal/ingest/store.go, pipeline.go)\<close>

text \<open>
  \<open>store_session\<close>, \<open>store_session_aggregates\<close> and \<open>store_feedback\<close> translate the remaining item
  handlers; \<open>process\<close> is \<open>Processor.Process\<close>: the items of an envelope, in order, in one
  transaction.
\<close>

subsection \<open>Sessions\<close>

definition session_key :: "session_row \<Rightarrow> uuid \<times> time" where
  "session_key s = (s_sid s, s_started s)"

definition terminal :: "string \<Rightarrow> bool" where
  "terminal st \<longleftrightarrow> st \<in> {''crashed'', ''exited'', ''abnormal''}"

definition session_upd :: "session_row \<Rightarrow> session_row \<Rightarrow> session_row" where
  "session_upd new s = s\<lparr>
     s_status := (if terminal (s_status s) then s_status s else s_status new),
     s_errors := max (s_errors s) (s_errors new),
     s_duration := (case s_duration new of Some x \<Rightarrow> Some x | None \<Rightarrow> s_duration s)\<rparr>"

definition q_session :: "session_row \<Rightarrow> unit stmt" where
  "q_session row d =
     (if \<not> project_exists d (s_project row) \<or> \<not> has_partition d ''sessions_part'' (s_started row)
         \<or> \<not> in_int32 (s_errors row) then None
      else Some ((), d\<lparr>sessions :=
        upsert (\<lambda>s. session_key s = session_key row) (session_upd row) row (sessions d)\<rparr>))"

definition sr_key :: "session_rollup_row \<Rightarrow> uuid \<times> string \<times> string \<times> time" where
  "sr_key r = (sr_project r, sr_release r, sr_environment r, sr_hour r)"

definition q_sketches :: "uuid \<times> string \<times> string \<times> time \<Rightarrow> (u8 list option \<times> u8 list option) option stmt" where
  "q_sketches k d =
     Some (map_option (\<lambda>r. (sr_distinct r, sr_crashed_did r)) (get_key sr_key k (session_rollups d)), d)"

definition load_sketch :: "u8 list option \<Rightarrow> store_error + sketch" where
  "load_sketch blob = (case blob of
     None \<Rightarrow> Inr hll_new
   | Some b \<Rightarrow> if b = [] then Inr hll_new
               else case unmarshal_binary b of Inl _ \<Rightarrow> Inl E_sketch | Inr s \<Rightarrow> Inr s)"

definition load_sketches ::
    "world \<Rightarrow> uuid \<times> string \<times> string \<times> time \<Rightarrow> (store_error, sketch \<times> sketch) txm" where
  "load_sketches w k =
     bind (must E_sql (exec w (q_sketches k))) (\<lambda>ans.
     let (db, cb) = (case ans of None \<Rightarrow> (None, None) | Some p \<Rightarrow> p) in
     lift_res (bnd (load_sketch db) (\<lambda>distinct. bnd (load_sketch cb) (\<lambda>crashed. Inr (distinct, crashed)))))"

definition bool_int :: "bool \<Rightarrow> int" where "bool_int b = (if b then 1 else 0)"

definition session_rollup_new ::
    "uuid \<times> string \<times> string \<times> time \<Rightarrow> string \<Rightarrow> int \<Rightarrow> f64 option \<Rightarrow> u8 list \<Rightarrow> u8 list \<Rightarrow> session_rollup_row" where
  "session_rollup_new k status errors dur db cb = (case k of (pid, rel, env, h) \<Rightarrow>
     \<lparr>sr_project = pid, sr_release = rel, sr_environment = env, sr_hour = h,
      sr_total = 1,
      sr_crashed = bool_int (status = ''crashed''),
      sr_abnormal = bool_int (status = ''abnormal''),
      sr_errored = bool_int (status = ''ok'' \<and> errors > 0),
      sr_exited = bool_int (status = ''exited''),
      sr_durations = (case dur of None \<Rightarrow> [] | Some x \<Rightarrow> [x]),
      sr_distinct = Some db, sr_crashed_did = Some cb\<rparr>)"

definition session_rollup_upd :: "session_rollup_row \<Rightarrow> session_rollup_row \<Rightarrow> session_rollup_row" where
  "session_rollup_upd n r = r\<lparr>
     sr_total := sr_total r + sr_total n,
     sr_crashed := sr_crashed r + sr_crashed n,
     sr_abnormal := sr_abnormal r + sr_abnormal n,
     sr_errored := sr_errored r + sr_errored n,
     sr_exited := sr_exited r + sr_exited n,
     sr_durations := sr_durations r @ sr_durations n,
     sr_distinct := sr_distinct n,
     sr_crashed_did := sr_crashed_did n\<rparr>"

definition q_session_rollup :: "session_rollup_row \<Rightarrow> unit stmt" where
  "q_session_rollup n d =
     (if \<not> project_exists d (sr_project n) then None
      else Some ((), d\<lparr>session_rollups :=
        upsert (\<lambda>r. sr_key r = sr_key n) (session_rollup_upd n) n (session_rollups d)\<rparr>))"

record session_fields =
  sf_started :: time
  sf_status :: string
  sf_environment :: string
  sf_sid :: "uuid option"
  sf_did_hash :: string
  sf_payload :: session_payload

text \<open>The checks of \<open>storeSession\<close> before its first statement; no \<open>sid\<close> is \<open>None\<close>.\<close>

definition prepare_session :: "world \<Rightarrow> item \<Rightarrow> store_error + session_fields" where
  "prepare_session w item =
     bnd (of_opt E_payload (unmarshal dec_session_payload session_payload0 (it_payload item))) (\<lambda>s.
     if ss_started s = [] then Inl E_started
     else bnd (of_opt E_started (parse_rfc3339 (ss_started s))) (\<lambda>started.
     if ss_release s = [] then Inl E_release
     else
       let status = (if ss_status s = [] then ''ok'' else ss_status s);
           environment = (if ss_environment s = [] then ''production'' else ss_environment s) in
       bnd (if ss_sid s \<noteq> [] then map_sum id Some (of_opt E_sid (w_uuid w (ss_sid s))) else Inr None) (\<lambda>sid.
       Inr \<lparr>sf_started = started, sf_status = status, sf_environment = environment, sf_sid = sid,
            sf_did_hash = (if ss_did s \<noteq> [] then hex_encode (take 16 (sha256 (ss_did s))) else []),
            sf_payload = s\<rparr>)))"

definition store_session :: "world \<Rightarrow> item \<Rightarrow> uuid \<Rightarrow> (store_error, unit) txm" where
  "store_session w item pid =
     bind (lift_res (prepare_session w item)) (\<lambda>f.
     bind (case sf_sid f of Some sid \<Rightarrow> ret sid | None \<Rightarrow> gen_uuid w) (\<lambda>sid.
     let s = sf_payload f; release = ss_release s; environment = sf_environment f;
         status = sf_status f; did = sf_did_hash f in
     bind (must E_sql (exec w (q_session
        \<lparr>s_sid = sid, s_started = pg_time (sf_started f), s_project = pid, s_status = status,
         s_errors = ss_errors s, s_duration = ss_duration s, s_did_hash = did, s_release = release,
         s_environment = environment, s_init = ss_init s\<rparr>))) (\<lambda>_.
     let k = (pid, release, environment, truncate_to (sf_started f) hour) in
     bind (load_sketches w k) (\<lambda>(distinct, crashed).
     let distinct' = (if did \<noteq> [] then hll_insert distinct did else distinct);
         crashed' = (if did \<noteq> [] \<and> status = ''crashed'' then hll_insert crashed did else crashed) in
     must E_sql (exec w (q_session_rollup (session_rollup_new k status (ss_errors s) (ss_duration s)
        (marshal_binary distinct') (marshal_binary crashed'))))))))"

definition aggregate_upd :: "session_rollup_row \<Rightarrow> session_rollup_row \<Rightarrow> session_rollup_row" where
  "aggregate_upd n r = r\<lparr>
     sr_total := sr_total r + sr_total n,
     sr_crashed := sr_crashed r + sr_crashed n,
     sr_abnormal := sr_abnormal r + sr_abnormal n,
     sr_errored := sr_errored r + sr_errored n,
     sr_exited := sr_exited r + sr_exited n\<rparr>"

definition q_aggregate :: "session_rollup_row \<Rightarrow> unit stmt" where
  "q_aggregate n d =
     (if \<not> project_exists d (sr_project n) then None
      else Some ((), d\<lparr>session_rollups :=
        upsert (\<lambda>r. sr_key r = sr_key n) (aggregate_upd n) n (session_rollups d)\<rparr>))"

definition aggregate_row :: "uuid \<Rightarrow> string \<Rightarrow> string \<Rightarrow> time \<Rightarrow> aggregate \<Rightarrow> session_rollup_row" where
  "aggregate_row pid rel env h a =
     \<lparr>sr_project = pid, sr_release = rel, sr_environment = env, sr_hour = h,
      sr_total = ag_exited a + ag_abnormal a + ag_crashed a + ag_errored a,
      sr_crashed = ag_crashed a, sr_abnormal = ag_abnormal a, sr_errored = ag_errored a,
      sr_exited = ag_exited a, sr_durations = [], sr_distinct = None, sr_crashed_did = None\<rparr>"

fun store_aggregates ::
    "world \<Rightarrow> uuid \<Rightarrow> string \<Rightarrow> string \<Rightarrow> aggregate list \<Rightarrow> (store_error, unit) txm" where
  "store_aggregates w pid rel env [] = ret ()"
| "store_aggregates w pid rel env (a # as) =
     (if ag_started a = [] then fail E_aggregates
      else
        bind (lift_res (of_opt E_aggregates (parse_rfc3339 (ag_started a)))) (\<lambda>started.
        let row = aggregate_row pid rel env (truncate_to started hour) a in
        if sr_total row = 0 then store_aggregates w pid rel env as
        else
          bind (must E_sql (exec w (q_aggregate row))) (\<lambda>_.
          bind (touch_release w pid rel started) (\<lambda>_.
          store_aggregates w pid rel env as))))"

definition store_session_aggregates :: "world \<Rightarrow> item \<Rightarrow> uuid \<Rightarrow> (store_error, unit) txm" where
  "store_session_aggregates w item pid =
     bind (lift_res (of_opt E_payload (unmarshal dec_sessions_payload sessions_payload0 (it_payload item)))) (\<lambda>s.
     if length (sa_aggregates s) > 100 then fail E_aggregates
     else
       let environment = (if sa_environment s = [] then ''production'' else sa_environment s) in
       store_aggregates w pid (sa_release s) environment (sa_aggregates s))"

subsection \<open>Feedback\<close>

definition association_window :: duration where "association_window = 30 * minute"

text \<open>The latest event with the id in the project: its issue and time.\<close>

fun latest_event :: "event_row list \<Rightarrow> event_row option" where
  "latest_event [] = None"
| "latest_event (e # es) = (case latest_event es of
     None \<Rightarrow> Some e | Some l \<Rightarrow> if ev_timestamp e \<ge> ev_timestamp l then Some e else Some l)"

definition q_event_issue :: "uuid \<Rightarrow> uuid \<Rightarrow> (uuid option \<times> time) option stmt" where
  "q_event_issue eid pid d =
     Some (map_option (\<lambda>e. (ev_issue e, ev_timestamp e))
       (latest_event (filter (\<lambda>e. ev_id e = eid \<and> ev_project e = pid) (events d))), d)"

text \<open>The window test, with Go's precedence of \<open>&&\<close> over \<open>||\<close>.\<close>

definition outside_window :: "time \<Rightarrow> time \<Rightarrow> bool \<Rightarrow> bool" where
  "outside_window event_ts feedback_ts has_ts \<longleftrightarrow>
     (has_ts \<and> event_ts - feedback_ts > association_window) \<or> feedback_ts - event_ts > association_window"

definition resolve_feedback_issue ::
    "world \<Rightarrow> uuid \<Rightarrow> uuid option \<Rightarrow> time \<Rightarrow> bool \<Rightarrow> (store_error, uuid option) txm" where
  "resolve_feedback_issue w pid assoc feedback_ts has_ts =
     (case assoc of
        None \<Rightarrow> ret None
      | Some eid \<Rightarrow>
          bind (attempt (exec w (q_event_issue eid pid))) (\<lambda>ans.
          case ans of
            Some (Some (Some iid, event_ts)) \<Rightarrow>
              if outside_window event_ts feedback_ts has_ts then ret None else ret (Some iid)
          | _ \<Rightarrow> ret None))"

definition feedback_id :: "world \<Rightarrow> envelope \<Rightarrow> string \<Rightarrow> (store_error, uuid) txm" where
  "feedback_id w env payload_id =
     (let h = h_event_id (e_header env);
          a = (if h \<noteq> [] then w_uuid w (to_lower h) else None);
          b = (if payload_id \<noteq> [] then w_uuid w (to_lower payload_id) else None)
      in case a of Some u \<Rightarrow> ret u
         | None \<Rightarrow> (case b of Some u \<Rightarrow> ret u | None \<Rightarrow> gen_uuid w))"

definition q_feedback :: "feedback_row \<Rightarrow> unit stmt" where
  "q_feedback row d =
     (if \<not> project_exists d (fb_project row) then None
      else Some ((), d\<lparr>feedbacks := snd (insert_new (\<lambda>f. fb_id f = fb_id row) row (feedbacks d))\<rparr>))"

definition payload_json :: "string \<Rightarrow> json" where
  "payload_json s = (case json_parse s of None \<Rightarrow> JNull | Some v \<Rightarrow> v)"

definition store_user_feedback :: "world \<Rightarrow> envelope \<Rightarrow> item \<Rightarrow> uuid \<Rightarrow> (store_error, unit) txm" where
  "store_user_feedback w env item pid =
     bind (lift_res (of_opt E_payload (unmarshal dec_feedback_payload feedback_payload0 (it_payload item)))) (\<lambda>f.
     if fp_message f = [] then fail E_message
     else
       bind (feedback_id w env (fp_event_id f)) (\<lambda>u.
       let assoc = (if fp_associated f \<noteq> [] then w_uuid w (to_lower (fp_associated f)) else None);
           ts = (case parse_timestamp (fp_timestamp f) of Inl _ \<Rightarrow> None | Inr t \<Rightarrow> Some t);
           fb_ts = (case ts of None \<Rightarrow> w_now w | Some t \<Rightarrow> t) in
       bind (resolve_feedback_issue w pid assoc fb_ts (ts \<noteq> None)) (\<lambda>issue.
       must E_sql (exec w (q_feedback
         \<lparr>fb_id = u, fb_project = pid, fb_event = assoc, fb_issue = issue, fb_name = fp_name f,
          fb_email = fp_contact_email f, fb_message = fp_message f, fb_url = fp_url f,
          fb_received = w_now w, fb_payload = payload_json (it_payload item)\<rparr>)))))"

definition store_user_report :: "world \<Rightarrow> envelope \<Rightarrow> item \<Rightarrow> uuid \<Rightarrow> (store_error, unit) txm" where
  "store_user_report w env item pid =
     bind (lift_res (of_opt E_payload (unmarshal dec_report_payload report_payload0 (it_payload item)))) (\<lambda>r.
     let assoc = (if rp_event_id r \<noteq> [] then w_uuid w (to_lower (rp_event_id r)) else None) in
     bind (resolve_feedback_issue w pid assoc (w_now w) False) (\<lambda>issue.
     bind (feedback_id w env []) (\<lambda>u.
     must E_sql (exec w (q_feedback
       \<lparr>fb_id = u, fb_project = pid, fb_event = assoc, fb_issue = issue, fb_name = rp_name r,
        fb_email = rp_email r, fb_message = rp_comments r, fb_url = [],
        fb_received = w_now w, fb_payload = payload_json (it_payload item)\<rparr>)))))"

definition store_feedback :: "world \<Rightarrow> envelope \<Rightarrow> item \<Rightarrow> uuid \<Rightarrow> (store_error, unit) txm" where
  "store_feedback w env item pid =
     (if ih_type (it_header item) = ''feedback'' then store_user_feedback w env item pid
      else if ih_type (it_header item) = ''user_report'' then store_user_report w env item pid
      else fail E_not_feedback)"

subsection \<open>The pipeline\<close>

record process_result =
  pr_accepted :: nat
  pr_ignored :: nat
  pr_unknown :: nat
  pr_duplicates :: nat
  pr_signals :: "alert_signal list"

definition result0 :: process_result where
  "result0 = \<lparr>pr_accepted = 0, pr_ignored = 0, pr_unknown = 0, pr_duplicates = 0, pr_signals = []\<rparr>"

definition accept :: "process_result \<Rightarrow> process_result" where
  "accept r = r\<lparr>pr_accepted := pr_accepted r + 1\<rparr>"

definition duplicate :: "process_result \<Rightarrow> process_result" where
  "duplicate r = r\<lparr>pr_duplicates := pr_duplicates r + 1\<rparr>"

definition ignored_types :: "string list" where
  "ignored_types = [''client_report'', ''attachment'', ''profile'', ''profile_chunk'',
     ''replay_event'', ''replay_recording'', ''replay_video'', ''check_in'', ''log'', ''otel_log'',
     ''span'', ''trace_metric'', ''security'']"

definition unknown_key :: "unknown_row \<Rightarrow> uuid \<times> string \<times> int" where
  "unknown_key u = (u_project u, u_type u, u_day u)"

definition unknown_upd :: "unknown_row \<Rightarrow> unknown_row" where
  "unknown_upd u = u\<lparr>u_count := u_count u + 1\<rparr>"

definition unknown_new :: "uuid \<Rightarrow> string \<Rightarrow> int \<Rightarrow> unknown_row" where
  "unknown_new pid typ dy = \<lparr>u_project = pid, u_type = typ, u_day = dy, u_count = 1\<rparr>"

definition q_unknown :: "world \<Rightarrow> uuid \<Rightarrow> string \<Rightarrow> unit stmt" where
  "q_unknown w pid typ d =
     (if \<not> project_exists d pid then None
      else
        let k = (pid, typ, w_now w div day) in
        Some ((), d\<lparr>unknown_stats := upsert (\<lambda>u. unknown_key u = k) unknown_upd
           (unknown_new pid typ (w_now w div day)) (unknown_stats d)\<rparr>))"

definition process_item ::
    "world \<Rightarrow> envelope \<Rightarrow> uuid \<Rightarrow> item \<Rightarrow> process_result \<Rightarrow> (store_error, process_result) txm" where
  "process_item w env pid item r =
     (let typ = ih_type (it_header item) in
      if typ = ''event'' then
        bind (store_event w env item pid) (\<lambda>(dup, sig).
        if dup then ret (duplicate r)
        else ret ((accept r)\<lparr>pr_signals := pr_signals r @ (case sig of None \<Rightarrow> [] | Some s \<Rightarrow> [s])\<rparr>))
      else if typ = ''transaction'' then
        bind (store_transaction w env item pid) (\<lambda>dup. ret (if dup then duplicate r else accept r))
      else if typ = ''session'' then
        bind (store_session w item pid) (\<lambda>_. ret (accept r))
      else if typ = ''sessions'' then
        bind (store_session_aggregates w item pid) (\<lambda>_. ret (accept r))
      else if typ = ''feedback'' \<or> typ = ''user_report'' then
        bind (store_feedback w env item pid) (\<lambda>_. ret (accept r))
      else if typ \<in> set ignored_types then ret (r\<lparr>pr_ignored := pr_ignored r + 1\<rparr>)
      else
        bind (must E_sql (exec w (q_unknown w pid typ))) (\<lambda>_.
        ret (r\<lparr>pr_unknown := pr_unknown r + 1\<rparr>)))"

fun process_items ::
    "world \<Rightarrow> envelope \<Rightarrow> uuid \<Rightarrow> item list \<Rightarrow> process_result \<Rightarrow> (store_error, process_result) txm" where
  "process_items w env pid [] r = ret r"
| "process_items w env pid (i # is) r = bind (process_item w env pid i r) (process_items w env pid is)"

definition process :: "world \<Rightarrow> envelope \<Rightarrow> uuid \<Rightarrow> db \<Rightarrow> (store_error + process_result) \<times> db" where
  "process w env pid d = run_tx w E_commit (process_items w env pid (e_items env) result0) d"

end
