(* ===== verification/StoreInv.thy ===== *)
theory StoreInv
  imports Process
begin

section \<open>The ledger of the issue store\<close>

text \<open>
  What the tables of the error pipeline promise each other: every event belongs to an issue of its
  project, the counters of an issue, of its hourly rollup and of the project's hourly rollup are the
  numbers of stored events, the user count is the number of distinct user hashes, and keys are keys.
  A successful run of \<open>store_row\<close> is shown to be the pure function \<open>spec_event\<close> on the database
  (or no change at all for a duplicate), and that function keeps the promises.
\<close>

subsection \<open>Every handler is sticky and honest\<close>

lemma sticky_gen [sticky_intros]: "sticky (gen_uuid w)"
  by (simp add: sticky_def gen_uuid_def fresh_uuid_def)

lemma honest_gen [honest_intros]: "honest w (gen_uuid w)"
  by (auto simp: honest_def runs_def gen_uuid_def fresh_uuid_def)

lemma sticky_upsert_issue [sticky_intros]: "sticky (upsert_issue w pid norm level h ts)"
  by (auto simp: upsert_issue_def Let_def intro!: sticky_intros)

lemma sticky_touch_release [sticky_intros]: "sticky (touch_release w pid rel ts)"
  by (auto simp: touch_release_def intro!: sticky_intros)

lemma sticky_backfill [sticky_intros]: "sticky (backfill_feedback w pid iid eid ts)"
  by (auto simp: backfill_feedback_def intro!: sticky_intros)

lemma sticky_store_row [sticky_intros]: "sticky (store_row w row ts norm)"
  by (auto simp: store_row_def Let_def split_beta intro!: sticky_intros)

lemma sticky_store_event [sticky_intros]: "sticky (store_event w env item pid)"
  by (auto simp: store_event_def split_beta intro!: sticky_intros)

lemma sticky_store_transaction [sticky_intros]: "sticky (store_transaction w env item pid)"
  by (auto simp: store_transaction_def split_beta intro!: sticky_intros)

lemma sticky_load_sketches [sticky_intros]: "sticky (load_sketches w k)"
  by (auto simp: load_sketches_def Let_def split_beta intro!: sticky_intros)

lemma sticky_store_session [sticky_intros]: "sticky (store_session w item pid)"
  by (auto simp: store_session_def Let_def split_beta intro!: sticky_intros split: option.split)

lemma sticky_store_aggregates [sticky_intros]: "sticky (store_aggregates w pid rel env as)"
  by (induction as) (auto simp: Let_def intro!: sticky_intros)

lemma sticky_store_session_aggregates [sticky_intros]: "sticky (store_session_aggregates w item pid)"
  by (auto simp: store_session_aggregates_def Let_def intro!: sticky_intros)

lemma sticky_resolve_feedback [sticky_intros]: "sticky (resolve_feedback_issue w pid assoc ts h)"
  by (auto simp: resolve_feedback_issue_def intro!: sticky_intros split: option.split)

lemma sticky_feedback_id [sticky_intros]: "sticky (feedback_id w env p)"
  by (auto simp: feedback_id_def Let_def intro!: sticky_intros split: option.split)

lemma sticky_store_feedback [sticky_intros]: "sticky (store_feedback w env item pid)"
  by (auto simp: store_feedback_def store_user_feedback_def store_user_report_def Let_def
      intro!: sticky_intros split: option.split)

lemma sticky_process_item [sticky_intros]: "sticky (process_item w env pid item r)"
  by (auto simp: process_item_def Let_def split_beta intro!: sticky_intros)

lemma sticky_process_items [sticky_intros]: "sticky (process_items w env pid is r)"
  by (induction "is" arbitrary: r) (auto intro!: sticky_intros)

lemma honest_upsert_issue [honest_intros]: "honest w (upsert_issue w pid norm level h ts)"
  by (auto simp: upsert_issue_def Let_def intro!: honest_intros sticky_intros)

lemma honest_touch_release [honest_intros]: "honest w (touch_release w pid rel ts)"
  by (auto simp: touch_release_def intro!: honest_intros sticky_intros)

lemma honest_backfill [honest_intros]: "honest w (backfill_feedback w pid iid eid ts)"
  by (auto simp: backfill_feedback_def intro!: honest_intros sticky_intros)

lemma honest_store_row [honest_intros]: "honest w (store_row w row ts norm)"
  by (auto simp: store_row_def Let_def split_beta intro!: honest_intros sticky_intros)

lemma honest_store_event [honest_intros]: "honest w (store_event w env item pid)"
  by (auto simp: store_event_def split_beta intro!: honest_intros sticky_intros)

lemma honest_store_transaction [honest_intros]: "honest w (store_transaction w env item pid)"
  by (auto simp: store_transaction_def split_beta intro!: honest_intros sticky_intros)

lemma honest_load_sketches [honest_intros]: "honest w (load_sketches w k)"
  by (auto simp: load_sketches_def Let_def split_beta intro!: honest_intros sticky_intros)

lemma honest_store_session [honest_intros]: "honest w (store_session w item pid)"
  by (auto simp: store_session_def Let_def split_beta intro!: honest_intros sticky_intros split: option.split)

lemma honest_store_aggregates [honest_intros]: "honest w (store_aggregates w pid rel env as)"
  by (induction as) (auto simp: Let_def intro!: honest_intros sticky_intros)

lemma honest_store_session_aggregates [honest_intros]: "honest w (store_session_aggregates w item pid)"
  by (auto simp: store_session_aggregates_def Let_def intro!: honest_intros sticky_intros)

lemma honest_resolve_feedback [honest_intros]: "honest w (resolve_feedback_issue w pid assoc ts h)"
  by (auto simp: resolve_feedback_issue_def intro!: honest_intros sticky_intros split: option.split)

lemma honest_feedback_id [honest_intros]: "honest w (feedback_id w env p)"
  by (auto simp: feedback_id_def Let_def intro!: honest_intros sticky_intros split: option.split)

lemma honest_store_feedback [honest_intros]: "honest w (store_feedback w env item pid)"
  by (auto simp: store_feedback_def store_user_feedback_def store_user_report_def Let_def
      intro!: honest_intros sticky_intros split: option.split)

lemma honest_process_item [honest_intros]: "honest w (process_item w env pid item r)"
  by (auto simp: process_item_def Let_def split_beta intro!: honest_intros sticky_intros)

lemma honest_process_items [honest_intros]: "honest w (process_items w env pid is r)"
  by (induction "is" arbitrary: r) (auto intro!: honest_intros sticky_intros)

subsection \<open>The upserts of the pipeline\<close>

interpretation issue_up: upsert_stmt issue_key "(pid, n_fingerprint norm)" "issue_upd norm level ts"
    "issue_new u pid norm level ts" for pid norm level ts u
  by unfold_locales (simp_all add: issue_key_def issue_upd_def issue_new_def)

interpretation release_up: upsert_stmt release_key "(pid, v)" "release_upd ts" "release_new pid v ts"
    for pid v ts
  by unfold_locales (simp_all add: release_key_def release_upd_def release_new_def)

interpretation rollup_up: counter_stmt rollup_key "(iid, h)" rollup_upd "rollup_new iid h" er_count 1
    for iid h
  by unfold_locales (simp_all add: rollup_key_def rollup_upd_def rollup_new_def)

interpretation prollup_up: counter_stmt prollup_key "(pid, h)" prollup_upd "prollup_new pid h" pr_count 1
    for pid h
  by unfold_locales (simp_all add: prollup_key_def prollup_upd_def prollup_new_def)

interpretation session_up: upsert_stmt session_key "session_key row" "session_upd row" row for row
  by unfold_locales (simp_all add: session_key_def session_upd_def)

interpretation session_rollup_up: counter_stmt sr_key "sr_key n" "session_rollup_upd n" n sr_total "sr_total n"
    for n
  by unfold_locales (simp_all add: sr_key_def session_rollup_upd_def)

interpretation aggregate_up: counter_stmt sr_key "sr_key n" "aggregate_upd n" n sr_total "sr_total n"
    for n
  by unfold_locales (simp_all add: sr_key_def aggregate_upd_def)

interpretation unknown_up: counter_stmt unknown_key "(pid, ity, dy)" unknown_upd "unknown_new pid ity dy"
    u_count 1 for pid ity dy
  by unfold_locales (simp_all add: unknown_key_def unknown_upd_def unknown_new_def)

lemmas stmt_defs = issue_up.stmt_def release_up.stmt_def rollup_up.stmt_def prollup_up.stmt_def
  session_up.stmt_def session_rollup_up.stmt_def aggregate_up.stmt_def unknown_up.stmt_def

subsection \<open>The specification of storing one event\<close>

text \<open>The issue row an event ends up in, before the user count is touched.\<close>

definition the_issue :: "world \<Rightarrow> uuid \<Rightarrow> normalized_event \<Rightarrow> string \<Rightarrow> time \<Rightarrow> db \<Rightarrow> issue_row" where
  "the_issue w pid norm level ts d =
     (case get_key issue_key (pid, n_fingerprint norm) (issues d) of
        None \<Rightarrow> issue_new (w_fresh w (serial d)) pid norm level ts
      | Some i \<Rightarrow> issue_upd norm level ts i)"

definition new_user :: "uuid \<Rightarrow> string \<Rightarrow> db \<Rightarrow> bool" where
  "new_user iid h d \<longleftrightarrow> h \<noteq> [] \<and> \<not> list_ex (\<lambda>r. uh_issue r = iid \<and> uh_hash r = h) (user_hashes d)"

definition spec_issues :: "world \<Rightarrow> event_row \<Rightarrow> time \<Rightarrow> normalized_event \<Rightarrow> db \<Rightarrow> issue_row list" where
  "spec_issues w row ts norm d =
     (let i = the_issue w (ev_project row) norm (ev_level row) (pg_time ts) d;
          rows = upsert (\<lambda>r. issue_key r = (ev_project row, n_fingerprint norm))
                   (issue_upd norm (ev_level row) (pg_time ts))
                   (issue_new (w_fresh w (serial d)) (ev_project row) norm (ev_level row) (pg_time ts))
                   (issues d)
      in if new_user (i_id i) (ev_user_hash row) d
         then update_where (\<lambda>r. i_id r = i_id i) (\<lambda>r. r\<lparr>i_user_count := i_user_count r + 1\<rparr>) rows
         else rows)"

definition spec_event :: "world \<Rightarrow> event_row \<Rightarrow> time \<Rightarrow> normalized_event \<Rightarrow> db \<Rightarrow> db" where
  "spec_event w row ts norm d =
     (let pid = ev_project row;
          iid = i_id (the_issue w pid norm (ev_level row) (pg_time ts) d);
          h = truncate_to ts hour
      in d\<lparr>serial := Suc (serial d),
           events := events d @ [row\<lparr>ev_issue := Some iid\<rparr>],
           issues := spec_issues w row ts norm d,
           user_hashes := (if new_user iid (ev_user_hash row) d
             then user_hashes d @ [\<lparr>uh_issue = iid, uh_hash = ev_user_hash row, uh_first_seen = w_now w\<rparr>]
             else user_hashes d),
           feedbacks := update_where
             (\<lambda>f. waits_for pid (ev_id row) f \<and> in_window w ts (fb_payload f) = Some True)
             (\<lambda>f. f\<lparr>fb_issue := Some iid\<rparr>) (feedbacks d),
           event_rollups := upsert (\<lambda>r. rollup_key r = (iid, h)) rollup_upd (rollup_new iid h) (event_rollups d),
           releases := (if ev_release row = [] then releases d
             else upsert (\<lambda>r. release_key r = (pid, ev_release row)) (release_upd (pg_time ts))
                    (release_new pid (ev_release row) (pg_time ts)) (releases d)),
           project_rollups := upsert (\<lambda>r. prollup_key r = (pid, h)) prollup_upd (prollup_new pid h)
             (project_rollups d)\<rparr>)"

lemma upsert_issue_runs:
  assumes "runs (upsert_issue w pid norm level h ts) s (iid, new, regr) s'"
  shows "iid = i_id (the_issue w pid norm level (pg_time ts) (tx_db s)) \<and>
    new = (get_key issue_key (pid, n_fingerprint norm) (issues (tx_db s)) = None) \<and>
    regr = (map_option i_status (get_key issue_key (pid, n_fingerprint norm) (issues (tx_db s))) = Some Resolved) \<and>
    (\<exists>rows. rows = upsert (\<lambda>i. issue_key i = (pid, n_fingerprint norm)) (issue_upd norm level (pg_time ts))
        (issue_new (w_fresh w (serial (tx_db s))) pid norm level (pg_time ts)) (issues (tx_db s)) \<and>
      tx_db s' = (tx_db s)\<lparr>serial := Suc (serial (tx_db s)),
        issues := (if new_user iid h (tx_db s)
          then update_where (\<lambda>r. i_id r = iid) (\<lambda>r. r\<lparr>i_user_count := i_user_count r + 1\<rparr>) rows else rows),
        user_hashes := (if new_user iid h (tx_db s)
          then user_hashes (tx_db s) @ [\<lparr>uh_issue = iid, uh_hash = h, uh_first_seen = w_now w\<rparr>]
          else user_hashes (tx_db s))\<rparr>)"
proof -
  let ?d = "tx_db s" and ?k = "(pid, n_fingerprint norm)"
  let ?rows = "upsert (\<lambda>i. issue_key i = ?k) (issue_upd norm level (pg_time ts))
        (issue_new (w_fresh w (serial ?d)) pid norm level (pg_time ts)) (issues ?d)"
  let ?d1 = "?d\<lparr>serial := Suc (serial ?d), issues := ?rows\<rparr>"
  have get: "get_key issue_key ?k ?rows = Some (the_issue w pid norm level (pg_time ts) ?d)"
    using issue_up.get_stmt[where u = "w_fresh w (serial ?d)"] by (simp add: issue_up.stmt_def the_issue_def)
  obtain prev s1 s2 v where a:
    "runs (attempt (exec w (q_issue_status pid (n_fingerprint norm))) :: (store_error, _) txm) s prev s1"
    "runs (must E_issue (exec w (q_upsert_issue w pid norm level (pg_time ts)))) s1 iid s2"
    "runs (if h = [] then ret ()
           else bind (must E_issue (exec w (q_user_hash w iid h)))
             (\<lambda>n. if n > 0 then must E_issue (exec w (q_bump_users iid)) else ret ())) s2 v s'"
    and flags: "new = ((case prev of None \<Rightarrow> None | Some st \<Rightarrow> st) = None)"
      "regr = ((case prev of None \<Rightarrow> None | Some st \<Rightarrow> st) = Some Resolved)"
    using assms unfolding upsert_issue_def Let_def
    by (simp only: runs_bind sticky_intros runs_ret prod.inject) blast
  have s1: "tx_db s1 = ?d" "prev = Some (map_option i_status (get_key issue_key ?k (issues ?d)))"
    using a(1) by (auto simp: runs_simps q_issue_status_def)
  have s2: "tx_db s2 = ?d1" "iid = i_id (the_issue w pid norm level (pg_time ts) ?d)"
    using a(2) s1(1) get
    by (auto simp: runs_simps q_upsert_issue_def Let_def fresh_uuid_def split: if_splits)
  have uh: "user_hashes (tx_db s2) = user_hashes ?d" by (simp add: s2)
  have "tx_db s' = ?d1\<lparr>
        issues := (if new_user iid h ?d
          then update_where (\<lambda>r. i_id r = iid) (\<lambda>r. r\<lparr>i_user_count := i_user_count r + 1\<rparr>) ?rows else ?rows),
        user_hashes := (if new_user iid h ?d
          then user_hashes ?d @ [\<lparr>uh_issue = iid, uh_hash = h, uh_first_seen = w_now w\<rparr>]
          else user_hashes ?d)\<rparr>"
  proof (cases "h = []")
    case True
    then show ?thesis using a(3) s2(1) by (simp add: runs_simps new_user_def)
  next
    case False
    obtain n s3 where b: "runs (exec w (q_user_hash w iid h)) s2 n s3"
      "runs (if n > 0 then must E_issue (exec w (q_bump_users iid)) else ret ()) s3 v s'"
      using a(3) False by (auto simp: runs_bind sticky_intros runs_simps(4))
    show ?thesis
    proof (cases "new_user iid h ?d")
      case True
      then have n: "n = 1" "tx_db s3 = ?d1\<lparr>user_hashes := user_hashes ?d @
          [\<lparr>uh_issue = iid, uh_hash = h, uh_first_seen = w_now w\<rparr>]\<rparr>"
        using b(1) uh by (auto simp: runs_simps q_user_hash_def insert_new_def new_user_def s2(1))
      then show ?thesis using b(2) True by (auto simp: runs_simps q_bump_users_def)
    next
      case nu: False
      then have n: "n = 0" "tx_db s3 = ?d1"
        using b(1) uh False by (auto simp: runs_simps q_user_hash_def insert_new_def new_user_def s2(1))
      then show ?thesis using b(2) nu by (auto simp: runs_simps)
    qed
  qed
  then show ?thesis using flags s1(2) s2(2) by (simp split: option.splits)
qed

lemma touch_release_runs:
  assumes "runs (touch_release w pid rel ts) s v s'"
  shows "tx_db s' = (tx_db s)\<lparr>releases := (if rel = [] then releases (tx_db s)
     else upsert (\<lambda>r. release_key r = (pid, rel)) (release_upd (pg_time ts))
            (release_new pid rel (pg_time ts)) (releases (tx_db s)))\<rparr>"
  using assms by (auto simp: touch_release_def runs_simps q_release_def split: if_splits)

lemma backfill_runs:
  assumes "runs (backfill_feedback w pid iid eid ts) s v s'"
  shows "(\<forall>f\<in>set (feedbacks (tx_db s)). waits_for pid eid f \<longrightarrow> in_window w ts (fb_payload f) \<noteq> None) \<and>
    tx_db s' = (tx_db s)\<lparr>feedbacks := update_where
       (\<lambda>f. waits_for pid eid f \<and> in_window w ts (fb_payload f) = Some True)
       (\<lambda>f. f\<lparr>fb_issue := Some iid\<rparr>) (feedbacks (tx_db s))\<rparr>"
  using assms unfolding backfill_feedback_def
  by (auto simp: runs_bind sticky_intros runs_simps q_backfill_def list_ex_iff split: if_splits)

lemma set_issue_snoc:
  assumes "\<forall>e\<in>set es. event_key e \<noteq> event_key row"
  shows "update_where (\<lambda>e. event_key e = event_key row) f (es @ [row]) = es @ [f row]"
proof -
  have "map (\<lambda>e. if event_key e = event_key row then f e else e) es = es"
    using assms by (intro map_idI) auto
  then show ?thesis by (simp add: update_where_def)
qed

lemma store_row_runs:
  assumes "runs (store_row w row ts norm) s (dup, sig) s'" "ev_timestamp row = pg_time ts"
  shows "if \<exists>e\<in>set (events (tx_db s)). event_key e = event_key row
    then dup \<and> sig = None \<and> tx_db s' = tx_db s
    else \<not> dup \<and> tx_db s' = spec_event w row ts norm (tx_db s) \<and>
      project_exists (tx_db s) (ev_project row) \<and>
      (\<forall>f\<in>set (feedbacks (tx_db s)). waits_for (ev_project row) (ev_id row) f \<longrightarrow>
         in_window w ts (fb_payload f) \<noteq> None) \<and>
      sig = Some \<lparr>sg_issue = i_id (the_issue w (ev_project row) norm (ev_level row) (pg_time ts) (tx_db s)),
        sg_event = ev_id row,
        sg_new = (get_key issue_key (ev_project row, n_fingerprint norm) (issues (tx_db s)) = None),
        sg_regression = (map_option i_status
            (get_key issue_key (ev_project row, n_fingerprint norm) (issues (tx_db s))) = Some Resolved),
        sg_environment = ev_environment row, sg_release = ev_release row, sg_level = ev_level row\<rparr>"
proof -
  let ?d = "tx_db s" and ?pid = "ev_project row"
  obtain n s1 where ins: "runs (exec w (q_insert_event row)) s n s1" and
    rest: "runs (if n = 0 then ret (True, None)
      else
        bind (upsert_issue w ?pid norm (ev_level row) (ev_user_hash row) ts) (\<lambda>(iid, is_new, is_regr).
        bind (must E_sql (exec w (q_set_issue (ev_id row) iid (pg_time ts)))) (\<lambda>_.
        bind (backfill_feedback w ?pid iid (ev_id row) ts) (\<lambda>_.
        bind (must E_sql (exec w (q_event_rollup iid (truncate_to ts hour)))) (\<lambda>_.
        bind (touch_release w ?pid (ev_release row) ts) (\<lambda>_.
        bind (attempt (exec w (q_project_rollup ?pid (truncate_to ts hour)))) (\<lambda>_.
        ret (False, Some \<lparr>sg_issue = iid, sg_event = (ev_id row), sg_new = is_new, sg_regression = is_regr,
               sg_environment = ev_environment row, sg_release = ev_release row,
               sg_level = ev_level row\<rparr>)))))))) s1 (dup, sig) s'"
    using assms(1) unfolding store_row_def Let_def
    by (subst (asm) runs_bind) (auto intro!: sticky_intros simp: runs_must)
  have pe: "project_exists ?d ?pid" and
    n: "insert_new (\<lambda>e. event_key e = event_key row) row (events ?d) = (n, events (tx_db s1))"
    and s1: "tx_db s1 = ?d\<lparr>events := events (tx_db s1)\<rparr>"
    using ins by (auto simp: runs_exec q_insert_event_def split: if_splits prod.splits)
  show ?thesis
  proof (cases "\<exists>e\<in>set (events ?d). event_key e = event_key row")
    case True
    then have "n = 0" "events (tx_db s1) = events ?d"
      using n by (auto simp: insert_new_def list_ex_iff)
    then show ?thesis using True rest s1 by (simp add: runs_ret)
  next
    case False
    then have n1: "n = 1" and ev: "events (tx_db s1) = events ?d @ [row]"
      using n by (auto simp: insert_new_def list_ex_iff)
    let ?d1 = "?d\<lparr>events := events ?d @ [row]\<rparr>"
    have s1: "tx_db s1 = ?d1" using s1 ev by simp
    obtain iid nw rg s2 s3 s4 s5 s6 s7 v3 v4 v5 v6 v7 where
      r2: "runs (upsert_issue w ?pid norm (ev_level row) (ev_user_hash row) ts) s1 (iid, nw, rg) s2" and
      r3: "runs (exec w (q_set_issue (ev_id row) iid (pg_time ts))) s2 v3 s3" and
      r4: "runs (backfill_feedback w ?pid iid (ev_id row) ts) s3 v4 s4" and
      r5: "runs (exec w (q_event_rollup iid (truncate_to ts hour))) s4 v5 s5" and
      r6: "runs (touch_release w ?pid (ev_release row) ts) s5 v6 s6" and
      r7: "runs (exec w (q_project_rollup ?pid (truncate_to ts hour))) s6 v7 s'" and
      out: "\<not> dup" "sig = Some \<lparr>sg_issue = iid, sg_event = ev_id row, sg_new = nw, sg_regression = rg,
               sg_environment = ev_environment row, sg_release = ev_release row, sg_level = ev_level row\<rparr>"
      using rest n1 by (simp add: runs_bind sticky_intros runs_ret runs_must runs_attempt split_beta) blast
    have same: "issues (tx_db s1) = issues ?d" "serial (tx_db s1) = serial ?d"
      "user_hashes (tx_db s1) = user_hashes ?d" by (simp_all add: s1)
    have ti: "the_issue w p nm lv t (tx_db s1) = the_issue w p nm lv t ?d" for p nm lv t
      unfolding the_issue_def same ..
    have nu: "new_user i h (tx_db s1) = new_user i h ?d" for i h by (simp add: new_user_def same)
    note u = upsert_issue_runs[OF r2, unfolded ti nu same]
    have ek: "event_key row = (ev_id row, pg_time ts)" by (simp add: event_key_def assms(2))
    have "tx_db s' = spec_event w row ts norm ?d"
    proof -
      have fresh: "\<forall>e\<in>set (events ?d). event_key e \<noteq> event_key row" using False by blast
      have "update_where (\<lambda>e. event_key e = (ev_id row, pg_time ts)) (\<lambda>e. e\<lparr>ev_issue := Some iid\<rparr>)
          (events ?d @ [row]) = events ?d @ [row\<lparr>ev_issue := Some iid\<rparr>]"
        unfolding ek[symmetric] by (rule set_issue_snoc[OF fresh])
      then show ?thesis
        using u r3 backfill_runs[OF r4] r5 touch_release_runs[OF r6] r7
        by (auto simp: runs_exec q_set_issue_def q_event_rollup_def q_project_rollup_def spec_event_def
            spec_issues_def Let_def s1 split: if_splits)
    qed
    moreover have "feedbacks (tx_db s3) = feedbacks ?d"
      using u r3 by (auto simp: runs_exec q_set_issue_def s1)
    then have "\<forall>f\<in>set (feedbacks ?d). waits_for ?pid (ev_id row) f \<longrightarrow> in_window w ts (fb_payload f) \<noteq> None"
      using backfill_runs[OF r4] by simp
    ultimately show ?thesis using False out u pe by simp
  qed
qed

subsection \<open>The ledger\<close>

definition event_count :: "(event_row \<Rightarrow> bool) \<Rightarrow> db \<Rightarrow> int" where
  "event_count P d = int (length (filter P (events d)))"

definition ids_ok :: "world \<Rightarrow> db \<Rightarrow> bool" where
  "ids_ok w d \<longleftrightarrow> key_ok i_id (issues d) \<and> (\<forall>i\<in>set (issues d). \<exists>n < serial d. i_id i = w_fresh w n)"

definition store_keys_ok :: "db \<Rightarrow> bool" where
  "store_keys_ok d \<longleftrightarrow> key_ok issue_key (issues d) \<and> key_ok event_key (events d) \<and>
     key_ok (\<lambda>u. (uh_issue u, uh_hash u)) (user_hashes d) \<and>
     key_ok rollup_key (event_rollups d) \<and> key_ok prollup_key (project_rollups d)"

definition links_ok :: "db \<Rightarrow> bool" where
  "links_ok d \<longleftrightarrow>
     (\<forall>e\<in>set (events d). \<exists>i\<in>set (issues d). ev_issue e = Some (i_id i) \<and>
        i_project i = ev_project e \<and> ev_timestamp e \<le> i_last_seen i) \<and>
     (\<forall>u\<in>set (user_hashes d). \<exists>i\<in>set (issues d). uh_issue u = i_id i)"

definition counts_ok :: "db \<Rightarrow> bool" where
  "counts_ok d \<longleftrightarrow> (\<forall>i\<in>set (issues d).
     i_count i = event_count (\<lambda>e. ev_issue e = Some (i_id i)) d \<and>
     i_user_count i = int (length (filter (\<lambda>u. uh_issue u = i_id i) (user_hashes d))))"

definition rollups_ok :: "db \<Rightarrow> bool" where
  "rollups_ok d \<longleftrightarrow>
     (\<forall>iid h. (case get_key rollup_key (iid, h) (event_rollups d) of None \<Rightarrow> 0 | Some r \<Rightarrow> er_count r) =
        event_count (\<lambda>e. ev_issue e = Some iid \<and> truncate_to (ev_timestamp e) hour = h) d) \<and>
     (\<forall>pid h. (case get_key prollup_key (pid, h) (project_rollups d) of None \<Rightarrow> 0 | Some r \<Rightarrow> pr_count r) =
        event_count (\<lambda>e. ev_project e = pid \<and> truncate_to (ev_timestamp e) hour = h) d)"

definition ledger :: "world \<Rightarrow> db \<Rightarrow> bool" where
  "ledger w d \<longleftrightarrow> ids_ok w d \<and> store_keys_ok d \<and> links_ok d \<and> counts_ok d \<and> rollups_ok d"

lemma truncate_pg_time: "truncate_to (pg_time ts) hour = truncate_to ts hour"
proof -
  have "(ts - ts mod 1000) mod hour = ts mod hour - ts mod 1000"
  proof -
    have "ts mod 3600000000000 mod 1000 = ts mod 1000" by (rule mod_mod_cancel) simp
    then have "ts mod 1000 \<le> ts mod 3600000000000" by (metis pos_mod_sign zmod_le_nonneg_dividend zero_less_numeral)
    moreover have "0 \<le> ts mod 1000" "ts mod 3600000000000 < 3600000000000" by simp_all
    ultimately have "(ts mod 3600000000000 - ts mod 1000) mod 3600000000000 = ts mod 3600000000000 - ts mod 1000"
      by (intro mod_pos_pos_trivial) linarith+
    then show ?thesis by (simp add: time_simps mod_diff_left_eq)
  qed
  then show ?thesis by (simp add: truncate_hour pg_time_def)
qed

lemma the_issue_new:
  "get_key issue_key (pid, n_fingerprint norm) (issues d) = None \<Longrightarrow>
   the_issue w pid norm level ts d = issue_new (w_fresh w (serial d)) pid norm level ts"
  by (simp add: the_issue_def)

lemma the_issue_old:
  "get_key issue_key (pid, n_fingerprint norm) (issues d) = Some i \<Longrightarrow>
   the_issue w pid norm level ts d = issue_upd norm level ts i"
  by (simp add: the_issue_def)

lemma the_issue_key: "issue_key (the_issue w pid norm level ts d) = (pid, n_fingerprint norm)"
  using get_key_Some[of issue_key "(pid, n_fingerprint norm)" "issues d"]
  by (auto simp: the_issue_def issue_up.key_new issue_up.key_upd split: option.splits)

lemma fresh_id:
  assumes "ids_ok w d" "inj (w_fresh w)" "i \<in> set (issues d)"
  shows "i_id i \<noteq> w_fresh w (serial d)"
  using assms unfolding ids_ok_def by (metis injD less_irrefl)

lemma other_ids:
  assumes "ids_ok w d" "inj (w_fresh w)" "i \<in> set (issues d)" "issue_key i \<noteq> (pid, n_fingerprint norm)"
  shows "i_id i \<noteq> i_id (the_issue w pid norm level ts d)"
proof (cases "get_key issue_key (pid, n_fingerprint norm) (issues d)")
  case None
  then show ?thesis using fresh_id[OF assms(1-3)] by (simp add: the_issue_new issue_new_def)
next
  case (Some j)
  then have "j \<in> set (issues d)" "issue_key j = (pid, n_fingerprint norm)" using get_key_Some by metis+
  moreover have "i_id j = i_id i \<Longrightarrow> j = i"
    using assms(1,3) \<open>j \<in> set (issues d)\<close> unfolding ids_ok_def key_ok_def
    by (metis distinct_map inj_onD)
  ultimately show ?thesis using assms(4) Some by (auto simp: the_issue_old issue_upd_def)
qed

text \<open>The row of the event's issue after the transaction.\<close>

definition final_issue :: "world \<Rightarrow> event_row \<Rightarrow> time \<Rightarrow> normalized_event \<Rightarrow> db \<Rightarrow> issue_row" where
  "final_issue w row ts norm d =
     (let i = the_issue w (ev_project row) norm (ev_level row) (pg_time ts) d
      in i\<lparr>i_user_count := i_user_count i + (if new_user (i_id i) (ev_user_hash row) d then 1 else 0)\<rparr>)"

lemma final_issue_simps:
  "i_id (final_issue w row ts norm d) = i_id (the_issue w (ev_project row) norm (ev_level row) (pg_time ts) d)"
  "issue_key (final_issue w row ts norm d) = (ev_project row, n_fingerprint norm)"
  using the_issue_key by (simp_all add: final_issue_def Let_def issue_key_def)

lemma mem_spec_issues:
  assumes "ids_ok w d" "key_ok issue_key (issues d)" "inj (w_fresh w)"
  shows "i \<in> set (spec_issues w row ts norm d) \<longleftrightarrow>
    (i \<in> set (issues d) \<and> issue_key i \<noteq> (ev_project row, n_fingerprint norm)) \<or> i = final_issue w row ts norm d"
proof -
  let ?t = "the_issue w (ev_project row) norm (ev_level row) (pg_time ts) d"
  let ?k = "(ev_project row, n_fingerprint norm)"
  let ?rows = "upsert (\<lambda>r. issue_key r = ?k) (issue_upd norm (ev_level row) (pg_time ts))
     (issue_new (w_fresh w (serial d)) (ev_project row) norm (ev_level row) (pg_time ts)) (issues d)"
  have rows: "r \<in> set ?rows \<longleftrightarrow> (r \<in> set (issues d) \<and> issue_key r \<noteq> ?k) \<or> r = ?t" for r
    using issue_up.mem_stmt[OF assms(2), where u = "w_fresh w (serial d)"]
    by (simp add: issue_up.stmt_def the_issue_def)
  have ne: "r \<in> set (issues d) \<Longrightarrow> issue_key r \<noteq> ?k \<Longrightarrow> i_id r \<noteq> i_id ?t" for r
    using other_ids[OF assms(1,3)] by blast
  show ?thesis
  proof (cases "new_user (i_id ?t) (ev_user_hash row) d")
    case False
    then show ?thesis using rows by (simp add: spec_issues_def final_issue_def Let_def)
  next
    case True
    define g where "g r = (if i_id r = i_id ?t then r\<lparr>i_user_count := i_user_count r + 1\<rparr> else r)"
      for r :: issue_row
    have "spec_issues w row ts norm d = map g ?rows"
      using True by (simp add: spec_issues_def Let_def update_where_def g_def)
    then have "i \<in> set (spec_issues w row ts norm d) \<longleftrightarrow> (\<exists>r. r \<in> set ?rows \<and> i = g r)"
      by (simp only: set_map image_iff Bex_def)
    also have "\<dots> \<longleftrightarrow> (\<exists>r. ((r \<in> set (issues d) \<and> issue_key r \<noteq> ?k) \<or> r = ?t) \<and> i = g r)"
      by (simp only: rows)
    also have "\<dots> \<longleftrightarrow> (i \<in> set (issues d) \<and> issue_key i \<noteq> ?k) \<or> i = g ?t"
    proof -
      have "g r = r" if "r \<in> set (issues d) \<and> issue_key r \<noteq> ?k" for r
        using ne that by (simp add: g_def)
      then show ?thesis by metis
    qed
    also have "g ?t = ?t\<lparr>i_user_count := i_user_count ?t + 1\<rparr>" by (simp add: g_def)
    finally show ?thesis using True by (simp add: final_issue_def Let_def)
  qed
qed

lemma key_ok_spec_issues:
  assumes "ids_ok w d" "key_ok issue_key (issues d)" "inj (w_fresh w)"
  shows "key_ok issue_key (spec_issues w row ts norm d)" "ids_ok w (spec_event w row ts norm d)"
proof -
  let ?u = "w_fresh w (serial d)"
  let ?rows = "upsert (\<lambda>r. issue_key r = (ev_project row, n_fingerprint norm))
     (issue_upd norm (ev_level row) (pg_time ts))
     (issue_new ?u (ev_project row) norm (ev_level row) (pg_time ts)) (issues d)"
  have k: "key_ok issue_key ?rows"
    using issue_up.key_ok_stmt[OF assms(2), where u = ?u] by (simp add: issue_up.stmt_def)
  then show ok: "key_ok issue_key (spec_issues w row ts norm d)"
    unfolding spec_issues_def Let_def
    by (simp only: split: if_split) (auto intro!: key_ok_update_where simp: issue_key_def)
  have mem: "i \<in> set (spec_issues w row ts norm d) \<Longrightarrow>
      (i \<in> set (issues d) \<and> issue_key i \<noteq> (ev_project row, n_fingerprint norm)) \<or> i = final_issue w row ts norm d" for i
    using mem_spec_issues[OF assms] by blast
  have "i = j" if "i \<in> set (spec_issues w row ts norm d)" "j \<in> set (spec_issues w row ts norm d)" "i_id i = i_id j" for i j
  proof -
    have "x = y" if "x \<in> set (issues d)" "y \<in> set (issues d)" "i_id x = i_id y" for x y
      using assms(1) that unfolding ids_ok_def key_ok_def by (metis distinct_map inj_onD)
    moreover have "i_id x \<noteq> i_id (final_issue w row ts norm d)"
      if "x \<in> set (issues d)" "issue_key x \<noteq> (ev_project row, n_fingerprint norm)" for x
      using other_ids[OF assms(1,3) that] by (simp add: final_issue_simps)
    ultimately show ?thesis using mem[OF that(1)] mem[OF that(2)] that(3) by metis
  qed
  moreover have "distinct (spec_issues w row ts norm d)"
    using ok by (simp add: key_ok_def distinct_map)
  ultimately have "key_ok i_id (spec_issues w row ts norm d)"
    by (simp add: key_ok_def distinct_map inj_on_def)
  moreover have "\<exists>n < Suc (serial d). i_id i = w_fresh w n" if "i \<in> set (spec_issues w row ts norm d)" for i
    using mem[OF that]
  proof
    assume "i \<in> set (issues d) \<and> issue_key i \<noteq> (ev_project row, n_fingerprint norm)"
    then show ?thesis using assms(1) unfolding ids_ok_def by (meson less_SucI)
  next
    assume "i = final_issue w row ts norm d"
    then have "i_id i = i_id (the_issue w (ev_project row) norm (ev_level row) (pg_time ts) d)"
      by (simp add: final_issue_simps)
    also have "\<exists>n < Suc (serial d). \<dots> = w_fresh w n"
    proof (cases "get_key issue_key (ev_project row, n_fingerprint norm) (issues d)")
      case None
      then show ?thesis by (auto simp: the_issue_new issue_new_def)
    next
      case (Some j)
      then have "j \<in> set (issues d)" using get_key_Some by metis
      then obtain n where "n < serial d" "i_id j = w_fresh w n" using assms(1) by (auto simp: ids_ok_def)
      then show ?thesis using Some by (auto simp: the_issue_old issue_upd_def intro: less_SucI)
    qed
    finally show ?thesis .
  qed
  ultimately show "ids_ok w (spec_event w row ts norm d)"
    by (simp add: ids_ok_def spec_event_def Let_def)
qed

lemma spec_event_count:
  "event_count P (spec_event w row ts norm d) = event_count P d +
    (if P (row\<lparr>ev_issue := Some (i_id (final_issue w row ts norm d))\<rparr>) then 1 else 0)"
  by (simp add: event_count_def spec_event_def Let_def final_issue_simps)

lemma old_issue:
  assumes "i \<in> set (issues d)" "key_ok issue_key (issues d)"
    "issue_key i = (ev_project row, n_fingerprint norm)"
  shows "i_id (final_issue w row ts norm d) = i_id i" "i_project (final_issue w row ts norm d) = i_project i"
    "i_last_seen (final_issue w row ts norm d) = max (i_last_seen i) (pg_time ts)"
    "i_count (final_issue w row ts norm d) = i_count i + 1"
proof -
  have "get_key issue_key (ev_project row, n_fingerprint norm) (issues d) = Some i"
    using get_key_unique[OF assms(2,1)] assms(3) by simp
  then show "i_id (final_issue w row ts norm d) = i_id i" "i_project (final_issue w row ts norm d) = i_project i"
    "i_last_seen (final_issue w row ts norm d) = max (i_last_seen i) (pg_time ts)"
    "i_count (final_issue w row ts norm d) = i_count i + 1"
    by (simp_all add: final_issue_def the_issue_old issue_upd_def)
qed

lemma final_issue_cases:
  obtains (new) "get_key issue_key (ev_project row, n_fingerprint norm) (issues d) = None"
      "the_issue w (ev_project row) norm (ev_level row) (pg_time ts) d =
       issue_new (w_fresh w (serial d)) (ev_project row) norm (ev_level row) (pg_time ts)"
  | (old) i where "i \<in> set (issues d)" "issue_key i = (ev_project row, n_fingerprint norm)"
      "the_issue w (ev_project row) norm (ev_level row) (pg_time ts) d =
       issue_upd norm (ev_level row) (pg_time ts) i"
  using get_key_Some[of issue_key "(ev_project row, n_fingerprint norm)" "issues d"]
  by (cases "get_key issue_key (ev_project row, n_fingerprint norm) (issues d)")
     (auto simp: the_issue_new the_issue_old)

lemma spec_links:
  assumes "ids_ok w d" "store_keys_ok d" "links_ok d" "inj (w_fresh w)" "ev_timestamp row = pg_time ts"
  shows "links_ok (spec_event w row ts norm d)"
proof -
  have k: "key_ok issue_key (issues d)" using assms(2) by (simp add: store_keys_ok_def)
  note mem = mem_spec_issues[OF assms(1) k assms(4)]
  let ?f = "final_issue w row ts norm d"
  have f: "?f \<in> set (spec_issues w row ts norm d)" by (simp add: mem)
  have lift: "\<exists>j\<in>set (spec_issues w row ts norm d). i_id j = i_id i \<and> i_project j = i_project i \<and>
      i_last_seen i \<le> i_last_seen j" if "i \<in> set (issues d)" for i
  proof (cases "issue_key i = (ev_project row, n_fingerprint norm)")
    case True
    then show ?thesis using f old_issue[OF that k True] by (intro bexI[of _ ?f]) simp_all
  next
    case False
    then show ?thesis using that by (intro bexI[of _ i]) (simp_all add: mem)
  qed
  have "pg_time ts \<le> i_last_seen ?f"
    by (cases rule: final_issue_cases[of row norm d w ts])
       (simp_all add: final_issue_def Let_def issue_new_def issue_upd_def)
  moreover have "i_project ?f = ev_project row" using final_issue_simps(2)[of w row ts norm d] by (simp add: issue_key_def)
  ultimately have new: "\<exists>i\<in>set (spec_issues w row ts norm d). i_id ?f = i_id i \<and>
      i_project i = ev_project row \<and> pg_time ts \<le> i_last_seen i"
    using f by blast
  have ev: "\<exists>i\<in>set (spec_issues w row ts norm d). ev_issue e = Some (i_id i) \<and>
        i_project i = ev_project e \<and> ev_timestamp e \<le> i_last_seen i"
    if "e \<in> set (events (spec_event w row ts norm d))" for e
  proof -
    have "e \<in> set (events d) \<or> e = row\<lparr>ev_issue := Some (i_id ?f)\<rparr>"
      using that by (auto simp: spec_event_def Let_def final_issue_simps)
    then show ?thesis
    proof
      assume "e \<in> set (events d)"
      then obtain i where "i \<in> set (issues d)" "ev_issue e = Some (i_id i)" "i_project i = ev_project e"
          "ev_timestamp e \<le> i_last_seen i" using assms(3) by (auto simp: links_ok_def)
      moreover from lift[OF this(1)] obtain j where "j\<in>set (spec_issues w row ts norm d)"
        "i_id j = i_id i" "i_project j = i_project i" "i_last_seen i \<le> i_last_seen j" by blast
      ultimately show ?thesis by (metis order_trans)
    next
      assume "e = row\<lparr>ev_issue := Some (i_id ?f)\<rparr>"
      then show ?thesis using new assms(5) by simp
    qed
  qed
  have us: "\<exists>i\<in>set (spec_issues w row ts norm d). uh_issue u = i_id i"
    if "u \<in> set (user_hashes (spec_event w row ts norm d))" for u
  proof -
    have "u \<in> set (user_hashes d) \<or> uh_issue u = i_id ?f"
      using that by (auto simp: spec_event_def Let_def final_issue_simps split: if_splits)
    then show ?thesis
    proof
      assume "u \<in> set (user_hashes d)"
      then obtain i where "i \<in> set (issues d)" "uh_issue u = i_id i" using assms(3) by (auto simp: links_ok_def)
      then show ?thesis using lift by metis
    next
      assume "uh_issue u = i_id ?f"
      then show ?thesis using f by blast
    qed
  qed
  have "issues (spec_event w row ts norm d) = spec_issues w row ts norm d"
    by (simp add: spec_event_def Let_def)
  then show ?thesis using ev us by (simp add: links_ok_def)
qed

lemma spec_user_hashes:
  "user_hashes (spec_event w row ts norm d) =
    (if new_user (i_id (final_issue w row ts norm d)) (ev_user_hash row) d
     then user_hashes d @ [\<lparr>uh_issue = i_id (final_issue w row ts norm d), uh_hash = ev_user_hash row,
            uh_first_seen = w_now w\<rparr>]
     else user_hashes d)"
  by (simp add: spec_event_def Let_def final_issue_simps)

lemma spec_counts:
  assumes "ids_ok w d" "store_keys_ok d" "links_ok d" "counts_ok d" "inj (w_fresh w)"
  shows "counts_ok (spec_event w row ts norm d)"
proof -
  have k: "key_ok issue_key (issues d)" using assms(2) by (simp add: store_keys_ok_def)
  note mem = mem_spec_issues[OF assms(1) k assms(5)]
  let ?f = "final_issue w row ts norm d" and ?D = "spec_event w row ts norm d"
  have ne: "i_id i \<noteq> i_id ?f" if "i \<in> set (issues d)" "issue_key i \<noteq> (ev_project row, n_fingerprint norm)" for i
    using other_ids[OF assms(1,5) that] by (simp add: final_issue_simps)
  have other: "i_count i = event_count (\<lambda>e. ev_issue e = Some (i_id i)) ?D \<and>
     i_user_count i = int (length (filter (\<lambda>u. uh_issue u = i_id i) (user_hashes ?D)))"
    if "i \<in> set (issues d)" "issue_key i \<noteq> (ev_project row, n_fingerprint norm)" for i
    using that assms(4) ne[OF that] by (simp add: counts_ok_def spec_event_count spec_user_hashes)
  have base: "i_count ?f = event_count (\<lambda>e. ev_issue e = Some (i_id ?f)) d + 1 \<and>
     i_user_count ?f = int (length (filter (\<lambda>u. uh_issue u = i_id ?f) (user_hashes d))) +
       (if new_user (i_id ?f) (ev_user_hash row) d then 1 else 0)"
  proof (cases rule: final_issue_cases[of row norm d w ts])
    case new
    let ?u = "w_fresh w (serial d)"
    have "filter (\<lambda>e. ev_issue e = Some ?u) (events d) = []" "filter (\<lambda>u. uh_issue u = ?u) (user_hashes d) = []"
      using assms(3) fresh_id[OF assms(1,5)] by (auto simp: links_ok_def filter_empty_conv)
    then show ?thesis using new(2) by (simp add: final_issue_def Let_def issue_new_def event_count_def)
  next
    case (old i)
    then have "i_count i = event_count (\<lambda>e. ev_issue e = Some (i_id i)) d"
      "i_user_count i = int (length (filter (\<lambda>u. uh_issue u = i_id i) (user_hashes d)))"
      using assms(4) by (auto simp: counts_ok_def)
    then show ?thesis using old(3) by (simp add: final_issue_def Let_def issue_upd_def)
  qed
  have fin: "i_count ?f = event_count (\<lambda>e. ev_issue e = Some (i_id ?f)) ?D \<and>
     i_user_count ?f = int (length (filter (\<lambda>u. uh_issue u = i_id ?f) (user_hashes ?D)))"
    using base by (simp add: spec_event_count spec_user_hashes)
  have "issues ?D = spec_issues w row ts norm d" by (simp add: spec_event_def Let_def)
  then show ?thesis unfolding counts_ok_def using other fin mem by auto
qed

lemma spec_rollups:
  assumes "rollups_ok d" "ev_timestamp row = pg_time ts"
  shows "rollups_ok (spec_event w row ts norm d)"
proof -
  let ?f = "i_id (final_issue w row ts norm d)" and ?h = "truncate_to ts hour" and ?D = "spec_event w row ts norm d"
  have er: "event_rollups ?D = rollup_up.stmt ?f ?h (event_rollups d)"
    and pr: "project_rollups ?D = prollup_up.stmt (ev_project row) ?h (project_rollups d)"
    by (simp_all add: stmt_defs spec_event_def Let_def final_issue_simps)
  have hr: "truncate_to (ev_timestamp row) hour = ?h" by (simp add: assms(2) truncate_pg_time)
  have "rollup_up.count_of (iid, h) (event_rollups ?D) =
      event_count (\<lambda>e. ev_issue e = Some iid \<and> truncate_to (ev_timestamp e) hour = h) ?D" for iid h
    unfolding er rollup_up.count_of_stmt
    using assms(1) hr by (auto simp: rollups_ok_def rollup_up.count_of_def spec_event_count)
  moreover have "prollup_up.count_of (pid, h) (project_rollups ?D) =
      event_count (\<lambda>e. ev_project e = pid \<and> truncate_to (ev_timestamp e) hour = h) ?D" for pid h
    unfolding pr prollup_up.count_of_stmt
    using assms(1) hr by (auto simp: rollups_ok_def prollup_up.count_of_def spec_event_count)
  ultimately show ?thesis by (simp add: rollups_ok_def rollup_up.count_of_def prollup_up.count_of_def)
qed

lemma spec_keys:
  assumes "ids_ok w d" "store_keys_ok d" "inj (w_fresh w)" "\<forall>e\<in>set (events d). event_key e \<noteq> event_key row"
  shows "store_keys_ok (spec_event w row ts norm d)"
proof -
  let ?D = "spec_event w row ts norm d" and ?f = "i_id (final_issue w row ts norm d)"
  have "key_ok issue_key (issues ?D)"
    using key_ok_spec_issues(1)[OF assms(1) _ assms(3)] assms(2) by (simp add: store_keys_ok_def spec_event_def Let_def)
  moreover have "key_ok event_key (events ?D)"
    using assms(2,4) by (auto simp: store_keys_ok_def spec_event_def Let_def event_key_def)
  moreover have "key_ok (\<lambda>u. (uh_issue u, uh_hash u)) (user_hashes ?D)"
    using assms(2) by (auto simp: store_keys_ok_def spec_user_hashes new_user_def list_ex_iff)
  moreover have "key_ok rollup_key (event_rollups ?D)"
    using assms(2) rollup_up.key_ok_stmt[of "event_rollups d" ?f "truncate_to ts hour"]
    by (simp add: store_keys_ok_def stmt_defs spec_event_def Let_def final_issue_simps)
  moreover have "key_ok prollup_key (project_rollups ?D)"
    using assms(2) prollup_up.key_ok_stmt[of "project_rollups d" "ev_project row" "truncate_to ts hour"]
    by (simp add: store_keys_ok_def stmt_defs spec_event_def Let_def)
  ultimately show ?thesis by (simp add: store_keys_ok_def)
qed

lemma ledger_spec_event:
  assumes "ledger w d" "inj (w_fresh w)" "ev_timestamp row = pg_time ts"
    "\<forall>e\<in>set (events d). event_key e \<noteq> event_key row"
  shows "ledger w (spec_event w row ts norm d)"
  using assms spec_links spec_counts spec_rollups spec_keys key_ok_spec_issues(2)
  unfolding ledger_def store_keys_ok_def by (metis (no_types, lifting) store_keys_ok_def)

subsection \<open>The pipeline keeps the ledger\<close>

text \<open>The tables the ledger speaks of.\<close>

definition ledger_tables where
  "ledger_tables d = (issues d, events d, user_hashes d, event_rollups d, project_rollups d)"

lemma ledger_frame: "ledger_tables d' = ledger_tables d \<Longrightarrow> serial d \<le> serial d' \<Longrightarrow> ledger w d \<Longrightarrow> ledger w d'"
proof -
  assume t: "ledger_tables d' = ledger_tables d" and n: "serial d \<le> serial d'" and l: "ledger w d"
  have eq: "issues d' = issues d" "events d' = events d" "user_hashes d' = user_hashes d"
    "event_rollups d' = event_rollups d" "project_rollups d' = project_rollups d"
    using t by (simp_all add: ledger_tables_def)
  have "ids_ok w d'" using l n unfolding ledger_def ids_ok_def eq by (meson less_le_trans)
  then show ?thesis using l
    unfolding ledger_def store_keys_ok_def links_ok_def counts_ok_def rollups_ok_def event_count_def eq
    by simp
qed

lemma keeps_gen: "keeps (ledger w') (gen_uuid w)"
proof -
  have "ledger w' d \<Longrightarrow> ledger w' (d\<lparr>serial := Suc (serial d)\<rparr>)" for d
    by (rule ledger_frame[of _ d]) (simp_all add: ledger_tables_def)
  then show ?thesis by (simp add: keeps_def gen_uuid_def fresh_uuid_def)
qed

lemma keeps_other:
  "(\<And>d a d'. q d = Some (a, d') \<Longrightarrow> ledger_tables d' = ledger_tables d \<and> serial d' = serial d) \<Longrightarrow>
   keeps (ledger w') (exec w q)"
  by (intro keeps_exec) (metis ledger_frame order_refl)

named_theorems other_stmts \<open>statements outside the ledger's tables\<close>

lemma other_stmt_rules [other_stmts]:
  "keeps (ledger w') (exec w (q_release pid v ts))"
  "keeps (ledger w') (exec w (q_insert_tx row meas))"
  "keeps (ledger w') (exec w (q_session srow))"
  "keeps (ledger w') (exec w (q_sketches k))"
  "keeps (ledger w') (exec w (q_session_rollup n))"
  "keeps (ledger w') (exec w (q_aggregate n))"
  "keeps (ledger w') (exec w (q_event_issue eid pid))"
  "keeps (ledger w') (exec w (q_feedback frow))"
  "keeps (ledger w') (exec w (q_unknown w2 pid ity))"
  by (rule keeps_other; auto simp: q_release_def q_insert_tx_def q_session_def q_sketches_def
      q_session_rollup_def q_aggregate_def q_event_issue_def q_feedback_def q_unknown_def
      ledger_tables_def Let_def split: if_splits option.splits prod.splits)+

lemma keeps_touch_release: "keeps (ledger w') (touch_release w pid rel ts)"
  by (auto simp: touch_release_def intro!: keeps_intros other_stmts)

lemma keeps_store_transaction: "keeps (ledger w') (store_transaction w env item pid)"
  by (auto simp: store_transaction_def intro!: keeps_intros other_stmts keeps_touch_release)

lemma keeps_store_session: "keeps (ledger w') (store_session w item pid)"
  by (auto simp: store_session_def load_sketches_def Let_def split_beta
      intro!: keeps_intros other_stmts keeps_gen)

lemma keeps_store_aggregates: "keeps (ledger w') (store_aggregates w pid rel env as)"
  by (induction as) (auto simp: Let_def intro!: keeps_intros other_stmts keeps_touch_release)

lemma keeps_store_session_aggregates: "keeps (ledger w') (store_session_aggregates w item pid)"
  by (auto simp: store_session_aggregates_def Let_def intro!: keeps_intros keeps_store_aggregates)

lemma keeps_store_feedback: "keeps (ledger w') (store_feedback w env item pid)"
  by (auto simp: store_feedback_def store_user_feedback_def store_user_report_def
      resolve_feedback_issue_def feedback_id_def Let_def
      intro!: keeps_intros other_stmts keeps_gen split: option.split)

lemma prepare_event_Inr:
  "prepare_event w env item pid = Inr (row, ts, norm) \<Longrightarrow> ev_timestamp row = pg_time ts \<and> ev_project row = pid"
  by (auto simp: prepare_event_def Let_def bnd_eq_Inr)

lemma ledger_store_event:
  assumes "runs (store_event w env item pid) s (dup, sig) s'" "ledger w (tx_db s)" "inj (w_fresh w)"
  shows "ledger w (tx_db s')"
proof -
  obtain row ts norm where p: "prepare_event w env item pid = Inr (row, ts, norm)"
    and r: "runs (store_row w row ts norm) s (dup, sig) s'"
    using assms(1) unfolding store_event_def by (auto simp: runs_bind sticky_intros runs_lift)
  have t: "ev_timestamp row = pg_time ts" using prepare_event_Inr[OF p] by simp
  show ?thesis
    using store_row_runs[OF r t] ledger_spec_event[OF assms(2,3) t] assms(2) by (auto split: if_splits)
qed

lemma keeps_process_item:
  assumes "ih_type (it_header item) \<noteq> ''event''"
  shows "keeps (ledger w) (process_item w env pid item r)"
  unfolding process_item_def Let_def
  by (subst if_not_P[OF assms])
    (rule keeps_if keeps_bind keeps_ret keeps_must keeps_store_transaction keeps_store_session
      keeps_store_session_aggregates keeps_store_feedback other_stmts)+

lemma process_item_event:
  assumes "ih_type (it_header item) = ''event''" "runs (process_item w env pid item r) s r' s'"
  shows "\<exists>a. runs (store_event w env item pid) s a s'"
  using assms(2) unfolding process_item_def Let_def if_P[OF assms(1)]
  by (force simp: runs_bind sticky_intros runs_ret split: if_splits)

lemma ledger_process_item:
  assumes "runs (process_item w env pid item r) s r' s'" "ledger w (tx_db s)" "inj (w_fresh w)"
  shows "ledger w (tx_db s')"
proof (cases "ih_type (it_header item) = ''event''")
  case True
  then obtain a where "runs (store_event w env item pid) s a s'"
    using process_item_event assms(1) by blast
  then show ?thesis using ledger_store_event assms(2,3) by (cases a) simp
next
  case False
  then show ?thesis using keeps_runs[OF keeps_process_item] assms(1,2) by blast
qed

lemma ledger_process_items:
  "runs (process_items w env pid is r) s r' s' \<Longrightarrow> ledger w (tx_db s) \<Longrightarrow> inj (w_fresh w) \<Longrightarrow> ledger w (tx_db s')"
proof (induction "is" arbitrary: r s)
  case Nil
  then show ?case by (simp add: runs_ret)
next
  case (Cons i "is")
  obtain r1 s1 where "runs (process_item w env pid i r) s r1 s1" "runs (process_items w env pid is r1) s1 r' s'"
    using Cons.prems(1) by (auto simp: runs_bind sticky_intros)
  then show ?case using Cons.IH ledger_process_item Cons.prems(2,3) by blast
qed

end
