(* ===== verification/Samples.thy ===== *)
theory Samples
  imports StoreInv
begin

section \<open>A sample world\<close>

text \<open>
  A project, one error event and what the pipeline makes of it, evaluated: the concrete inputs at
  which the hypotheses of the pipeline's properties are shown to hold.
\<close>

definition tx_start :: "db \<Rightarrow> txs" where
  "tx_start d = \<lparr>tx_db = d, tx_count = 1, tx_aborted = False\<rparr>"

text \<open>A world and a database for the witnesses: one project, no faults.\<close>

definition sample_world :: world where
  "sample_world = \<lparr>w_now = 1700000000 * second, w_uuid = (\<lambda>s. if s = [] then None else Some s),
     w_pg_uuid = (\<lambda>s. Some s), w_fresh = (\<lambda>n. replicate (Suc n) CHR ''u''), w_numeric = (\<lambda>s. s),
     w_timestamptz = (\<lambda>_. None), w_fault = (\<lambda>_. False)\<rparr>"

definition sample_db :: db where
  "sample_db = empty_db\<lparr>projects := [\<lparr>p_id = ''p'', p_org = ''o'', p_name = ''P'', p_slug = ''p'', p_platform = ''javascript''\<rparr>],
     partitions := map (\<lambda>t. (t, 0, 2000000000 * second))
       [''events_part'', ''transactions_part'', ''sessions_part'']\<rparr>"

text \<open>\<open>quote s\<close> is the JSON text of a string without escapes.\<close>

definition quoted :: "string \<Rightarrow> string" where "quoted s = [CHR 0x22] @ s @ [CHR 0x22]"

definition sample_payload :: string where
  "sample_payload = [CHR ''{''] @ quoted ''timestamp'' @ '':1699999999,'' @ quoted ''fingerprint'' @
     '':['' @ quoted ''a'' @ '']'' @ [CHR ''}'']"

definition sample_event :: item where
  "sample_event = \<lparr>it_header = item_header0\<lparr>ih_type := ''event''\<rparr>, it_payload = sample_payload\<rparr>"

definition sample_env :: "item list \<Rightarrow> envelope" where
  "sample_env is = \<lparr>e_header = header0\<lparr>h_event_id := ''e1''\<rparr>, e_items = is\<rparr>"

definition sample_norm :: normalized_event where
  "sample_norm = \<lparr>n_title = [], n_culprit = [], n_fingerprint = ''f:a''\<rparr>"

definition sample_row :: event_row where
  "sample_row = \<lparr>ev_id = ''e1'', ev_timestamp = 1699999999 * second, ev_project = ''p'', ev_issue = None,
     ev_platform = ''javascript'', ev_level = ''error'', ev_environment = ''production'',
     ev_release = [], ev_dist = [], ev_title = [], ev_culprit = [], ev_message = [], ev_trace = None,
     ev_span = [], ev_user_hash = [], ev_tags = [], ev_payload = sample_payload, ev_symbolicated = None\<rparr>"

lemma sample_inj: "inj (w_fresh sample_world)"
  by (simp add: sample_world_def inj_def replicate_eq_replicate del: replicate_Suc)

lemma sample_ledger: "ledger sample_world sample_db"
  by (simp add: ledger_def ids_ok_def store_keys_ok_def links_ok_def counts_ok_def rollups_ok_def
      sample_db_def empty_db_def event_count_def get_key_def)

lemma sample_group: "unmarshal dec_group group_payload0 sample_payload =
    Some (group_payload0\<lparr>g_fingerprint := [''a'']\<rparr>)"
  by code_simp

lemma sample_fp: "rx_search default_token_re (trim_space ''a'') = False" "trim_space ''a'' = ''a''"
  "normalize_title [] [] = []"
  by code_simp+

lemma sample_normalized: "normalize_event sample_payload = Some sample_norm"
  unfolding normalize_event_def sample_group
  using sample_fp
  by (simp add: group_payload0_def sample_norm_def fingerprint_v1_def Let_def expand_part_def)

lemma sample_decoded: "unmarshal dec_event_payload event_payload0 sample_payload =
    Some (event_payload0\<lparr>pl_timestamp := Some (JNum ''1699999999''), pl_fingerprint := [''a'']\<rparr>)"
  by code_simp

lemma sample_time: "parse_timestamp (Some (JNum ''1699999999'')) = Inr (1699999999 * second)"
  by code_simp

lemma sample_id: "event_id_from (w_uuid sample_world) (sample_env is) [] = Inr ''e1''"
proof -
  have "to_lower ''e1'' = ''e1''" by code_simp
  then show ?thesis by (simp add: event_id_from_def sample_env_def header0_def sample_world_def of_opt_def)
qed

lemma prepare_sample:
  assumes "w_uuid w = w_uuid sample_world"
  shows "prepare_event w (sample_env is) sample_event ''p'' = Inr (sample_row, 1699999999 * second, sample_norm)"
proof -
  have p: "it_payload sample_event = sample_payload" by (simp add: sample_event_def)
  have e: "pl_event_id event_payload0 = []" by (simp add: event_payload0_def)
  show ?thesis
    unfolding prepare_event_def p sample_decoded assms
    by (simp add: sample_normalized sample_time sample_id e of_opt_def)
       (simp add: event_payload0_def trace0_def user0_def null_uuid_def user_hash_def parse_tags_def
          sample_row_def pg_time_def second_def sample_norm_def)
qed

text \<open>The database after the event.\<close>

definition sample_db1 :: db where
  "sample_db1 = spec_event sample_world sample_row (1699999999 * second) sample_norm sample_db"

definition sample_signal :: alert_signal where
  "sample_signal = \<lparr>sg_issue = ''u'', sg_event = ''e1'', sg_new = True, sg_regression = False,
     sg_environment = ''production'', sg_release = [], sg_level = ''error''\<rparr>"

lemma sample_stored:
  "store_row sample_world sample_row (1699999999 * second) sample_norm (tx_start sample_db) =
   (Inr (False, Some sample_signal), \<lparr>tx_db = sample_db1, tx_count = 8, tx_aborted = False\<rparr>)"
  by code_simp

lemma sample_process:
  "process sample_world (sample_env [sample_event]) ''p'' sample_db =
   (Inr ((accept result0)\<lparr>pr_signals := [sample_signal]\<rparr>), sample_db1)"
proof -
  have items: "e_items (sample_env [sample_event]) = [sample_event]" by (simp add: sample_env_def)
  have ity: "ih_type (it_header sample_event) = ''event''" by (simp add: sample_event_def)
  have fault: "w_fault sample_world = (\<lambda>_. False)" by (simp add: sample_world_def)
  have "store_event sample_world (sample_env [sample_event]) sample_event ''p'' (tx_start sample_db) =
    (Inr (False, Some sample_signal), \<lparr>tx_db = sample_db1, tx_count = 8, tx_aborted = False\<rparr>)"
    unfolding store_event_def prepare_sample[OF refl] by (simp add: bind_def lift_res_def sample_stored)
  then show ?thesis
    by (simp add: process_def items run_tx_def fault process_item_def ity bind_def ret_def tx_start_def
      result0_def accept_def)
qed
end
