(* ===== verification/Pipeline.thy ===== *)
theory Pipeline
  imports Samples
begin

section \<open>What the pipeline promises (internal/ingest/pipeline.go, store.go)\<close>

text \<open>
  The properties of \<open>process\<close> that follow from the ledger and from the shape of the transaction:
  all or nothing, the ledger after every envelope, deduplication, the life of an issue, of a
  session and of a feedback row.
\<close>

subsection \<open>All or nothing\<close>

lemma process_runs:
  "process w env pid d = (Inr r, d') \<Longrightarrow>
   \<exists>s. runs (process_items w env pid (e_items env) result0) (tx_start d) r s \<and> d' = tx_db s \<and>
       (\<forall>k\<le>tx_count s. \<not> w_fault w k)"
proof -
  assume "process w env pid d = (Inr r, d')"
  from run_tx_runs[OF this[unfolded process_def]] obtain s where
    s: "runs (process_items w env pid (e_items env) result0) (tx_start d) r s" "d' = tx_db s"
    "\<not> w_fault w 0" "\<not> w_fault w (tx_count s)" by (auto simp: tx_start_def)
  have "\<forall>k. 1 \<le> k \<and> k < tx_count s \<longrightarrow> \<not> w_fault w k"
    using honest_process_items[of w env pid "e_items env" result0] s(1)
    by (auto simp: honest_def tx_start_def)
  then have "\<forall>k\<le>tx_count s. \<not> w_fault w k"
    using s(3,4) by (metis One_nat_def Suc_leI le_neq_implies_less neq0_conv)
  then show ?thesis using s by blast
qed

definition items_seen :: "process_result \<Rightarrow> nat" where
  "items_seen r = pr_accepted r + pr_ignored r + pr_unknown r + pr_duplicates r"

lemma process_item_seen:
  "process_item w env pid i r s = (Inr r', s') \<Longrightarrow> items_seen r' = items_seen r + 1 \<and>
     length (pr_signals r') + pr_accepted r \<le> length (pr_signals r) + pr_accepted r'"
  by (auto simp: process_item_def Let_def bind_Inr items_seen_def accept_def duplicate_def
      split: if_splits option.splits)

lemma process_items_seen:
  "process_items w env pid is r s = (Inr r', s') \<Longrightarrow> items_seen r' = items_seen r + length is \<and>
     length (pr_signals r') + pr_accepted r \<le> length (pr_signals r) + pr_accepted r'"
proof (induction "is" arbitrary: r s)
  case (Cons i "is")
  then obtain r1 s1 where "process_item w env pid i r s = (Inr r1, s1)"
    "process_items w env pid is r1 s1 = (Inr r', s')" by (auto simp: bind_Inr)
  then show ?case using Cons.IH[of r1 s1] process_item_seen[of w env pid i r s r1 s1] by simp
qed simp

text \<open>C1: An envelope is stored completely or not at all.  When \<open>Process\<close> returns an error the
  database is untouched; when it returns normally every item was counted exactly once (accepted,
  ignored, unknown or duplicate), there is at most one alert signal per accepted item, no
  statement of the transaction (Begin is number 0, Commit the last) was failed by the server, not
  even one whose error the code discards, and the database is the one the items left.\<close>

theorem process_all_or_nothing:
  "case process w env pid d of
     (Inl e, d') \<Rightarrow> d' = d
   | (Inr r, d') \<Rightarrow> items_seen r = length (e_items env) \<and> length (pr_signals r) \<le> pr_accepted r \<and>
       (\<exists>s. process_items w env pid (e_items env) result0 (tx_start d) = (Inr r, s) \<and> d' = tx_db s \<and>
          (\<forall>k\<le>tx_count s. \<not> w_fault w k))"
proof (cases "process w env pid d")
  case (Pair a d')
  show ?thesis
  proof (cases a)
    case (Inl e)
    then show ?thesis using run_tx_error Pair unfolding process_def by fastforce
  next
    case (Inr r)
    then obtain s where s: "runs (process_items w env pid (e_items env) result0) (tx_start d) r s"
      "d' = tx_db s" "\<forall>k\<le>tx_count s. \<not> w_fault w k" using process_runs Pair by metis
    then have "process_items w env pid (e_items env) result0 (tx_start d) = (Inr r, s)"
      by (simp add: runs_def)
    moreover from process_items_seen[OF this]
    have "items_seen r = length (e_items env)" "length (pr_signals r) \<le> pr_accepted r"
      by (simp_all add: items_seen_def result0_def)
    ultimately show ?thesis using Pair Inr s by auto
  qed
qed

lemma sample_items: "e_items (sample_env is) = is"
  by (simp add: sample_env_def)

theorem process_all_or_nothing_witness:
  "\<exists>s. process_items sample_world (sample_env [sample_event]) ''p'' [sample_event] result0 (tx_start sample_db) =
     (Inr ((accept result0)\<lparr>pr_signals := [sample_signal]\<rparr>), s) \<and> sample_db1 = tx_db s"
  using process_all_or_nothing[where w = sample_world and env = "sample_env [sample_event]" and pid = "''p''"
    and d = sample_db]
  unfolding sample_process sample_items by (auto simp del: process_items.simps)

text \<open>C3: Every envelope keeps the ledger of the issue store, whatever its items are and wherever
  the server fails: keys stay unique, every stored event points to an issue of its project that
  was last seen no earlier than the event, the count of an issue, of its hourly rollup and of the
  hourly rollup of the project is the number of stored events, and the user count of an issue is
  the number of distinct user hashes.\<close>

theorem process_keeps_ledger:
  assumes "ledger w d" "inj (w_fresh w)"
  shows "ledger w (snd (process w env pid d))"
proof (cases "process w env pid d")
  case (Pair a d')
  show ?thesis
  proof (cases a)
    case (Inl e)
    then show ?thesis using run_tx_error Pair assms(1) unfolding process_def by fastforce
  next
    case (Inr r)
    then show ?thesis using process_runs Pair ledger_process_items assms
      by (metis snd_conv tx_start_def txs.select_convs(1))
  qed
qed

theorem process_keeps_ledger_witness: "ledger sample_world sample_db1 \<and> events sample_db1 \<noteq> []"
  using process_keeps_ledger[OF sample_ledger sample_inj, of "sample_env [sample_event]" "''p''"]
  by (simp add: sample_process) (simp add: sample_db1_def spec_event_def Let_def)

subsection \<open>Redelivery\<close>

lemma single_item:
  assumes "process w env pid d = (Inr r, d')" "e_items env = [item]"
  shows "\<exists>s. runs (process_item w env pid item result0) (tx_start d) r s \<and> d' = tx_db s"
proof -
  obtain s where "runs (process_items w env pid [item] result0) (tx_start d) r s" "d' = tx_db s"
    using process_runs[OF assms(1)] assms(2) by auto
  then show ?thesis by (auto simp: runs_bind sticky_intros runs_ret)
qed

lemma stored_event:
  assumes "process w env pid d = (Inr r, d')" "e_items env = [item]" "ih_type (it_header item) = ''event''"
    "prepare_event w env item pid = Inr (row, ts, norm)"
  obtains dup sig s where "runs (store_row w row ts norm) (tx_start d) (dup, sig) s" "d' = tx_db s"
    "r = (if dup then duplicate result0
          else (accept result0)\<lparr>pr_signals := (case sig of None \<Rightarrow> [] | Some s \<Rightarrow> [s])\<rparr>)"
    "ev_timestamp row = pg_time ts" "ev_project row = pid"
proof -
  obtain s where s: "runs (process_item w env pid item result0) (tx_start d) r s" "d' = tx_db s"
    using single_item[OF assms(1,2)] by blast
  obtain dup sig s1 where e: "runs (store_event w env item pid) (tx_start d) (dup, sig) s1"
    "runs (if dup then ret (duplicate result0)
        else ret ((accept result0)\<lparr>pr_signals := pr_signals result0 @ (case sig of None \<Rightarrow> [] | Some s \<Rightarrow> [s])\<rparr>)
        :: (store_error, process_result) txm) s1 r s"
    using s(1) unfolding process_item_def Let_def if_P[OF assms(3)]
    by (simp add: runs_bind sticky_intros) blast
  have r: "s1 = s" "r = (if dup then duplicate result0
          else (accept result0)\<lparr>pr_signals := (case sig of None \<Rightarrow> [] | Some s \<Rightarrow> [s])\<rparr>)"
    using e(2) by (auto simp: runs_ret result0_def split: if_splits)
  have "runs (store_row w row ts norm) (tx_start d) (dup, sig) s"
    using e(1) unfolding r(1) store_event_def assms(4) by (auto simp: runs_bind sticky_intros runs_lift)
  then show ?thesis using that s(2) r(2) prepare_event_Inr[OF assms(4)] by blast
qed

lemma has_duplicate:
  assumes "runs (store_row w row ts norm) s (dup, sig) s'" "ev_timestamp row = pg_time ts"
  shows "\<exists>e\<in>set (events (tx_db s')). event_key e = event_key row"
  using store_row_runs[OF assms]
  by (auto simp: spec_event_def Let_def event_key_def split: if_splits)

lemma stored_checks:
  assumes "runs (store_row w row ts norm) s (dup, sig) s'"
  shows "project_exists (tx_db s) (ev_project row)" "has_partition (tx_db s) ''events_part'' (ev_timestamp row)"
  using assms unfolding store_row_def Let_def
  by (auto simp: runs_bind sticky_intros runs_must runs_exec q_insert_event_def split: if_splits prod.splits)

lemma spec_event_frame:
  "project_exists (spec_event w row ts norm d) = project_exists d"
  "has_partition (spec_event w row ts norm d) = has_partition d"
  by (simp_all add: fun_eq_iff project_exists_def has_partition_def spec_event_def Let_def)

lemma prepare_event_clock:
  assumes "unmarshal dec_event_payload event_payload0 (it_payload item) = Some p" "pl_timestamp p \<noteq> None"
    "w_uuid w' = w_uuid w"
  shows "prepare_event w' env item pid = prepare_event w env item pid"
  using assms by (auto simp: prepare_event_def of_opt_def null_uuid_def)

text \<open>C11: Redelivery is harmless when the event carries a timestamp: once an envelope with one event
  was processed, processing it again, at any later time and on any healthy server, answers
  "duplicate", raises no signal and leaves the database as it is (issue counts included).\<close>

theorem redelivered_event:
  assumes "process w env pid d = (Inr r, d')" "e_items env = [item]" "ih_type (it_header item) = ''event''"
    "unmarshal dec_event_payload event_payload0 (it_payload item) = Some p" "pl_timestamp p \<noteq> None"
    "w_uuid w' = w_uuid w" "\<And>k. \<not> w_fault w' k"
  shows "process w' env pid d' = (Inr (duplicate result0), d')"
proof -
  obtain s where "runs (process_item w env pid item result0) (tx_start d) r s"
    using single_item[OF assms(1,2)] by blast
  from process_item_event[OF assms(3) this] obtain row ts norm
    where prep: "prepare_event w env item pid = Inr (row, ts, norm)"
    unfolding store_event_def by (auto simp: runs_bind sticky_intros runs_lift)
  obtain dup sig s where st: "runs (store_row w row ts norm) (tx_start d) (dup, sig) s" "d' = tx_db s"
    "ev_timestamp row = pg_time ts"
    using stored_event[OF assms(1-3) prep] by metis
  note res = store_row_runs[OF st(1,3)]
  have "project_exists d' (ev_project row)" "has_partition d' ''events_part'' (ev_timestamp row)"
    using stored_checks[OF st(1)] res st(2) by (auto simp: tx_start_def spec_event_frame split: if_splits)
  moreover have "list_ex (\<lambda>e. event_key e = event_key row) (events d')"
    using has_duplicate[OF st(1,3)] st(2) by (simp add: list_ex_iff)
  ultimately have "q_insert_event row d' = Some (0, d')"
    by (simp add: q_insert_event_def insert_new_def)
  moreover have "prepare_event w' env item pid = Inr (row, ts, norm)"
    using prepare_event_clock[OF assms(4-6)] prep by simp
  ultimately have "store_event w' env item pid (tx_start d') = (Inr (True, None), (tx_start d')\<lparr>tx_count := 2\<rparr>)"
    using assms(7) by (simp add: store_event_def store_row_def Let_def bind_def lift_res_def must_def exec_def ret_def tx_start_def)
  then show ?thesis
    using assms(2,3,7) by (simp add: process_def run_tx_def process_item_def bind_def ret_def tx_start_def)
qed

theorem redelivered_event_witness:
  "process (sample_world\<lparr>w_now := 0\<rparr>) (sample_env [sample_event]) ''p'' sample_db1 =
     (Inr (duplicate result0), sample_db1)"
proof (rule redelivered_event[OF sample_process sample_items])
  show "ih_type (it_header sample_event) = ''event''" by (simp add: sample_event_def)
  show "unmarshal dec_event_payload event_payload0 (it_payload sample_event) =
     Some (event_payload0\<lparr>pl_timestamp := Some (JNum ''1699999999''), pl_fingerprint := [''a'']\<rparr>)"
    using sample_decoded by (simp add: sample_event_def)
  show "pl_timestamp (event_payload0\<lparr>pl_timestamp := Some (JNum ''1699999999''), pl_fingerprint := [''a'']\<rparr>) \<noteq> None"
    by (simp add: event_payload0_def)
  show "w_uuid (sample_world\<lparr>w_now := 0\<rparr>) = w_uuid sample_world" by (simp add: sample_world_def)
  show "\<not> w_fault (sample_world\<lparr>w_now := 0\<rparr>) k" for k by (simp add: sample_world_def)
qed

subsection \<open>The life of an issue\<close>

lemma get_key_eqI:
  assumes "key_ok key xs" "key_ok key ys" "\<And>r. key r = k \<Longrightarrow> r \<in> set xs \<longleftrightarrow> r \<in> set ys"
  shows "get_key key k xs = get_key key k ys"
proof (cases "get_key key k xs")
  case None
  then have "\<forall>r\<in>set ys. key r \<noteq> k" using assms(3) by (auto simp: get_key_None)
  then show ?thesis using None get_key_None[of key k ys] by simp
next
  case (Some r)
  then have "r \<in> set ys" "key r = k" using assms(3) get_key_Some[of key k xs r] by auto
  then show ?thesis using Some get_key_unique[OF assms(2), of r] by simp
qed

text \<open>C5: The state machine of an issue.  When one event is accepted, exactly one signal is raised,
  and it names the issue of the event's fingerprint.  A fingerprint not seen before makes a new
  unresolved issue with count 1.  Otherwise the issue keeps its id and first-seen time, its count
  grows by one, its last-seen time never goes back, and only a resolved issue changes its status:
  it becomes unresolved with substatus "regressed" and the signal says so, while an ignored issue
  stays ignored.  No other issue changes.\<close>

theorem event_moves_issue:
  assumes "process w env pid d = (Inr r, d')" "e_items env = [item]" "ih_type (it_header item) = ''event''"
    "prepare_event w env item pid = Inr (row, ts, norm)" "pr_accepted r = 1"
    "ledger w d" "inj (w_fresh w)"
  shows "\<exists>i sg. get_key issue_key (pid, n_fingerprint norm) (issues d') = Some i \<and> pr_signals r = [sg] \<and>
    sg_issue sg = i_id i \<and> sg_event sg = ev_id row \<and> i_level i = ev_level row \<and> i_title i = n_title norm \<and>
    (case get_key issue_key (pid, n_fingerprint norm) (issues d) of
       None \<Rightarrow> sg_new sg \<and> \<not> sg_regression sg \<and> i_status i = Unresolved \<and> i_substatus i = [] \<and>
         i_count i = 1 \<and> i_first_seen i = pg_time ts \<and> i_last_seen i = pg_time ts
     | Some j \<Rightarrow> \<not> sg_new sg \<and> i_id i = i_id j \<and> i_count i = i_count j + 1 \<and>
         i_first_seen i = i_first_seen j \<and> i_last_seen i = max (i_last_seen j) (pg_time ts) \<and>
         sg_regression sg = (i_status j = Resolved) \<and>
         (if i_status j = Resolved then i_status i = Unresolved \<and> i_substatus i = ''regressed''
          else i_status i = i_status j \<and> i_substatus i = i_substatus j)) \<and>
    (\<forall>k. k \<noteq> (pid, n_fingerprint norm) \<longrightarrow> get_key issue_key k (issues d') = get_key issue_key k (issues d))"
proof -
  obtain dup sig s where st: "runs (store_row w row ts norm) (tx_start d) (dup, sig) s" "d' = tx_db s"
    "r = (if dup then duplicate result0
          else (accept result0)\<lparr>pr_signals := (case sig of None \<Rightarrow> [] | Some s \<Rightarrow> [s])\<rparr>)"
    "ev_timestamp row = pg_time ts" "ev_project row = pid"
    using stored_event[OF assms(1-4)] by metis
  have nd: "\<not> dup" using assms(5) st(3) by (auto simp: duplicate_def result0_def split: if_splits)
  let ?k = "(pid, n_fingerprint norm)" and ?f = "final_issue w row ts norm d"
  have D: "d' = spec_event w row ts norm d" and
    sg: "sig = Some \<lparr>sg_issue = i_id (the_issue w pid norm (ev_level row) (pg_time ts) d), sg_event = ev_id row,
        sg_new = (get_key issue_key ?k (issues d) = None),
        sg_regression = (map_option i_status (get_key issue_key ?k (issues d)) = Some Resolved),
        sg_environment = ev_environment row, sg_release = ev_release row, sg_level = ev_level row\<rparr>"
    using store_row_runs[OF st(1,4)] nd st(2,5) by (auto simp: tx_start_def split: if_splits)
  have ok: "ids_ok w d" "key_ok issue_key (issues d)"
    using assms(6) by (simp_all add: ledger_def store_keys_ok_def)
  have D': "issues d' = spec_issues w row ts norm d" by (simp add: D spec_event_def Let_def)
  note kd = key_ok_spec_issues(1)[OF ok assms(7), of row ts norm, folded D']
  note mem = mem_spec_issues[OF ok assms(7), of _ row ts norm, folded D', unfolded st(5)]
  have fk: "issue_key ?f = ?k" by (simp add: final_issue_simps st(5))
  have "get_key issue_key ?k (issues d') = Some ?f"
    using get_key_unique[OF kd, of ?f] mem fk by simp
  moreover have "get_key issue_key k (issues d') = get_key issue_key k (issues d)" if "k \<noteq> ?k" for k
    using that mem fk by (intro get_key_eqI kd ok(2)) auto
  moreover have "case get_key issue_key ?k (issues d) of
       None \<Rightarrow> i_status ?f = Unresolved \<and> i_substatus ?f = [] \<and>
         i_count ?f = 1 \<and> i_first_seen ?f = pg_time ts \<and> i_last_seen ?f = pg_time ts
     | Some j \<Rightarrow> i_id ?f = i_id j \<and> i_count ?f = i_count j + 1 \<and>
         i_first_seen ?f = i_first_seen j \<and> i_last_seen ?f = max (i_last_seen j) (pg_time ts) \<and>
         (if i_status j = Resolved then i_status ?f = Unresolved \<and> i_substatus ?f = ''regressed''
          else i_status ?f = i_status j \<and> i_substatus ?f = i_substatus j)"
    by (auto simp: final_issue_def Let_def st(5) the_issue_new the_issue_old issue_new_def issue_upd_def
        split: option.split)
  moreover have "i_level ?f = ev_level row" "i_title ?f = n_title norm"
    by (simp_all add: final_issue_def Let_def the_issue_def issue_new_def issue_upd_def split: option.split)
  ultimately show ?thesis
    using nd st(3) sg by (intro exI[of _ ?f]) (auto simp: final_issue_simps st(5) split: option.splits)
qed

theorem event_moves_issue_witness:
  "\<exists>i. get_key issue_key (''p'', ''f:a'') (issues sample_db1) = Some i \<and> i_status i = Unresolved \<and> i_count i = 1"
proof -
  have "n_fingerprint sample_norm = ''f:a''" "get_key issue_key (''p'', ''f:a'') (issues sample_db) = None"
    by (simp_all add: sample_norm_def sample_db_def empty_db_def get_key_def)
  moreover have "ih_type (it_header sample_event) = ''event''"
    "pr_accepted ((accept result0)\<lparr>pr_signals := [sample_signal]\<rparr>) = 1"
    by (simp_all add: sample_event_def accept_def result0_def)
  ultimately show ?thesis
    using event_moves_issue[OF sample_process sample_items _ prepare_sample[OF refl] _ sample_ledger sample_inj]
    by auto
qed

subsection \<open>Feedback\<close>

text \<open>C21: One waiting feedback row can block an event for ever: if a feedback row waits for the
  event and its own timestamp text cannot be cast to a time, every attempt to store the event fails
  (the failed backfill statement, whose error the code discards, has already aborted the
  transaction), and the database does not change.\<close>

theorem feedback_blocks_event:
  assumes "e_items env = [item]" "ih_type (it_header item) = ''event''"
    "prepare_event w env item pid = Inr (row, ts, norm)"
    "f \<in> set (feedbacks d)" "waits_for pid (ev_id row) f" "in_window w ts (fb_payload f) = None"
    "\<forall>e\<in>set (events d). event_key e \<noteq> event_key row"
  shows "\<exists>e. process w env pid d = (Inl e, d)"
proof (cases "process w env pid d")
  case (Pair a d')
  show ?thesis
  proof (cases a)
    case (Inl e)
    then show ?thesis using Pair run_tx_error unfolding process_def by metis
  next
    case (Inr r)
    obtain dup sig s where st: "runs (store_row w row ts norm) (tx_start d) (dup, sig) s"
      "ev_timestamp row = pg_time ts" "ev_project row = pid"
      using stored_event[OF Pair[unfolded Inr] assms(1-3)] by metis
    have "\<forall>f\<in>set (feedbacks d). waits_for pid (ev_id row) f \<longrightarrow> in_window w ts (fb_payload f) \<noteq> None"
      using store_row_runs[OF st(1,2)] assms(7) st(3) by (auto simp: tx_start_def split: if_splits)
    then show ?thesis using assms(4-6) by blast
  qed
qed

definition sample_waiting :: feedback_row where
  "sample_waiting = \<lparr>fb_id = ''f1'', fb_project = ''p'', fb_event = Some ''e1'', fb_issue = None, fb_name = [],
     fb_email = [], fb_message = ''broken'', fb_url = [], fb_received = 0,
     fb_payload = JObj [(''timestamp'', JStr ''yesterday-ish'')]\<rparr>"

theorem feedback_blocks_event_witness:
  "\<exists>e. process sample_world (sample_env [sample_event]) ''p'' (sample_db\<lparr>feedbacks := [sample_waiting]\<rparr>) =
     (Inl e, sample_db\<lparr>feedbacks := [sample_waiting]\<rparr>)"
proof (rule feedback_blocks_event[OF sample_items _ prepare_sample[OF refl], where f = sample_waiting])
  show "in_window sample_world (1699999999 * second) (fb_payload sample_waiting) = None" by code_simp
qed (simp_all add: sample_event_def waits_for_def sample_waiting_def sample_row_def sample_db_def empty_db_def)

definition event_for :: "uuid \<Rightarrow> uuid \<Rightarrow> db \<Rightarrow> event_row option" where
  "event_for eid pid d = latest_event (filter (\<lambda>e. ev_id e = eid \<and> ev_project e = pid) (events d))"

lemma resolve_feedback_runs:
  assumes "runs (resolve_feedback_issue w pid (Some eid) fts has) s issue s'"
  shows "tx_db s' = tx_db s \<and> issue = (case event_for eid pid (tx_db s) of
       None \<Rightarrow> None
     | Some e \<Rightarrow> if outside_window (ev_timestamp e) fts has then None else ev_issue e)"
proof -
  obtain ans s1 where a: "runs (attempt (exec w (q_event_issue eid pid)) :: (store_error, _) txm) s ans s1"
    "runs ((case ans of
            Some (Some (Some iid, event_ts)) \<Rightarrow>
              if outside_window event_ts fts has then ret None else ret (Some iid)
          | _ \<Rightarrow> ret None) :: (store_error, uuid option) txm) s1 issue s'"
    using assms unfolding resolve_feedback_issue_def option.case
    by (subst (asm) runs_bind) (auto intro!: sticky_intros split: option.split)
  then have "ans = Some (map_option (\<lambda>e. (ev_issue e, ev_timestamp e)) (event_for eid pid (tx_db s)))"
    "tx_db s1 = tx_db s"
    by (auto simp: runs_simps q_event_issue_def event_for_def)
  then show ?thesis using a(2) by (auto simp: runs_ret split: option.splits if_splits)
qed

lemma q_feedback_runs:
  assumes "runs (exec w (q_feedback row)) s v s'"
  shows "feedbacks (tx_db s') = feedbacks (tx_db s) @ (if fb_id row \<in> fb_id ` set (feedbacks (tx_db s)) then [] else [row])"
  using assms by (auto simp: runs_exec q_feedback_def insert_new_def list_ex_iff image_iff Bex_def eq_commute
      split: if_splits)

lemma process_item_handler:
  assumes "runs (process_item w env pid item r) s r' s'"
  shows "ih_type (it_header item) = ''transaction'' \<Longrightarrow> \<exists>v. runs (store_transaction w env item pid) s v s'"
    "ih_type (it_header item) = ''session'' \<Longrightarrow> runs (store_session w item pid) s () s'"
    "ih_type (it_header item) = ''sessions'' \<Longrightarrow> runs (store_session_aggregates w item pid) s () s'"
    "ih_type (it_header item) = ''feedback'' \<Longrightarrow> runs (store_user_feedback w env item pid) s () s'"
    "ih_type (it_header item) = ''user_report'' \<Longrightarrow> runs (store_user_report w env item pid) s () s'"
  using assms by (auto simp: process_item_def runs_bind sticky_intros runs_ret store_feedback_def)

lemma feedback_id_runs: "runs (feedback_id w env i) s u s' \<Longrightarrow>
    events (tx_db s') = events (tx_db s) \<and> feedbacks (tx_db s') = feedbacks (tx_db s)"
  by (auto simp: feedback_id_def Let_def runs_ret runs_def gen_uuid_def fresh_uuid_def split: option.splits)

text \<open>The issue a feedback row is linked to when it arrives.\<close>

definition linked_issue :: "(time \<Rightarrow> bool) \<Rightarrow> uuid \<Rightarrow> uuid \<Rightarrow> db \<Rightarrow> uuid option" where
  "linked_issue near eid pid d = (case event_for eid pid d of
     None \<Rightarrow> None | Some e \<Rightarrow> if near (ev_timestamp e) then ev_issue e else None)"

text \<open>A user feedback with a timestamp is linked, on arrival, to the issue of the latest event with
  the associated id in its project exactly when the two times are at most 30 minutes apart, in
  either direction; otherwise, and when there is no such event, it is stored without an issue and
  waits.  It is inserted at most once per id and changes no other row.\<close>

theorem feedback_linked:
  assumes "process w env pid d = (Inr r, d')" "e_items env = [item]" "ih_type (it_header item) = ''feedback''"
    "unmarshal dec_feedback_payload feedback_payload0 (it_payload item) = Some f"
    "fp_associated f \<noteq> []" "w_uuid w (to_lower (fp_associated f)) = Some eid"
    "parse_timestamp (fp_timestamp f) = Inr t"
  shows "feedbacks d' = feedbacks d \<or> (\<exists>row. feedbacks d' = feedbacks d @ [row] \<and>
    fb_message row = fp_message f \<and> fp_message f \<noteq> [] \<and> fb_event row = Some eid \<and>
    fb_issue row = linked_issue (\<lambda>ts. \<bar>ts - t\<bar> \<le> 30 * minute) eid pid d)"
proof -
  obtain s where s: "runs (process_item w env pid item result0) (tx_start d) r s" "d' = tx_db s"
    using single_item[OF assms(1,2)] by blast
  have "runs (store_user_feedback w env item pid) (tx_start d) () s"
    using process_item_handler(4)[OF s(1)] assms(3) by simp
  then obtain u s2 issue s3 v4 where m: "fp_message f \<noteq> []"
    and r2: "runs (feedback_id w env (fp_event_id f)) (tx_start d) u s2"
    and r3: "runs (resolve_feedback_issue w pid (Some eid) t True) s2 issue s3"
    and r4: "runs (exec w (q_feedback \<lparr>fb_id = u, fb_project = pid, fb_event = Some eid, fb_issue = issue,
          fb_name = fp_name f, fb_email = fp_contact_email f, fb_message = fp_message f, fb_url = fp_url f,
          fb_received = w_now w, fb_payload = payload_json (it_payload item)\<rparr>)) s3 v4 s"
    using assms(5-7) unfolding store_user_feedback_def Let_def assms(4) of_opt_def
    by (simp add: runs_bind sticky_intros runs_lift runs_fail runs_must split: if_split_asm) blast
  have "events (tx_db s2) = events d" "feedbacks (tx_db s2) = feedbacks d"
    using feedback_id_runs[OF r2] by (simp_all add: tx_start_def)
  then have "issue = linked_issue (\<lambda>ts. \<bar>ts - t\<bar> \<le> 30 * minute) eid pid d" "feedbacks (tx_db s3) = feedbacks d"
    using resolve_feedback_runs[OF r3]
    by (auto simp: linked_issue_def event_for_def outside_window_def association_window_def split: option.split)
  then show ?thesis using q_feedback_runs[OF r4] m s(2) by (auto split: if_splits)
qed

definition sample_feedback :: item where
  "sample_feedback = \<lparr>it_header = item_header0\<lparr>ih_type := ''feedback''\<rparr>, it_payload =
     [CHR ''{''] @ quoted ''timestamp'' @ '':1699999990,'' @ quoted ''contexts'' @ '':'' @ [CHR ''{''] @
     quoted ''feedback'' @ '':'' @ [CHR ''{''] @ quoted ''message'' @ '':'' @ quoted ''hi'' @ '','' @
     quoted ''associated_event_id'' @ '':'' @ quoted ''e1'' @ [CHR ''}'', CHR ''}'', CHR ''}'']\<rparr>"

definition sample_feedback_row :: feedback_row where
  "sample_feedback_row = \<lparr>fb_id = ''e1'', fb_project = ''p'', fb_event = Some ''e1'', fb_issue = Some ''u'',
     fb_name = [], fb_email = [], fb_message = ''hi'', fb_url = [], fb_received = 1700000000 * second,
     fb_payload = payload_json (it_payload sample_feedback)\<rparr>"

lemma process_feedback: "process sample_world (sample_env [sample_feedback]) ''p'' sample_db1 =
    (Inr (accept result0), sample_db1\<lparr>feedbacks := [sample_feedback_row]\<rparr>)"
  by code_simp

theorem feedback_linked_witness:
  "linked_issue (\<lambda>ts. \<bar>ts - 1699999990 * second\<bar> \<le> 30 * minute) ''e1'' ''p'' sample_db1 = Some ''u''"
proof -
  have "unmarshal dec_feedback_payload feedback_payload0 (it_payload sample_feedback) =
      Some (feedback_payload0\<lparr>fp_timestamp := Some (JNum ''1699999990''), fp_message := ''hi'', fp_associated := ''e1''\<rparr>)"
    and "parse_timestamp (Some (JNum ''1699999990'')) = Inr (1699999990 * second)" and e: "to_lower ''e1'' = ''e1''"
    by code_simp+
  moreover have "ih_type (it_header sample_feedback) = ''feedback''" by (simp add: sample_feedback_def)
  ultimately have "feedbacks (sample_db1\<lparr>feedbacks := [sample_feedback_row]\<rparr>) = feedbacks sample_db1 \<or>
    (\<exists>row. feedbacks (sample_db1\<lparr>feedbacks := [sample_feedback_row]\<rparr>) = feedbacks sample_db1 @ [row] \<and>
      fb_issue row = linked_issue (\<lambda>ts. \<bar>ts - 1699999990 * second\<bar> \<le> 30 * minute) ''e1'' ''p'' sample_db1)"
    using feedback_linked[OF process_feedback sample_items, where eid = "''e1''" and t = "1699999990 * second"
        and f = "feedback_payload0\<lparr>fp_timestamp := Some (JNum ''1699999990''), fp_message := ''hi'', fp_associated := ''e1''\<rparr>"]
    by (auto simp: feedback_payload0_def sample_world_def e)
  moreover have "feedbacks sample_db1 = []" by code_simp
  ultimately show ?thesis by (simp add: sample_feedback_row_def)
qed


definition sample_report :: item where
  "sample_report = \<lparr>it_header = item_header0\<lparr>ih_type := ''user_report''\<rparr>, it_payload =
     [CHR ''{''] @ quoted ''event_id'' @ '':'' @ quoted ''e1'' @ '','' @ quoted ''comments'' @ '':'' @
     quoted ''hi'' @ [CHR ''}'']\<rparr>"

definition sample_report_row :: feedback_row where
  "sample_report_row = \<lparr>fb_id = ''e1'', fb_project = ''p'', fb_event = Some ''e1'', fb_issue = None,
     fb_name = [], fb_email = [], fb_message = ''hi'', fb_url = [], fb_received = 1700002000 * second,
     fb_payload = payload_json (it_payload sample_report)\<rparr>"

lemma process_report:
  "process (sample_world\<lparr>w_now := 1700002000 * second\<rparr>) (sample_env [sample_report]) ''p'' sample_db1 =
    (Inr (accept result0), sample_db1\<lparr>feedbacks := [sample_report_row]\<rparr>)"
  by code_simp


end
