(* ===== verification/SessionLife.thy ===== *)
theory SessionLife
  imports Pipeline
begin

section \<open>Sessions, their rollups, and transactions\<close>

text \<open>
  What the pipeline promises of release health and of transactions: the life of a session row, the
  counters and sketches of the hourly session rollup, and the order of a transaction's times.
\<close>

type_synonym rollup_key = "uuid \<times> string \<times> string \<times> time"

definition rollup_total :: "rollup_key \<Rightarrow> db \<Rightarrow> int" where
  "rollup_total k d = (case get_key sr_key k (session_rollups d) of None \<Rightarrow> 0 | Some r \<Rightarrow> sr_total r)"

text \<open>The sketches a session rollup holds; a missing row or column is the empty sketch.\<close>

definition users_sketch :: "rollup_key \<Rightarrow> db \<Rightarrow> store_error + sketch" where
  "users_sketch k d =
     (case get_key sr_key k (session_rollups d) of None \<Rightarrow> Inr hll_new | Some r \<Rightarrow> load_sketch (sr_distinct r))"

definition crashed_sketch :: "rollup_key \<Rightarrow> db \<Rightarrow> store_error + sketch" where
  "crashed_sketch k d =
     (case get_key sr_key k (session_rollups d) of None \<Rightarrow> Inr hll_new | Some r \<Rightarrow> load_sketch (sr_crashed_did r))"

definition session_rollup_key :: "uuid \<Rightarrow> session_fields \<Rightarrow> rollup_key" where
  "session_rollup_key pid f = (pid, ss_release (sf_payload f), sf_environment f, truncate_to (sf_started f) hour)"

definition session_row_of :: "uuid \<Rightarrow> uuid \<Rightarrow> session_fields \<Rightarrow> session_row" where
  "session_row_of sid pid f = \<lparr>s_sid = sid, s_started = pg_time (sf_started f), s_project = pid, s_status = sf_status f,
         s_errors = ss_errors (sf_payload f), s_duration = ss_duration (sf_payload f), s_did_hash = sf_did_hash f,
         s_release = ss_release (sf_payload f), s_environment = sf_environment f, s_init = ss_init (sf_payload f)\<rparr>"

definition users_after :: "session_fields \<Rightarrow> sketch \<Rightarrow> sketch" where
  "users_after f s = (if sf_did_hash f \<noteq> [] then hll_insert s (sf_did_hash f) else s)"

definition crashed_after :: "session_fields \<Rightarrow> sketch \<Rightarrow> sketch" where
  "crashed_after f s = (if sf_did_hash f \<noteq> [] \<and> sf_status f = ''crashed'' then hll_insert s (sf_did_hash f) else s)"

lemma store_session_runs:
  assumes "runs (store_session w item pid) s v s'" "prepare_session w item = Inr f" "sf_sid f = Some sid"
  obtains n D C where
    "users_sketch (session_rollup_key pid f) (tx_db s) = Inr D"
    "crashed_sketch (session_rollup_key pid f) (tx_db s) = Inr C"
    "n = session_rollup_new (session_rollup_key pid f) (sf_status f) (ss_errors (sf_payload f))
        (ss_duration (sf_payload f)) (marshal_binary (users_after f D)) (marshal_binary (crashed_after f C))"
    "tx_db s' = (tx_db s)\<lparr>
        sessions := upsert (\<lambda>s. session_key s = session_key (session_row_of sid pid f))
          (session_upd (session_row_of sid pid f)) (session_row_of sid pid f) (sessions (tx_db s)),
        session_rollups := upsert (\<lambda>r. sr_key r = sr_key n) (session_rollup_upd n) n (session_rollups (tx_db s))\<rparr>"
proof -
  let ?k = "session_rollup_key pid f"
  obtain s1 D C s2 where
    a: "runs (exec w (q_session (session_row_of sid pid f))) s () s1"
    and b: "runs (load_sketches w ?k) s1 (D, C) s2"
    and c: "runs (exec w (q_session_rollup (session_rollup_new ?k (sf_status f) (ss_errors (sf_payload f)) (ss_duration (sf_payload f))
        (marshal_binary (users_after f D)) (marshal_binary (crashed_after f C))))) s2 () s'"
    using assms(1) unfolding store_session_def assms(2) Let_def session_rollup_key_def session_row_of_def
      users_after_def crashed_after_def
    by (simp add: runs_bind sticky_intros runs_lift runs_must runs_ret assms(3)) blast
  have d1: "session_rollups (tx_db s1) = session_rollups (tx_db s)"
    using a by (auto simp: runs_exec q_session_def split: if_splits)
  have "tx_db s2 = tx_db s1 \<and> users_sketch ?k (tx_db s) = Inr D \<and> crashed_sketch ?k (tx_db s) = Inr C"
    using b by (auto simp: load_sketches_def runs_bind sticky_intros runs_simps q_sketches_def Let_def bnd_eq_Inr
        users_sketch_def crashed_sketch_def d1 load_sketch_def[of None] split: option.splits)
  then show ?thesis
    using a c that[OF _ _ refl, of D C]
    by (auto simp: runs_exec q_session_def q_session_rollup_def split: if_splits)
qed

lemma sr_key_rollup_new [simp]: "sr_key (session_rollup_new k st e x b c) = k"
  by (cases k) (simp add: session_rollup_new_def sr_key_def)

lemma sr_new_simps [simp]: "sr_total (session_rollup_new k st e x b c) = 1"
  "sr_distinct (session_rollup_new k st e x b c) = Some b" "sr_crashed_did (session_rollup_new k st e x b c) = Some c"
  by (cases k; simp add: session_rollup_new_def)+

text \<open>C14: The life of a session.  The first update of a session id and start time stores its row;
  a later update may change the status only while the session is not terminal (crashed, exited,
  abnormal), the error count never goes down, and release, environment, user and project stay.  The
  hourly rollup of the session's release and environment counts every update as one session, be it
  the first of its id or not, and no other rollup counts it.\<close>

theorem session_life:
  assumes "process w env pid d = (Inr r, d')" "e_items env = [item]" "ih_type (it_header item) = ''session''"
    "prepare_session w item = Inr f" "sf_sid f = Some sid"
  shows "(case get_key session_key (sid, pg_time (sf_started f)) (sessions d) of
       None \<Rightarrow> get_key session_key (sid, pg_time (sf_started f)) (sessions d') = Some (session_row_of sid pid f)
     | Some s \<Rightarrow> \<exists>s'. get_key session_key (sid, pg_time (sf_started f)) (sessions d') = Some s' \<and>
         s_status s' = (if s_status s \<in> {''crashed'', ''exited'', ''abnormal''} then s_status s else sf_status f) \<and>
         s_errors s' = max (s_errors s) (ss_errors (sf_payload f)) \<and>
         s_release s' = s_release s \<and> s_environment s' = s_environment s \<and>
         s_did_hash s' = s_did_hash s \<and> s_project s' = s_project s) \<and>
    (\<forall>k. rollup_total k d' = rollup_total k d + (if k = session_rollup_key pid f then 1 else 0))"
proof -
  obtain s where s: "runs (process_item w env pid item result0) (tx_start d) r s" "d' = tx_db s"
    using single_item[OF assms(1,2)] by blast
  have "runs (store_session w item pid) (tx_start d) () s" using process_item_handler(2)[OF s(1) assms(3)] .
  from store_session_runs[OF this assms(4,5)] obtain n D C where
    raw: "n = session_rollup_new (session_rollup_key pid f) (sf_status f) (ss_errors (sf_payload f))
        (ss_duration (sf_payload f)) (marshal_binary (users_after f D)) (marshal_binary (crashed_after f C))"
    and db: "d' = d\<lparr>
        sessions := upsert (\<lambda>s. session_key s = session_key (session_row_of sid pid f))
          (session_upd (session_row_of sid pid f)) (session_row_of sid pid f) (sessions d),
        session_rollups := upsert (\<lambda>r. sr_key r = sr_key n) (session_rollup_upd n) n (session_rollups d)\<rparr>"
    unfolding s(2) tx_start_def txs.select_convs by blast
  have n: "sr_key n = session_rollup_key pid f" "sr_total n = 1" by (simp_all add: raw)
  have d: "sessions d' = session_up.stmt (session_row_of sid pid f) (sessions d)"
      "session_rollups d' = session_rollup_up.stmt n (session_rollups d)"
    by (simp_all add: db stmt_defs)
  have k: "session_key (session_row_of sid pid f) = (sid, pg_time (sf_started f))"
    by (simp add: session_key_def session_row_of_def)
  have "rollup_total k d' = rollup_total k d + (if k = session_rollup_key pid f then 1 else 0)" for k
    using session_rollup_up.count_of_stmt[of k n "session_rollups d"] n d(2)
    by (simp add: session_rollup_up.count_of_def rollup_total_def)
  moreover note session_up.get_stmt[of "session_row_of sid pid f" "sessions d", folded d(1), unfolded k]
  ultimately show ?thesis
    by (auto simp: session_upd_def terminal_def session_row_of_def split: option.split)
qed

lemma unmarshal_ok: "unmarshal_binary b = Inr s \<Longrightarrow> sketch_ok s"
proof -
  assume "unmarshal_binary b = Inr s"
  then have r: "registers s = unmarshal_regs b hll_m 0"
    by (auto simp: unmarshal_binary_def split: if_splits)
  note nth = unmarshal_regs_nth[of b hll_m 0]
  have "x < 64" if mem: "x \<in> set (unmarshal_regs b hll_m 0)" for x
  proof -
    have len: "length (unmarshal_regs b hll_m 0) = hll_m" using nth by blast
    obtain i where i: "i < hll_m" "x = unmarshal_regs b hll_m 0 ! i"
      using mem unfolding in_set_conv_nth len by blast
    have "bit x j \<Longrightarrow> j < 6" for j using nth i by blast
    then have "take_bit 6 x = x" by (intro bit_word_eqI) (auto simp: bit_take_bit_iff)
    then have "unat x = take_bit 6 (unat x)" by (metis unsigned_take_bit_eq)
    also have "\<dots> < 2 ^ 6" by (rule take_bit_nat_less_exp)
    finally have "unat x < 64" by simp
    then show ?thesis by (simp add: word_less_nat_alt)
  qed
  then show ?thesis using r nth by (simp add: sketch_ok_def)
qed

lemma load_sketch_ok: "load_sketch b = Inr s \<Longrightarrow> sketch_ok s"
  by (auto simp: load_sketch_def unmarshal_ok split: option.splits if_splits sum.splits)

lemma load_marshal: "sketch_ok s \<Longrightarrow> load_sketch (Some (marshal_binary s)) = Inr s"
  using marshal_bits(1)[of s] unmarshal_marshal[of s] by (auto simp: load_sketch_def blob_size_def)

lemma users_sketch_ok: "users_sketch k d = Inr s \<Longrightarrow> sketch_ok s" "crashed_sketch k d = Inr s \<Longrightarrow> sketch_ok s"
  by (auto simp: users_sketch_def crashed_sketch_def load_sketch_ok split: option.splits)

lemma after_ok: "sketch_ok s \<Longrightarrow> sketch_ok (users_after f s)" "sketch_ok s \<Longrightarrow> sketch_ok (crashed_after f s)"
  by (simp_all add: users_after_def crashed_after_def hll_insert_def)

text \<open>C15: The distinct-user sketches stay readable and exact: after a session is stored, the blob of
  its hourly rollup decodes to the sketch decoded before with the user's hash inserted, the
  crashed-user sketch gains the hash only for a crashed session, and the sketches of every other
  release, environment and hour are unchanged.\<close>

theorem session_sketches:
  assumes "process w env pid d = (Inr r, d')" "e_items env = [item]" "ih_type (it_header item) = ''session''"
    "prepare_session w item = Inr f" "sf_sid f = Some sid"
  shows "\<exists>D C. users_sketch (session_rollup_key pid f) d = Inr D \<and> crashed_sketch (session_rollup_key pid f) d = Inr C \<and>
    users_sketch (session_rollup_key pid f) d' =
      Inr (if sf_did_hash f = [] then D else hll_insert D (sf_did_hash f)) \<and>
    crashed_sketch (session_rollup_key pid f) d' =
      Inr (if sf_did_hash f \<noteq> [] \<and> sf_status f = ''crashed'' then hll_insert C (sf_did_hash f) else C) \<and>
    (\<forall>k. k \<noteq> session_rollup_key pid f \<longrightarrow> users_sketch k d' = users_sketch k d \<and> crashed_sketch k d' = crashed_sketch k d)"
proof -
  obtain s where s: "runs (process_item w env pid item result0) (tx_start d) r s" "d' = tx_db s"
    using single_item[OF assms(1,2)] by blast
  let ?k = "session_rollup_key pid f"
  have "runs (store_session w item pid) (tx_start d) () s" using process_item_handler(2)[OF s(1) assms(3)] .
  from store_session_runs[OF this assms(4,5)] obtain n D C where
    raw: "users_sketch ?k d = Inr D" "crashed_sketch ?k d = Inr C"
      "n = session_rollup_new ?k (sf_status f) (ss_errors (sf_payload f))
        (ss_duration (sf_payload f)) (marshal_binary (users_after f D)) (marshal_binary (crashed_after f C))"
    and db: "d' = d\<lparr>
        sessions := upsert (\<lambda>s. session_key s = session_key (session_row_of sid pid f))
          (session_upd (session_row_of sid pid f)) (session_row_of sid pid f) (sessions d),
        session_rollups := upsert (\<lambda>r. sr_key r = sr_key n) (session_rollup_upd n) n (session_rollups d)\<rparr>"
    unfolding s(2) tx_start_def txs.select_convs by blast
  have n: "sr_key n = ?k" "sr_distinct n = Some (marshal_binary (users_after f D))"
      "sr_crashed_did n = Some (marshal_binary (crashed_after f C))" by (simp_all add: raw(3))
  have d: "session_rollups d' = session_rollup_up.stmt n (session_rollups d)" by (simp add: db stmt_defs)
  note old = raw(1,2)
  have "load_sketch (sr_distinct n) = Inr (users_after f D)" "load_sketch (sr_crashed_did n) = Inr (crashed_after f C)"
    using load_marshal after_ok users_sketch_ok old n by metis+
  then have "users_sketch ?k d' = Inr (users_after f D)" "crashed_sketch ?k d' = Inr (crashed_after f C)"
    using session_rollup_up.get_stmt[of n "session_rollups d"]
    by (auto simp: users_sketch_def crashed_sketch_def d n(1) session_rollup_upd_def split: option.splits)
  moreover have "users_sketch k d' = users_sketch k d \<and> crashed_sketch k d' = crashed_sketch k d" if "k \<noteq> ?k" for k
    using session_rollup_up.get_stmt_other[of k n "session_rollups d"] that
    by (simp add: users_sketch_def crashed_sketch_def d n(1))
  ultimately show ?thesis using old by (simp add: users_after_def crashed_after_def)
qed

subsection \<open>Invariants that every statement keeps\<close>

text \<open>
  An invariant of the database that every single statement of the pipeline keeps is kept by the
  pipeline.  The statements are given with what the handlers guarantee of their arguments.
\<close>

locale pipeline_invariant =
  fixes I :: "db \<Rightarrow> bool" and w :: world
  assumes serial_kept: "I d \<Longrightarrow> I (d\<lparr>serial := Suc (serial d)\<rparr>)"
    and event_kept: "\<And>row. keeps I (exec w (q_insert_event row))"
    and issue_kept: "\<And>pid norm level ts. keeps I (exec w (q_upsert_issue w pid norm level ts))"
    and hash_kept: "\<And>iid h. keeps I (exec w (q_user_hash w iid h))"
    and users_kept: "\<And>iid. keeps I (exec w (q_bump_users iid))"
    and link_kept: "\<And>eid iid ts. keeps I (exec w (q_set_issue eid iid ts))"
    and backfill_kept: "\<And>pid iid eid ts. keeps I (exec w (q_backfill w pid iid eid ts))"
    and rollup_kept: "\<And>iid h. keeps I (exec w (q_event_rollup iid h))"
    and prollup_kept: "\<And>pid h. keeps I (exec w (q_project_rollup pid h))"
    and release_kept: "\<And>pid v ts. keeps I (exec w (q_release pid v ts))"
    and tx_kept: "\<And>row m. t_start row \<le> t_timestamp row \<Longrightarrow> 0 \<le> t_duration row \<Longrightarrow> keeps I (exec w (q_insert_tx row m))"
    and session_kept: "\<And>row. keeps I (exec w (q_session row))"
    and session_rollup_kept: "\<And>k st e x b c. keeps I (exec w (q_session_rollup (session_rollup_new k st e x b c)))"
    and aggregate_kept: "\<And>pid rel env h a. keeps I (exec w (q_aggregate (aggregate_row pid rel env h a)))"
    and feedback_kept: "\<And>row. keeps I (exec w (q_feedback row))"
    and unknown_kept: "\<And>pid ity. keeps I (exec w (q_unknown w pid ity))"
begin

lemmas statements = event_kept issue_kept hash_kept users_kept link_kept backfill_kept rollup_kept
  prollup_kept release_kept session_kept session_rollup_kept aggregate_kept feedback_kept unknown_kept

lemma reads_kept: "keeps I (exec w (q_issue_status pid fp))" "keeps I (exec w (q_sketches k))"
  "keeps I (exec w (q_event_issue eid pid))"
  by (auto intro!: keeps_exec simp: q_issue_status_def q_sketches_def q_event_issue_def)

lemma gen_kept: "keeps I (gen_uuid w)"
  using serial_kept by (simp add: keeps_def gen_uuid_def fresh_uuid_def)

lemmas rules = keeps_intros statements reads_kept gen_kept

lemma release_touch_kept: "keeps I (touch_release w pid rel ts)"
  by (auto simp: touch_release_def intro!: rules)

lemma store_event_kept: "keeps I (store_event w env item pid)"
  by (auto simp: store_event_def store_row_def upsert_issue_def backfill_feedback_def Let_def
      intro!: rules release_touch_kept)

lemma prepare_tx_ordered:
  "prepare_tx w env item pid = Inr (row, st, m) \<Longrightarrow> t_start row \<le> t_timestamp row \<and> 0 \<le> t_duration row"
proof -
  assume "prepare_tx w env item pid = Inr (row, st, m)"
  then obtain a b where "t_start row = pg_time a" "t_timestamp row = pg_time b" "t_duration row = b - a" "a \<le> b"
    by (auto simp: prepare_tx_def bnd_eq_Inr Let_def split: if_splits)
  moreover have "pg_time a \<le> pg_time b" if "a \<le> b" for a b
  proof -
    have "pg_time x = 1000 * (x div 1000)" for x unfolding pg_time_def by (simp add: minus_mod_eq_mult_div)
    then show ?thesis using zdiv_mono1[OF that, of 1000] by simp
  qed
  ultimately show ?thesis by simp
qed

lemma store_transaction_kept: "keeps I (store_transaction w env item pid)"
proof (cases "prepare_tx w env item pid")
  case (Inl e)
  then show ?thesis by (simp add: store_transaction_def keeps_def bind_def lift_res_def)
next
  case (Inr p)
  obtain row st m where p: "p = (row, st, m)" by (cases p) auto
  have "keeps I (exec w (q_insert_tx row m))" using prepare_tx_ordered Inr p tx_kept by blast
  then have "keeps I (bind (must E_sql (exec w (q_insert_tx row m))) (\<lambda>n.
     if n = 0 then ret True else bind (touch_release w pid (t_release row) st) (\<lambda>_. ret False)))"
    by (auto intro!: rules release_touch_kept)
  then show ?thesis by (simp add: store_transaction_def keeps_def bind_def[of "lift_res _"] lift_res_def Inr p)
qed

lemma aggregates_kept: "keeps I (store_aggregates w pid rel env as)"
  by (induction as) (auto simp: Let_def intro!: rules release_touch_kept)

lemma store_session_kept: "keeps I (store_session w item pid)"
  by (auto simp: store_session_def load_sketches_def Let_def split_beta intro!: rules split: option.split)

lemma store_aggregates_kept: "keeps I (store_session_aggregates w item pid)"
  by (auto simp: store_session_aggregates_def Let_def intro!: rules aggregates_kept)

lemma store_feedback_kept: "keeps I (store_feedback w env item pid)"
  by (auto simp: store_feedback_def store_user_feedback_def store_user_report_def resolve_feedback_issue_def
      feedback_id_def Let_def intro!: rules split: option.split)

lemma process_item_kept: "keeps I (process_item w env pid item r)"
  unfolding process_item_def Let_def
  by (rule keeps_if keeps_bind keeps_prod keeps_ret keeps_must unknown_kept store_event_kept store_transaction_kept
      store_session_kept store_aggregates_kept store_feedback_kept)+

lemma process_items_kept: "keeps I (process_items w env pid is r)"
  by (induction "is" arbitrary: r) (auto intro!: keeps_intros process_item_kept)

lemma process_kept: "I d \<Longrightarrow> I (snd (process w env pid d))"
  unfolding process_def by (rule run_tx_keeps[OF process_items_kept])

end

text \<open>The primary keys of the tables the ledger does not speak of.\<close>

definition tables_keyed :: "db \<Rightarrow> bool" where
  "tables_keyed d \<longleftrightarrow> key_ok release_key (releases d) \<and> key_ok tx_key (transactions d) \<and>
     key_ok session_key (sessions d) \<and> key_ok sr_key (session_rollups d) \<and>
     key_ok fb_id (feedbacks d) \<and> key_ok unknown_key (unknown_stats d)"

text \<open>A rollup never counts more finished sessions than sessions; a transaction does not end before it starts.\<close>

definition rates_ok :: "db \<Rightarrow> bool" where
  "rates_ok d \<longleftrightarrow>
     (\<forall>r\<in>set (session_rollups d). sr_crashed r + sr_abnormal r + sr_errored r + sr_exited r \<le> sr_total r) \<and>
     (\<forall>t\<in>set (transactions d). t_start t \<le> t_timestamp t \<and> 0 \<le> t_duration t)"

named_theorems stmt_unfold \<open>the statements of the pipeline\<close>

lemmas [stmt_unfold] = q_insert_event_def q_upsert_issue_def q_user_hash_def q_bump_users_def q_set_issue_def
  q_backfill_def q_event_rollup_def q_project_rollup_def q_release_def q_insert_tx_def q_session_def
  q_session_rollup_def q_aggregate_def q_feedback_def q_unknown_def fresh_uuid_def Let_def

lemma set_insert_new: "set (snd (insert_new hit new rs)) \<subseteq> insert new (set rs)"
  by (auto simp: insert_new_def)

lemma insert_tx_rows: "q_insert_tx row m d = Some (n, d') \<Longrightarrow>
   \<exists>m'. d' = d\<lparr>transactions := snd (insert_new (\<lambda>t. tx_key t = tx_key row) (row\<lparr>t_measurements := m'\<rparr>) (transactions d))\<rparr>"
  by (auto simp: q_insert_tx_def split: option.splits if_splits prod.splits) (metis snd_conv)

interpretation keyed: pipeline_invariant tables_keyed w for w
proof unfold_locales
  show "keeps tables_keyed (exec w (q_release pid v ts))" for pid v ts
    using release_up.key_ok_stmt by (intro keeps_exec) (auto simp: stmt_unfold stmt_defs tables_keyed_def split: if_splits)
  show "keeps tables_keyed (exec w (q_insert_tx row m))" for row m
    by (intro keeps_exec) (auto dest!: insert_tx_rows intro!: insert_new_key_ok simp: tables_keyed_def tx_key_def)
  show "keeps tables_keyed (exec w (q_session row))" for row
    using session_up.key_ok_stmt by (intro keeps_exec) (auto simp: stmt_unfold stmt_defs tables_keyed_def split: if_splits)
  show "keeps tables_keyed (exec w (q_session_rollup (session_rollup_new k st e x b c)))" for k st e x b c
    using session_rollup_up.key_ok_stmt
    by (intro keeps_exec) (auto simp: stmt_unfold stmt_defs tables_keyed_def simp del: sr_key_rollup_new split: if_splits)
  show "keeps tables_keyed (exec w (q_aggregate (aggregate_row pid rel env h a)))" for pid rel env h a
    using aggregate_up.key_ok_stmt by (intro keeps_exec) (auto simp: stmt_unfold stmt_defs tables_keyed_def split: if_splits)
  show "keeps tables_keyed (exec w (q_backfill w pid iid eid ts))" for pid iid eid ts
    by (intro keeps_exec) (auto simp: stmt_unfold tables_keyed_def intro!: key_ok_update_where split: if_splits)
  show "keeps tables_keyed (exec w (q_feedback row))" for row
    by (intro keeps_exec) (auto simp: stmt_unfold tables_keyed_def intro!: insert_new_key_ok split: if_splits)
  show "keeps tables_keyed (exec w (q_unknown w pid ity))" for pid ity
    using unknown_up.key_ok_stmt by (intro keeps_exec) (auto simp: stmt_unfold stmt_defs tables_keyed_def split: if_splits)
qed (auto intro!: keeps_exec simp: stmt_unfold tables_keyed_def split: if_splits prod.splits option.splits)

interpretation rates: pipeline_invariant rates_ok w for w
proof unfold_locales
  show "keeps rates_ok (exec w (q_insert_tx row m))" if "t_start row \<le> t_timestamp row" "0 \<le> t_duration row" for row m
    using that by (intro keeps_exec) (auto dest!: insert_tx_rows set_insert_new[THEN subsetD] simp: rates_ok_def)
  show "keeps rates_ok (exec w (q_session_rollup (session_rollup_new k st e x b c)))" for k st e x b c
  proof (rule keeps_exec)
    fix d a d' assume "rates_ok d" and q: "q_session_rollup (session_rollup_new k st e x b c) d = Some (a, d')"
    let ?n = "session_rollup_new k st e x b c" and ?P = "\<lambda>r. sr_crashed r + sr_abnormal r + sr_errored r + sr_exited r \<le> sr_total r"
    have n: "?P ?n" by (cases k) (auto simp: session_rollup_new_def bool_int_def)
    then have "\<forall>r\<in>set (session_rollup_up.stmt ?n (session_rollups d)). ?P r"
      using \<open>rates_ok d\<close> by (intro session_rollup_up.stmt_all) (auto simp: rates_ok_def session_rollup_upd_def)
    then show "rates_ok d'" using q \<open>rates_ok d\<close>
      by (auto simp: q_session_rollup_def stmt_defs rates_ok_def simp del: sr_key_rollup_new split: if_splits)
  qed
  show "keeps rates_ok (exec w (q_aggregate (aggregate_row pid rel env h a)))" for pid rel env h a
  proof (rule keeps_exec)
    fix d b d' assume "rates_ok d" and q: "q_aggregate (aggregate_row pid rel env h a) d = Some (b, d')"
    let ?n = "aggregate_row pid rel env h a" and ?P = "\<lambda>r. sr_crashed r + sr_abnormal r + sr_errored r + sr_exited r \<le> sr_total r"
    have "\<forall>r\<in>set (aggregate_up.stmt ?n (session_rollups d)). ?P r"
      using \<open>rates_ok d\<close> by (intro aggregate_up.stmt_all) (auto simp: rates_ok_def aggregate_upd_def aggregate_row_def)
    then show "rates_ok d'" using q \<open>rates_ok d\<close>
      by (auto simp: q_aggregate_def stmt_defs rates_ok_def split: if_splits)
  qed
qed (auto intro!: keeps_exec simp: stmt_unfold rates_ok_def split: if_splits prod.splits option.splits)

text \<open>Every envelope keeps the primary keys of releases, transactions, sessions, session rollups,
  feedback and unknown-item counters.\<close>

theorem process_keeps_keys:
  assumes "tables_keyed d"
  shows "tables_keyed (snd (process w env pid d))"
  using assms by (rule keyed.process_kept)

lemma sample_tables: "tables_keyed sample_db \<and> rates_ok sample_db"
  by (simp add: tables_keyed_def rates_ok_def sample_db_def empty_db_def)

theorem process_keeps_keys_witness: "tables_keyed (snd (process sample_world (sample_env [sample_event]) ''p'' sample_db))"
  using process_keeps_keys[OF sample_tables[THEN conjunct1]] .

text \<open>Release health stays a rate: after every envelope, each session rollup counts at least as
  many sessions as it counts crashed, abnormal, errored and exited ones together, and no stored
  transaction ends before it starts or has a negative duration.\<close>

theorem process_keeps_rates:
  assumes "rates_ok d"
  shows "rates_ok (snd (process w env pid d))"
  using assms by (rule rates.process_kept)

text \<open>C23: A transaction item without measurements is never stored: its insert sends NULL into a NOT
  NULL column, so the whole envelope is rejected and nothing changes, whatever else it holds.\<close>

theorem transaction_needs_measurements:
  assumes "item \<in> set (e_items env)" "ih_type (it_header item) = ''transaction''"
    "prepare_tx w env item pid = Inr (row, start_ts, None)"
  shows "\<exists>e. process w env pid d = (Inl e, d)"
proof (cases "process w env pid d")
  case (Pair a d')
  have no_item: "\<not> runs (process_item w env pid item r) s r' s'" for r s r' s'
  proof
    assume "runs (process_item w env pid item r) s r' s'"
    then obtain v where "runs (store_transaction w env item pid) s v s'"
      using process_item_handler(1) assms(2) by blast
    then show False unfolding store_transaction_def assms(3)
      by (auto simp: runs_bind sticky_intros runs_lift runs_must runs_exec q_insert_tx_def)
  qed
  have no_items: "item \<in> set is \<Longrightarrow> \<not> runs (process_items w env pid is r) s r' s'" for "is" r s r' s'
  proof (induction "is" arbitrary: r s)
    case (Cons i "is")
    show ?case
    proof
      assume "runs (process_items w env pid (i # is) r) s r' s'"
      then obtain r1 s1 where "runs (process_item w env pid i r) s r1 s1" "runs (process_items w env pid is r1) s1 r' s'"
        by (auto simp: runs_bind sticky_intros)
      then show False using Cons no_item by auto
    qed
  qed simp
  show ?thesis
  proof (cases a)
    case (Inl e)
    then show ?thesis using Pair run_tx_error unfolding process_def by metis
  next
    case (Inr r)
    then show ?thesis using process_runs[of w env pid d r d'] Pair no_items[OF assms(1)] by blast
  qed
qed

definition sample_tx :: item where
  "sample_tx = \<lparr>it_header = item_header0\<lparr>ih_type := ''transaction''\<rparr>, it_payload =
     [CHR ''{''] @ quoted ''start_timestamp'' @ '':1699999990,'' @ quoted ''timestamp'' @ '':1699999991'' @ [CHR ''}'']\<rparr>"

theorem transaction_needs_measurements_witness:
  "\<exists>e. process sample_world (sample_env [sample_event, sample_tx]) ''p'' sample_db = (Inl e, sample_db)"
proof -
  have "case prepare_tx sample_world (sample_env [sample_event, sample_tx]) sample_tx ''p'' of
      Inl _ \<Rightarrow> False | Inr (row, st, m) \<Rightarrow> m = None"
    by code_simp
  then have "\<exists>row st. prepare_tx sample_world (sample_env [sample_event, sample_tx]) sample_tx ''p'' = Inr (row, st, None)"
    by (auto split: sum.splits)
  moreover have "sample_tx \<in> set (e_items (sample_env [sample_event, sample_tx]))" "ih_type (it_header sample_tx) = ''transaction''"
    by (simp_all add: sample_items sample_tx_def)
  ultimately show ?thesis using transaction_needs_measurements by blast
qed

subsection \<open>A sample session\<close>

definition sample_session :: item where
  "sample_session = \<lparr>it_header = item_header0\<lparr>ih_type := ''session''\<rparr>, it_payload =
     [CHR ''{''] @ quoted ''sid'' @ '':'' @ quoted ''s1'' @ '','' @ quoted ''started'' @ '':'' @ quoted ''2023-11-14T22:00:00Z'' @ '','' @
     quoted ''did'' @ '':'' @ quoted ''ann'' @ '','' @ quoted ''status'' @ '':'' @ quoted ''crashed'' @ '','' @ quoted ''attrs'' @ '':'' @ [CHR ''{''] @ quoted ''release'' @ '':'' @
     quoted ''1.0'' @ [CHR ''}'', CHR ''}'']\<rparr>"

definition sample_session_payload :: session_payload where
  "sample_session_payload = session_payload0\<lparr>ss_sid := ''s1'', ss_started := ''2023-11-14T22:00:00Z'', ss_did := ''ann'',
     ss_status := ''crashed'', ss_release := ''1.0''\<rparr>"

definition sample_fields :: session_fields where
  "sample_fields = \<lparr>sf_started = 1699999200 * second, sf_status = ''crashed'', sf_environment = ''production'',
     sf_sid = Some ''s1'', sf_did_hash = hex_encode (take 16 (sha256 ''ann'')),
     sf_payload = sample_session_payload\<rparr>"

lemma sample_prepared: "prepare_session sample_world sample_session = Inr sample_fields"
proof -
  have p: "unmarshal dec_session_payload session_payload0 (it_payload sample_session) = Some sample_session_payload"
    and t: "parse_rfc3339 ''2023-11-14T22:00:00Z'' = Some (1699999200 * second)"
    by code_simp+
  show ?thesis
    unfolding prepare_session_def p
    by (simp add: of_opt_def sample_session_payload_def session_payload0_def sample_world_def t)
       (simp add: sample_fields_def sample_session_payload_def session_payload0_def)
qed

lemma sample_session_process: "\<exists>d'. process sample_world (sample_env [sample_session]) ''p'' sample_db = (Inr (accept result0), d')"
proof -
  have ity: "ih_type (it_header sample_session) = ''session''" by (simp add: sample_session_def)
  have fault: "w_fault sample_world = (\<lambda>_. False)" by (simp add: sample_world_def)
  have "project_exists sample_db ''p''" "has_partition sample_db ''sessions_part'' (1699999200 * second)"
    "pg_time (1699999200 * second) = 1699999200 * second" "in_int32 0" "session_rollups sample_db = []"
    by (simp_all add: project_exists_def has_partition_def sample_db_def pg_time_def second_def in_int32_def empty_db_def)
  then show ?thesis
    by (simp add: process_def sample_items run_tx_def fault process_item_def ity store_session_def sample_prepared
        bind_def lift_res_def ret_def must_def exec_def q_session_def q_sketches_def q_session_rollup_def
        load_sketches_def load_sketch_def session_rollup_new_def get_key_def project_exists_def
        sample_fields_def sample_session_payload_def session_payload0_def tx_start_def Let_def)
qed

theorem process_keeps_rates_witness:
  "rates_ok (snd (process sample_world (sample_env [sample_session]) ''p'' sample_db))"
  using process_keeps_rates[OF sample_tables[THEN conjunct2]] .

lemma sample_session_type: "ih_type (it_header sample_session) = ''session''" "sf_sid sample_fields = Some ''s1''"
  by (simp_all add: sample_session_def sample_fields_def)

theorem session_life_witness:
  "\<exists>d'. process sample_world (sample_env [sample_session]) ''p'' sample_db = (Inr (accept result0), d') \<and>
     rollup_total (session_rollup_key ''p'' sample_fields) d' = 1"
proof -
  obtain d' where p: "process sample_world (sample_env [sample_session]) ''p'' sample_db = (Inr (accept result0), d')"
    using sample_session_process by blast
  moreover have "rollup_total (session_rollup_key ''p'' sample_fields) sample_db = 0"
    by (simp add: rollup_total_def sample_db_def empty_db_def get_key_def)
  ultimately show ?thesis
    using session_life[OF p sample_items sample_session_type(1) sample_prepared sample_session_type(2),
        THEN conjunct2, THEN spec, of "session_rollup_key ''p'' sample_fields"] by simp
qed

theorem session_sketches_witness:
  "\<exists>d'. process sample_world (sample_env [sample_session]) ''p'' sample_db = (Inr (accept result0), d') \<and>
     crashed_sketch (session_rollup_key ''p'' sample_fields) d' =
       Inr (hll_insert hll_new (hex_encode (take 16 (sha256 ''ann''))))"
proof -
  obtain d' where p: "process sample_world (sample_env [sample_session]) ''p'' sample_db = (Inr (accept result0), d')"
    using sample_session_process by blast
  have "crashed_sketch k sample_db = Inr hll_new" for k
    by (simp add: crashed_sketch_def sample_db_def empty_db_def get_key_def)
  moreover have "length (hex_encode (take 16 (sha256 ''ann''))) = 32" by simp
  then have "hex_encode (take 16 (sha256 ''ann'')) \<noteq> []" by (metis list.size(3) zero_neq_numeral)
  ultimately show ?thesis
    using session_sketches[OF p sample_items sample_session_type(1) sample_prepared sample_session_type(2)] p
    by (auto simp: sample_fields_def)
qed

end
