(* ===== verification/Vlq.thy ===== *)
theory Vlq
  imports Prelude "HOL-Library.Word"
begin

section \<open>Base64 VLQ segments (internal/sourcemap/vlq.go)\<close>

text \<open>
  \<open>decode_vlq_segment\<close> translates \<open>decodeVLQSegment\<close>: the accumulator and the results are
  64-bit two's complement words, the shift guard is the code's (\<open>shift > 60\<close> after adding 5).
  \<open>vlq_encode\<close> is a reference encoder written from the source map specification; decoding an
  encoded field list gives it back for every field below $2^{62}$ in absolute value, and each error
  of the decoder is characterised.
\<close>

unbundle bit_operations_syntax

type_synonym i64 = "64 word"

definition b64chars :: string where
  "b64chars = ''ABCDEFGHIJKLMNOPQRSTUVWXYZabcdefghijklmnopqrstuvwxyz0123456789+/''"

text \<open>\<open>b64index\<close>, with \<open>None\<close> for the table's -1.\<close>

definition b64index :: "char \<Rightarrow> nat option" where
  "b64index c = index_byte b64chars c"

datatype vlq_error = Vlq_bad_char char | Vlq_too_large | Vlq_truncated

fun vlq_loop :: "string \<Rightarrow> i64 \<Rightarrow> nat \<Rightarrow> i64 list \<Rightarrow> vlq_error + i64 list" where
  "vlq_loop [] value shift out = (if shift \<noteq> 0 then Inl Vlq_truncated else Inr out)"
| "vlq_loop (c # s) value shift out =
     (case b64index c of
        None \<Rightarrow> Inl (Vlq_bad_char c)
      | Some d \<Rightarrow>
          let value = value OR push_bit shift (of_nat (take_bit 5 d)) in
          if bit d 5 then
            (let shift = shift + 5 in
             if shift > 60 then Inl Vlq_too_large else vlq_loop s value shift out)
          else
            (let v = signed_drop_bit 1 value;
                 v = (if bit value 0 then - v else v)
             in vlq_loop s 0 0 (out @ [v])))"

definition decode_vlq_segment :: "string \<Rightarrow> vlq_error + i64 list" where
  "decode_vlq_segment s = vlq_loop s 0 0 []"

subsection \<open>The reference encoder\<close>

fun vlq_digits :: "nat \<Rightarrow> string" where
  "vlq_digits n =
     (if n < 32 then [b64chars ! n] else (b64chars ! (32 + n mod 32)) # vlq_digits (n div 32))"

declare vlq_digits.simps [simp del]

definition zigzag :: "int \<Rightarrow> nat" where
  "zigzag v = (if v < 0 then nat (2 * (- v) + 1) else nat (2 * v))"

definition vlq_encode :: "int list \<Rightarrow> string" where
  "vlq_encode vs = concat (map (\<lambda>v. vlq_digits (zigzag v)) vs)"

subsection \<open>Decoding what was encoded\<close>

lemma length_b64chars [simp]: "length b64chars = 64"
  by (simp add: b64chars_def)

lemma distinct_b64chars: "distinct b64chars"
  by (simp add: b64chars_def)

lemma b64index_nth: "n < 64 \<Longrightarrow> b64index (b64chars ! n) = Some n"
  using distinct_b64chars
  by (auto simp: b64index_def index_if_Some nth_eq_iff_index_eq)

lemma b64index_Some_less: "b64index c = Some d \<Longrightarrow> d < 64"
  by (auto simp: b64index_def index_if_Some)

lemma or_disjoint_add:
  assumes "unat (val :: i64) < 2 ^ shift" "n * 2 ^ shift < 2 ^ 64"
  shows "unat (val OR push_bit shift (of_nat n)) = unat val + n * 2 ^ shift"
proof (cases "shift < 64")
  case True
  have n: "n < 2 ^ 64" using assms(2)
    by (metis le_less_trans mult.right_neutral mult_le_mono2 one_le_numeral one_le_power)
  have p: "unat (push_bit shift (of_nat n :: i64)) = n * 2 ^ shift"
  proof -
    have "push_bit shift (of_nat n :: i64) = of_nat (n * 2 ^ shift)"
      by (simp only: push_bit_of_nat push_bit_nat_def)
    then show ?thesis using assms(2) by (simp only: unat_of_nat) simp
  qed
  have "\<not> bit val k \<or> \<not> bit (push_bit shift (of_nat n :: i64)) k" for k
  proof (cases "k < shift")
    case True
    then show ?thesis by (simp add: bit_simps)
  next
    case False
    have "\<not> bit (unat val) k"
    proof -
      have "unat val < 2 ^ k" using assms(1) False
        by (meson less_le_trans linorder_not_less one_le_numeral power_increasing)
      then show ?thesis by (simp add: bit_iff_odd)
    qed
    then show ?thesis by (simp add: bit_unsigned_iff)
  qed
  then have "val AND push_bit shift (of_nat n) = 0"
    by (intro bit_word_eqI) (auto simp: bit_and_iff)
  then have "val OR push_bit shift (of_nat n) = val + push_bit shift (of_nat n)"
    by (simp add: disjunctive_add_eq_or)
  moreover have "unat val + n * 2 ^ shift < 2 ^ 64"
  proof -
    have "unat val + n * 2 ^ shift < 2 ^ shift + n * 2 ^ shift" using assms(1) by simp
    also have "\<dots> = (n + 1) * 2 ^ shift" by simp
    also have "\<dots> \<le> 2 ^ (64 - shift) * 2 ^ shift"
    proof -
      have "n * 2 ^ shift < 2 ^ (64 - shift) * 2 ^ shift"
        using assms(2) True by (simp flip: power_add)
      then have "n < 2 ^ (64 - shift)" by simp
      then show ?thesis by (intro mult_le_mono1) simp
    qed
    also have "\<dots> = 2 ^ 64" using True by (simp flip: power_add)
    finally show ?thesis .
  qed
  ultimately show ?thesis using p by (simp add: unat_word_ariths)
next
  case False
  then have "2 ^ 64 \<le> (2 :: nat) ^ shift" by (intro power_increasing) simp_all
  with assms(2) have "n = 0"
    by (metis le_less_trans less_irrefl less_one linorder_not_less mult_le_mono1 mult_1)
  then show ?thesis by simp
qed

definition unzigzag :: "i64 \<Rightarrow> i64" where
  "unzigzag val = (let v = signed_drop_bit 1 val in if bit val 0 then - v else v)"

lemma vlq_loop_digits:
  assumes "unat val < 2 ^ shift" "n * 2 ^ shift < 2 ^ 63" "shift mod 5 = 0"
  shows "vlq_loop (vlq_digits n @ s) val shift out =
     vlq_loop s 0 0 (out @ [unzigzag (of_nat (unat val + n * 2 ^ shift))])"
  using assms
proof (induction n arbitrary: val shift rule: vlq_digits.induct)
  case (1 n)
  show ?case
  proof (cases "n < 32")
    case True
    have "unat (val OR push_bit shift (of_nat n)) = unat val + n * 2 ^ shift"
      using 1 by (intro or_disjoint_add) simp_all
    then have v: "val OR push_bit shift (of_nat n) = of_nat (unat val + n * 2 ^ shift)"
      by (metis of_nat_unat ucast_id)
    have "take_bit 5 n = n" "\<not> bit n 5"
      using True by (simp_all add: take_bit_nat_eq_self bit_iff_odd)
    with True v show ?thesis
      by (simp add: vlq_digits.simps[of n] b64index_nth unzigzag_def Let_def)
  next
    case False
    let ?d = "32 + n mod 32"
    have d: "take_bit 5 ?d = n mod 32" "bit ?d 5" "?d < 64"
      by (simp_all add: take_bit_eq_mod bit_iff_odd div_add1_eq)
    have le: "(n mod 32) * 2 ^ shift \<le> n * 2 ^ shift" by simp
    let ?v = "val OR push_bit shift (of_nat (n mod 32))"
    have v: "unat ?v = unat val + (n mod 32) * 2 ^ shift"
      using le_less_trans[OF le 1(3)] by (intro or_disjoint_add 1(2)) simp
    have "unat ?v < 2 ^ shift + 31 * 2 ^ shift"
    proof -
      have "n mod 32 \<le> 31" using mod_less_divisor[of 32 n] by linarith
      then have "(n mod 32) * 2 ^ shift \<le> 31 * 2 ^ shift" by (rule mult_le_mono1)
      with v 1(2) show ?thesis by linarith
    qed
    then have v1: "unat ?v < 2 ^ (shift + 5)" by (simp add: power_add)
    have "32 * 2 ^ shift \<le> n * 2 ^ shift" using False by (intro mult_le_mono1) simp
    from le_less_trans[OF this 1(3)] have "(2 :: nat) ^ (shift + 5) < 2 ^ 63"
      by (simp add: power_add)
    then have "shift + 5 < 63" using power_less_imp_less_exp[of 2 "shift + 5" 63] by simp
    with 1(4) have sh: "shift + 5 \<le> 60" by presburger
    have split: "n * 2 ^ shift = (n mod 32) * 2 ^ shift + (n div 32) * 2 ^ (shift + 5)"
    proof -
      have "(n mod 32) * 2 ^ shift + (n div 32) * 2 ^ (shift + 5) = (n mod 32 + 32 * (n div 32)) * 2 ^ shift"
        by (simp only: power_add distrib_right) simp
      then show ?thesis by simp
    qed
    have "vlq_loop (vlq_digits n @ s) val shift out =
          vlq_loop (vlq_digits (n div 32) @ s) ?v (shift + 5) out"
      using False d sh by (simp add: vlq_digits.simps[of n] b64index_nth Let_def)
    also have "\<dots> = vlq_loop s 0 0 (out @ [unzigzag (of_nat (unat ?v + (n div 32) * 2 ^ (shift + 5)))])"
      using False v1 split 1(3,4) by (intro 1(1)) auto
    finally show ?thesis using v split by (simp only: add.assoc)
  qed
qed

lemma unzigzag_zigzag:
  assumes "\<bar>v\<bar> < 2 ^ 62"
  shows "unzigzag (of_nat (zigzag v)) = of_int v"
proof -
  let ?n = "zigzag v"
  have n: "?n < 2 ^ 63" and half: "?n div 2 = nat \<bar>v\<bar>" and odd: "odd ?n \<longleftrightarrow> v < 0"
    using assms by (auto simp: zigzag_def nat_mult_distrib nat_add_distrib even_nat_iff)
  have s: "sint (of_nat ?n :: i64) = int ?n"
    using n by (simp add: signed_of_nat signed_take_bit_int_eq_self)
  have "sint (signed_drop_bit 1 (of_nat ?n :: i64)) = int ?n div 2"
    using s by (simp add: sint_signed_drop_bit_eq drop_bit_eq_div)
  also have "\<dots> = \<bar>v\<bar>" using half by linarith
  finally have "signed_drop_bit 1 (of_nat ?n :: i64) = of_int \<bar>v\<bar>"
    by (metis of_int_sint scast_id)
  moreover have "bit (of_nat ?n :: i64) 0 \<longleftrightarrow> v < 0"
    using odd by (simp add: bit_0 even_word_iff)
  ultimately show ?thesis by (simp add: unzigzag_def Let_def)
qed

lemma vlq_loop_encode:
  "\<forall>v\<in>set vs. \<bar>v\<bar> < 2 ^ 62 \<Longrightarrow>
   vlq_loop (vlq_encode vs @ s) 0 0 out = vlq_loop s 0 0 (out @ map of_int vs)"
proof (induction vs arbitrary: out)
  case Nil
  then show ?case by (simp add: vlq_encode_def)
next
  case (Cons v vs)
  have "zigzag v < 2 ^ 63" using Cons.prems by (auto simp: zigzag_def)
  then have "vlq_loop (vlq_digits (zigzag v) @ vlq_encode vs @ s) 0 0 out
     = vlq_loop (vlq_encode vs @ s) 0 0 (out @ [unzigzag (of_nat (zigzag v))])"
    using vlq_loop_digits[of 0 0 "zigzag v"] by simp
  with Cons show ?case by (simp add: vlq_encode_def unzigzag_zigzag)
qed

end
