(* ===== verification/SourceMap.thy ===== *)
theory SourceMap
  imports Vlq Json
begin

section \<open>Source map documents (internal/sourcemap/map.go)\<close>

text \<open>
  \<open>parse_map\<close> translates \<open>ParseMap\<close>: JSON decoding into \<open>rawMap\<close>, the version check and
  \<open>decodeMappings\<close>, whose two nested loops are \<open>line_loop\<close> and \<open>seg_loop\<close> (positions are Go
  \<open>int\<close>s, that is 64-bit two's complement words).  \<open>map_lookup\<close> translates \<open>Lookup\<close> with the
  binary search of \<open>sort.Search\<close>.

  The lemmas show that decoding inverts a reference encoder of absolute positions, that a found
  segment never starts after the requested column, and that on a line ascending by generated
  column the lookup is the specification's ``last segment that starts at or before the column''.
\<close>

subsection \<open>Data\<close>

record segment =
  gen_line :: nat
  gen_col :: i64
  src_idx :: i64
  src_line :: i64
  src_col :: i64
  name_idx :: i64

record source_map =
  sm_version :: int
  sm_sources :: "string list"
  sm_contents :: "string option list"
  sm_names :: "string list"
  sm_source_root :: string
  sm_debug_id :: string
  sm_lines :: "segment list list"

record raw_map =
  raw_version :: int
  raw_sources :: "string list"
  raw_contents :: "string option list"
  raw_names :: "string list"
  raw_source_root :: string
  raw_mappings :: string
  raw_debug_id :: string

definition raw_map0 :: raw_map where
  "raw_map0 = \<lparr>raw_version = 0, raw_sources = [], raw_contents = [], raw_names = [],
     raw_source_root = [], raw_mappings = [], raw_debug_id = []\<rparr>"

definition dec_raw_map :: "raw_map dec" where
  "dec_raw_map = dec_struct
     [(''version'', on raw_version raw_version_update dec_int),
      (''sources'', on raw_sources raw_sources_update (dec_list [] dec_string)),
      (''sourcesContent'', on raw_contents raw_contents_update (dec_list None (dec_ptr [] dec_string))),
      (''names'', on raw_names raw_names_update (dec_list [] dec_string)),
      (''sourceRoot'', on raw_source_root raw_source_root_update dec_string),
      (''mappings'', on raw_mappings raw_mappings_update dec_string),
      (''debugId'', on raw_debug_id raw_debug_id_update dec_string)]"

datatype map_error = Map_json | Map_version int | Map_vlq nat vlq_error | Map_fields nat nat

subsection \<open>Decoding the mappings\<close>

text \<open>The part before the first separator and the part after it, as \<open>decodeMappings\<close> cuts.\<close>

definition take_field :: "char \<Rightarrow> string \<Rightarrow> string \<times> string" where
  "take_field b s = (case index_byte s b of
     Some i \<Rightarrow> (take i s, drop (i + 1) s) | None \<Rightarrow> (s, []))"

record deltas =
  d_gen_col :: i64
  d_src_idx :: i64
  d_src_line :: i64
  d_src_col :: i64
  d_name_idx :: i64

definition deltas0 :: deltas where
  "deltas0 = \<lparr>d_gen_col = 0, d_src_idx = 0, d_src_line = 0, d_src_col = 0, d_name_idx = 0\<rparr>"

definition seg_step :: "nat \<Rightarrow> i64 list \<Rightarrow> deltas \<Rightarrow> map_error + (deltas \<times> segment)" where
  "seg_step line flds st =
     (if length flds < 1 \<or> length flds = 2 \<or> length flds > 5
      then Inl (Map_fields line (length flds))
      else
        let st = st\<lparr>d_gen_col := d_gen_col st + flds ! 0\<rparr>;
            seg = \<lparr>gen_line = line, gen_col = d_gen_col st, src_idx = -1, src_line = 0,
                   src_col = 0, name_idx = -1\<rparr>
        in if length flds \<ge> 4 then
          let st = st\<lparr>d_src_idx := d_src_idx st + flds ! 1,
                      d_src_line := d_src_line st + flds ! 2,
                      d_src_col := d_src_col st + flds ! 3\<rparr>;
              seg = seg\<lparr>src_idx := d_src_idx st, src_line := d_src_line st,
                        src_col := d_src_col st\<rparr>
          in if length flds = 5 then
            let st = st\<lparr>d_name_idx := d_name_idx st + flds ! 4\<rparr>
            in Inr (st, seg\<lparr>name_idx := d_name_idx st\<rparr>)
          else Inr (st, seg)
        else Inr (st, seg))"

lemma take_field_shorter: "s \<noteq> [] \<Longrightarrow> length (snd (take_field b s)) < length s"
  by (auto simp: take_field_def split: option.splits)

function seg_loop :: "nat \<Rightarrow> string \<Rightarrow> deltas \<Rightarrow> segment list \<Rightarrow> map_error + (deltas \<times> segment list)" where
  "seg_loop line segs_part st segs =
     (if segs_part = [] then Inr (st, segs)
      else
        let seg_str = fst (take_field CHR '','' segs_part);
            segs_part = snd (take_field CHR '','' segs_part) in
        if seg_str = [] then seg_loop line segs_part st segs
        else case decode_vlq_segment seg_str of
          Inl e \<Rightarrow> Inl (Map_vlq line e)
        | Inr flds \<Rightarrow>
            (case seg_step line flds st of
               Inl e \<Rightarrow> Inl e
             | Inr (st, seg) \<Rightarrow> seg_loop line segs_part st (segs @ [seg])))"
  by pat_completeness auto
termination
  by (relation "measure (\<lambda>(_, s, _, _). length s)") (auto intro: take_field_shorter)

declare seg_loop.simps [simp del]

function line_loop :: "nat \<Rightarrow> string \<Rightarrow> deltas \<Rightarrow> segment list list \<Rightarrow> map_error + segment list list" where
  "line_loop line s st lns =
     (if s = [] then Inr lns
      else
        let segs_part = fst (take_field CHR '';'' s); rest = snd (take_field CHR '';'' s) in
        case seg_loop line segs_part (st\<lparr>d_gen_col := 0\<rparr>) [] of
          Inl e \<Rightarrow> Inl e
        | Inr (st, segs) \<Rightarrow>
            if rest = [] then Inr (lns @ [segs])
            else line_loop (line + 1) rest st (lns @ [segs]))"
  by pat_completeness auto
termination
  by (relation "measure (\<lambda>(_, s, _, _). length s)") (auto intro: take_field_shorter)

declare line_loop.simps [simp del]

definition decode_mappings :: "string \<Rightarrow> map_error + segment list list" where
  "decode_mappings s = line_loop 0 s deltas0 []"

definition parse_map :: "string \<Rightarrow> map_error + source_map" where
  "parse_map data =
     bnd (of_opt Map_json (unmarshal dec_raw_map raw_map0 data)) (\<lambda>raw.
       if raw_version raw \<noteq> 3 then Inl (Map_version (raw_version raw))
       else bnd (decode_mappings (raw_mappings raw)) (\<lambda>lns.
         Inr \<lparr>sm_version = raw_version raw, sm_sources = raw_sources raw,
              sm_contents = raw_contents raw, sm_names = raw_names raw,
              sm_source_root = raw_source_root raw, sm_debug_id = raw_debug_id raw,
              sm_lines = lns\<rparr>))"

subsection \<open>Lookup\<close>

text \<open>\<open>sort.Search\<close> between \<open>i\<close> and \<open>j\<close>.\<close>

function search_loop :: "(nat \<Rightarrow> bool) \<Rightarrow> nat \<Rightarrow> nat \<Rightarrow> nat" where
  "search_loop f i j =
     (if i < j then
        let h = (i + j) div 2 in
        if \<not> f h then search_loop f (h + 1) j else search_loop f i h
      else i)"
  by pat_completeness auto
termination by (relation "measure (\<lambda>(_, i, j). j - i)") auto

declare search_loop.simps [simp del]

definition sort_search :: "nat \<Rightarrow> (nat \<Rightarrow> bool) \<Rightarrow> nat" where
  "sort_search n f = search_loop f 0 n"

definition map_lookup :: "source_map \<Rightarrow> int \<Rightarrow> int \<Rightarrow> segment option" where
  "map_lookup m line col =
     (if line < 0 \<or> line \<ge> int (length (sm_lines m)) then None
      else
        let segs = sm_lines m ! nat line in
        if segs = [] then None
        else
          let i = sort_search (length segs) (\<lambda>i. sint (gen_col (segs ! i)) > col) in
          if i = 0 then None else Some (segs ! (i - 1)))"

lemma search_loop_boundary:
  "i \<le> j \<Longrightarrow> i \<le> search_loop f i j \<and> search_loop f i j \<le> j \<and>
   (search_loop f i j = i \<or> \<not> f (search_loop f i j - 1)) \<and>
   (search_loop f i j = j \<or> f (search_loop f i j))"
proof (induction f i j rule: search_loop.induct)
  case (1 f i j)
  show ?case
  proof (cases "i < j")
    case True
    let ?h = "(i + j) div 2"
    have h: "i \<le> ?h" "?h < j" using True by auto
    show ?thesis
    proof (cases "f ?h")
      case True
      with \<open>i < j\<close> have "search_loop f i j = search_loop f i ?h"
        by (simp add: search_loop.simps[of f i j] Let_def)
      then show ?thesis using 1(2)[OF \<open>i < j\<close> refl] True h by auto
    next
      case False
      with \<open>i < j\<close> have "search_loop f i j = search_loop f (?h + 1) j"
        by (simp add: search_loop.simps[of f i j] Let_def)
      then show ?thesis using 1(1)[OF \<open>i < j\<close> refl] False h by force
    qed
  next
    case False
    then have "search_loop f i j = i" by (simp add: search_loop.simps[of f i j])
    with 1(3) False show ?thesis by simp
  qed
qed

lemma sort_search_boundary:
  "sort_search n f \<le> n \<and> (sort_search n f = 0 \<or> \<not> f (sort_search n f - 1)) \<and>
   (sort_search n f = n \<or> f (sort_search n f))"
  using search_loop_boundary[of 0 n f] by (auto simp: sort_search_def)

lemma sort_search_mono:
  assumes "\<And>i j. i \<le> j \<Longrightarrow> j < n \<Longrightarrow> f i \<Longrightarrow> f j" "k < n"
  shows "f k \<longleftrightarrow> sort_search n f \<le> k"
proof
  assume "f k"
  show "sort_search n f \<le> k"
  proof (rule ccontr)
    assume "\<not> sort_search n f \<le> k"
    then have k: "k \<le> sort_search n f - 1" "sort_search n f - 1 < n" "sort_search n f \<noteq> 0"
      using sort_search_boundary[of n f] assms(2) by auto
    then have "f (sort_search n f - 1)" using assms(1) \<open>f k\<close> by blast
    then show False using sort_search_boundary[of n f] k(3) by blast
  qed
next
  assume "sort_search n f \<le> k"
  moreover from this have "f (sort_search n f)" using sort_search_boundary[of n f] assms(2) by auto
  ultimately show "f k" using assms by blast
qed

lemma map_lookup_in:
  "map_lookup m line col = Some seg \<Longrightarrow>
   0 \<le> line \<and> nat line < length (sm_lines m) \<and> seg \<in> set (sm_lines m ! nat line) \<and>
   sint (gen_col seg) \<le> col"
proof -
  assume a: "map_lookup m line col = Some seg"
  let ?segs = "sm_lines m ! nat line"
  let ?f = "\<lambda>i. sint (gen_col (?segs ! i)) > col"
  let ?i = "sort_search (length ?segs) ?f"
  have b: "0 \<le> line" "nat line < length (sm_lines m)" "?i \<noteq> 0" "seg = ?segs ! (?i - 1)"
    using a by (auto simp: map_lookup_def Let_def split: if_splits)
  have le: "?i \<le> length ?segs" and "\<not> ?f (?i - 1)"
    using sort_search_boundary[of "length ?segs" ?f] b(3) by blast+
  moreover have "?i - 1 < length ?segs" using le b(3) by linarith
  ultimately show ?thesis using b by (auto simp: not_less)
qed

lemma sorted_wrt_take_filter:
  fixes f :: "'a \<Rightarrow> int"
  assumes "sorted_wrt (\<lambda>a b. f a \<le> f b) xs" "k \<le> length xs"
    "\<And>i. i < length xs \<Longrightarrow> f (xs ! i) > c \<longleftrightarrow> k \<le> i"
  shows "filter (\<lambda>x. f x \<le> c) xs = take k xs"
proof -
  have "filter (\<lambda>x. f x \<le> c) (take k xs) = take k xs"
    using assms(2,3) by (auto simp: filter_id_conv in_set_conv_nth not_less[symmetric])
  moreover have "filter (\<lambda>x. f x \<le> c) (drop k xs) = []"
    using assms(2,3) by (force simp: filter_empty_conv in_set_conv_nth not_le)
  ultimately show ?thesis
    by (metis append.right_neutral append_take_drop_id filter_append)
qed

lemma map_lookup_spec:
  assumes "0 \<le> line" "nat line < length (sm_lines m)"
    "sorted_wrt (\<lambda>a b. sint (gen_col a) \<le> sint (gen_col b)) (sm_lines m ! nat line)"
  shows "map_lookup m line col =
    (let before = filter (\<lambda>seg. sint (gen_col seg) \<le> col) (sm_lines m ! nat line)
     in if before = [] then None else Some (last before))"
proof -
  let ?segs = "sm_lines m ! nat line"
  let ?f = "\<lambda>i. sint (gen_col (?segs ! i)) > col"
  let ?i = "sort_search (length ?segs) ?f"
  have le: "?i \<le> length ?segs" using sort_search_boundary by blast
  have mono: "?f i \<Longrightarrow> i \<le> j \<Longrightarrow> j < length ?segs \<Longrightarrow> ?f j" for i j
    using sorted_wrt_nth_less[OF assms(3), of i j] by (cases "i = j") auto
  have f: "?f k \<longleftrightarrow> ?i \<le> k" if "k < length ?segs" for k
    using mono that by (intro sort_search_mono) blast+
  have before: "filter (\<lambda>seg. sint (gen_col seg) \<le> col) ?segs = take ?i ?segs"
    using f le by (intro sorted_wrt_take_filter[OF assms(3)]) auto
  show ?thesis
  proof (cases "?i = 0")
    case True
    then show ?thesis using assms(1,2) before by (auto simp: map_lookup_def Let_def)
  next
    case False
    then have ne: "take ?i ?segs \<noteq> []" using le by auto
    have "last (take ?i ?segs) = ?segs ! (?i - 1)"
      using le False by (subst last_conv_nth[OF ne]) (simp add: min_absorb2)
    with ne show ?thesis using assms(1,2) before False by (auto simp: map_lookup_def Let_def)
  qed
qed

subsection \<open>A reference encoder of absolute positions\<close>

text \<open>
  A mapping as the source map specification has it: the generated column and, when present, the
  original source, line and column, and the name.
\<close>

type_synonym aseg = "int \<times> (int \<times> int \<times> int \<times> int option) option"
type_synonym prev = "int \<times> int \<times> int \<times> int"

fun seg_deltas :: "int \<Rightarrow> prev \<Rightarrow> aseg \<Rightarrow> int list \<times> prev" where
  "seg_deltas g (a, b, c, n) (g', None) = ([g' - g], (a, b, c, n))"
| "seg_deltas g (a, b, c, n) (g', Some (a', b', c', None)) =
     ([g' - g, a' - a, b' - b, c' - c], (a', b', c', n))"
| "seg_deltas g (a, b, c, n) (g', Some (a', b', c', Some n')) =
     ([g' - g, a' - a, b' - b, c' - c, n' - n], (a', b', c', n'))"

fun enc_segs :: "int \<Rightarrow> prev \<Rightarrow> aseg list \<Rightarrow> string list \<times> prev" where
  "enc_segs g p [] = ([], p)"
| "enc_segs g p (s # ss) =
     (vlq_encode (fst (seg_deltas g p s)) # fst (enc_segs (fst s) (snd (seg_deltas g p s)) ss),
      snd (enc_segs (fst s) (snd (seg_deltas g p s)) ss))"

fun enc_lines :: "prev \<Rightarrow> aseg list list \<Rightarrow> string list" where
  "enc_lines p [] = []"
| "enc_lines p (l # ls) = join '','' (fst (enc_segs 0 p l)) # enc_lines (snd (enc_segs 0 p l)) ls"

definition encode_mappings :: "aseg list list \<Rightarrow> string" where
  "encode_mappings ls = join '';'' (enc_lines (0, 0, 0, 0) ls)"

fun to_seg :: "nat \<Rightarrow> aseg \<Rightarrow> segment" where
  "to_seg line (g, None) = \<lparr>gen_line = line, gen_col = of_int g, src_idx = -1, src_line = 0,
     src_col = 0, name_idx = -1\<rparr>"
| "to_seg line (g, Some (a, b, c, n)) = \<lparr>gen_line = line, gen_col = of_int g, src_idx = of_int a,
     src_line = of_int b, src_col = of_int c,
     name_idx = (case n of None \<Rightarrow> -1 | Some k \<Rightarrow> of_int k)\<rparr>"

fun to_lines :: "nat \<Rightarrow> aseg list list \<Rightarrow> segment list list" where
  "to_lines k [] = []"
| "to_lines k (l # ls) = map (to_seg k) l # to_lines (Suc k) ls"

definition small :: "int \<Rightarrow> bool" where "small v \<longleftrightarrow> \<bar>v\<bar> < 2 ^ 61"

fun prev_ok :: "prev \<Rightarrow> bool" where
  "prev_ok (a, b, c, n) \<longleftrightarrow> small a \<and> small b \<and> small c \<and> small n"

fun aseg_ok :: "aseg \<Rightarrow> bool" where
  "aseg_ok (g, None) \<longleftrightarrow> small g"
| "aseg_ok (g, Some (a, b, c, None)) \<longleftrightarrow> small g \<and> small a \<and> small b \<and> small c"
| "aseg_ok (g, Some (a, b, c, Some n)) \<longleftrightarrow> small g \<and> small a \<and> small b \<and> small c \<and> small n"

fun deltas_of :: "int \<Rightarrow> prev \<Rightarrow> deltas" where
  "deltas_of g (a, b, c, n) = \<lparr>d_gen_col = of_int g, d_src_idx = of_int a, d_src_line = of_int b,
     d_src_col = of_int c, d_name_idx = of_int n\<rparr>"

subsection \<open>Decoding inverts the reference encoder\<close>

lemma take_field_append [simp]: "b \<notin> set w \<Longrightarrow> take_field b (w @ b # s) = (w, s)"
proof -
  assume "b \<notin> set w"
  then have "index_byte (w @ b # s) b = Some (length w)" by (intro index_if_append) auto
  then show ?thesis by (simp add: take_field_def)
qed

lemma take_field_none [simp]: "b \<notin> set w \<Longrightarrow> take_field b w = (w, [])"
  using index_if_None[of "\<lambda>c. c = b" w] by (auto simp: take_field_def)

lemma vlq_digits_chars: "set (vlq_digits n) \<subseteq> set b64chars"
proof (induction n rule: vlq_digits.induct)
  case (1 n)
  have "32 + n mod 32 < 64" by simp
  then show ?case
    using 1 by (subst vlq_digits.simps) (auto intro!: nth_mem)
qed

lemma vlq_encode_chars: "set (vlq_encode vs) \<subseteq> set b64chars"
  using vlq_digits_chars by (auto simp: vlq_encode_def)

lemma vlq_encode_clean [simp]: "CHR '','' \<notin> set (vlq_encode vs)" "CHR '';'' \<notin> set (vlq_encode vs)"
proof -
  have "CHR '','' \<notin> set b64chars" "CHR '';'' \<notin> set b64chars" by (simp_all add: b64chars_def)
  then show "CHR '','' \<notin> set (vlq_encode vs)" "CHR '';'' \<notin> set (vlq_encode vs)"
    using vlq_encode_chars by blast+
qed

lemma vlq_digits_nonempty: "vlq_digits n \<noteq> []"
  by (subst vlq_digits.simps) simp

lemma vlq_encode_nonempty: "vs \<noteq> [] \<Longrightarrow> vlq_encode vs \<noteq> []"
  using vlq_digits_nonempty by (cases vs) (auto simp: vlq_encode_def)

lemma decode_vlq_encode:
  "\<forall>v\<in>set vs. \<bar>v\<bar> < 2 ^ 62 \<Longrightarrow> decode_vlq_segment (vlq_encode vs) = Inr (map of_int vs)"
  using vlq_loop_encode[of vs "[]" "[]"] by (simp add: decode_vlq_segment_def)

lemma small_diff: "small a \<Longrightarrow> small b \<Longrightarrow> \<bar>a - b\<bar> < 4611686018427387904"
  by (auto simp: small_def)

lemma seg_deltas_bounds:
  "small g \<Longrightarrow> prev_ok p \<Longrightarrow> aseg_ok s \<Longrightarrow>
   fst (seg_deltas g p s) \<noteq> [] \<and> (\<forall>v\<in>set (fst (seg_deltas g p s)). \<bar>v\<bar> < 2 ^ 62) \<and>
   prev_ok (snd (seg_deltas g p s)) \<and> small (fst s)"
  by (induction g p s rule: seg_deltas.induct) (simp_all add: small_diff del: abs_diff_less_iff)

lemma seg_step_deltas:
  "seg_step line (map of_int (fst (seg_deltas g p s))) (deltas_of g p) =
   Inr (deltas_of (fst s) (snd (seg_deltas g p s)), to_seg line s)"
  by (induction g p s rule: seg_deltas.induct) (simp_all add: seg_step_def Let_def)

lemma join_Cons: "join sep (w # ws) = w @ (if ws = [] then [] else sep @ join sep ws)"
  by (cases ws) auto

lemma seg_loop_encode:
  "small g \<Longrightarrow> prev_ok p \<Longrightarrow> list_all aseg_ok ss \<Longrightarrow>
   \<exists>g'. seg_loop line (join '','' (fst (enc_segs g p ss))) (deltas_of g p) acc =
     Inr (deltas_of g' (snd (enc_segs g p ss)), acc @ map (to_seg line) ss) \<and>
     prev_ok (snd (enc_segs g p ss))"
proof (induction ss arbitrary: g p acc)
  case Nil
  then show ?case by (auto simp: seg_loop.simps)
next
  case (Cons s ss)
  let ?d = "fst (seg_deltas g p s)" and ?p = "snd (seg_deltas g p s)"
  let ?ws = "fst (enc_segs (fst s) ?p ss)"
  have b: "?d \<noteq> []" "\<forall>v\<in>set ?d. \<bar>v\<bar> < 2 ^ 62" "prev_ok ?p" "small (fst s)"
    using seg_deltas_bounds[of g p s] Cons.prems by auto
  have "take_field CHR '','' (join '','' (vlq_encode ?d # ?ws)) = (vlq_encode ?d, join '','' ?ws)"
    by (cases "?ws = []") (simp_all add: join_Cons)
  then have "seg_loop line (join '','' (fst (enc_segs g p (s # ss)))) (deltas_of g p) acc =
     seg_loop line (join '','' ?ws) (deltas_of (fst s) ?p) (acc @ [to_seg line s])"
    using vlq_encode_nonempty[OF b(1)] decode_vlq_encode[OF b(2)]
    by (subst seg_loop.simps) (simp add: Let_def seg_step_deltas join_Cons)
  then show ?case using Cons.IH[OF b(4,3), of "acc @ [to_seg line s]"] Cons.prems by auto
qed

lemma enc_segs_join_clean: "CHR '';'' \<notin> set (join '','' (fst (enc_segs g p ss)))"
  by (induction ss arbitrary: g p) (auto simp: join_Cons)

lemma enc_segs_nonempty: "ss \<noteq> [] \<Longrightarrow> join '','' (fst (enc_segs g p ss)) \<noteq> []"
proof (cases ss)
  case (Cons s ss')
  have "fst (seg_deltas g p s) \<noteq> []"
    by (induction g p s rule: seg_deltas.induct) simp_all
  then show ?thesis using Cons vlq_encode_nonempty by (simp add: join_Cons)
qed simp

lemma enc_lines_nonempty:
  "ls \<noteq> [] \<Longrightarrow> last ls \<noteq> [] \<Longrightarrow> join '';'' (enc_lines p ls) \<noteq> []"
proof (induction ls arbitrary: p)
  case (Cons l ls)
  show ?case
  proof (cases "ls = []")
    case True
    with Cons.prems show ?thesis by (simp add: enc_segs_nonempty)
  next
    case False
    then have "enc_lines p' ls \<noteq> []" for p' by (cases ls) auto
    then show ?thesis by (simp add: join_Cons)
  qed
qed simp

lemma line_loop_encode:
  "prev_ok p \<Longrightarrow> list_all (list_all aseg_ok) ls \<Longrightarrow> ls \<noteq> [] \<Longrightarrow> last ls \<noteq> [] \<Longrightarrow>
   line_loop line (join '';'' (enc_lines p ls)) (deltas_of g p) acc = Inr (acc @ to_lines line ls)"
proof (induction ls arbitrary: line p g acc)
  case (Cons l ls)
  let ?s = "join '';'' (enc_lines p (l # ls))"
  let ?rest = "if ls = [] then [] else join '';'' (enc_lines (snd (enc_segs 0 p l)) ls)"
  have "enc_lines p' ls = [] \<longleftrightarrow> ls = []" for p' by (cases ls) auto
  then have s: "?s = join '','' (fst (enc_segs 0 p l)) @
      (if ls = [] then [] else '';'' @ join '';'' (enc_lines (snd (enc_segs 0 p l)) ls))"
    by (simp add: join_Cons)
  then have tf: "take_field CHR '';'' ?s = (join '','' (fst (enc_segs 0 p l)), ?rest)"
    using enc_segs_join_clean by auto
  have reset: "deltas_of g p\<lparr>d_gen_col := 0\<rparr> = deltas_of 0 p" by (cases p) auto
  obtain g' where sl: "seg_loop line (join '','' (fst (enc_segs 0 p l))) (deltas_of 0 p) [] =
      Inr (deltas_of g' (snd (enc_segs 0 p l)), map (to_seg line) l)"
     and pok: "prev_ok (snd (enc_segs 0 p l))"
    using seg_loop_encode[of 0 p l line "[]"] Cons.prems by (auto simp: small_def)
  have ne: "?s \<noteq> []" using Cons.prems enc_lines_nonempty by blast
  have rest: "?rest = [] \<longleftrightarrow> ls = []"
  proof (cases "ls = []")
    case False
    then have "last ls \<noteq> []" using Cons.prems by simp
    from enc_lines_nonempty[OF False this] show ?thesis using False by simp
  qed simp
  have "line_loop line ?s (deltas_of g p) acc =
     (if ls = [] then Inr (acc @ [map (to_seg line) l])
      else line_loop (line + 1) ?rest (deltas_of g' (snd (enc_segs 0 p l))) (acc @ [map (to_seg line) l]))"
    using ne rest unfolding line_loop.simps[of line ?s] by (simp only: Let_def tf fst_conv snd_conv reset sl) simp
  moreover have "ls \<noteq> [] \<Longrightarrow> line_loop (line + 1) (join '';'' (enc_lines (snd (enc_segs 0 p l)) ls))
     (deltas_of g' (snd (enc_segs 0 p l))) (acc @ [map (to_seg line) l]) =
     Inr ((acc @ [map (to_seg line) l]) @ to_lines (line + 1) ls)"
    using Cons.prems by (intro Cons.IH[OF pok]) auto
  ultimately show ?case by simp
qed simp

lemma decode_encode_mappings:
  assumes "list_all (list_all aseg_ok) ls" "ls = [] \<or> last ls \<noteq> []"
  shows "decode_mappings (encode_mappings ls) = Inr (to_lines 0 ls)"
proof (cases "ls = []")
  case True
  then show ?thesis by (simp add: decode_mappings_def encode_mappings_def line_loop.simps)
next
  case False
  have "deltas0 = deltas_of 0 (0, 0, 0, 0)" by (simp add: deltas0_def)
  then show ?thesis
    using line_loop_encode[of "(0, 0, 0, 0)" ls 0 0 "[]"] assms False
    by (simp add: decode_mappings_def encode_mappings_def small_def)
qed

subsection \<open>Properties\<close>

text \<open>C12: \<open>decodeMappings\<close> inverts delta encoding: for every list of generated lines whose positions
  are below $2^{61}$ in absolute value (the last line not empty), decoding the reference encoding
  yields exactly the absolute segments, line by line: generated columns restart on each line while
  source, line, column and name carry over.\<close>

theorem decode_mappings_inverts:
  assumes "list_all (list_all aseg_ok) ls" "ls = [] \<or> last ls \<noteq> []"
  shows "decode_mappings (encode_mappings ls) = Inr (to_lines 0 ls)"
  using decode_encode_mappings[OF assms] .

theorem decode_mappings_inverts_witness:
  "encode_mappings [[(0, Some (0, 3, 1, None)), (9, None)], [], [(4, Some (1, 0, 7, Some 2))]]
     = ''AAGC,S;;ICHME'' \<and>
   decode_mappings
     (encode_mappings [[(0, Some (0, 3, 1, None)), (9, None)], [], [(4, Some (1, 0, 7, Some 2))]])
     = Inr (to_lines 0 [[(0, Some (0, 3, 1, None)), (9, None)], [], [(4, Some (1, 0, 7, Some 2))]])"
proof
  show "encode_mappings [[(0, Some (0, 3, 1, None)), (9, None)], [], [(4, Some (1, 0, 7, Some 2))]]
     = ''AAGC,S;;ICHME''"
    by (simp add: encode_mappings_def vlq_encode_def vlq_digits.simps zigzag_def b64chars_def)
qed (rule decode_mappings_inverts; simp add: small_def)

text \<open>C13: \<open>Lookup\<close>'s binary search meets its comment on every line ascending by generated column:
  the result is the last segment of the line that starts at or before the column, and there is none
  exactly when every segment starts after it.  On any line at all, a segment found lies on the
  requested line and does not start after the column.\<close>

theorem lookup_greatest:
  assumes "0 \<le> line" "nat line < length (sm_lines m)"
    "sorted_wrt (\<lambda>a b. sint (gen_col a) \<le> sint (gen_col b)) (sm_lines m ! nat line)"
  shows "map_lookup m line col =
    (let before = filter (\<lambda>seg. sint (gen_col seg) \<le> col) (sm_lines m ! nat line)
     in if before = [] then None else Some (last before))"
  using map_lookup_spec[OF assms] .

definition wit_map :: source_map where
  "wit_map = \<lparr>sm_version = 3, sm_sources = [''a.ts''], sm_contents = [], sm_names = [],
     sm_source_root = [], sm_debug_id = [],
     sm_lines = to_lines 0 [[(0, Some (0, 3, 1, None)), (9, None)]]\<rparr>"

theorem lookup_greatest_witness:
  "map_lookup wit_map 0 5 = Some (to_seg 0 (0, Some (0, 3, 1, None)))"
  by (subst lookup_greatest) (simp_all add: wit_map_def)

end
