(* ===== verification/IngestAuth.thy ===== *)
theory IngestAuth
  imports Db
begin

section \<open>Authentication of ingest requests (internal/ingest/auth.go)\<close>

text \<open>
  \<open>AuthCache.Resolve\<close> holds its mutex only around the cache accesses: it looks the pair up
  (\<open>cache_lookup\<close>), queries the database without the lock (\<open>key_query\<close>) and stores the outcome
  (\<open>cache_store\<close>).  \<open>resolve\<close> composes the three for one request alone; \<open>auth_step\<close> interleaves
  them for any number of concurrent requests, the clock and changes of the keys by an admin.

  The state of the step relation carries two ghost logs, of the positive answers of the database and
  of revocations, in which the lifetime of a revoked key is stated.
\<close>

record project_auth =
  a_project :: uuid
  a_org :: uuid
  a_key :: uuid

record auth_entry =
  en_auth :: project_auth
  en_expires :: time

record auth_cache =
  ac_entries :: "(string \<times> auth_entry) list"
  ac_neg :: "(string \<times> time) list"

datatype auth_error = Err_auth

definition auth_ttl :: duration where "auth_ttl = 30 * second"

definition new_auth_cache :: auth_cache where
  "new_auth_cache = \<lparr>ac_entries = [], ac_neg = []\<rparr>"

definition cache_key :: "string \<Rightarrow> string \<Rightarrow> string" where
  "cache_key pid key = pid @ ''|'' @ key"

text \<open>The first critical section; \<open>None\<close> is a miss.\<close>

definition cache_lookup :: "auth_cache \<Rightarrow> time \<Rightarrow> string \<Rightarrow> (auth_error + project_auth) option" where
  "cache_lookup c now ck =
     (case map_of (ac_entries c) ck of
        Some e \<Rightarrow> if now < en_expires e then Some (Inr (en_auth e))
                  else (case map_of (ac_neg c) ck of
                          Some t \<Rightarrow> if now < t then Some (Inl Err_auth) else None | None \<Rightarrow> None)
      | None \<Rightarrow> (case map_of (ac_neg c) ck of
                   Some t \<Rightarrow> if now < t then Some (Inl Err_auth) else None | None \<Rightarrow> None))"

definition key_query :: "world \<Rightarrow> db \<Rightarrow> string \<Rightarrow> string \<Rightarrow> project_auth option" where
  "key_query w d key pid =
     (case w_pg_uuid w key of
        None \<Rightarrow> None
      | Some kid \<Rightarrow>
          (case find (\<lambda>k. k_id k = kid \<and> k_project k = pid \<and> \<not> k_revoked k) (ingest_keys d) of
             None \<Rightarrow> None
           | Some k \<Rightarrow>
               (case find (\<lambda>p. p_id p = k_project k) (projects d) of
                  None \<Rightarrow> None
                | Some p \<Rightarrow> Some \<lparr>a_project = p_id p, a_org = p_org p, a_key = k_id k\<rparr>)))"

text \<open>The second critical section: the outcome of a query begun at \<open>now\<close>.\<close>

definition cache_store :: "auth_cache \<Rightarrow> time \<Rightarrow> string \<Rightarrow> project_auth option \<Rightarrow> auth_cache" where
  "cache_store c now ck answer =
     (case answer of
        None \<Rightarrow>
          let neg = (if length (ac_neg c) > 10000 then [] else ac_neg c)
          in c\<lparr>ac_neg := alist_put ck (now + auth_ttl) neg\<rparr>
      | Some a \<Rightarrow>
          let entries = (if length (ac_entries c) > 10000 then [] else ac_entries c)
          in c\<lparr>ac_entries := alist_put ck \<lparr>en_auth = a, en_expires = now + auth_ttl\<rparr> entries\<rparr>)"

text \<open>One request alone; \<open>fault\<close> says whether the query fails.\<close>

definition resolve :: "world \<Rightarrow> bool \<Rightarrow> db \<Rightarrow> auth_cache \<Rightarrow> string \<Rightarrow> string \<Rightarrow>
    (auth_error + project_auth) \<times> auth_cache" where
  "resolve w fault d c pid key =
     (if pid = [] \<or> key = [] then (Inl Err_auth, c)
      else
        let ck = cache_key pid key in
        case cache_lookup c (w_now w) ck of
          Some r \<Rightarrow> (r, c)
        | None \<Rightarrow>
            let answer = (if fault then None else key_query w d key pid)
            in (of_opt Err_auth answer, cache_store c (w_now w) ck answer))"

subsection \<open>Concurrent requests\<close>

record pending =
  pd_project :: string
  pd_sentry_key :: string
  pd_start :: time
  pd_answer :: "project_auth option option"

record auth_sys =
  as_now :: time
  as_cache :: auth_cache
  as_db :: db
  as_pending :: "pending list"
  as_log :: "(time \<times> string \<times> string \<times> project_auth) list"
  as_revoked :: "(uuid \<times> time) list"

datatype auth_event = Internal | Answer time string string "project_auth option"

definition ok_opt :: "auth_error + project_auth \<Rightarrow> project_auth option" where
  "ok_opt r = (case r of Inl _ \<Rightarrow> None | Inr a \<Rightarrow> Some a)"

text \<open>No step brings a revoked key back: the program only inserts keys and sets \<open>revoked_at\<close>.\<close>

inductive auth_step :: "world \<Rightarrow> auth_sys \<Rightarrow> auth_event \<Rightarrow> auth_sys \<Rightarrow> bool" for w where
  tick: "as_now s \<le> t \<Longrightarrow> auth_step w s Internal (s\<lparr>as_now := t\<rparr>)"
| change: "\<forall>k\<in>set (ingest_keys d). \<not> k_revoked k \<longrightarrow> k_id k \<notin> fst ` set (as_revoked s) \<Longrightarrow>
    auth_step w s Internal (s\<lparr>as_db := d\<rparr>)"
| revoke: "auth_step w s Internal
    (s\<lparr>as_db := (as_db s)\<lparr>ingest_keys :=
          update_where (\<lambda>k. k_id k = kid) (\<lambda>k. k\<lparr>k_revoked := True\<rparr>) (ingest_keys (as_db s))\<rparr>,
       as_revoked := (kid, as_now s) # as_revoked s\<rparr>)"
| reject: "pid = [] \<or> key = [] \<Longrightarrow> auth_step w s (Answer (as_now s) pid key None) s"
| hit: "pid \<noteq> [] \<Longrightarrow> key \<noteq> [] \<Longrightarrow> cache_lookup (as_cache s) (as_now s) (cache_key pid key) = Some r \<Longrightarrow>
    auth_step w s (Answer (as_now s) pid key (ok_opt r)) s"
| miss: "pid \<noteq> [] \<Longrightarrow> key \<noteq> [] \<Longrightarrow> cache_lookup (as_cache s) (as_now s) (cache_key pid key) = None \<Longrightarrow>
    auth_step w s Internal
      (s\<lparr>as_pending := \<lparr>pd_project = pid, pd_sentry_key = key, pd_start = as_now s,
                         pd_answer = None\<rparr> # as_pending s\<rparr>)"
| query_ok: "i < length (as_pending s) \<Longrightarrow> p = as_pending s ! i \<Longrightarrow> pd_answer p = None \<Longrightarrow>
    key_query w (as_db s) (pd_sentry_key p) (pd_project p) = Some a \<Longrightarrow>
    auth_step w s Internal
      (s\<lparr>as_pending := (as_pending s)[i := p\<lparr>pd_answer := Some (Some a)\<rparr>],
         as_log := (as_now s, pd_project p, pd_sentry_key p, a) # as_log s\<rparr>)"
| query_err: "i < length (as_pending s) \<Longrightarrow> p = as_pending s ! i \<Longrightarrow> pd_answer p = None \<Longrightarrow>
    auth_step w s Internal (s\<lparr>as_pending := (as_pending s)[i := p\<lparr>pd_answer := Some None\<rparr>]\<rparr>)"
| finish: "i < length (as_pending s) \<Longrightarrow> p = as_pending s ! i \<Longrightarrow> pd_answer p = Some ans \<Longrightarrow>
    auth_step w s (Answer (pd_start p) (pd_project p) (pd_sentry_key p) ans)
      (s\<lparr>as_cache := cache_store (as_cache s) (pd_start p)
            (cache_key (pd_project p) (pd_sentry_key p)) ans,
         as_pending := take i (as_pending s) @ drop (Suc i) (as_pending s)\<rparr>)"

definition auth_init :: "time \<Rightarrow> db \<Rightarrow> auth_sys" where
  "auth_init t d = \<lparr>as_now = t, as_cache = new_auth_cache, as_db = d, as_pending = [], as_log = [],
     as_revoked = []\<rparr>"

inductive auth_reach :: "world \<Rightarrow> auth_sys \<Rightarrow> bool" for w where
  init: "auth_reach w (auth_init t d)"
| step: "auth_reach w s \<Longrightarrow> auth_step w s e s' \<Longrightarrow> auth_reach w s'"

text \<open>
  The invariant: every positive answer, whether logged, pending or cached, is one the database gave
  for that very project and key; a cached one expires within the lifetime after that answer; no
  answer is younger than the revocation of its key; the caches are bounded.
\<close>

definition logged :: "auth_sys \<Rightarrow> time \<Rightarrow> string \<Rightarrow> string \<Rightarrow> project_auth \<Rightarrow> bool" where
  "logged s q pid key a \<longleftrightarrow> (q, pid, key, a) \<in> set (as_log s)"

definition log_ok :: "world \<Rightarrow> auth_sys \<Rightarrow> bool" where
  "log_ok w s \<longleftrightarrow> (\<forall>q pid key a. logged s q pid key a \<longrightarrow>
     q \<le> as_now s \<and> w_pg_uuid w key = Some (a_key a) \<and> a_project a = pid \<and>
     (\<forall>r. (a_key a, r) \<in> set (as_revoked s) \<longrightarrow> q \<le> r))"

definition keys_ok :: "auth_sys \<Rightarrow> bool" where
  "keys_ok s \<longleftrightarrow> (\<forall>k\<in>set (ingest_keys (as_db s)). \<not> k_revoked k \<longrightarrow> k_id k \<notin> fst ` set (as_revoked s))"

definition pending_ok :: "auth_sys \<Rightarrow> pending \<Rightarrow> bool" where
  "pending_ok s p \<longleftrightarrow> pd_start p \<le> as_now s \<and> (\<forall>a. pd_answer p = Some (Some a) \<longrightarrow>
     (\<exists>q. logged s q (pd_project p) (pd_sentry_key p) a \<and> pd_start p \<le> q))"

definition entry_ok :: "auth_sys \<Rightarrow> string \<Rightarrow> auth_entry \<Rightarrow> bool" where
  "entry_ok s ck e \<longleftrightarrow> (\<exists>q pid key. ck = cache_key pid key \<and> logged s q pid key (en_auth e) \<and>
     en_expires e \<le> q + auth_ttl)"

definition bounds_ok :: "auth_cache \<Rightarrow> bool" where
  "bounds_ok c \<longleftrightarrow> length (ac_entries c) \<le> 10001 \<and> length (ac_neg c) \<le> 10001"

definition auth_inv :: "world \<Rightarrow> auth_sys \<Rightarrow> bool" where
  "auth_inv w s \<longleftrightarrow> log_ok w s \<and> keys_ok s \<and> (\<forall>p\<in>set (as_pending s). pending_ok s p) \<and>
     (\<forall>(ck, e)\<in>set (ac_entries (as_cache s)). entry_ok s ck e) \<and> bounds_ok (as_cache s)"

lemma length_alist_put: "length (alist_put k v m) \<le> Suc (length m)"
  by (induction k v m rule: alist_put.induct) auto

lemma set_alist_put: "x \<in> set (alist_put k v m) \<Longrightarrow> x = (k, v) \<or> x \<in> set m"
  by (induction k v m rule: alist_put.induct) (auto split: if_splits)

lemma key_query_Some:
  "key_query w d key pid = Some a \<Longrightarrow> w_pg_uuid w key = Some (a_key a) \<and> a_project a = pid \<and>
   (\<exists>k\<in>set (ingest_keys d). k_id k = a_key a \<and> \<not> k_revoked k)"
  by (auto simp: key_query_def find_Some_iff split: option.splits intro!: nth_mem)

lemma auth_inv_init: "auth_inv w (auth_init t d)"
  by (simp add: auth_inv_def auth_init_def new_auth_cache_def logged_def log_ok_def keys_ok_def
      bounds_ok_def)

lemma cache_store_bounds: "bounds_ok c \<Longrightarrow> bounds_ok (cache_store c t ck ans)"
proof -
  have l: "length m \<le> 10000 \<Longrightarrow> length (alist_put ck v m) \<le> 10001" for v and m :: "(string \<times> 'x) list"
    using length_alist_put[of ck v m] by linarith
  assume "bounds_ok c"
  then show ?thesis
    by (cases ans) (auto simp: bounds_ok_def cache_store_def Let_def not_less intro: l)
qed

lemma cache_store_entry:
  "(ck', e) \<in> set (ac_entries (cache_store c t ck ans)) \<Longrightarrow>
   (ck', e) \<in> set (ac_entries c) \<or> (\<exists>a. ans = Some a \<and> ck' = ck \<and> e = \<lparr>en_auth = a, en_expires = t + auth_ttl\<rparr>)"
  by (auto simp: cache_store_def Let_def split: option.splits if_splits dest!: set_alist_put)

lemma ok_mono:
  assumes "set (as_log s) \<subseteq> set (as_log s')" "as_now s \<le> as_now s'"
  shows "pending_ok s p \<Longrightarrow> pending_ok s' p" "entry_ok s ck e \<Longrightarrow> entry_ok s' ck e"
  using assms unfolding pending_ok_def entry_ok_def logged_def by (force, blast)

lemma query_inv:
  assumes inv: "auth_inv w s" and i: "i < length (as_pending s)" and p: "p = as_pending s ! i"
    and k: "key_query w (as_db s) (pd_sentry_key p) (pd_project p) = Some a"
  shows "auth_inv w (s\<lparr>as_pending := (as_pending s)[i := p\<lparr>pd_answer := Some (Some a)\<rparr>],
         as_log := (as_now s, pd_project p, pd_sentry_key p, a) # as_log s\<rparr>)" (is "auth_inv w ?s")
proof -
  note k = key_query_Some[OF k]
  have fresh: "(a_key a, r) \<notin> set (as_revoked s)" for r
    using inv k unfolding auth_inv_def keys_ok_def by force
  have "log_ok w ?s"
    using inv k fresh by (auto simp: auth_inv_def log_ok_def logged_def)
  moreover have "pending_ok ?s x" if "x \<in> set (as_pending ?s)" for x
  proof -
    have "x = p\<lparr>pd_answer := Some (Some a)\<rparr> \<or> x \<in> set (as_pending s)"
      using that set_update_subset_insert by fastforce
    then show ?thesis
    proof
      assume x: "x = p\<lparr>pd_answer := Some (Some a)\<rparr>"
      have "pending_ok s p" using inv i p by (simp add: auth_inv_def)
      then show ?thesis by (auto simp: x pending_ok_def logged_def)
    next
      assume "x \<in> set (as_pending s)"
      then have "pending_ok s x" using inv by (simp add: auth_inv_def)
      then show ?thesis by (rule ok_mono(1)[rotated 2]) auto
    qed
  qed
  moreover have "entry_ok ?s ck e" if "(ck, e) \<in> set (ac_entries (as_cache s))" for ck e
  proof -
    have "entry_ok s ck e" using inv that by (auto simp: auth_inv_def)
    then show ?thesis by (rule ok_mono(2)[rotated 2]) auto
  qed
  ultimately show ?thesis using inv by (auto simp: auth_inv_def keys_ok_def)
qed

lemma finish_inv:
  assumes inv: "auth_inv w s" and i: "i < length (as_pending s)" and p: "p = as_pending s ! i"
    and ans: "pd_answer p = Some ans"
  shows "auth_inv w (s\<lparr>as_cache := cache_store (as_cache s) (pd_start p)
            (cache_key (pd_project p) (pd_sentry_key p)) ans,
         as_pending := take i (as_pending s) @ drop (Suc i) (as_pending s)\<rparr>)" (is "auth_inv w ?s")
proof -
  let ?ck = "cache_key (pd_project p) (pd_sentry_key p)"
  have pok: "pending_ok s p" using inv i p by (simp add: auth_inv_def)
  have "pending_ok ?s x" if "x \<in> set (as_pending ?s)" for x
  proof -
    have "x \<in> set (as_pending s)" using that by (auto dest: in_set_takeD in_set_dropD)
    then have "pending_ok s x" using inv by (simp add: auth_inv_def)
    then show ?thesis by (rule ok_mono(1)[rotated 2]) auto
  qed
  moreover have "entry_ok ?s ck e" if "(ck, e) \<in> set (ac_entries (as_cache ?s))" for ck e
  proof -
    have "(ck, e) \<in> set (ac_entries (cache_store (as_cache s) (pd_start p) ?ck ans))"
      using that by simp
    from cache_store_entry[OF this] have "entry_ok s ck e"
    proof (elim disjE exE conjE)
      assume "(ck, e) \<in> set (ac_entries (as_cache s))"
      then show ?thesis using inv by (auto simp: auth_inv_def)
    next
      fix a assume a: "ans = Some a" "ck = ?ck" "e = \<lparr>en_auth = a, en_expires = pd_start p + auth_ttl\<rparr>"
      with pok ans obtain q where "logged s q (pd_project p) (pd_sentry_key p) a" "pd_start p \<le> q"
        by (auto simp: pending_ok_def)
      then show ?thesis unfolding entry_ok_def a by auto
    qed
    then show ?thesis by (rule ok_mono(2)[rotated 2]) auto
  qed
  moreover have "bounds_ok (as_cache ?s)"
    using inv cache_store_bounds by (simp add: auth_inv_def)
  ultimately show ?thesis using inv
    by (auto simp: auth_inv_def keys_ok_def log_ok_def logged_def)
qed

lemma auth_inv_step:
  assumes inv: "auth_inv w s" and st: "auth_step w s e s'"
  shows "auth_inv w s'"
  using st
proof cases
  case (tick t)
  have "\<forall>p\<in>set (as_pending s). pending_ok s' p" "\<forall>(ck, e)\<in>set (ac_entries (as_cache s)). entry_ok s' ck e"
    using inv tick ok_mono[of s s'] unfolding auth_inv_def by auto
  then show ?thesis using inv tick
    by (auto simp: auth_inv_def keys_ok_def) (fastforce simp: log_ok_def logged_def)
next
  case (change d)
  then show ?thesis using inv
    by (simp add: auth_inv_def log_ok_def logged_def keys_ok_def pending_ok_def entry_ok_def)
next
  case (revoke kid)
  then show ?thesis using inv
    by (auto simp: auth_inv_def log_ok_def logged_def keys_ok_def pending_ok_def entry_ok_def
        set_update_where split: prod.splits)
next
  case (miss pid key)
  then show ?thesis using inv
    by (simp add: auth_inv_def log_ok_def logged_def keys_ok_def pending_ok_def entry_ok_def)
next
  case (query_ok i p a)
  then show ?thesis using query_inv[OF inv] by simp
next
  case (query_err i p)
  have "pending_ok s x" if "x \<in> set (as_pending s')" for x
  proof -
    have "x = p\<lparr>pd_answer := Some None\<rparr> \<or> x \<in> set (as_pending s)"
      using that set_update_subset_insert by (fastforce simp: query_err(2))
    moreover have "pending_ok s p" using inv query_err by (simp add: auth_inv_def)
    ultimately show ?thesis using inv by (auto simp: auth_inv_def pending_ok_def)
  qed
  then have "\<forall>x\<in>set (as_pending s'). pending_ok s' x"
    by (simp add: query_err(2) pending_ok_def logged_def)
  then show ?thesis using inv
    by (simp add: query_err(2) auth_inv_def log_ok_def logged_def keys_ok_def entry_ok_def)
next
  case (finish i p ans)
  then show ?thesis using finish_inv[OF inv] by simp
qed (use inv in simp_all)

lemma auth_reach_inv: "auth_reach w s \<Longrightarrow> auth_inv w s"
  by (induction rule: auth_reach.induct) (auto intro: auth_inv_init auth_inv_step)

text \<open>What a positive answer rests on.\<close>

lemma answer_logged:
  assumes inv: "auth_inv w s" and st: "auth_step w s (Answer t pid key (Some a)) s'"
  shows "\<exists>q pid' key'. cache_key pid key = cache_key pid' key' \<and> logged s q pid' key' a \<and>
    t < q + auth_ttl \<and> t \<le> as_now s"
  using st
proof cases
  case (hit r)
  then have r: "r = Inr a" by (cases r) (simp_all add: ok_opt_def)
  then obtain e where "map_of (ac_entries (as_cache s)) (cache_key pid key) = Some e"
      "as_now s < en_expires e" "en_auth e = a"
    using hit by (auto simp: cache_lookup_def split: option.splits if_splits)
  moreover from this have "entry_ok s (cache_key pid key) e"
    using inv map_of_SomeD unfolding auth_inv_def by fastforce
  ultimately show ?thesis using hit unfolding entry_ok_def by fastforce
next
  case (finish i)
  then have "pending_ok s (as_pending s ! i)" using inv by (simp add: auth_inv_def)
  with finish show ?thesis unfolding pending_ok_def by (fastforce simp: auth_ttl_def time_simps)
qed

lemma cache_key_inj:
  assumes "cache_key pid key = cache_key pid' key'" "CHR ''|'' \<notin> set key" "CHR ''|'' \<notin> set key'"
  shows "pid = pid' \<and> key = key'"
  using assms last_sep_unique[of pid _ key pid' key'] by (simp add: cache_key_def)

subsection \<open>Properties\<close>

definition wit_auth_world :: world where
  "wit_auth_world = \<lparr>w_now = 0, w_uuid = Some, w_pg_uuid = (\<lambda>s. if s = ''k1'' then Some s else None),
     w_fresh = (\<lambda>n. []), w_numeric = (\<lambda>s. s), w_timestamptz = (\<lambda>s. None), w_fault = (\<lambda>n. False)\<rparr>"

definition wit_auth_db :: db where
  "wit_auth_db = empty_db
     \<lparr>projects := [\<lparr>p_id = ''p1'', p_org = ''o1'', p_name = ''n'', p_slug = ''s'', p_platform = ''javascript''\<rparr>],
      ingest_keys := [\<lparr>k_id = ''k1'', k_project = ''p1'', k_name = ''Default'', k_created = 0, k_revoked = False\<rparr>]\<rparr>"

definition wit_auth :: project_auth where
  "wit_auth = \<lparr>a_project = ''p1'', a_org = ''o1'', a_key = ''k1''\<rparr>"

definition wit_auth_sys :: auth_sys where
  "wit_auth_sys = (auth_init 0 wit_auth_db)
     \<lparr>as_pending := [\<lparr>pd_project = ''p1'', pd_sentry_key = ''k1'', pd_start = 0,
                      pd_answer = Some (Some wit_auth)\<rparr>],
      as_log := [(0, ''p1'', ''k1'', wit_auth)]\<rparr>"

lemma wit_auth_reach: "auth_reach wit_auth_world wit_auth_sys"
proof -
  let ?s0 = "auth_init 0 wit_auth_db"
  let ?p = "\<lparr>pd_project = ''p1'', pd_sentry_key = ''k1'', pd_start = 0, pd_answer = None\<rparr>"
  let ?s1 = "?s0\<lparr>as_pending := [?p]\<rparr>"
  have "auth_step wit_auth_world ?s0 Internal ?s1"
    using auth_step.miss[of "''p1''" "''k1''" ?s0 wit_auth_world]
    by (simp add: auth_init_def new_auth_cache_def cache_lookup_def)
  then have "auth_reach wit_auth_world ?s1" by (rule auth_reach.step[OF auth_reach.init])
  moreover have "key_query wit_auth_world wit_auth_db ''k1'' ''p1'' = Some wit_auth"
    by (simp add: key_query_def wit_auth_world_def wit_auth_db_def wit_auth_def)
  then have "auth_step wit_auth_world ?s1 Internal wit_auth_sys"
    using auth_step.query_ok[of 0 ?s1 ?p wit_auth_world wit_auth]
    by (simp add: auth_init_def wit_auth_sys_def)
  ultimately show ?thesis by (rule auth_reach.step)
qed

text \<open>C4: whatever the interleaving of concurrent requests, key changes and time, a request that
  arrives at \<open>t\<close> is let in only with a project and key which the database confirmed, for that very
  pair, later than 30 seconds before \<open>t\<close>; in particular a request that arrives 30 seconds or more
  after the revocation of a key is never let in with it.\<close>

theorem revoked_key_dies:
  assumes "auth_reach w s" "auth_step w s (Answer t pid key (Some a)) s'"
  shows "(\<exists>q key'. cache_key pid key = cache_key (a_project a) key' \<and>
      w_pg_uuid w key' = Some (a_key a) \<and> (q, a_project a, key', a) \<in> set (as_log s) \<and>
      q \<le> as_now s \<and> t < q + 30 * second) \<and>
    (\<forall>r. (a_key a, r) \<in> set (as_revoked s) \<longrightarrow> t < r + 30 * second)"
proof -
  have inv: "auth_inv w s" by (rule auth_reach_inv[OF assms(1)])
  obtain q pid' key' where l: "cache_key pid key = cache_key pid' key'" "logged s q pid' key' a"
      "t < q + auth_ttl"
    using answer_logged[OF inv assms(2)] by blast
  moreover from this have "w_pg_uuid w key' = Some (a_key a)" "a_project a = pid'" "q \<le> as_now s"
      "\<forall>r. (a_key a, r) \<in> set (as_revoked s) \<longrightarrow> q \<le> r"
    using inv by (auto simp: auth_inv_def log_ok_def)
  ultimately show ?thesis unfolding logged_def auth_ttl_def by fastforce
qed

theorem revoked_key_dies_witness:
  "\<exists>s'. auth_step wit_auth_world wit_auth_sys (Answer 0 ''p1'' ''k1'' (Some wit_auth)) s' \<and>
     (\<exists>q key'. cache_key ''p1'' ''k1'' = cache_key (a_project wit_auth) key' \<and> 0 < q + 30 * second)"
proof -
  have step: "\<exists>s'. auth_step wit_auth_world wit_auth_sys (Answer 0 ''p1'' ''k1'' (Some wit_auth)) s'"
    using auth_step.finish[of 0 wit_auth_sys "as_pending wit_auth_sys ! 0" "Some wit_auth" wit_auth_world]
    by (auto simp: wit_auth_sys_def)
  then obtain s' where s': "auth_step wit_auth_world wit_auth_sys (Answer 0 ''p1'' ''k1'' (Some wit_auth)) s'"
    by blast
  from revoked_key_dies[OF wit_auth_reach s'] show ?thesis using s' by blast
qed

text \<open>flood traffic cannot exhaust memory: in every reachable state the positive and the negative
  cache hold at most 10001 entries each.\<close>

theorem auth_cache_bounded:
  assumes "auth_reach w s"
  shows "length (ac_entries (as_cache s)) \<le> 10001 \<and> length (ac_neg (as_cache s)) \<le> 10001"
  using auth_reach_inv[OF assms] by (simp add: auth_inv_def bounds_ok_def)

theorem auth_cache_bounded_witness:
  "length (ac_entries (as_cache wit_auth_sys)) \<le> 10001"
  using auth_cache_bounded[OF wit_auth_reach] by blast

text \<open>a lone \<open>Resolve\<close> is one schedule of the concurrent system: started in any state with the
  same clock, cache and keys, its lookup, query and store steps end in the cache it returns and give
  the answer it returns.\<close>

theorem resolve_is_a_run:
  assumes "as_now s = w_now w" "as_cache s = c" "as_db s = d" "auth_reach w s"
  shows "\<exists>s0 s'. auth_reach w s0 \<and>
    auth_step w s0 (Answer (w_now w) pid key (ok_opt (fst (resolve w fault d c pid key)))) s' \<and>
    as_cache s' = snd (resolve w fault d c pid key)"
proof -
  let ?ck = "cache_key pid key"
  consider (empty) "pid = [] \<or> key = []"
    | (hit) r where "pid \<noteq> []" "key \<noteq> []" "cache_lookup c (w_now w) ?ck = Some r"
    | (miss) "pid \<noteq> []" "key \<noteq> []" "cache_lookup c (w_now w) ?ck = None" by auto
  then show ?thesis
  proof cases
    case empty
    then show ?thesis using auth_step.reject[of pid key w s] assms
      by (auto simp: resolve_def ok_opt_def)
  next
    case hit
    then show ?thesis using auth_step.hit[of pid key s r w] assms by (auto simp: resolve_def)
  next
    case miss
    let ?p = "\<lparr>pd_project = pid, pd_sentry_key = key, pd_start = as_now s, pd_answer = None\<rparr>"
    let ?ans = "if fault then None else key_query w d key pid"
    let ?s1 = "s\<lparr>as_pending := ?p # as_pending s\<rparr>"
    let ?q = "?p\<lparr>pd_answer := Some ?ans\<rparr>"
    have "auth_reach w ?s1"
      using auth_step.miss[of pid key s w] assms miss by (intro auth_reach.step[OF assms(4)]) auto
    moreover have "\<exists>lg. auth_step w ?s1 Internal (?s1\<lparr>as_pending := ?q # as_pending s, as_log := lg\<rparr>)"
    proof (cases ?ans)
      case None
      have "auth_step w ?s1 Internal (?s1\<lparr>as_pending := ?q # as_pending s\<rparr>)"
        using auth_step.query_err[of 0 ?s1 ?p w] None by simp
      then show ?thesis by (intro exI[of _ "as_log s"]) simp
    next
      case (Some a)
      then have "key_query w (as_db ?s1) (pd_sentry_key ?p) (pd_project ?p) = Some a"
        using assms by (auto split: if_splits)
      then have "auth_step w ?s1 Internal (?s1\<lparr>as_pending := ?q # as_pending s,
          as_log := (as_now s, pid, key, a) # as_log s\<rparr>)"
        using auth_step.query_ok[of 0 ?s1 ?p w a] Some by simp
      then show ?thesis by blast
    qed
    ultimately obtain lg where r: "auth_reach w (?s1\<lparr>as_pending := ?q # as_pending s, as_log := lg\<rparr>)"
        (is "auth_reach w ?s2") using auth_reach.step by blast
    have "auth_step w ?s2 (Answer (as_now s) pid key ?ans)
        (?s2\<lparr>as_cache := cache_store c (as_now s) ?ck ?ans, as_pending := as_pending s\<rparr>)"
      using auth_step.finish[of 0 ?s2 ?q ?ans w] assms(2) by simp
    moreover have "ok_opt (fst (resolve w fault d c pid key)) = ?ans"
      "snd (resolve w fault d c pid key) = cache_store c (as_now s) ?ck ?ans"
      using miss assms(1) by (cases ?ans; simp add: resolve_def Let_def ok_opt_def)+
    ultimately show ?thesis using r assms(1)
      by (intro exI[of _ ?s2]
          exI[of _ "?s2\<lparr>as_cache := cache_store c (as_now s) ?ck ?ans, as_pending := as_pending s\<rparr>"]) simp
  qed
qed

theorem resolve_is_a_run_witness:
  "\<exists>s0 s'. auth_reach wit_auth_world s0 \<and>
    auth_step wit_auth_world s0 (Answer 0 ''p1'' ''k1'' (Some wit_auth)) s'"
proof -
  have "fst (resolve wit_auth_world False wit_auth_db new_auth_cache ''p1'' ''k1'') = Inr wit_auth"
    by (simp add: resolve_def cache_lookup_def new_auth_cache_def Let_def key_query_def
        wit_auth_world_def wit_auth_db_def wit_auth_def)
  then show ?thesis
    using resolve_is_a_run[OF _ _ _ auth_reach.init[of wit_auth_world 0 wit_auth_db],
        where fault = False and pid = "''p1''" and key = "''k1''" and c = new_auth_cache and d = wit_auth_db]
    by (auto simp: auth_init_def ok_opt_def wit_auth_world_def)
qed

end
