(* ===== verification/RateLimit.thy ===== *)
theory RateLimit
  imports Db
begin

section \<open>Rate limiting and request bodies (ingest/ratelimit.go, ingest/decompress.go)\<close>

text \<open>
  \<open>check_limit\<close> translates \<open>RateLimiter.Check\<close>: one upsert of the counter of the current minute
  window, failing open.  \<open>decompress\<close> translates \<open>Decompress\<close>: a reader is the bytes it yields
  and whether it ends in an error; the decoders of gzip, zlib, flate, brotli and zstd are the record
  \<open>codecs\<close>, a parameter.
\<close>

subsection \<open>The fixed-window counter\<close>

definition counter_key :: "counter_row \<Rightarrow> uuid \<times> time" where
  "counter_key r = (c_project r, c_window r)"

definition counter_upd :: "counter_row \<Rightarrow> counter_row" where
  "counter_upd r = r\<lparr>c_count := c_count r + 1\<rparr>"

definition counter_new :: "uuid \<Rightarrow> time \<Rightarrow> counter_row" where
  "counter_new pid ws = \<lparr>c_project = pid, c_window = ws, c_count = 1\<rparr>"

definition count_slot :: "uuid \<Rightarrow> time \<Rightarrow> int stmt" where
  "count_slot pid ws d =
     (if \<not> project_exists d pid then None
      else
        let rows = upsert (\<lambda>r. counter_key r = (pid, ws)) counter_upd (counter_new pid ws)
              (ingest_counters d)
        in map_option (\<lambda>r. (c_count r, d\<lparr>ingest_counters := rows\<rparr>)) (get_key counter_key (pid, ws) rows))"

text \<open>\<open>Check\<close>: allowed, retry after, remaining.\<close>

definition check_limit :: "world \<Rightarrow> bool \<Rightarrow> int \<Rightarrow> db \<Rightarrow> uuid \<Rightarrow> (bool \<times> duration \<times> int) \<times> db" where
  "check_limit w fault limit d pid =
     (if limit \<le> 0 then ((True, 0, 0), d)
      else
        let now = w_now w;
            window_start = truncate_to now minute;
            retry_after = window_start + minute - now
        in case auto fault (count_slot pid window_start) d of
             (None, d) \<Rightarrow> ((True, 0, 0), d)
           | (Some count, d) \<Rightarrow>
               let remaining = limit - count;
                   remaining = (if remaining < 0 then 0 else remaining)
               in ((count \<le> limit, retry_after, remaining), d))"

definition quota_headers :: "duration \<Rightarrow> int \<Rightarrow> (string \<times> string) list" where
  "quota_headers retry_after remaining =
     (let secs = (retry_after + 500000000) div second;
          secs = (if secs < 1 then 1 else secs)
      in [(''Retry-After'', show_int secs),
          (''X-Sentry-Rate-Limits'',
           show_int secs @ '':error;transaction;session;feedback:project:quota_exceeded''),
          (''X-Sentry-Rate-Limit-Remaining'', show_int remaining)])"

interpretation slot: counter_stmt counter_key "(pid, ws)" counter_upd "counter_new pid ws" c_count 1
  for pid ws
  by unfold_locales (simp_all add: counter_key_def counter_upd_def counter_new_def)

text \<open>The requests of one project within one window, one after the other.\<close>

fun check_all :: "world \<Rightarrow> int \<Rightarrow> uuid \<Rightarrow> (time \<times> bool) list \<Rightarrow> db \<Rightarrow> bool list \<times> db" where
  "check_all w limit pid [] d = ([], d)"
| "check_all w limit pid ((now, fault) # reqs) d =
     (case check_limit (w\<lparr>w_now := now\<rparr>) fault limit d pid of
        ((allowed, _, _), d) \<Rightarrow>
          (case check_all w limit pid reqs d of (rs, d) \<Rightarrow> (allowed # rs, d)))"

text \<open>The slots used in a window.\<close>

definition window_count :: "uuid \<Rightarrow> time \<Rightarrow> db \<Rightarrow> int" where
  "window_count pid ws d = (case get_key counter_key (pid, ws) (ingest_counters d) of
     None \<Rightarrow> 0 | Some r \<Rightarrow> c_count r)"

lemma check_limit_step:
  assumes "0 < limit" "project_exists d pid" "truncate_to (w_now w) minute = ws"
  obtains d' where "check_limit w fault limit d pid = ((fault \<or> window_count pid ws d + 1 \<le> limit,
      if fault then 0 else ws + minute - w_now w,
      if fault then 0 else max 0 (limit - (window_count pid ws d + 1))), d')"
    "projects d' = projects d"
    "window_count pid ws d' = window_count pid ws d + (if fault then 0 else 1)"
proof -
  let ?rows = "upsert (\<lambda>r. counter_key r = (pid, ws)) counter_upd (counter_new pid ws) (ingest_counters d)"
  have g: "get_key counter_key (pid, ws) ?rows = Some (case get_key counter_key (pid, ws) (ingest_counters d) of
      None \<Rightarrow> counter_new pid ws | Some r \<Rightarrow> counter_upd r)"
    using slot.get_stmt[of pid ws "ingest_counters d"] by (simp add: slot.stmt_def)
  have c: "c_count (case get_key counter_key (pid, ws) (ingest_counters d) of
      None \<Rightarrow> counter_new pid ws | Some r \<Rightarrow> counter_upd r) = window_count pid ws d + 1"
    by (simp add: window_count_def counter_new_def counter_upd_def split: option.splits)
  have slot: "count_slot pid ws d = Some (window_count pid ws d + 1, d\<lparr>ingest_counters := ?rows\<rparr>)"
    unfolding count_slot_def Let_def g using assms(2) c by simp
  have rows: "window_count pid ws (d\<lparr>ingest_counters := ?rows\<rparr>) = window_count pid ws d + 1"
    unfolding window_count_def using g c by (simp add: window_count_def)
  show ?thesis
  proof (cases fault)
    case True
    then show ?thesis using assms by (intro that[of d]) (simp_all add: check_limit_def auto_def)
  next
    case False
    have "check_limit w fault limit d pid = ((window_count pid ws d + 1 \<le> limit, ws + minute - w_now w,
        max 0 (limit - (window_count pid ws d + 1))), d\<lparr>ingest_counters := ?rows\<rparr>)"
      unfolding check_limit_def Let_def assms(3) auto_def slot using False assms(1) by simp
    note chk = this
    show ?thesis
    proof (rule that)
      show "check_limit w fault limit d pid = ((fault \<or> window_count pid ws d + 1 \<le> limit,
        if fault then 0 else ws + minute - w_now w,
        if fault then 0 else max 0 (limit - (window_count pid ws d + 1))), d\<lparr>ingest_counters := ?rows\<rparr>)"
        unfolding chk using False by simp
      show "window_count pid ws (d\<lparr>ingest_counters := ?rows\<rparr>) = window_count pid ws d + (if fault then 0 else 1)"
        unfolding rows using False by simp
    qed simp
  qed
qed

lemma check_all_count:
  assumes "0 < limit" "\<forall>(now, _)\<in>set reqs. truncate_to now minute = ws" "project_exists d pid"
    "0 \<le> window_count pid ws d"
  shows "int (length (filter (\<lambda>a. a) (fst (check_all w limit pid reqs d)))) =
    int (length (filter snd reqs)) +
    max 0 (min (limit - window_count pid ws d) (int (length (filter (\<lambda>r. \<not> snd r) reqs))))"
  using assms(2-4)
proof (induction reqs arbitrary: d)
  case Nil
  then show ?case by simp
next
  case (Cons r reqs)
  obtain now fault where r: "r = (now, fault)" by (cases r)
  have ws: "truncate_to (w_now (w\<lparr>w_now := now\<rparr>)) minute = ws" using Cons.prems r by simp
  obtain d' where d': "check_limit (w\<lparr>w_now := now\<rparr>) fault limit d pid =
       ((fault \<or> window_count pid ws d + 1 \<le> limit, if fault then 0 else ws + minute - w_now (w\<lparr>w_now := now\<rparr>),
         if fault then 0 else max 0 (limit - (window_count pid ws d + 1))), d')"
      "projects d' = projects d" "window_count pid ws d' = window_count pid ws d + (if fault then 0 else 1)"
    by (rule check_limit_step[OF assms(1) Cons.prems(2) ws])
  have "project_exists d' pid" using d'(2) Cons.prems(2) by (simp add: project_exists_def)
  then have ih: "int (length (filter (\<lambda>a. a) (fst (check_all w limit pid reqs d')))) =
    int (length (filter snd reqs)) +
    max 0 (min (limit - window_count pid ws d') (int (length (filter (\<lambda>r. \<not> snd r) reqs))))"
    using Cons.prems d'(3) by (intro Cons.IH) auto
  have "fst (check_all w limit pid (r # reqs) d) =
      (fault \<or> window_count pid ws d + 1 \<le> limit) # fst (check_all w limit pid reqs d')"
    by (simp add: r d'(1) split_beta)
  note hd = this
  show ?case
  proof (cases fault)
    case True
    with ih hd d'(3) show ?thesis by (simp add: r del: check_all.simps)
  next
    case False
    let ?n = "int (length (filter (\<lambda>r. \<not> snd r) reqs))" and ?c = "window_count pid ws d"
    have "max 0 (min (limit - ?c) (1 + ?n)) =
        (if ?c + 1 \<le> limit then 1 else 0) + max 0 (min (limit - (?c + 1)) ?n)"
      by (auto simp: max_def min_def)
    with False ih hd d'(3) show ?thesis by (simp add: r del: check_all.simps)
  qed
qed

subsection \<open>Decompression\<close>

record stream =
  st_bytes :: string
  st_err :: bool

record codecs =
  c_gzip :: "stream \<Rightarrow> stream option"
  c_zlib :: "string \<Rightarrow> stream option"
  c_flate :: "string \<Rightarrow> stream"
  c_brotli :: "stream \<Rightarrow> stream"
  c_zstd :: "stream \<Rightarrow> stream option"

datatype body_error = Too_large | Bad_body

definition limit_reader :: "int \<Rightarrow> stream \<Rightarrow> stream" where
  "limit_reader n s =
     (if int (length (st_bytes s)) \<ge> n then \<lparr>st_bytes = take (nat n) (st_bytes s), st_err = False\<rparr>
      else s)"

definition read_all :: "stream \<Rightarrow> string option" where
  "read_all s = (if st_err s then None else Some (st_bytes s))"

definition read_capped :: "stream \<Rightarrow> int \<Rightarrow> body_error + string" where
  "read_capped dec max_bytes =
     (case read_all (limit_reader (max_bytes + 1) dec) of
        None \<Rightarrow> Inl Bad_body
      | Some out \<Rightarrow> if int (length out) > max_bytes then Inl Too_large else Inr out)"

definition inflate_raw :: "codecs \<Rightarrow> string \<Rightarrow> int \<Rightarrow> body_error + string" where
  "inflate_raw c raw max_bytes =
     (if raw = [] then Inr raw
      else
        let zlib = (case c_zlib c raw of None \<Rightarrow> Inl Bad_body | Some z \<Rightarrow> read_capped z max_bytes)
        in case zlib of
             Inr out \<Rightarrow> Inr out
           | Inl e \<Rightarrow> if e = Too_large then Inl e else read_capped (c_flate c raw) max_bytes)"

definition decompress :: "codecs \<Rightarrow> stream \<Rightarrow> string \<Rightarrow> int \<Rightarrow> body_error + string" where
  "decompress c r content_encoding max_bytes =
     (let limited = limit_reader (max_bytes * 2 + 1) r;
          enc = to_lower (trim_space content_encoding)
      in if enc = [] \<or> enc = ''identity'' then read_capped limited max_bytes
         else if enc = ''gzip'' then
           (case c_gzip c limited of None \<Rightarrow> Inl Bad_body | Some z \<Rightarrow> read_capped z max_bytes)
         else if enc = ''deflate'' then
           (case read_all limited of None \<Rightarrow> Inl Bad_body | Some raw \<Rightarrow> inflate_raw c raw max_bytes)
         else if enc = ''br'' then read_capped (c_brotli c limited) max_bytes
         else if enc = ''zstd'' then
           (case c_zstd c limited of None \<Rightarrow> Inl Bad_body | Some z \<Rightarrow> read_capped z max_bytes)
         else Inl Bad_body)"

lemma read_capped_le: "read_capped s n = Inr out \<Longrightarrow> int (length out) \<le> n"
  by (auto simp: read_capped_def split: option.splits if_splits)

lemma inflate_raw_le: "0 \<le> n \<Longrightarrow> inflate_raw c raw n = Inr out \<Longrightarrow> int (length out) \<le> n"
  by (auto simp: inflate_raw_def Let_def split: option.splits sum.splits if_splits
      dest: read_capped_le)

lemma limit_reader_idem: "limit_reader n (limit_reader n s) = limit_reader n s"
  by (simp add: limit_reader_def)

subsection \<open>Properties\<close>

text \<open>C20: the limiter is exact and fails open: among the requests of one project within one minute
  window, exactly those are allowed whose counter statement fails plus the first
  \<open>limit - used\<close> of the others, whatever their order.\<close>

theorem limiter_exact:
  assumes "0 < limit" "\<forall>(now, _)\<in>set reqs. truncate_to now minute = ws" "project_exists d pid"
    "0 \<le> window_count pid ws d"
  shows "int (length (filter (\<lambda>a. a) (fst (check_all w limit pid reqs d)))) =
    int (length (filter snd reqs)) +
    max 0 (min (limit - window_count pid ws d) (int (length (filter (\<lambda>r. \<not> snd r) reqs))))"
  using check_all_count[OF assms] .

definition wit_limit_db :: db where
  "wit_limit_db = empty_db\<lparr>projects := [\<lparr>p_id = ''p'', p_org = ''o'', p_name = [], p_slug = [], p_platform = []\<rparr>]\<rparr>"

theorem limiter_exact_witness:
  "\<forall>w. length (filter (\<lambda>a. a) (fst (check_all w 2 ''p''
     [(0, False), (second, True), (2 * second, False), (3 * second, False)] wit_limit_db))) = 3"
proof
  fix w
  have "project_exists wit_limit_db ''p''" "window_count ''p'' 0 wit_limit_db = 0"
    by (simp_all add: wit_limit_db_def project_exists_def window_count_def get_key_def empty_db_def)
  moreover have "truncate_to 0 minute = 0" "truncate_to second minute = 0"
    "truncate_to (2 * second) minute = 0" "truncate_to (3 * second) minute = 0"
    by (simp_all add: truncate_to_def zero_time_def time_simps)
  ultimately show "length (filter (\<lambda>a. a) (fst (check_all w 2 ''p''
     [(0, False), (second, True), (2 * second, False), (3 * second, False)] wit_limit_db))) = 3"
    using limiter_exact[of 2 "[(0, False), (second, True), (2 * second, False), (3 * second, False)]" 0
        wit_limit_db "''p''" w] by simp
qed

text \<open>no decompression bomb: whatever the decoders produce, an accepted body is at most
  \<open>maxBytes\<close> long, and decoding looks at no more than the first \<open>2 maxBytes + 1\<close> bytes sent; an
  identity body is accepted exactly when it arrives without error within the cap.\<close>

theorem decompress_capped:
  assumes "0 < max_bytes"
  shows "(\<forall>out. decompress c r enc max_bytes = Inr out \<longrightarrow> int (length out) \<le> max_bytes) \<and>
    decompress c (limit_reader (max_bytes * 2 + 1) r) enc max_bytes = decompress c r enc max_bytes \<and>
    (int (length (st_bytes r)) \<le> max_bytes \<longrightarrow>
       decompress c r '' Identity '' max_bytes = (if st_err r then Inl Bad_body else Inr (st_bytes r))) \<and>
    (int (length (st_bytes r)) > max_bytes \<longrightarrow> decompress c r '' Identity '' max_bytes = Inl Too_large)"
proof -
  have "int (length out) \<le> max_bytes" if "decompress c r enc max_bytes = Inr out" for out
    using that assms
    by (auto simp: decompress_def Let_def split: if_splits option.splits
        dest: read_capped_le inflate_raw_le[rotated])
  moreover have "decompress c (limit_reader (max_bytes * 2 + 1) r) enc max_bytes = decompress c r enc max_bytes"
    by (simp add: decompress_def limit_reader_idem)
  moreover have "to_lower (trim_space '' Identity '') = ''identity''" by code_simp
  moreover from this have "decompress c r '' Identity '' max_bytes =
      read_capped (limit_reader (max_bytes * 2 + 1) r) max_bytes"
    by (simp add: decompress_def)
  moreover have "int (length (st_bytes r)) \<le> max_bytes \<Longrightarrow>
      read_capped (limit_reader (max_bytes * 2 + 1) r) max_bytes = (if st_err r then Inl Bad_body else Inr (st_bytes r))"
    using assms by (simp add: read_capped_def limit_reader_def read_all_def)
  moreover have "int (length (st_bytes r)) > max_bytes \<Longrightarrow>
      read_capped (limit_reader (max_bytes * 2 + 1) r) max_bytes = Inl Too_large"
    using assms by (simp add: read_capped_def limit_reader_def read_all_def min_def split: if_splits)
  ultimately show ?thesis by simp
qed

theorem decompress_capped_witness:
  "decompress \<lparr>c_gzip = (\<lambda>s. Some s), c_zlib = (\<lambda>s. None), c_flate = (\<lambda>s. \<lparr>st_bytes = s, st_err = False\<rparr>),
     c_brotli = (\<lambda>s. s), c_zstd = (\<lambda>s. Some s)\<rparr> \<lparr>st_bytes = ''abc'', st_err = False\<rparr> '' Identity '' 2
   = Inl Too_large"
  using decompress_capped[of 2] by simp

end

