(* ===== verification/JsonPrint.thy ===== *)
theory JsonPrint
  imports Json
begin

section \<open>Encoding JSON (Go's json.Marshal and json.Encoder)\<close>

text \<open>
  \<open>json_print\<close> is the compact text Go writes: strings with the characters \<open><\<close>, \<open>>\<close> and \<open>&\<close> and the
  two line separators escaped, invalid UTF-8 replaced; numbers as their literals.  The members of an
  object are printed in the order given, which for a Go map is the order of the keys.  Printing and
  parsing are inverse on values with valid UTF-8 and integer literals; of any texts a reader gets them with invalid
  UTF-8 replaced.
\<close>

definition hex_nibble :: "nat \<Rightarrow> char" where
  "hex_nibble n = ''0123456789abcdef'' ! n"

definition u_escape :: "nat \<Rightarrow> string" where
  "u_escape r = [CHR 0x5C, CHR ''u'', hex_nibble (r div 4096), hex_nibble (r div 256 mod 16),
     hex_nibble (r div 16 mod 16), hex_nibble (r mod 16)]"

definition escape_char :: "char \<Rightarrow> string" where
  "escape_char c =
     (if c = CHR 0x22 \<or> c = CHR 0x5C then [CHR 0x5C, c]
      else if c = CHR 0x08 then [CHR 0x5C, CHR ''b'']
      else if c = CHR 0x0C then [CHR 0x5C, CHR ''f'']
      else if c = nl then [CHR 0x5C, CHR ''n'']
      else if c = CHR 0x0D then [CHR 0x5C, CHR ''r'']
      else if c = CHR 0x09 then [CHR 0x5C, CHR ''t'']
      else if byte_nat c < 32 \<or> c = CHR ''<'' \<or> c = CHR ''>'' \<or> c = CHR ''&'' then u_escape (byte_nat c)
      else [c])"

function print_body :: "string \<Rightarrow> string" where
  "print_body s =
     (if s = [] then []
      else if byte_nat (hd s) < 128 then escape_char (hd s) @ print_body (tl s)
      else let w = rune_width s in
        if w = 0 then u_escape 65533 @ print_body (tl s)
        else if take w s = utf8_enc 8232 then u_escape 8232 @ print_body (drop w s)
        else if take w s = utf8_enc 8233 then u_escape 8233 @ print_body (drop w s)
        else take w s @ print_body (drop w s))"
  by pat_completeness auto
termination by (relation "measure length") auto

declare print_body.simps [simp del]

definition print_string :: "string \<Rightarrow> string" where
  "print_string s = [CHR 0x22] @ print_body s @ [CHR 0x22]"

fun json_print :: "json \<Rightarrow> string" where
  "json_print JNull = ''null''"
| "json_print (JBool b) = (if b then ''true'' else ''false'')"
| "json_print (JNum n) = n"
| "json_print (JStr s) = print_string s"
| "json_print (JArr xs) = ''['' @ join '','' (map json_print xs) @ '']''"
| "json_print (JObj kvs) =
     [CHR ''{''] @ join '','' (map (\<lambda>(k, v). print_string k @ '':'' @ json_print v) kvs) @ [CHR ''}'']"

subsection \<open>Valid and invalid UTF-8\<close>

function utf8_ok :: "string \<Rightarrow> bool" where
  "utf8_ok s = (if s = [] then True else if rune_width s = 0 then False else utf8_ok (drop (rune_width s) s))"
  by pat_completeness auto
termination by (relation "measure length") auto

declare utf8_ok.simps [simp del]

lemma utf8_ok_Nil [simp]: "utf8_ok []"
  by (subst utf8_ok.simps) simp

lemma fix_utf8_ok: "utf8_ok s \<Longrightarrow> fix_utf8 s = s"
proof (induction s rule: utf8_ok.induct)
  case (1 s)
  show ?case
  proof (cases "s = []")
    case False
    then have w: "rune_width s \<noteq> 0" "utf8_ok (drop (rune_width s) s)"
      using "1.prems" by (auto simp: utf8_ok.simps[of s] split: if_splits)
    then have "fix_utf8 s = take (rune_width s) s @ fix_utf8 (drop (rune_width s) s)"
      using False by (subst fix_utf8.simps) (simp add: Let_def)
    also have "\<dots> = s" using "1.IH" False w by simp
    finally show ?thesis .
  qed (subst fix_utf8.simps, simp)
qed

lemma rune_width_append: "rune_width a \<noteq> 0 \<Longrightarrow> rune_width (a @ b) = rune_width a"
proof -
  assume a: "rune_width a \<noteq> 0"
  then obtain x s1 where 1: "a = x # s1" by (cases a) (simp_all add: rune_width_def Let_def)
  show ?thesis
  proof (cases "byte_nat x < 128")
    case True
    then show ?thesis by (simp add: 1 rune_width_def Let_def)
  next
    case x: False
    then obtain y s2 where 2: "s1 = y # s2" using a 1 by (cases s1) (simp_all add: rune_width_def Let_def)
    show ?thesis
    proof (cases "194 \<le> byte_nat x \<and> byte_nat x \<le> 223")
      case True
      then show ?thesis by (simp add: 1 2 rune_width_def Let_def)
    next
      case x2: False
      then obtain z s3 where 3: "s2 = z # s3" using a x 1 2 by (cases s2) (auto simp: rune_width_def Let_def split: if_splits)
      show ?thesis
      proof (cases "224 \<le> byte_nat x \<and> byte_nat x \<le> 239")
        case True
        then show ?thesis using x2 by (simp add: 1 2 3 rune_width_def Let_def)
      next
        case x3: False
        then obtain v s4 where "s3 = v # s4" using a x x2 1 2 3 by (cases s3) (auto simp: rune_width_def Let_def split: if_splits)
        then show ?thesis using x x2 x3 by (simp add: 1 2 3 rune_width_def Let_def)
      qed
    qed
  qed
qed

lemma rune_width_le: "rune_width a \<le> length a"
proof -
  have "rune_width (x # s1) \<le> length (x # s1)" for x s1
    by (cases s1; cases "tl s1"; cases "tl (tl s1)") (simp_all add: rune_width_def Let_def)
  then show ?thesis by (cases a) (simp_all add: rune_width_def)
qed

lemma utf8_ok_append: "utf8_ok a \<Longrightarrow> utf8_ok b \<Longrightarrow> utf8_ok (a @ b)"
proof (induction a rule: utf8_ok.induct)
  case (1 a)
  show ?case
  proof (cases "a = []")
    case False
    have w: "rune_width a \<noteq> 0" "utf8_ok (drop (rune_width a) a)"
      using "1.prems"(1) False by (auto simp: utf8_ok.simps[of a] split: if_splits)
    have "drop (rune_width (a @ b)) (a @ b) = drop (rune_width a) a @ b"
      using rune_width_le[of a] by (simp add: rune_width_append[OF w(1)])
    moreover have "utf8_ok (drop (rune_width a) a @ b)" using "1.IH" False w "1.prems"(2) by simp
    ultimately show ?thesis
      using w(1) False by (subst utf8_ok.simps) (simp add: rune_width_append)
  qed (use "1.prems" in simp)
qed

lemma rune_width_take: "rune_width s \<noteq> 0 \<Longrightarrow> rune_width (take (rune_width s) s) = rune_width s"
proof -
  have "rune_width (x # s1) \<noteq> 0 \<Longrightarrow> rune_width (take (rune_width (x # s1)) (x # s1)) = rune_width (x # s1)" for x s1
    by (cases s1; cases "tl s1"; cases "tl (tl s1)") (auto simp: rune_width_def Let_def)
  then show "rune_width s \<noteq> 0 \<Longrightarrow> ?thesis" by (cases s) (simp_all add: rune_width_def)
qed

lemma utf8_ok_fix: "utf8_ok (fix_utf8 s)"
proof (induction s rule: fix_utf8.induct)
  case (1 s)
  have "utf8_ok replacement_rune" by code_simp
  moreover have "utf8_ok (take (rune_width s) s)" if "rune_width s \<noteq> 0"
    using rune_width_take[OF that] by (subst utf8_ok.simps) (simp add: that)
  ultimately show ?case using 1 by (subst fix_utf8.simps) (auto simp: Let_def intro: utf8_ok_append)
qed

lemma fix_utf8_fix: "fix_utf8 (fix_utf8 s) = fix_utf8 s"
  by (rule fix_utf8_ok) (rule utf8_ok_fix)

lemma nul_fix_utf8: "CHR 0x00 \<in> set (fix_utf8 s) \<longleftrightarrow> CHR 0x00 \<in> set s"
proof (induction s rule: fix_utf8.induct)
  case (1 s)
  show ?case
  proof (cases "rune_width s = 0")
    case True
    have "s \<noteq> [] \<Longrightarrow> hd s \<noteq> CHR 0x00" using True by (cases s) (auto simp: rune_width_def Let_def byte_nat_def)
    then show ?thesis using 1(1) True
      by (subst fix_utf8.simps) (cases s, auto simp: Let_def replacement_rune_def)
  next
    case False
    have "set s = set (take (rune_width s) s) \<union> set (drop (rune_width s) s)" by (metis append_take_drop_id set_append)
    then show ?thesis using 1(2) False by (subst fix_utf8.simps) (auto simp: Let_def)
  qed
qed

subsection \<open>What is printed is parsed\<close>

lemma rune_bytes:
  assumes "byte_nat (hd s) \<ge> 128" "rune_width s \<noteq> 0"
  shows "\<forall>c\<in>set (take (rune_width s) s). 128 \<le> byte_nat c"
  using assms by (cases s) (auto simp: rune_width_def Let_def cont_byte_def split: list.splits if_splits)

lemma rune_width_ascii: "s \<noteq> [] \<Longrightarrow> byte_nat (hd s) < 128 \<Longrightarrow> rune_width s = 1"
  by (cases s) (auto simp: rune_width_def Let_def)

lemma str_body_copy:
  "\<forall>c\<in>set p. 128 \<le> byte_nat c \<Longrightarrow> str_body (p @ s) = map_option (\<lambda>(b, t). (p @ b, t)) (str_body s)"
proof (induction p)
  case Nil
  then show ?case by (cases "str_body s") auto
next
  case (Cons c p)
  then have "c \<noteq> CHR 0x22" "c \<noteq> CHR 0x5C" "\<not> byte_nat c < 32" by (auto simp: byte_nat_def)
  then show ?case using Cons by (cases "str_body s") (auto simp: str_body.simps(2))
qed

lemma hex_val_nibble: "n < 16 \<Longrightarrow> hex_val (hex_nibble n) = Some n"
proof -
  assume "n < 16"
  then have "n \<in> set [0..<16]" by simp
  moreover have "list_all (\<lambda>n. hex_val (hex_nibble n) = Some n) [0..<16]" by code_simp
  ultimately show ?thesis by (simp only: list_all_iff)
qed

lemma str_body_u: "r < 55296 \<Longrightarrow>
    str_body (u_escape r @ s) = map_option (\<lambda>(b, t). (utf8_enc r @ b, t)) (str_body s)"
proof -
  assume r: "r < 55296"
  have "4096 * (r div 4096) + 256 * (r div 256 mod 16) + 16 * (r div 16 mod 16) + r mod 16 = r"
  proof -
    have "r div 16 div 16 = r div 256" "r div 256 div 16 = r div 4096" by (simp_all add: div_mult2_eq[symmetric])
    then show ?thesis using div_mult_mod_eq[of r 16] div_mult_mod_eq[of "r div 16" 16] div_mult_mod_eq[of "r div 256" 16]
      by linarith
  qed
  moreover have "r div 4096 < 16" using r by (simp add: less_mult_imp_div_less)
  ultimately have "hex4 [hex_nibble (r div 4096), hex_nibble (r div 256 mod 16), hex_nibble (r div 16 mod 16),
      hex_nibble (r mod 16)] = Some r"
    by (simp add: hex_val_nibble)
  then show ?thesis using r by (simp add: u_escape_def str_body.simps(2) del: hex4.simps)
qed

lemma str_body_escape: "byte_nat c < 128 \<Longrightarrow>
    str_body (escape_char c @ s) = map_option (\<lambda>(b, t). (c # b, t)) (str_body s)"
proof -
  assume c: "byte_nat c < 128"
  have u: "utf8_enc (byte_nat c) = [c]" using c by (simp add: utf8_enc_def byte_nat_def)
  show ?thesis
    using str_body_u[of "byte_nat c" s] c u
    by (auto simp: escape_char_def str_body.simps(2) simple_escape_def)
qed

lemma str_body_invalid: "str_body (u_escape 65533 @ s) = map_option (\<lambda>(b, t). (replacement_rune @ b, t)) (str_body s)"
proof -
  have u: "u_escape 65533 = [CHR 0x5C] @ ''ufffd''" by (simp add: u_escape_def hex_nibble_def)
  have h: "hex4 ''fffd'' = Some 65533" using hex_val_nibble[of 15] hex_val_nibble[of 13] by (simp add: hex_nibble_def)
  have "char_of (239::nat) = CHR 0xEF" "char_of (191::nat) = CHR 0xBF" "char_of (189::nat) = CHR 0xBD" by code_simp+
  then have e: "utf8_enc 65533 = replacement_rune" by (simp add: utf8_enc_def replacement_rune_def)
  show ?thesis unfolding u by (simp add: str_body.simps(2) h e del: hex4.simps)
qed

lemma str_body_printed: "str_body (print_body s @ CHR 0x22 # r) = Some (fix_utf8 s, r)"
proof (induction s rule: print_body.induct)
  case (1 s)
  let ?w = "rune_width s"
  show ?case
  proof (cases "s = []")
    case True
    then show ?thesis by (subst print_body.simps, subst fix_utf8.simps) (simp add: str_body.simps(2))
  next
    case ne: False
    show ?thesis
    proof (cases "byte_nat (hd s) < 128")
      case True
      then have "fix_utf8 s = hd s # fix_utf8 (tl s)"
        using ne rune_width_ascii[OF ne True] by (subst fix_utf8.simps) (cases s, simp_all add: Let_def)
      then show ?thesis using "1.IH"(1) ne True by (subst print_body.simps) (simp add: str_body_escape)
    next
      case high: False
      show ?thesis
      proof (cases "?w = 0")
        case True
        then have "fix_utf8 s = replacement_rune @ fix_utf8 (tl s)"
          using ne by (subst fix_utf8.simps) (simp add: Let_def drop_Suc)
        then show ?thesis using "1.IH"(2) ne high True str_body_invalid by (subst print_body.simps) (simp add: Let_def)
      next
        case False
        then have f: "fix_utf8 s = take ?w s @ fix_utf8 (drop ?w s)"
          using ne by (subst fix_utf8.simps) (simp add: Let_def)
        have esc: "take ?w s = utf8_enc n \<Longrightarrow> utf8_enc n @ fix_utf8 (drop ?w s) = fix_utf8 s" for n using f by simp
        show ?thesis
          using "1.IH"(3-) ne high False str_body_copy[OF rune_bytes[of s]] str_body_u[of 8232] str_body_u[of 8233] esc f
          by (subst print_body.simps) (auto simp: Let_def)
      qed
    qed
  qed
qed

text \<open>Numbers as the program writes them: integer literals.\<close>

definition int_lit :: "string \<Rightarrow> bool" where
  "int_lit n \<longleftrightarrow> (let d = (if has_prefix n ''-'' then tl n else n) in
     d \<noteq> [] \<and> list_all is_digit d \<and> (hd d = CHR ''0'' \<longrightarrow> tl d = []))"

definition ends_num :: "string \<Rightarrow> bool" where
  "ends_num r \<longleftrightarrow> r = [] \<or> hd r \<in> {CHR '','', CHR '']'', CHR ''}''}"

lemma scan_int_lit: "int_lit n \<Longrightarrow> ends_num r \<Longrightarrow> scan_num (n @ r) = Some (n, r)"
proof -
  assume n: "int_lit n" and r: "ends_num r"
  define sg where "sg = (if has_prefix n ''-'' then ''-'' else [])"
  define d where "d = (if has_prefix n ''-'' then tl n else n)"
  have nd: "n = sg @ d" by (cases n) (auto simp: sg_def d_def has_prefix_def)
  have d: "d \<noteq> []" "list_all is_digit d" "hd d = CHR ''0'' \<longrightarrow> tl d = []"
    using n by (auto simp: int_lit_def d_def Let_def)
  have "\<not> is_digit (CHR ''-'')" by (simp add: is_digit_def)
  then have "n \<noteq> []" using d(1) nd by auto
  then have "has_prefix (n @ r) ''-'' = has_prefix n ''-''" by (cases n) (simp_all add: has_prefix_def)
  then have pre: "(if has_prefix (n @ r) ''-'' then ''-'' else []) = sg"
    by (simp add: sg_def)
  have nr: "r \<noteq> [] \<Longrightarrow> \<not> is_digit (hd r)" using r by (auto simp: ends_num_def is_digit_def)
  have tw: "takeWhile is_digit (d @ r) = d" "dropWhile is_digit (d @ r) = r"
    using d(2) nr by (auto simp: list_all_iff takeWhile_append dropWhile_append takeWhile_eq_all_conv
        dropWhile_eq_self_iff takeWhile_eq_Nil_iff)
  have "num_int_part (d @ r) = Some (d, r)"
  proof (cases "hd d = CHR ''0''")
    case True
    then have "d = [CHR ''0'']" using d by (cases d) auto
    then show ?thesis by (simp add: num_int_part_def)
  next
    case False
    then show ?thesis using d tw by (cases d) (auto simp: num_int_part_def span_digits_def)
  qed
  moreover have "num_frac_part r = Some ([], r)" "num_exp_part r = Some ([], r)"
    using r by (auto simp: ends_num_def num_frac_part_def num_exp_part_def split: list.split)
  ultimately show ?thesis by (simp add: scan_num_def Let_def pre) (simp add: nd)
qed

fun json_ok :: "json \<Rightarrow> bool" where
  "json_ok (JNum n) = int_lit n"
| "json_ok (JStr s) = utf8_ok s"
| "json_ok (JArr xs) = list_all json_ok xs"
| "json_ok (JObj kvs) = list_all (\<lambda>(k, v). utf8_ok k \<and> json_ok v) kvs"
| "json_ok _ = True"

text \<open>What a reader gets of a printed value: invalid UTF-8 is replaced.\<close>

fun received :: "json \<Rightarrow> json" where
  "received (JStr s) = JStr (fix_utf8 s)"
| "received (JArr xs) = JArr (map received xs)"
| "received (JObj kvs) = JObj (map (\<lambda>(k, v). (fix_utf8 k, received v)) kvs)"
| "received v = v"

fun nums_ok :: "json \<Rightarrow> bool" where
  "nums_ok (JNum n) = int_lit n"
| "nums_ok (JArr xs) = list_all nums_ok xs"
| "nums_ok (JObj kvs) = list_all (\<lambda>(_, v). nums_ok v) kvs"
| "nums_ok _ = True"

lemma json_ok_received: "json_ok v \<Longrightarrow> nums_ok v \<and> received v = v"
proof (induction v rule: received.induct)
  case (2 xs)
  then show ?case by (auto simp: list_all_iff intro: map_idI)
next
  case (3 kvs)
  then show ?case by (fastforce simp: list_all_iff fix_utf8_ok intro: map_idI)
qed (simp_all add: fix_utf8_ok)

text \<open>\<open>reads v s r\<close>: with enough fuel the parser reads \<open>v\<close> off \<open>s\<close> and stops at \<open>r\<close>.\<close>

definition reads :: "(nat \<Rightarrow> string \<Rightarrow> ('v \<times> string) option) \<Rightarrow> 'v \<Rightarrow> string \<Rightarrow> string \<Rightarrow> bool" where
  "reads p v s r \<longleftrightarrow> (\<exists>n0. \<forall>n\<ge>n0. p n s = Some (v, r))"

lemma reads_SucI: "(\<And>n. p (Suc n) s = Some (v, r)) \<Longrightarrow> reads p v s r"
  unfolding reads_def by (metis Suc_le_D)

lemma reads_Suc1: "reads q w t u \<Longrightarrow> (\<And>n. q n t = Some (w, u) \<Longrightarrow> p (Suc n) s = Some (v, r)) \<Longrightarrow> reads p v s r"
  unfolding reads_def by (metis Suc_le_D Suc_le_mono)

lemma reads_Suc2:
  "reads q w t u \<Longrightarrow> reads q' w' t' u' \<Longrightarrow>
   (\<And>n. q n t = Some (w, u) \<Longrightarrow> q' n t' = Some (w', u') \<Longrightarrow> p (Suc n) s = Some (v, r)) \<Longrightarrow> reads p v s r"
proof -
  assume "reads q w t u" "reads q' w' t' u'" and p: "\<And>n. q n t = Some (w, u) \<Longrightarrow> q' n t' = Some (w', u') \<Longrightarrow> p (Suc n) s = Some (v, r)"
  then obtain a b where "\<forall>n\<ge>a. q n t = Some (w, u)" "\<forall>n\<ge>b. q' n t' = Some (w', u')" by (auto simp: reads_def)
  then have "p (Suc n) s = Some (v, r)" if "max a b \<le> n" for n using p that by simp
  then have "\<forall>n\<ge>Suc (max a b). p n s = Some (v, r)" by (metis Suc_le_D Suc_le_mono)
  then show ?thesis unfolding reads_def by blast
qed

lemma skip_ws_id: "s \<noteq> [] \<Longrightarrow> \<not> json_ws (hd s) \<Longrightarrow> skip_ws s = s"
  by (cases s) (simp_all add: skip_ws_def)

lemma expect_Cons: "\<not> json_ws d \<Longrightarrow> expect c (d # s) = (if c = d then Some s else None)"
  by (simp add: expect_def skip_ws_def)

lemma not_ws [simp]: "\<not> json_ws CHR 0x22" "\<not> json_ws CHR ''[''" "\<not> json_ws CHR '']''" "\<not> json_ws CHR ''{''"
  "\<not> json_ws CHR ''}''" "\<not> json_ws CHR '',''" "\<not> json_ws CHR '':''" "\<not> json_ws CHR ''n''" "\<not> json_ws CHR ''t''"
  "\<not> json_ws CHR ''f''" "\<not> json_ws CHR ''-''"
  by (simp_all add: json_ws_def)

lemma digit_not_ws: "is_digit c \<Longrightarrow> \<not> json_ws c"
  by (auto simp: is_digit_def json_ws_def)

text \<open>The first character of a printed value.\<close>

lemma int_lit_hd: "int_lit n \<Longrightarrow> n \<noteq> [] \<and> \<not> json_ws (hd n) \<and> hd n \<notin> {CHR '']'', CHR ''}'', CHR '','', CHR 0x22, CHR ''['', CHR ''{'', CHR ''t'', CHR ''f'', CHR ''n''}"
proof -
  assume n: "int_lit n"
  then have "n \<noteq> [] \<and> (is_digit (hd n) \<or> hd n = CHR ''-'')"
    by (cases n) (auto simp: int_lit_def Let_def has_prefix_def split: if_splits)
  then show ?thesis by (auto simp: is_digit_def json_ws_def)
qed

lemma print_hd: "nums_ok v \<Longrightarrow> json_print v \<noteq> [] \<and> \<not> json_ws (hd (json_print v)) \<and> hd (json_print v) \<notin> {CHR '']'', CHR ''}'', CHR '',''}"
  using int_lit_hd by (cases v) (auto simp: print_string_def)

lemma reads_elems:
  assumes "\<And>x r. x \<in> set xs \<Longrightarrow> ends_num r \<Longrightarrow> reads pval (f x) (json_print x @ r) r" "xs \<noteq> []"
  shows "reads parr (map f xs) (join '','' (map json_print xs) @ CHR '']'' # r) r"
  using assms
proof (induction xs rule: induct_list012)
  case (2 x)
  have e: "ends_num (CHR '']'' # r)" by (simp add: ends_num_def)
  show ?case
    by (rule reads_Suc1[OF "2.prems"(1)[OF _ e]]) (simp, simp add: expect_Cons)
next
  case (3 x y zs)
  let ?t = "join '','' (map json_print (y # zs)) @ CHR '']'' # r"
  have e: "ends_num (CHR '','' # ?t)" by (simp add: ends_num_def)
  have "reads pval (f x) (json_print x @ CHR '','' # ?t) (CHR '','' # ?t)" using "3.prems"(1) e by simp
  moreover have "reads parr (map f (y # zs)) ?t r" using "3.IH"(2) "3.prems"(1) by simp
  ultimately show ?case by (rule reads_Suc2) (simp add: expect_Cons)
qed simp

lemma expect_quote_string: "expect (CHR 0x22) (print_string k @ r) = Some (print_body k @ CHR 0x22 # r)"
  by (simp add: print_string_def expect_Cons)

lemma reads_members:
  assumes "\<And>k v r. (k, v) \<in> set kvs \<Longrightarrow> ends_num r \<Longrightarrow> reads pval (f v) (json_print v @ r) r" "kvs \<noteq> []"
  shows "reads pobj (map (\<lambda>(k, v). (fix_utf8 k, f v)) kvs)
    (join '','' (map (\<lambda>(k, v). print_string k @ '':'' @ json_print v) kvs) @ CHR ''}'' # r) r"
  using assms
proof (induction kvs rule: induct_list012)
  case (2 kv)
  obtain k v where kv: "kv = (k, v)" by (cases kv)
  have e: "ends_num (CHR ''}'' # r)" by (simp add: ends_num_def)
  have v: "reads pval (f v) (json_print v @ CHR ''}'' # r) (CHR ''}'' # r)"
    using "2.prems"(1)[of k v, OF _ e] kv by auto
  show ?case
    by (rule reads_Suc1[OF v]) (simp add: kv expect_quote_string str_body_printed fix_utf8_fix expect_Cons)
next
  case (3 kv kw zs)
  obtain k v where kv: "kv = (k, v)" by (cases kv)
  let ?t = "join '','' (map (\<lambda>(k, v). print_string k @ '':'' @ json_print v) (kw # zs)) @ CHR ''}'' # r"
  have e: "ends_num (CHR '','' # ?t)" by (simp add: ends_num_def)
  have v: "reads pval (f v) (json_print v @ CHR '','' # ?t) (CHR '','' # ?t)"
    using "3.prems"(1)[of k v, OF _ e] kv by auto
  have "reads pobj (map (\<lambda>(k, v). (fix_utf8 k, f v)) (kw # zs)) ?t r" by (rule "3.IH"(2)) (use "3.prems"(1) in auto)
  then show ?case
    by (rule reads_Suc2[OF v])
       (simp add: kv expect_quote_string str_body_printed fix_utf8_fix expect_Cons)
qed simp

lemma join_map_hd: "xs \<noteq> [] \<Longrightarrow> f (hd xs) \<noteq> [] \<Longrightarrow> join sep (map f xs) \<noteq> [] \<and> hd (join sep (map f xs)) = hd (f (hd xs))"
proof (cases xs)
  case (Cons x ys)
  then show "xs \<noteq> [] \<Longrightarrow> f (hd xs) \<noteq> [] \<Longrightarrow> join sep (map f xs) \<noteq> [] \<and> hd (join sep (map f xs)) = hd (f (hd xs))"
    by (cases ys) auto
qed simp

lemma expect_other: "s \<noteq> [] \<Longrightarrow> \<not> json_ws (hd s) \<Longrightarrow> hd s \<noteq> c \<Longrightarrow> expect c (s @ r) = None"
  by (cases s) (auto simp: expect_def skip_ws_def)

lemma reads_print: "nums_ok v \<Longrightarrow> ends_num r \<Longrightarrow> reads pval (received v) (json_print v @ r) r"
proof (induction v arbitrary: r rule: json_print.induct)
  case (3 n)
  then have "n \<noteq> []" "\<not> json_ws (hd n)"
    "hd n \<notin> {CHR '']'', CHR ''}'', CHR '','', CHR 0x22, CHR ''['', CHR ''{'', CHR ''t'', CHR ''f'', CHR ''n''}"
    "scan_num (n @ r) = Some (n, r)"
    using int_lit_hd scan_int_lit by auto
  then show ?case
    by (intro reads_SucI, cases n) (auto simp: skip_ws_def has_prefix_def)
next
  case (4 s)
  show ?case by (intro reads_SucI) (simp add: print_string_def skip_ws_def str_body_printed fix_utf8_fix)
next
  case (5 xs)
  show ?case
  proof (cases "xs = []")
    case True
    then show ?thesis by (intro reads_SucI) (simp add: skip_ws_def expect_Cons)
  next
    case False
    let ?t = "join '','' (map json_print xs)"
    have "nums_ok (hd xs)" using "5.prems"(1) False by (simp add: list_all_iff)
    then have "expect (CHR '']'') (?t @ CHR '']'' # r) = None"
      using join_map_hd[OF False, of json_print] print_hd[of "hd xs"] by (intro expect_other) auto
    moreover have "reads parr (map received xs) (?t @ CHR '']'' # r) r"
      using "5.IH" "5.prems"(1) False by (intro reads_elems) (auto simp: list_all_iff)
    ultimately show ?thesis by (rule_tac reads_Suc1) (simp_all add: skip_ws_def)
  qed
next
  case (6 kvs)
  show ?case
  proof (cases "kvs = []")
    case True
    then show ?thesis by (intro reads_SucI) (simp add: skip_ws_def expect_Cons)
  next
    case False
    let ?f = "\<lambda>(k, v). print_string k @ '':'' @ json_print v"
    let ?t = "join '','' (map ?f kvs)"
    have "?f (hd kvs) \<noteq> [] \<and> hd (?f (hd kvs)) = CHR 0x22" by (simp add: print_string_def split_beta)
    then have "expect (CHR ''}'') (?t @ CHR ''}'' # r) = None"
      using join_map_hd[OF False, of ?f] by (intro expect_other) auto
    moreover have "reads pobj (map (\<lambda>(k, v). (fix_utf8 k, received v)) kvs) (?t @ CHR ''}'' # r) r"
      using "6.IH" "6.prems"(1) False by (intro reads_members) (auto simp: list_all_iff)
    ultimately show ?thesis by (rule_tac reads_Suc1) (simp_all add: skip_ws_def)
  qed
qed (auto intro!: reads_SucI simp: skip_ws_def has_prefix_def)

text \<open>Whatever bytes its texts hold, a printed value is read back, with invalid UTF-8 replaced.\<close>

lemma pval_printed: "nums_ok v \<Longrightarrow> pval (json_fuel (json_print v)) (json_print v) = Some (received v, [])"
proof -
  assume "nums_ok v"
  then have "reads pval (received v) (json_print v) []" using reads_print[of v "[]"] by (simp add: ends_num_def)
  then obtain n0 where "\<forall>n\<ge>n0. pval n (json_print v) = Some (received v, [])" by (auto simp: reads_def)
  then have "pval (max n0 (json_fuel (json_print v))) (json_print v) = Some (received v, [])" by simp
  then show ?thesis using json_parse_fuel[of "json_print v" "max n0 (json_fuel (json_print v))"] by simp
qed

lemma parse_printed: "nums_ok v \<Longrightarrow> json_parse (json_print v) = Some (received v)"
  by (simp add: json_parse_def pval_printed skip_ws_def)

lemma pval_print: "json_ok v \<Longrightarrow> pval (json_fuel (json_print v)) (json_print v) = Some (v, [])"
  and parse_print: "json_ok v \<Longrightarrow> json_parse (json_print v) = Some v"
  using pval_printed parse_printed json_ok_received by metis+

lemma unmarshal_print: "json_ok v \<Longrightarrow> unmarshal d z (json_print v) = d v z"
  by (simp add: unmarshal_def parse_print)

subsection \<open>Texts that survive the round trip\<close>

lemma utf8_ok_Cons [simp]: "byte_nat c < 128 \<Longrightarrow> utf8_ok (c # s) = utf8_ok s"
  by (subst utf8_ok.simps) (simp add: rune_width_def)

lemma show_nat_int_lit: "int_lit (show_nat n) \<and> hd (show_nat n) \<noteq> CHR ''-'' \<and> (n \<noteq> 0 \<longrightarrow> hd (show_nat n) \<noteq> CHR ''0'')"
proof (induction n rule: show_nat.induct)
  case (1 n)
  show ?case
  proof (cases "n < 10")
    case True
    then have "n \<in> set [0..<10]" by simp
    moreover have "list_all (\<lambda>n. int_lit [digit_char n] \<and> digit_char n \<noteq> CHR ''-'' \<and> (n \<noteq> 0 \<longrightarrow> digit_char n \<noteq> CHR ''0'')) [0..<10]"
      by code_simp
    ultimately show ?thesis using True by (simp add: show_nat.simps[of n] list_all_iff)
  next
    case False
    then have ih: "int_lit (show_nat (n div 10))" "hd (show_nat (n div 10)) \<noteq> CHR ''-''"
      "hd (show_nat (n div 10)) \<noteq> CHR ''0''" using "1.IH" by auto
    obtain c cs where c: "show_nat (n div 10) = c # cs" using show_nat_digits by (metis neq_Nil_conv)
    have d: "is_digit (digit_char (n mod 10))" by (rule is_digit_digit_char) simp
    have e: "show_nat n = c # cs @ [digit_char (n mod 10)]" using False c by (subst show_nat.simps) simp
    have "is_digit c" "list_all is_digit cs" using show_nat_digits[of "n div 10"] c by simp_all
    then show ?thesis using ih d unfolding e c by (simp add: int_lit_def has_prefix_def)
  qed
qed

lemma int_lit_show_int: "int_lit (show_int i)"
proof (cases "i < 0")
  case True
  then show ?thesis using show_nat_int_lit[of "nat (- i)"] show_nat_digits[of "nat (- i)"]
    by (cases "show_nat (nat (- i))") (auto simp: show_int_def int_lit_def Let_def has_prefix_def)
next
  case False
  then show ?thesis using show_nat_int_lit by (simp add: show_int_def)
qed

end
