(* ===== verification/Site.thy ===== *)
theory Site
  imports Store JsonPrint
begin

section \<open>The rest of the site: jobs, alert rules, rollups, and what leaves the program\<close>

text \<open>
  The worker and the HTTP handlers use tables the ingest transaction never touches; \<open>site\<close> holds
  them beside the ingest database.  Their statements run outside a transaction: each commits by
  itself and may fail alone.  An operation is a computation on \<open>io\<close>, the site with the number of
  calls made to the outside so far (statements, mails, requests) and the messages sent.  \<open>net\<close>
  gives the outcomes of those calls: the text of a failed statement's error, the result of a mail
  or request; \<open>w_fault\<close> says which statements fail.
\<close>

record org_row =
  o_id :: uuid
  o_name :: string
  o_slug :: string

datatype job_status = Pending | Running | Done | Failed

record job_row =
  j_id :: int
  j_kind :: string
  j_run_at :: time
  j_payload :: json
  j_status :: job_status
  j_attempts :: int
  j_max :: int
  j_error :: string
  j_updated :: time

record alert_rule =
  al_id :: uuid
  al_project :: uuid
  al_name :: string
  al_trigger :: string
  al_enabled :: bool
  al_environments :: "string list"
  al_releases :: "string list"
  al_levels :: "string list"
  al_count :: int
  al_minutes :: int
  al_quiet :: int
  al_email :: "string list"
  al_url :: string
  al_secret :: string
  al_created :: time

record dedupe_row =
  dd_rule :: uuid
  dd_issue :: uuid
  dd_last :: time

record delivery_row =
  dv_rule :: "uuid option"
  dv_project :: uuid
  dv_issue :: "uuid option"
  dv_event :: "uuid option"
  dv_trigger :: string
  dv_action :: string
  dv_target :: string
  dv_status :: string
  dv_error :: string
  dv_created :: time

record tx_rollup_row =
  tr_project :: uuid
  tr_name :: string
  tr_hour :: time
  tr_count :: int
  tr_failures :: int
  tr_p50 :: f64
  tr_p95 :: f64
  tr_p99 :: f64

record release_file_row =
  rf_id :: uuid
  rf_project :: uuid
  rf_release :: string
  rf_dist :: string
  rf_name :: string
  rf_body :: string
  rf_sha :: string
  rf_debug :: string
  rf_url :: string

record user_row =
  us_id :: uuid
  us_email :: string
  us_name :: string
  us_hash :: string
  us_verified :: bool
  us_reset :: "string option"
  us_reset_expires :: "time option"

record membership_row =
  mb_id :: uuid
  mb_org :: uuid
  mb_user :: uuid
  mb_role :: string
  mb_created :: time

record invitation_row =
  iv_id :: uuid
  iv_org :: uuid
  iv_email :: string
  iv_role :: string
  iv_token :: string
  iv_by :: uuid
  iv_expires :: time
  iv_accepted :: "time option"
  iv_created :: time

record auth_session_row =
  ss_id :: uuid
  ss_user :: uuid
  ss_token :: string
  ss_expires :: time
  ss_seen :: time

record api_token_row =
  tk_id :: uuid
  tk_user :: uuid
  tk_name :: string
  tk_token :: string
  tk_prefix :: string
  tk_scope :: string
  tk_created :: time
  tk_revoked :: bool
  tk_used :: "time option"

record site =
  store :: db
  orgs :: "org_row list"
  jobs :: "job_row list"
  next_job :: int
  alert_rules :: "alert_rule list"
  dedupes :: "dedupe_row list"
  deliveries :: "delivery_row list"
  tx_rollups :: "tx_rollup_row list"
  watermark :: "time option"  \<comment> \<open>the row of \<open>rollup_state\<close>\<close>
  release_files :: "release_file_row list"
  users :: "user_row list"
  memberships :: "membership_row list"
  invitations :: "invitation_row list"
  auth_sessions :: "auth_session_row list"
  api_tokens :: "api_token_row list"

definition site_of :: "db \<Rightarrow> site" where
  "site_of d = \<lparr>store = d, orgs = [], jobs = [], next_job = 1, alert_rules = [], dedupes = [],
     deliveries = [], tx_rollups = [], watermark = None, release_files = [], users = [],
     memberships = [], invitations = [], auth_sessions = [], api_tokens = []\<rparr>"

datatype message =
    Mail (mail_server: string) (mail_from: string) (mail_to: string) (mail_text: string)
  | Post (post_url: string) (post_headers: "(string \<times> string) list") (post_body: string)
  | Log_mail (mail_to: string) (mail_subject: string) (mail_text: string)

record net =
  n_text :: "nat \<Rightarrow> string"                 \<comment> \<open>error of the \<open>n\<close>-th call, a statement\<close>
  n_smtp :: "nat \<Rightarrow> string option"          \<comment> \<open>error of the \<open>n\<close>-th call, a mail\<close>
  n_http :: "nat \<Rightarrow> string + int"           \<comment> \<open>error or status of the \<open>n\<close>-th call, a request\<close>
  n_url :: "string \<Rightarrow> string option"        \<comment> \<open>the error of parsing a URL, if it is none\<close>
  n_bound :: "time \<Rightarrow> string"               \<comment> \<open>the server's text of a partition bound\<close>

record io =
  io_site :: site
  io_calls :: nat
  io_out :: "message list"

type_synonym 'a iom = "(io, string, 'a) sm"

type_synonym 'a query = "site \<Rightarrow> ('a \<times> site) option"

definition called :: "io \<Rightarrow> io" where "called s = s\<lparr>io_calls := Suc (io_calls s)\<rparr>"

text \<open>\<open>pool.Exec\<close> and \<open>pool.Query\<close>.\<close>

definition query :: "world \<Rightarrow> net \<Rightarrow> 'a query \<Rightarrow> 'a iom" where
  "query w n q s =
     (if w_fault w (io_calls s) then (Inl (n_text n (io_calls s)), called s)
      else case q (io_site s) of
        None \<Rightarrow> (Inl (n_text n (io_calls s)), called s)
      | Some (a, d) \<Rightarrow> (Inr a, called s\<lparr>io_site := d\<rparr>))"

text \<open>\<open>pool.QueryRow(...).Scan\<close>: an empty result is an error with a text of its own.\<close>

definition no_rows :: string where "no_rows = ''no rows in result set''"

definition query_row :: "world \<Rightarrow> net \<Rightarrow> 'a option query \<Rightarrow> 'a iom" where
  "query_row w n q = bind (query w n q) (\<lambda>r. case r of None \<Rightarrow> fail no_rows | Some a \<Rightarrow> ret a)"

definition select :: "(site \<Rightarrow> 'a) \<Rightarrow> 'a query" where "select f d = Some (f d, d)"

text \<open>A text sent as a uuid parameter must be one.\<close>

definition with_uuid :: "world \<Rightarrow> string \<Rightarrow> (uuid \<Rightarrow> 'a query) \<Rightarrow> 'a query" where
  "with_uuid w u q d = (case w_pg_uuid w u of None \<Rightarrow> None | Some v \<Rightarrow> q v d)"

text \<open>\<open>fmt.Errorf("prefix: %w", err)\<close>.\<close>

definition wrap_err :: "string \<Rightarrow> 'a iom \<Rightarrow> 'a iom" where
  "wrap_err p m s = (case m s of (Inl e, s') \<Rightarrow> (Inl (p @ '': '' @ e), s') | (Inr a, s') \<Rightarrow> (Inr a, s'))"

text \<open>A loop over a slice that stops at the first error.\<close>

fun for_each :: "('a \<Rightarrow> ('s, 'e, unit) sm) \<Rightarrow> 'a list \<Rightarrow> ('s, 'e, unit) sm" where
  "for_each f [] = ret ()"
| "for_each f (x # xs) = bind (f x) (\<lambda>_. for_each f xs)"

text \<open>One statement, mail or request more.\<close>

definition sends :: "message \<Rightarrow> io \<Rightarrow> io" where
  "sends m s = s\<lparr>io_calls := Suc (io_calls s), io_out := io_out s @ [m]\<rparr>"

subsection \<open>What a computation keeps\<close>

definition steady :: "(io \<Rightarrow> bool) \<Rightarrow> (io, 'e, 'a) sm \<Rightarrow> bool" where
  "steady I m \<longleftrightarrow> (\<forall>s. I s \<longrightarrow> I (snd (m s)))"

named_theorems steady_intros \<open>computations that keep an invariant of the site\<close>

lemma steady_ret [steady_intros]: "steady I (ret a)"
  by (simp add: steady_def ret_def)

lemma steady_fail [steady_intros]: "steady I (fail e)"
  by (simp add: steady_def fail_def)

lemma steady_bind [steady_intros]: "steady I m \<Longrightarrow> (\<And>a. steady I (f a)) \<Longrightarrow> steady I (bind m f)"
  unfolding steady_def bind_def by (auto split: prod.splits sum.splits)

lemma steady_attempt [steady_intros]: "steady I m \<Longrightarrow> steady I (attempt m)"
  unfolding steady_def attempt_def by (auto split: prod.splits sum.splits)

lemma steady_wrap [steady_intros]: "steady I m \<Longrightarrow> steady I (wrap_err p m)"
  unfolding steady_def wrap_err_def by (auto split: prod.splits sum.splits)

lemma steady_if [steady_intros]: "(b \<Longrightarrow> steady I x) \<Longrightarrow> (\<not> b \<Longrightarrow> steady I y) \<Longrightarrow> steady I (if b then x else y)"
  by simp

lemma steady_option [steady_intros]:
  "steady I x \<Longrightarrow> (\<And>a. steady I (f a)) \<Longrightarrow> steady I (case z of None \<Rightarrow> x | Some a \<Rightarrow> f a)"
  by (simp split: option.split)

lemma steady_for_each [steady_intros]: "(\<And>x. x \<in> set xs \<Longrightarrow> steady I (f x)) \<Longrightarrow> steady I (for_each f xs)"
  by (induction xs) (auto intro: steady_intros)

text \<open>An invariant of the site that does not look at the calls and messages.\<close>

abbreviation on_site :: "(site \<Rightarrow> bool) \<Rightarrow> io \<Rightarrow> bool" where "on_site J s \<equiv> J (io_site s)"

lemma called_simps [simp]: "io_site (called s) = io_site s" "io_calls (called s) = Suc (io_calls s)" "io_out (called s) = io_out s"
  by (simp_all add: called_def)

lemma sends_simps [simp]: "io_site (sends m s) = io_site s" "io_calls (sends m s) = Suc (io_calls s)"
  "io_out (sends m s) = io_out s @ [m]"
  by (simp_all add: sends_def)

lemma steady_query: "(\<And>d a d'. J d \<Longrightarrow> q d = Some (a, d') \<Longrightarrow> J d') \<Longrightarrow> steady (on_site J) (query w n q)"
  by (auto simp: steady_def query_def split: option.splits)

lemma steady_query_row: "(\<And>d a d'. J d \<Longrightarrow> q d = Some (a, d') \<Longrightarrow> J d') \<Longrightarrow> steady (on_site J) (query_row w n q)"
  unfolding query_row_def by (intro steady_intros steady_query)

lemma steady_query_same:
  "(\<And>d a d'. q d = Some (a, d') \<Longrightarrow> d' = d) \<Longrightarrow> steady (on_site J) (query w n q)"
  "(\<And>d a d'. p d = Some (a, d') \<Longrightarrow> d' = d) \<Longrightarrow> steady (on_site J) (query_row w n p)"
  by (rule steady_query steady_query_row; metis)+

lemma select_same [simp]: "select f d = Some (a, d') \<longleftrightarrow> a = f d \<and> d' = d"
  by (auto simp: select_def)

lemma with_uuid_same: "(\<And>v. q v d = Some (a, d') \<Longrightarrow> d' = d) \<Longrightarrow> with_uuid w u q d = Some (a, d') \<Longrightarrow> d' = d"
  by (auto simp: with_uuid_def split: option.splits)

lemma steady_select [steady_intros]:
  "steady (on_site J) (query w n (select f))"
  "steady (on_site J) (query w n (with_uuid w u (\<lambda>v. select (g v))))"
  "steady (on_site J) (query_row w n (select f'))"
  "steady (on_site J) (query_row w n (with_uuid w u (\<lambda>v. select (g' v))))"
  by (rule steady_query_same, auto simp: with_uuid_def split: option.splits)+

subsection \<open>Computations in a world without faults\<close>

definition calm :: "world \<Rightarrow> bool" where "calm w \<longleftrightarrow> w_fault w = (\<lambda>_. False)"

lemma query_calm: "calm w \<Longrightarrow> query w n q s =
    (case q (io_site s) of None \<Rightarrow> (Inl (n_text n (io_calls s)), called s) | Some (a, d) \<Rightarrow> (Inr a, called s\<lparr>io_site := d\<rparr>))"
  by (simp add: query_def calm_def)

lemma query_select_calm: "calm w \<Longrightarrow> query w n (select f) s = (Inr (f (io_site s)), called s)"
  by (simp add: query_calm select_def called_def)

lemma with_uuid_Some: "w_pg_uuid w u = Some v \<Longrightarrow> with_uuid w u q = q v"
  by (simp add: with_uuid_def fun_eq_iff)

end
