(* ===== verification/Alerts.thy ===== *)
theory Alerts
  imports Site
begin

section \<open>Alert rules (internal/alerts/alerts.go)\<close>

text \<open>
  Matching a signal against a rule's filters and trigger, the versioned JSON payload, its HMAC
  signature and the normalization of address lists.
\<close>

definition payload_version :: int where "payload_version = 1"

definition event_alert :: string where "event_alert = ''alert''"
definition event_test :: string where "event_test = ''alert-test''"
definition header_event :: string where "header_event = ''X-BugHan-Event''"
definition header_signature :: string where "header_signature = ''X-BugHan-Signature''"

record signal =
  s_project_id :: string
  s_issue_id :: string
  s_event_id :: string
  s_is_new :: bool
  s_is_regression :: bool
  s_environment_of :: string
  s_release_of :: string
  s_level_of :: string

definition contains_fold :: "string list \<Rightarrow> string \<Rightarrow> bool" where
  "contains_fold xs v = list_ex (\<lambda>e. equal_fold e v) xs"

definition matches_filters :: "'a alert_rule_scheme \<Rightarrow> signal \<Rightarrow> bool" where
  "matches_filters r s =
     (if al_environments r \<noteq> [] \<and> \<not> contains_fold (al_environments r) (s_environment_of s) then False
      else if al_releases r \<noteq> [] \<and> \<not> contains_fold (al_releases r) (s_release_of s) then False
      else if al_levels r \<noteq> [] \<and> \<not> contains_fold (al_levels r) (s_level_of s) then False
      else True)"

definition matches_trigger :: "'a alert_rule_scheme \<Rightarrow> signal \<Rightarrow> int \<Rightarrow> bool" where
  "matches_trigger r s window_count =
     (if al_trigger r = ''new_issue'' then s_is_new s
      else if al_trigger r = ''regression'' then s_is_regression s
      else if al_trigger r = ''event_count'' then
        let n = al_count r; n = (if n \<le> 0 then 1 else n) in n \<le> window_count
      else False)"

definition should_send :: "'a alert_rule_scheme \<Rightarrow> signal \<Rightarrow> int \<Rightarrow> bool" where
  "should_send r s window_count =
     (if \<not> al_enabled r then False
      else matches_filters r s \<and> matches_trigger r s window_count)"

subsection \<open>The payload\<close>

record payload =
  py_version :: int
  py_event :: string
  py_rule :: "(string \<times> json) list"
  py_project :: "(string \<times> json) list"
  py_issue :: "(string \<times> json) list"
  py_trigger :: string
  py_urls :: "(string \<times> json) list"

text \<open>A Go map is marshalled in the order of its keys; a nil map of \<open>urls\<close> becomes an empty one.\<close>

definition build_payload ::
    "string \<Rightarrow> (string \<times> json) list \<Rightarrow> (string \<times> json) list \<Rightarrow> (string \<times> json) list \<Rightarrow> string
     \<Rightarrow> (string \<times> json) list option \<Rightarrow> payload" where
  "build_payload event rule project issue trigger urls =
     \<lparr>py_version = payload_version, py_event = event, py_rule = rule, py_project = project,
      py_issue = issue, py_trigger = trigger, py_urls = (case urls of None \<Rightarrow> [] | Some u \<Rightarrow> u)\<rparr>"

definition payload_value :: "payload \<Rightarrow> json" where
  "payload_value p = JObj
     [(''version'', JNum (show_int (py_version p))), (''event'', JStr (py_event p)),
      (''rule'', JObj (py_rule p)), (''project'', JObj (py_project p)), (''issue'', JObj (py_issue p)),
      (''trigger'', JStr (py_trigger p)), (''urls'', JObj (py_urls p))]"

definition sign :: "string \<Rightarrow> string \<Rightarrow> string" where
  "sign secret body = ''sha256='' @ hex_encode (hmac_sha256 secret body)"

subsection \<open>Addresses\<close>

fun normalize_from :: "string list \<Rightarrow> string list \<Rightarrow> string list" where
  "normalize_from seen [] = []"
| "normalize_from seen (e # es) =
     (let e = to_lower (trim_space e) in
      if e = [] \<or> e \<in> set seen then normalize_from seen es
      else if \<not> contains e ''@'' then normalize_from seen es
      else e # normalize_from (e # seen) es)"

definition normalize_emails :: "string list \<Rightarrow> string list" where
  "normalize_emails xs = normalize_from [] xs"

lemma normalize_from_Cons:
  "normalize_from seen (e # es) =
     (if to_lower (trim_space e) = [] \<or> to_lower (trim_space e) \<in> set seen \<or> \<not> contains (to_lower (trim_space e)) ''@''
      then normalize_from seen es
      else to_lower (trim_space e) # normalize_from (to_lower (trim_space e) # seen) es)"
  by (simp only: normalize_from.simps Let_def split: if_splits) blast

lemma normalize_from_sound:
  "distinct (normalize_from seen xs) \<and> set (normalize_from seen xs) \<inter> set seen = {} \<and>
   (\<forall>e\<in>set (normalize_from seen xs). e \<noteq> [] \<and> contains e ''@'' \<and> to_lower e = e)"
proof (induction xs arbitrary: seen)
  case (Cons x xs)
  show ?case
    using Cons.IH[of seen] Cons.IH[of "to_lower (trim_space x) # seen"]
    unfolding normalize_from_Cons by (auto split: if_split)
qed simp

lemma normalize_from_complete:
  "x \<in> set xs \<Longrightarrow> contains (to_lower (trim_space x)) ''@'' \<Longrightarrow> to_lower (trim_space x) \<noteq> [] \<Longrightarrow>
   to_lower (trim_space x) \<in> set seen \<union> set (normalize_from seen xs)"
proof (induction xs arbitrary: seen)
  case (Cons y ys)
  show ?case
    using Cons.IH[of seen] Cons.IH[of "to_lower (trim_space y) # seen"] Cons.prems
    unfolding normalize_from_Cons by (auto split: if_split)
qed simp

lemma normalize_from_mem: "e \<in> set (normalize_from seen xs) \<Longrightarrow> \<exists>x\<in>set xs. e = to_lower (trim_space x)"
proof (induction xs arbitrary: seen)
  case (Cons y ys)
  then show ?case unfolding normalize_from_Cons by (auto split: if_splits)
qed simp

end
