(* ===== verification/AlertWorker.thy ===== *)
theory AlertWorker
  imports Alerts Config
begin

section \<open>Evaluating and delivering alerts (internal/worker/alerts.go)\<close>

text \<open>
  The handler of the \<open>alert_evaluate\<close> job: it loads the enabled rules of the project, the issue
  and the project, and for every rule whose filters and trigger match and whose quiet period is
  over sends one mail per address and one webhook request, logs each attempt in
  \<open>alert_deliveries\<close> and records the time in \<open>alert_dedupe\<close>.
\<close>

definition job_kind_alert_evaluate :: string where "job_kind_alert_evaluate = ''alert_evaluate''"

record evaluate_payload =
  ep_project :: string
  ep_issue :: string
  ep_event :: string
  ep_new :: bool
  ep_regression :: bool
  ep_environment :: string
  ep_release :: string
  ep_level :: string

definition evaluate_payload0 :: evaluate_payload where
  "evaluate_payload0 = \<lparr>ep_project = [], ep_issue = [], ep_event = [], ep_new = False,
     ep_regression = False, ep_environment = [], ep_release = [], ep_level = []\<rparr>"

definition dec_evaluate_payload :: "evaluate_payload dec" where
  "dec_evaluate_payload = dec_struct
     [(''project_id'', on ep_project ep_project_update dec_string),
      (''issue_id'', on ep_issue ep_issue_update dec_string),
      (''event_id'', on ep_event ep_event_update dec_string),
      (''is_new'', on ep_new ep_new_update dec_bool),
      (''is_regression'', on ep_regression ep_regression_update dec_bool),
      (''environment'', on ep_environment ep_environment_update dec_string),
      (''release'', on ep_release ep_release_update dec_string),
      (''level'', on ep_level ep_level_update dec_string)]"

subsection \<open>Loading\<close>

definition q_enabled_rules :: "uuid \<Rightarrow> site \<Rightarrow> alert_rule list" where
  "q_enabled_rules pid d =
     sort_key al_created (filter (\<lambda>r. al_project r = pid \<and> al_enabled r) (alert_rules d))"

definition load_enabled_rules :: "world \<Rightarrow> net \<Rightarrow> string \<Rightarrow> alert_rule list iom" where
  "load_enabled_rules w n pid = query w n (with_uuid w pid (\<lambda>p. select (q_enabled_rules p)))"

record issue_brief =
  ib_id :: string
  ib_title :: string
  ib_culprit :: string
  ib_level :: string
  ib_status :: string
  ib_substatus :: string
  ib_count :: int

record project_brief =
  pb_id :: string
  pb_name :: string
  pb_slug :: string
  pb_org_slug :: string
  pb_org_name :: string

definition status_text :: "issue_status \<Rightarrow> string" where
  "status_text s = (case s of Unresolved \<Rightarrow> ''unresolved'' | Resolved \<Rightarrow> ''resolved'' | Ignored \<Rightarrow> ''ignored'')"

definition brief_of :: "issue_row \<Rightarrow> issue_brief" where
  "brief_of i = \<lparr>ib_id = i_id i, ib_title = i_title i, ib_culprit = i_culprit i, ib_level = i_level i,
     ib_status = status_text (i_status i), ib_substatus = i_substatus i, ib_count = i_count i\<rparr>"

definition load_issue_brief :: "world \<Rightarrow> net \<Rightarrow> string \<Rightarrow> issue_brief iom" where
  "load_issue_brief w n iid =
     query_row w n (with_uuid w iid (\<lambda>u. select (\<lambda>d. map_option brief_of (get_key i_id u (issues (store d))))))"

definition q_project_brief :: "uuid \<Rightarrow> site \<Rightarrow> project_brief option" where
  "q_project_brief pid d =
     (case get_key p_id pid (projects (store d)) of
        None \<Rightarrow> None
      | Some p \<Rightarrow>
          map_option (\<lambda>og. \<lparr>pb_id = p_id p, pb_name = p_name p, pb_slug = p_slug p,
             pb_org_slug = o_slug og, pb_org_name = o_name og\<rparr>) (get_key o_id (p_org p) (orgs d)))"

definition load_project_brief :: "world \<Rightarrow> net \<Rightarrow> string \<Rightarrow> project_brief iom" where
  "load_project_brief w n pid = query_row w n (with_uuid w pid (\<lambda>p. select (q_project_brief p)))"

definition q_window_count :: "world \<Rightarrow> uuid \<Rightarrow> int \<Rightarrow> site \<Rightarrow> int" where
  "q_window_count w iid mins d = int (length (filter
     (\<lambda>e. ev_issue e = Some iid \<and> w_now w - mins * minute < ev_timestamp e) (events (store d))))"

definition window_count :: "world \<Rightarrow> net \<Rightarrow> alert_rule \<Rightarrow> string \<Rightarrow> int iom" where
  "window_count w n r iid =
     (if al_trigger r = ''event_count'' then
        let mins = al_minutes r; mins = (if mins \<le> 0 then 60 else mins) in
        query w n (with_uuid w iid (\<lambda>u. select (q_window_count w u mins)))
      else ret 0)"

subsection \<open>The quiet period\<close>

definition dedupe_key :: "dedupe_row \<Rightarrow> uuid \<times> uuid" where "dedupe_key r = (dd_rule r, dd_issue r)"

definition q_last_sent :: "uuid \<Rightarrow> uuid \<Rightarrow> site \<Rightarrow> time option" where
  "q_last_sent rid iid d = map_option dd_last (get_key dedupe_key (rid, iid) (dedupes d))"

text \<open>
  Both statements' errors count as "never sent".  The elapsed minutes are compared as a
  \<open>float64\<close> in Go; at microsecond precision this is the comparison of the instants.
\<close>

definition check_dedupe :: "world \<Rightarrow> net \<Rightarrow> string \<Rightarrow> string \<Rightarrow> int \<Rightarrow> bool iom" where
  "check_dedupe w n rid iid quiet =
     (if quiet \<le> 0 then ret False
      else bind (attempt (query_row w n (with_uuid w rid (\<lambda>r. with_uuid w iid (\<lambda>i. select (q_last_sent r i))))))
        (\<lambda>last. case last of
           None \<Rightarrow> ret False
         | Some t \<Rightarrow>
             bind (attempt (query w n (select (\<lambda>_. w_now w - t)))) (\<lambda>ago. case ago of
                None \<Rightarrow> ret False
              | Some a \<Rightarrow> ret (a < quiet * minute))))"

definition dedupe_new :: "world \<Rightarrow> uuid \<Rightarrow> uuid \<Rightarrow> dedupe_row" where
  "dedupe_new w rid iid = \<lparr>dd_rule = rid, dd_issue = iid, dd_last = w_now w\<rparr>"

definition dedupe_upd :: "world \<Rightarrow> dedupe_row \<Rightarrow> dedupe_row" where
  "dedupe_upd w r = r\<lparr>dd_last := w_now w\<rparr>"

definition q_touch_dedupe :: "world \<Rightarrow> uuid \<Rightarrow> uuid \<Rightarrow> unit query" where
  "q_touch_dedupe w rid iid d =
     (if get_key al_id rid (alert_rules d) = None \<or> get_key i_id iid (issues (store d)) = None then None
      else Some ((), d\<lparr>dedupes := upsert (\<lambda>r. dedupe_key r = (rid, iid)) (dedupe_upd w)
                                     (dedupe_new w rid iid) (dedupes d)\<rparr>))"

definition touch_dedupe :: "world \<Rightarrow> net \<Rightarrow> string \<Rightarrow> string \<Rightarrow> unit iom" where
  "touch_dedupe w n rid iid = query w n (with_uuid w rid (\<lambda>r. with_uuid w iid (q_touch_dedupe w r)))"

subsection \<open>Texts\<close>

definition payload_maps ::
    "string \<Rightarrow> alert_rule \<Rightarrow> project_brief \<Rightarrow> issue_brief \<Rightarrow> evaluate_payload \<Rightarrow>
     (string \<times> json) list \<times> (string \<times> json) list \<times> (string \<times> json) list \<times> (string \<times> json) list" where
  "payload_maps public_url r proj issue p =
     (let rule = [(''id'', JStr (al_id r)), (''name'', JStr (al_name r)), (''trigger'', JStr (al_trigger r))];
          project = [(''id'', JStr (pb_id proj)), (''name'', JStr (pb_name proj)),
            (''organization'', JStr (pb_org_slug proj)), (''slug'', JStr (pb_slug proj))];
          iss = [(''count'', JNum (show_int (ib_count issue))), (''culprit'', JStr (ib_culprit issue)),
            (''environment'', JStr (ep_environment p)), (''event_id'', JStr (ep_event p)),
            (''id'', JStr (ib_id issue)), (''level'', JStr (ib_level issue)),
            (''release'', JStr (ep_release p)), (''status'', JStr (ib_status issue)),
            (''substatus'', JStr (ib_substatus issue)), (''title'', JStr (ib_title issue))];
          base = public_url @ ''/'' @ pb_org_slug proj @ ''/'' @ pb_slug proj;
          urls = [(''event'', JStr (base @ ''/issues/'' @ ib_id issue @ ''/?event='' @ ep_event p)),
            (''issue'', JStr (base @ ''/issues/'' @ ib_id issue @ ''/''))]
      in (rule, project, iss, urls))"

definition public_base :: "config option \<Rightarrow> string" where
  "public_base cfg =
     (case cfg of
        Some c \<Rightarrow> if cf_public_url c \<noteq> [] then cf_public_url c else ''http://localhost:8000''
      | None \<Rightarrow> ''http://localhost:8000'')"

definition any_text :: "json \<Rightarrow> string" where
  "any_text v = (case v of JStr s \<Rightarrow> s | _ \<Rightarrow> ''<nil>'')"

definition email_text ::
    "string \<Rightarrow> alert_rule \<Rightarrow> project_brief \<Rightarrow> issue_brief \<Rightarrow> evaluate_payload \<Rightarrow> (string \<times> json) list \<Rightarrow> bool \<Rightarrow> string" where
  "email_text base r proj issue p urls is_test =
     (let prefix = (if is_test then ''This is a TEST alert (no event fired it).'' @ [nl, nl] else [])
      in prefix @ ''Rule: '' @ al_name r @ '' ('' @ al_trigger r @ '')'' @ [nl] @
         ''Project: '' @ pb_org_slug proj @ '' / '' @ pb_slug proj @ [nl] @
         ''Issue: '' @ ib_title issue @ [nl] @
         '' culprit: '' @ ib_culprit issue @ [nl] @
         '' level: '' @ ep_level p @ ''  env: '' @ ep_environment p @ ''  release: '' @ ep_release p @ [nl] @
         '' count: '' @ show_int (ib_count issue) @ [nl] @
         ''Issue: '' @ any_text (case map_of urls ''issue'' of Some v \<Rightarrow> v | None \<Rightarrow> JNull) @ [nl] @
         ''Payload version: '' @ show_int payload_version @ [nl] @
         ''Base URL: '' @ base @ [nl])"

definition em_dash :: string where "em_dash = [CHR '' '', CHR 0xE2, CHR 0x80, CHR 0x94, CHR '' '']"

definition alert_subject :: "alert_rule \<Rightarrow> issue_brief \<Rightarrow> string" where
  "alert_subject r issue =
     (let subject = ''[BugHan] '' @ al_name r @ em_dash @ ib_title issue
      in if subject = ''[BugHan] '' @ em_dash then ''[BugHan] alert'' @ em_dash @ ib_title issue else subject)"

subsection \<open>Delivery\<close>

definition nullable_uuid :: "string \<Rightarrow> string option" where
  "nullable_uuid s = (if s = [] then None else Some s)"

definition with_uuid_opt :: "world \<Rightarrow> string option \<Rightarrow> (uuid option \<Rightarrow> 'a query) \<Rightarrow> 'a query" where
  "with_uuid_opt w u q = (case u of None \<Rightarrow> q None | Some s \<Rightarrow> with_uuid w s (\<lambda>v. q (Some v)))"

text \<open>The references of a delivery to its rule, project and issue are foreign keys.\<close>

definition q_delivery :: "delivery_row \<Rightarrow> unit query" where
  "q_delivery row d =
     (if get_key p_id (dv_project row) (projects (store d)) = None
         \<or> (\<exists>r\<in>set_option (dv_rule row). get_key al_id r (alert_rules d) = None)
         \<or> (\<exists>i\<in>set_option (dv_issue row). get_key i_id i (issues (store d)) = None)
         \<or> dv_action row \<notin> set [''email'', ''webhook'', ''test'']
      then None
      else Some ((), d\<lparr>deliveries := deliveries d @ [row]\<rparr>))"

definition record_delivery ::
    "world \<Rightarrow> net \<Rightarrow> alert_rule \<Rightarrow> evaluate_payload \<Rightarrow> string \<Rightarrow> string \<Rightarrow> string option \<Rightarrow> unit iom" where
  "record_delivery w n r p action target send_err =
     (let (status, err_msg) = (case send_err of None \<Rightarrow> (''sent'', []) | Some e \<Rightarrow> (''failed'', e));
          issue_arg = (if ep_issue p = [] then None else Some (ep_issue p));
          event_arg = (if ep_event p = [] then None else Some (ep_event p))
      in bind (attempt (query w n
           (with_uuid_opt w (nullable_uuid (al_id r)) (\<lambda>rule. with_uuid w (ep_project p) (\<lambda>project.
            with_uuid_opt w issue_arg (\<lambda>issue. with_uuid_opt w event_arg (\<lambda>event.
              q_delivery \<lparr>dv_rule = rule, dv_project = project, dv_issue = issue, dv_event = event,
                dv_trigger = al_trigger r, dv_action = action, dv_target = target, dv_status = status,
                dv_error = err_msg, dv_created = w_now w\<rparr>)))))))
         (\<lambda>_. ret ()))"

definition webhook_headers :: "string \<Rightarrow> string \<Rightarrow> string \<Rightarrow> (string \<times> string) list" where
  "webhook_headers event secret body =
     [(''Content-Type'', ''application/json''), (header_event, event)] @
     (if secret \<noteq> [] then [(header_signature, sign secret body)] else [])"

definition send_webhook :: "net \<Rightarrow> string \<Rightarrow> string \<Rightarrow> string \<Rightarrow> string \<Rightarrow> unit iom" where
  "send_webhook n url secret event body s =
     (let event = (if event = [] then event_alert else event) in
      case n_url n url of
        Some e \<Rightarrow> (Inl e, s)
      | None \<Rightarrow>
          let s' = sends (Post url (webhook_headers event secret body) body) s in
          (case n_http n (io_calls s) of
             Inl e \<Rightarrow> (Inl e, s')
           | Inr code \<Rightarrow>
               if code < 200 \<or> 300 \<le> code
               then (Inl (''webhook '' @ url @ '': status '' @ show_int code), s')
               else (Inr (), s')))"

text \<open>The error of a computation as a value, and the counts of sent and failed actions.\<close>

definition outcome :: "unit iom \<Rightarrow> string option iom" where
  "outcome m s = (case m s of (Inl e, s') \<Rightarrow> (Inr (Some e), s') | (Inr _, s') \<Rightarrow> (Inr None, s'))"

definition count_outcome :: "string option \<Rightarrow> nat \<times> nat \<Rightarrow> nat \<times> nat" where
  "count_outcome e c = (if e = None then (Suc (fst c), snd c) else (fst c, Suc (snd c)))"

fun deliver_mails ::
    "world \<Rightarrow> net \<Rightarrow> config \<Rightarrow> alert_rule \<Rightarrow> evaluate_payload \<Rightarrow> string \<Rightarrow> string \<Rightarrow> string \<Rightarrow>
     string list \<Rightarrow> nat \<times> nat \<Rightarrow> (nat \<times> nat) iom" where
  "deliver_mails w n cfg r p action subject text [] c = ret c"
| "deliver_mails w n cfg r p action subject text (rcpt # rest) c =
     bind (outcome (send_mail n cfg rcpt subject text)) (\<lambda>err.
     bind (record_delivery w n r p action rcpt err) (\<lambda>_.
     deliver_mails w n cfg r p action subject text rest (count_outcome err c)))"

definition alert_body ::
    "string \<Rightarrow> string \<Rightarrow> alert_rule \<Rightarrow> project_brief \<Rightarrow> issue_brief \<Rightarrow> evaluate_payload \<Rightarrow> string" where
  "alert_body base event r proj issue p =
     (let (rule_map, proj_map, iss_map, urls) = payload_maps base r proj issue p
      in json_print (payload_value (build_payload event rule_map proj_map iss_map (al_trigger r) (Some urls))))"

definition deliver_rule ::
    "world \<Rightarrow> net \<Rightarrow> config \<Rightarrow> alert_rule \<Rightarrow> project_brief \<Rightarrow> issue_brief \<Rightarrow> evaluate_payload \<Rightarrow> bool \<Rightarrow> (nat \<times> nat) iom" where
  "deliver_rule w n cfg r proj issue p is_test =
     (let event = (if is_test then event_test else event_alert);
          (email_action, webhook_action) = (if is_test then (''test'', ''test'') else (''email'', ''webhook''));
          base = public_base (Some cfg);
          (_, _, _, urls) = payload_maps base r proj issue p;
          body = alert_body base event r proj issue p;
          text = email_text base r proj issue p urls is_test
      in bind (deliver_mails w n cfg r p email_action (alert_subject r issue) text (al_email r) (0, 0)) (\<lambda>c.
         if al_url r \<noteq> [] then
           bind (outcome (send_webhook n (al_url r) (al_secret r) event body)) (\<lambda>err.
           bind (record_delivery w n r p webhook_action (al_url r) err) (\<lambda>_. ret (count_outcome err c)))
         else ret c))"

subsection \<open>Evaluation\<close>

definition signal_of :: "evaluate_payload \<Rightarrow> signal" where
  "signal_of p = \<lparr>s_project_id = ep_project p, s_issue_id = ep_issue p, s_event_id = ep_event p,
     s_is_new = ep_new p, s_is_regression = ep_regression p, s_environment_of = ep_environment p,
     s_release_of = ep_release p, s_level_of = ep_level p\<rparr>"

definition evaluate_rule ::
    "world \<Rightarrow> net \<Rightarrow> config \<Rightarrow> project_brief \<Rightarrow> issue_brief \<Rightarrow> evaluate_payload \<Rightarrow> alert_rule \<Rightarrow> unit iom" where
  "evaluate_rule w n cfg proj issue p r =
     bind (window_count w n r (ep_issue p)) (\<lambda>count.
     if \<not> should_send r (signal_of p) count then ret ()
     else bind (check_dedupe w n (al_id r) (ep_issue p) (al_quiet r)) (\<lambda>deduped.
       if deduped then ret ()
       else bind (deliver_rule w n cfg r proj issue p False) (\<lambda>_.
         touch_dedupe w n (al_id r) (ep_issue p))))"

definition evaluate_and_deliver :: "world \<Rightarrow> net \<Rightarrow> config \<Rightarrow> evaluate_payload \<Rightarrow> unit iom" where
  "evaluate_and_deliver w n cfg p =
     bind (load_enabled_rules w n (ep_project p)) (\<lambda>rules.
     if rules = [] then ret ()
     else bind (load_issue_brief w n (ep_issue p)) (\<lambda>issue.
       bind (load_project_brief w n (ep_project p)) (\<lambda>proj.
       for_each (evaluate_rule w n cfg proj issue p) rules)))"

text \<open>The job handler: a payload that does not decode is an error with the text of \<open>encoding/json\<close>.\<close>

definition handle_alert_evaluate :: "config \<Rightarrow> (json \<Rightarrow> string) \<Rightarrow> world \<Rightarrow> net \<Rightarrow> json \<Rightarrow> unit iom" where
  "handle_alert_evaluate cfg json_err w n raw =
     (case dec_evaluate_payload raw evaluate_payload0 of
        None \<Rightarrow> fail (''alert payload: '' @ json_err raw)
      | Some p \<Rightarrow> evaluate_and_deliver w n cfg p)"

subsection \<open>Test sends\<close>

text \<open>\<open>ORDER BY key DESC LIMIT 1\<close>; the first row of the table wins a tie.\<close>

fun latest_by :: "('r \<Rightarrow> int) \<Rightarrow> 'r list \<Rightarrow> 'r option" where
  "latest_by key [] = None"
| "latest_by key (r # rs) =
     (case latest_by key rs of None \<Rightarrow> Some r | Some q \<Rightarrow> if key r < key q then Some q else Some r)"

definition q_rule :: "uuid \<Rightarrow> uuid \<Rightarrow> site \<Rightarrow> alert_rule option" where
  "q_rule rid pid d = find (\<lambda>r. al_id r = rid \<and> al_project r = pid) (alert_rules d)"

definition q_latest_issue :: "uuid \<Rightarrow> site \<Rightarrow> issue_row option" where
  "q_latest_issue pid d = latest_by i_last_seen (filter (\<lambda>i. i_project i = pid) (issues (store d)))"

definition q_latest_event :: "uuid \<Rightarrow> site \<Rightarrow> event_row option" where
  "q_latest_event iid d = latest_by ev_timestamp (filter (\<lambda>e. ev_issue e = Some iid) (events (store d)))"

definition rule_not_found :: string where "rule_not_found = ''rule not found''"

text \<open>The issue and payload of a test: placeholders, or the latest issue with its latest event.\<close>

definition test_issue :: "world \<Rightarrow> net \<Rightarrow> string \<Rightarrow> (issue_brief \<times> evaluate_payload) iom" where
  "test_issue w n pid =
     (let issue = \<lparr>ib_id = ''test'', ib_title = ''Test alert'', ib_culprit = ''test'', ib_level = ''error'',
            ib_status = [], ib_substatus = [], ib_count = 0\<rparr>;
          p = evaluate_payload0\<lparr>ep_project := pid, ep_environment := ''production'', ep_level := ''error''\<rparr>
      in bind (attempt (query_row w n (with_uuid w pid (\<lambda>u. select (q_latest_issue u))))) (\<lambda>row. case row of
           None \<Rightarrow> ret (issue, p)
         | Some i \<Rightarrow>
             bind (attempt (query_row w n (with_uuid w (i_id i) (\<lambda>u. select (q_latest_event u))))) (\<lambda>ev.
             let p = p\<lparr>ep_issue := i_id i\<rparr>;
                 p = (case ev of None \<Rightarrow> p
                      | Some e \<Rightarrow> p\<lparr>ep_event := ev_id e, ep_environment := ev_environment e,
                                    ep_release := ev_release e, ep_level := ev_level e\<rparr>)
             in bind (attempt (query_row w n (with_uuid w (i_id i)
                    (\<lambda>u. select (\<lambda>d. map_option i_count (get_key i_id u (issues (store d)))))))) (\<lambda>count.
                ret (issue\<lparr>ib_id := i_id i, ib_title := i_title i, ib_culprit := i_culprit i,
                       ib_level := i_level i, ib_count := (case count of None \<Rightarrow> 0 | Some c \<Rightarrow> c)\<rparr>, p)))))"

definition send_test :: "world \<Rightarrow> net \<Rightarrow> config \<Rightarrow> string \<Rightarrow> string \<Rightarrow> (nat \<times> nat) iom" where
  "send_test w n cfg rid pid =
     bind (attempt (query_row w n (with_uuid w rid (\<lambda>ru. with_uuid w pid (\<lambda>pu. select (q_rule ru pu)))))) (\<lambda>rule.
     case rule of
       None \<Rightarrow> fail rule_not_found
     | Some r \<Rightarrow>
         bind (load_project_brief w n pid) (\<lambda>proj.
         bind (test_issue w n pid) (\<lambda>(issue, p). deliver_rule w n cfg r proj issue p True)))"

end
