(* ===== verification/SiteSamples.thy ===== *)
theory SiteSamples
  imports Site
begin

section \<open>A world at a given time without faults\<close>

text \<open>
  The world and network the witnesses of the worker and the handlers run in.
\<close>

definition witness_world :: "time \<Rightarrow> world" where
  "witness_world t = \<lparr>w_now = t, w_uuid = Some, w_pg_uuid = Some, w_fresh = (\<lambda>n. replicate (Suc n) CHR ''u''),
     w_numeric = (\<lambda>s. s), w_timestamptz = (\<lambda>_. None), w_fault = (\<lambda>_. False)\<rparr>"

definition witness_net :: net where
  "witness_net = \<lparr>n_text = (\<lambda>_. ''error''), n_smtp = (\<lambda>_. None), n_http = (\<lambda>_. Inr 200), n_url = (\<lambda>_. None),
     n_bound = (\<lambda>_. [])\<rparr>"

lemma witness_calm: "calm (witness_world t)"
  by (simp add: calm_def witness_world_def)

end
