(* ===== verification/AlertProps.thy ===== *)
theory AlertProps
  imports AlertWorker SiteSamples
begin

section \<open>What alert evaluation sends, and how often\<close>

text \<open>
  First what one rule's delivery does to the messages and the tables, then the quiet period over
  any sequence of evaluations, and the messages of one evaluation.
\<close>

subsection \<open>Messages\<close>

definition mail_message :: "config \<Rightarrow> string \<Rightarrow> string \<Rightarrow> string \<Rightarrow> message" where
  "mail_message cfg subject body rcpt =
     (if \<not> smtp_enabled cfg then Log_mail rcpt subject body
      else Mail (cf_smtp_host cfg @ '':'' @ show_int (cf_smtp_port cfg)) (cf_smtp_from cfg) rcpt
        (join crlf [''From: '' @ cf_smtp_from cfg, ''To: '' @ rcpt, ''Subject: '' @ subject,
           ''MIME-Version: 1.0'', ''Content-Type: text/plain; charset=utf-8'', [], body]))"

lemma send_mail_out: "io_out (snd (send_mail n cfg rcpt subject body s)) = io_out s @ [mail_message cfg subject body rcpt]"
  by (auto simp: send_mail_def mail_message_def Let_def split: option.splits)

lemma outcome_snd [simp]: "snd (outcome m s) = snd (m s)"
  by (auto simp: outcome_def split: prod.splits sum.splits)

lemma outcome_Inr: "\<exists>e. outcome m s = (Inr e, snd (m s))"
  by (auto simp: outcome_def split: prod.splits sum.splits)

lemma steady_outcome [steady_intros]: "steady I m \<Longrightarrow> steady I (outcome m)"
  by (simp add: steady_def)

lemma query_out [simp]: "io_out (snd (query w n q s)) = io_out s"
  by (auto simp: query_def split: option.splits)

lemma attempt_snd [simp]: "snd (attempt m s) = snd (m s)"
  by (auto simp: attempt_def split: prod.splits sum.splits)

lemma attempt_Inr: "\<exists>x. attempt m s = (Inr x, snd (m s))"
  by (auto simp: attempt_def split: prod.splits sum.splits)

lemma discard_run: "bind (attempt m) (\<lambda>_. ret ()) s = (Inr (), snd (m s))"
  by (auto simp: bind_def ret_def attempt_def split: prod.splits sum.splits)

lemma record_delivery_run: "\<exists>s'. record_delivery w n r p action target err s = (Inr (), s') \<and> io_out s' = io_out s"
  by (simp add: record_delivery_def Let_def discard_run split: prod.splits)

lemma send_webhook_out: "io_out (snd (send_webhook n url secret event body s)) = io_out s @
    (if n_url n url = None then [Post url (webhook_headers (if event = [] then event_alert else event) secret body) body] else [])"
  by (auto simp: send_webhook_def Let_def split: option.splits sum.splits)

lemma send_webhook_site [simp]: "io_site (snd (send_webhook n url secret event body s)) = io_site s"
  by (auto simp: send_webhook_def Let_def split: option.splits sum.splits)

lemma deliver_mails_run: "\<exists>c' s'. deliver_mails w n cfg r p action subject text rs c s = (Inr c', s') \<and>
    io_out s' = io_out s @ map (mail_message cfg subject text) rs"
proof (induction rs arbitrary: c s)
  case (Cons x xs)
  let ?s1 = "snd (send_mail n cfg x subject text s)"
  obtain e where e: "outcome (send_mail n cfg x subject text) s = (Inr e, ?s1)" using outcome_Inr by metis
  obtain s2 where s2: "record_delivery w n r p action x e ?s1 = (Inr (), s2)" "io_out s2 = io_out ?s1"
    using record_delivery_run by metis
  have "deliver_mails w n cfg r p action subject text (x # xs) c s =
      deliver_mails w n cfg r p action subject text xs (count_outcome e c) s2"
    by (simp add: bind_total e s2(1))
  then show ?case using Cons.IH[of "count_outcome e c" s2] by (simp add: s2(2) send_mail_out)
qed (simp add: ret_def)

definition rule_messages ::
    "net \<Rightarrow> config \<Rightarrow> project_brief \<Rightarrow> issue_brief \<Rightarrow> evaluate_payload \<Rightarrow> alert_rule \<Rightarrow> message list" where
  "rule_messages n cfg proj issue p r =
     (let base = public_base (Some cfg); (_, _, _, urls) = payload_maps base r proj issue p;
          body = alert_body base event_alert r proj issue p
      in map (mail_message cfg (alert_subject r issue) (email_text base r proj issue p urls False)) (al_email r) @
         (if al_url r \<noteq> [] \<and> n_url n (al_url r) = None
          then [Post (al_url r) (webhook_headers event_alert (al_secret r) body) body] else []))"

lemma event_alert_ne [simp]: "event_alert \<noteq> []" "event_test \<noteq> []"
  by (simp_all add: event_alert_def event_test_def)

lemma deliver_rule_run: "\<exists>c s'. deliver_rule w n cfg r proj issue p False s = (Inr c, s') \<and>
    io_out s' = io_out s @ rule_messages n cfg proj issue p r"
proof -
  let ?base = "public_base (Some cfg)"
  obtain rm pm im urls where m: "payload_maps ?base r proj issue p = (rm, pm, im, urls)"
    by (cases "payload_maps ?base r proj issue p") auto
  let ?text = "email_text ?base r proj issue p urls False"
  let ?body = "alert_body ?base event_alert r proj issue p"
  obtain c' s1 where d: "deliver_mails w n cfg r p ''email'' (alert_subject r issue) ?text (al_email r) (0, 0) s = (Inr c', s1)"
    and o1: "io_out s1 = io_out s @ map (mail_message cfg (alert_subject r issue) ?text) (al_email r)"
    using deliver_mails_run by metis
  let ?s2 = "snd (send_webhook n (al_url r) (al_secret r) event_alert ?body s1)"
  obtain e where e: "outcome (send_webhook n (al_url r) (al_secret r) event_alert ?body) s1 = (Inr e, ?s2)"
    using outcome_Inr by metis
  obtain s3 where s3: "record_delivery w n r p ''webhook'' (al_url r) e ?s2 = (Inr (), s3)" "io_out s3 = io_out ?s2"
    using record_delivery_run by metis
  show ?thesis
  proof (cases "al_url r = []")
    case True
    then have "deliver_rule w n cfg r proj issue p False s = (Inr c', s1)"
      by (simp add: deliver_rule_def m bind_total d ret_def)
    then show ?thesis using True by (simp add: rule_messages_def m o1)
  next
    case False
    then have "deliver_rule w n cfg r proj issue p False s = (Inr (count_outcome e c'), s3)"
      by (simp add: deliver_rule_def m Let_def bind_total d e s3(1) ret_def)
    then show ?thesis using False by (simp add: rule_messages_def m Let_def o1 s3(2) send_webhook_out)
  qed
qed

subsection \<open>The quiet period\<close>

definition quiet_now :: "time \<Rightarrow> uuid \<Rightarrow> uuid \<Rightarrow> int \<Rightarrow> site \<Rightarrow> bool" where
  "quiet_now now rid iid q d \<longleftrightarrow>
     0 < q \<and> (case q_last_sent rid iid d of None \<Rightarrow> False | Some t \<Rightarrow> now - t < q * minute)"

lemma query_row_select_calm: "calm w \<Longrightarrow> query_row w n (select f) s =
    ((case f (io_site s) of None \<Rightarrow> Inl no_rows | Some a \<Rightarrow> Inr a), called s)"
  by (simp add: query_row_def bind_def query_select_calm ret_def fail_def split: option.split)

lemma check_dedupe_calm:
  assumes "calm w" "w_pg_uuid w rid = Some ru" "w_pg_uuid w iid = Some iu"
  shows "\<exists>s'. check_dedupe w n rid iid q s = (Inr (quiet_now (w_now w) ru iu q (io_site s)), s') \<and>
    io_site s' = io_site s \<and> io_out s' = io_out s"
  using assms
  by (auto simp: check_dedupe_def quiet_now_def with_uuid_Some bind_def attempt_def ret_def
      query_row_select_calm query_select_calm split: option.split)

lemma window_count_calm:
  assumes "calm w" "w_pg_uuid w iid = Some iu"
  shows "\<exists>s'. window_count w n r iid s = (Inr (if al_trigger r = ''event_count''
      then q_window_count w iu (if al_minutes r \<le> 0 then 60 else al_minutes r) (io_site s) else 0), s') \<and>
    io_site s' = io_site s \<and> io_out s' = io_out s"
  using assms by (auto simp: window_count_def Let_def with_uuid_Some query_select_calm ret_def)

text \<open>Whether one rule fires for a signal, read off the database.\<close>

definition fires :: "world \<Rightarrow> evaluate_payload \<Rightarrow> uuid \<Rightarrow> alert_rule \<Rightarrow> site \<Rightarrow> bool" where
  "fires w p iu r d \<longleftrightarrow>
     should_send r (signal_of p) (if al_trigger r = ''event_count''
       then q_window_count w iu (if al_minutes r \<le> 0 then 60 else al_minutes r) d else 0)
     \<and> \<not> quiet_now (w_now w) (al_id r) iu (al_quiet r) d"

lemma evaluate_rule_calm:
  assumes "calm w" "w_pg_uuid w (al_id r) = Some (al_id r)" "w_pg_uuid w (ep_issue p) = Some iu"
  shows "\<exists>s1. io_site s1 = io_site s \<and> io_out s1 = io_out s \<and>
    evaluate_rule w n cfg proj issue p r s =
      (if fires w p iu r (io_site s)
       then bind (deliver_rule w n cfg r proj issue p False) (\<lambda>_. touch_dedupe w n (al_id r) (ep_issue p)) s1
       else (Inr (), s1))"
proof -
  let ?c = "if al_trigger r = ''event_count''
    then q_window_count w iu (if al_minutes r \<le> 0 then 60 else al_minutes r) (io_site s) else 0"
  obtain s1 where 1: "window_count w n r (ep_issue p) s = (Inr ?c, s1)" "io_site s1 = io_site s" "io_out s1 = io_out s"
    using window_count_calm[OF assms(1,3), of n r s] by auto
  show ?thesis
  proof (cases "should_send r (signal_of p) ?c")
    case False
    then show ?thesis using 1 by (auto simp: evaluate_rule_def bind_total 1(1) ret_def fires_def)
  next
    case True
    obtain s2 where 2: "check_dedupe w n (al_id r) (ep_issue p) (al_quiet r) s1 =
        (Inr (quiet_now (w_now w) (al_id r) iu (al_quiet r) (io_site s)), s2)"
      "io_site s2 = io_site s" "io_out s2 = io_out s"
      using check_dedupe_calm[OF assms, of n "al_quiet r" s1] 1(2,3) by auto
    show ?thesis
    proof (cases "quiet_now (w_now w) (al_id r) iu (al_quiet r) (io_site s)")
      case q: True
      have "evaluate_rule w n cfg proj issue p r s = (Inr (), s2)"
        using True q by (simp add: evaluate_rule_def bind_total 1(1) 2(1) ret_def)
      then show ?thesis using q 2 by (auto simp: fires_def)
    next
      case q: False
      have "evaluate_rule w n cfg proj issue p r s =
          bind (deliver_rule w n cfg r proj issue p False) (\<lambda>_. touch_dedupe w n (al_id r) (ep_issue p)) s2"
        using True q by (simp add: evaluate_rule_def bind_total 1(1) 2(1))
      then show ?thesis using True q 2 by (auto simp: fires_def)
    qed
  qed
qed

definition logs :: "world \<Rightarrow> alert_rule \<Rightarrow> evaluate_payload \<Rightarrow> delivery_row \<Rightarrow> bool" where
  "logs w r p row \<longleftrightarrow> dv_created row = w_now w \<and>
     dv_rule row = (if al_id r = [] then None else w_pg_uuid w (al_id r)) \<and>
     dv_issue row = (if ep_issue p = [] then None else w_pg_uuid w (ep_issue p))"

lemma steady_record_delivery:
  assumes "\<And>d row. J d \<Longrightarrow> logs w r p row \<Longrightarrow> J (d\<lparr>deliveries := deliveries d @ [row]\<rparr>)"
  shows "steady (on_site J) (record_delivery w n r p action target err)"
  unfolding record_delivery_def Let_def
  by (auto simp: with_uuid_opt_def with_uuid_def q_delivery_def nullable_uuid_def logs_def
      intro!: steady_intros steady_query assms split: prod.splits option.splits if_splits)

lemma steady_deliver_mails:
  assumes "\<And>d row. J d \<Longrightarrow> logs w r p row \<Longrightarrow> J (d\<lparr>deliveries := deliveries d @ [row]\<rparr>)"
  shows "steady (on_site J) (deliver_mails w n cfg r p action subject text rs c)"
proof (induction rs arbitrary: c)
  case (Cons x xs)
  show ?case unfolding deliver_mails.simps by (intro steady_intros steady_record_delivery assms Cons.IH)
qed (simp add: steady_intros)

lemma steady_deliver_rule:
  assumes "\<And>d row. J d \<Longrightarrow> logs w r p row \<Longrightarrow> J (d\<lparr>deliveries := deliveries d @ [row]\<rparr>)"
  shows "steady (on_site J) (deliver_rule w n cfg r proj issue p is_test)"
proof -
  have "steady (on_site J) (send_webhook n (al_url r) (al_secret r) event body)" for event body
    by (simp add: steady_def)
  then show ?thesis
    unfolding deliver_rule_def Let_def
    by (auto intro!: steady_intros steady_record_delivery steady_deliver_mails assms split: prod.splits)
qed

interpretation dedupe: upsert_stmt dedupe_key "(rid, iid)" "dedupe_upd w" "dedupe_new w rid iid" for w rid iid
  by unfold_locales (auto simp: dedupe_key_def dedupe_upd_def dedupe_new_def)

lemma last_sent_touched:
  assumes "q_touch_dedupe w rid iid d = Some (u, d')"
  shows "q_last_sent rid iid d' = Some (w_now w)"
    "(rid', iid') \<noteq> (rid, iid) \<Longrightarrow> q_last_sent rid' iid' d' = q_last_sent rid' iid' d"
    "deliveries d' = deliveries d" "alert_rules d' = alert_rules d" "store d' = store d"
proof -
  have d': "dedupes d' = dedupe.stmt rid iid w (dedupes d)"
    using assms by (auto simp: q_touch_dedupe_def dedupe.stmt_def split: if_splits)
  show "q_last_sent rid iid d' = Some (w_now w)"
    unfolding q_last_sent_def d' dedupe.get_stmt
    by (simp add: dedupe_upd_def dedupe_new_def split: option.split)
  show "(rid', iid') \<noteq> (rid, iid) \<Longrightarrow> q_last_sent rid' iid' d' = q_last_sent rid' iid' d"
    unfolding q_last_sent_def d' by (simp add: dedupe.get_stmt_other)
qed (use assms in \<open>auto simp: q_touch_dedupe_def split: if_splits\<close>)

definition sent_rows :: "uuid \<Rightarrow> uuid \<Rightarrow> site \<Rightarrow> delivery_row list" where
  "sent_rows rid iid d = filter (\<lambda>v. dv_rule v = Some rid \<and> dv_issue v = Some iid \<and> dv_action v \<noteq> ''test'') (deliveries d)"

definition apart :: "int \<Rightarrow> time \<Rightarrow> time \<Rightarrow> bool" where
  "apart q t t' \<longleftrightarrow> t = t' \<or> q * minute \<le> \<bar>t - t'\<bar>"

definition spaced :: "int \<Rightarrow> delivery_row list \<Rightarrow> bool" where
  "spaced q vs \<longleftrightarrow> list_all (\<lambda>v. list_all (\<lambda>v'. apart q (dv_created v) (dv_created v')) vs) vs"

definition quiet_inv :: "int \<Rightarrow> uuid \<Rightarrow> uuid \<Rightarrow> site \<Rightarrow> bool" where
  "quiet_inv q rid iid d \<longleftrightarrow> spaced q (sent_rows rid iid d) \<and>
     (\<forall>v\<in>set (sent_rows rid iid d). \<exists>t. q_last_sent rid iid d = Some t \<and> dv_created v \<le> t)"

text \<open>Between the first message of a firing rule and the update of its quiet period.\<close>

definition firing :: "int \<Rightarrow> uuid \<Rightarrow> uuid \<Rightarrow> time \<Rightarrow> site \<Rightarrow> bool" where
  "firing q rid iid now d \<longleftrightarrow> spaced q (sent_rows rid iid d) \<and>
     (\<forall>v\<in>set (sent_rows rid iid d). dv_created v = now \<or> q * minute \<le> now - dv_created v)"

lemma spaced_snoc: "spaced q (vs @ [v]) \<longleftrightarrow> spaced q vs \<and> (\<forall>v'\<in>set vs. apart q (dv_created v) (dv_created v'))"
  by (auto simp: spaced_def list_all_iff apart_def)

lemma firing_append: "firing q rid iid (w_now w) d \<Longrightarrow> dv_created row = w_now w \<Longrightarrow>
    firing q rid iid (w_now w) (d\<lparr>deliveries := deliveries d @ [row]\<rparr>)"
  by (auto simp: firing_def sent_rows_def spaced_snoc apart_def)

lemma firing_start: "quiet_inv q rid iid d \<Longrightarrow> 0 < q \<Longrightarrow> \<not> quiet_now now rid iid q d \<Longrightarrow> firing q rid iid now d"
  by (auto simp: quiet_inv_def firing_def quiet_now_def split: option.splits)

lemma firing_end: "firing q rid iid (w_now w) d \<Longrightarrow> 0 < q \<Longrightarrow> q_touch_dedupe w rid iid d = Some (u, d') \<Longrightarrow> quiet_inv q rid iid d'"
  using last_sent_touched[of w rid iid d u d']
  by (auto simp: firing_def quiet_inv_def sent_rows_def time_simps)

lemma quiet_inv_append: "quiet_inv q rid iid d \<Longrightarrow> dv_rule row \<noteq> Some rid \<or> dv_issue row \<noteq> Some iid \<Longrightarrow>
    quiet_inv q rid iid (d\<lparr>deliveries := deliveries d @ [row]\<rparr>)"
  by (auto simp: quiet_inv_def sent_rows_def q_last_sent_def)

text \<open>What stays fixed while alerts are evaluated: the rules and the issues.\<close>

definition quiet_site :: "alert_rule list \<Rightarrow> issue_row list \<Rightarrow> int \<Rightarrow> uuid \<Rightarrow> uuid \<Rightarrow> site \<Rightarrow> bool" where
  "quiet_site rs iss q rid iid d \<longleftrightarrow>
     alert_rules d = rs \<and> issues (store d) = iss \<and> quiet_inv q rid iid d"

definition canonical :: "world \<Rightarrow> alert_rule list \<Rightarrow> bool" where
  "canonical w rs \<longleftrightarrow> list_all (\<lambda>r. al_id r \<noteq> [] \<and> w_pg_uuid w (al_id r) = Some (al_id r)) rs"

lemma evaluate_rule_quiet:
  assumes w: "calm w" "canonical w rs" and rs: "r \<in> set rs" "key_ok al_id rs" "r0 \<in> set rs" "al_id r0 = rid" "al_quiet r0 = q" "0 < q"
    and iu: "w_pg_uuid w (ep_issue p) = Some iu" "get_key i_id iu iss \<noteq> None"
    and J: "quiet_site rs iss q rid iid (io_site s)"
  shows "quiet_site rs iss q rid iid (io_site (snd (evaluate_rule w n cfg proj issue p r s)))"
proof -
  have r: "w_pg_uuid w (al_id r) = Some (al_id r)" "al_id r \<noteq> []"
    using w(2) rs(1) by (auto simp: canonical_def list_all_iff)
  obtain s1 where s1: "io_site s1 = io_site s" "evaluate_rule w n cfg proj issue p r s =
      (if fires w p iu r (io_site s)
       then bind (deliver_rule w n cfg r proj issue p False) (\<lambda>_. touch_dedupe w n (al_id r) (ep_issue p)) s1
       else (Inr (), s1))"
    using evaluate_rule_calm[OF w(1) r(1) iu(1), of s n cfg proj issue] by auto
  show ?thesis
  proof (cases "fires w p iu r (io_site s)")
    case False
    then show ?thesis using s1 J by simp
  next
    case True
    obtain c s2 where s2: "deliver_rule w n cfg r proj issue p False s1 = (Inr c, s2)"
      using deliver_rule_run by metis
    have kept: "K (io_site s1) \<Longrightarrow> (\<And>d row. K d \<Longrightarrow> logs w r p row \<Longrightarrow> K (d\<lparr>deliveries := deliveries d @ [row]\<rparr>)) \<Longrightarrow> K (io_site s2)" for K
      using steady_deliver_rule[of K w r p n cfg proj issue False] s2 unfolding steady_def by (metis snd_conv)
    have fixed: "alert_rules (io_site s2) = rs" "issues (store (io_site s2)) = iss"
      using kept[of "\<lambda>d. alert_rules d = rs \<and> issues (store d) = iss"] J s1(1) by (auto simp: quiet_site_def)
    then have known: "get_key al_id (al_id r) (alert_rules (io_site s2)) \<noteq> None" "get_key i_id iu (issues (store (io_site s2))) \<noteq> None"
      using rs(1) iu(2) by (auto simp: get_key_None)
    obtain d' where d': "q_touch_dedupe w (al_id r) iu (io_site s2) = Some ((), d')"
      using known by (auto simp: q_touch_dedupe_def)
    have final: "io_site (snd (evaluate_rule w n cfg proj issue p r s)) = d'"
      using True s1(2) s2 d' r iu(1) w(1) by (simp add: bind_def touch_dedupe_def with_uuid_Some query_calm)
    have "quiet_inv q rid iid d'"
    proof (cases "al_id r = rid \<and> iu = iid")
      case same: True
      then have "r = r0" using rs(1-4) get_key_unique by (metis option.inject)
      then have "firing q rid iid (w_now w) (io_site s1)"
        using J True same rs(5,6) s1(1) by (intro firing_start) (auto simp: quiet_site_def fires_def)
      then have "firing q rid iid (w_now w) (io_site s2)"
        by (rule kept) (simp add: firing_append logs_def)
      then show ?thesis using firing_end[OF _ rs(6)] d' same by blast
    next
      case other: False
      have "quiet_inv q rid iid (io_site s1)" using J s1(1) by (simp add: quiet_site_def)
      then have "quiet_inv q rid iid (io_site s2)"
        by (rule kept) (use other r iu(1) in \<open>auto simp: logs_def intro!: quiet_inv_append split: if_splits\<close>)
      then show ?thesis using last_sent_touched[OF d'] other by (auto simp: quiet_inv_def sent_rows_def)
    qed
    then show ?thesis using final fixed last_sent_touched(4,5)[OF d'] by (simp add: quiet_site_def)
  qed
qed

lemma for_each_quiet:
  assumes "calm w" "canonical w rs" "set xs \<subseteq> set rs" "key_ok al_id rs" "r0 \<in> set rs" "al_id r0 = rid" "al_quiet r0 = q" "0 < q"
    "w_pg_uuid w (ep_issue p) = Some iu" "get_key i_id iu iss \<noteq> None"
  shows "quiet_site rs iss q rid iid (io_site s) \<Longrightarrow>
    quiet_site rs iss q rid iid (io_site (snd (for_each (evaluate_rule w n cfg proj issue p) xs s)))"
  using assms(3)
proof (induction xs arbitrary: s)
  case (Cons x xs)
  let ?s1 = "snd (evaluate_rule w n cfg proj issue p x s)"
  have "quiet_site rs iss q rid iid (io_site ?s1)"
    using evaluate_rule_quiet[OF assms(1,2) _ assms(4-10) Cons.prems(1), of x n cfg proj issue] Cons.prems(2) by simp
  with Cons.IH[of ?s1] Cons.prems(2) show ?case by (simp add: bind_def split: prod.split sum.split) auto
qed (simp add: ret_def)

text \<open>The loads at the start of an evaluation, in a world without faults.\<close>

definition unread :: "io \<Rightarrow> io \<Rightarrow> bool" where
  "unread s s' \<longleftrightarrow> io_site s' = io_site s \<and> io_out s' = io_out s"

lemma evaluate_calm:
  assumes "calm w"
  shows "\<exists>s'. unread s s' \<and> ((\<exists>res. evaluate_and_deliver w n cfg p s = (res, s')) \<or>
    (\<exists>pu iu i proj. w_pg_uuid w (ep_project p) = Some pu \<and> w_pg_uuid w (ep_issue p) = Some iu \<and>
       get_key i_id iu (issues (store (io_site s))) = Some i \<and> q_project_brief pu (io_site s) = Some proj \<and>
       evaluate_and_deliver w n cfg p s =
         for_each (evaluate_rule w n cfg proj (brief_of i) p) (q_enabled_rules pu (io_site s)) s'))"
proof (cases "w_pg_uuid w (ep_project p)")
  case None
  then show ?thesis using assms
    by (auto simp: evaluate_and_deliver_def load_enabled_rules_def query_calm with_uuid_def bind_def unread_def)
next
  case (Some pu)
  have 1: "load_enabled_rules w n (ep_project p) s = (Inr (q_enabled_rules pu (io_site s)), called s)"
    using assms Some by (simp add: load_enabled_rules_def with_uuid_Some query_select_calm)
  show ?thesis
  proof (cases "q_enabled_rules pu (io_site s) = []")
    case True
    then show ?thesis by (intro exI[of _ "called s"]) (auto simp: evaluate_and_deliver_def bind_total 1 ret_def unread_def)
  next
    case False
    show ?thesis
    proof (cases "\<exists>iu i. w_pg_uuid w (ep_issue p) = Some iu \<and> get_key i_id iu (issues (store (io_site s))) = Some i")
      case f: False
      have "\<exists>e. load_issue_brief w n (ep_issue p) (called s) = (Inl e, called (called s))"
        using f assms by (cases "w_pg_uuid w (ep_issue p)")
          (auto simp: load_issue_brief_def query_row_def query_calm with_uuid_def select_def bind_def fail_def called_def)
      then show ?thesis using False
        by (intro exI[of _ "called (called s)"]) (auto simp: evaluate_and_deliver_def bind_def 1 unread_def)
    next
      case True
      then obtain iu i where i: "w_pg_uuid w (ep_issue p) = Some iu" "get_key i_id iu (issues (store (io_site s))) = Some i" by auto
      have 2: "load_issue_brief w n (ep_issue p) (called s) = (Inr (brief_of i), called (called s))"
        using assms i by (simp add: load_issue_brief_def with_uuid_Some query_row_select_calm)
      have 3: "load_project_brief w n (ep_project p) (called (called s)) =
          ((case q_project_brief pu (io_site s) of None \<Rightarrow> Inl no_rows | Some b \<Rightarrow> Inr b), called (called (called s)))"
        using assms Some by (simp add: load_project_brief_def with_uuid_Some query_row_select_calm)
      show ?thesis
      proof (cases "q_project_brief pu (io_site s)")
        case None
        then have "evaluate_and_deliver w n cfg p s = (Inl no_rows, called (called (called s)))"
          using False 3 by (simp add: evaluate_and_deliver_def bind_total 1 2) (simp add: bind_def)
        then show ?thesis by (intro exI[of _ "called (called (called s))"]) (simp add: unread_def)
      next
        case p: (Some b)
        have "evaluate_and_deliver w n cfg p s =
            for_each (evaluate_rule w n cfg b (brief_of i) p) (q_enabled_rules pu (io_site s)) (called (called (called s)))"
          using False 3 p by (simp add: evaluate_and_deliver_def bind_total 1 2)
        then show ?thesis using Some i p
          by (intro exI[of _ "called (called (called s))"]) (simp add: unread_def)
      qed
    qed
  qed
qed

lemma evaluate_quiet:
  assumes "calm w" "canonical w rs" "key_ok al_id rs" "r0 \<in> set rs" "al_id r0 = rid" "al_quiet r0 = q" "0 < q"
    "quiet_site rs iss q rid iid (io_site s)"
  shows "quiet_site rs iss q rid iid (io_site (snd (evaluate_and_deliver w n cfg p s)))"
proof -
  have rs: "alert_rules (io_site s) = rs" and iss: "issues (store (io_site s)) = iss"
    using assms(8) by (simp_all add: quiet_site_def)
  obtain s' where s': "unread s s'" and c: "(\<exists>res. evaluate_and_deliver w n cfg p s = (res, s')) \<or>
    (\<exists>pu iu i proj. w_pg_uuid w (ep_project p) = Some pu \<and> w_pg_uuid w (ep_issue p) = Some iu \<and>
       get_key i_id iu iss = Some i \<and> q_project_brief pu (io_site s) = Some proj \<and>
       evaluate_and_deliver w n cfg p s =
         for_each (evaluate_rule w n cfg proj (brief_of i) p) (q_enabled_rules pu (io_site s)) s')"
    using evaluate_calm[OF assms(1)] iss by blast
  have J: "quiet_site rs iss q rid iid (io_site s')" using assms(8) s' by (simp add: unread_def)
  from c show ?thesis
  proof
    assume "\<exists>pu iu i proj. w_pg_uuid w (ep_project p) = Some pu \<and> w_pg_uuid w (ep_issue p) = Some iu \<and>
       get_key i_id iu iss = Some i \<and> q_project_brief pu (io_site s) = Some proj \<and>
       evaluate_and_deliver w n cfg p s =
         for_each (evaluate_rule w n cfg proj (brief_of i) p) (q_enabled_rules pu (io_site s)) s'"
    then obtain pu iu i proj where x: "w_pg_uuid w (ep_issue p) = Some iu" "get_key i_id iu iss = Some i"
      "evaluate_and_deliver w n cfg p s = for_each (evaluate_rule w n cfg proj (brief_of i) p) (q_enabled_rules pu (io_site s)) s'"
      by blast
    have "set (q_enabled_rules pu (io_site s)) \<subseteq> set rs" using rs by (auto simp: q_enabled_rules_def)
    then show ?thesis
      using for_each_quiet[OF assms(1,2) _ assms(3-7) x(1) _ J] x(2,3) by simp
  qed (use J in auto)
qed

text \<open>Any sequence of evaluations, each in its own world (its clock, its conversions).\<close>

type_synonym evaluation = "world \<times> net \<times> config \<times> evaluate_payload"

definition evaluations :: "evaluation list \<Rightarrow> io \<Rightarrow> io" where
  "evaluations es s = fold (\<lambda>(w, n, cfg, p) s. snd (evaluate_and_deliver w n cfg p s)) es s"

lemma evaluations_quiet:
  assumes "list_all (\<lambda>(w, _). calm w \<and> canonical w rs) es" "key_ok al_id rs" "r0 \<in> set rs" "al_id r0 = rid" "al_quiet r0 = q" "0 < q"
  shows "quiet_site rs iss q rid iid (io_site s) \<Longrightarrow> quiet_site rs iss q rid iid (io_site (evaluations es s))"
  using assms(1)
proof (induction es arbitrary: s)
  case (Cons e es)
  obtain w n cfg p where e: "e = (w, n, cfg, p)" by (cases e)
  show ?case
    using evaluate_quiet[OF _ _ assms(2-6) Cons.prems(1), of w n cfg p] Cons.IH Cons.prems(2)
    by (simp add: evaluations_def e)
qed (simp add: evaluations_def)

text \<open>C24: The quiet period of a rule holds over every sequence of evaluations: any two deliveries
  logged for the same rule and issue (test sends aside) are of one moment or at least the rule's quiet
  minutes apart, whatever the clocks, the outcomes of the mails and requests, the other rules and the
  order of the signals, as long as the database answers.\<close>

theorem quiet_period:
  assumes "list_all (\<lambda>(w, _). calm w \<and> canonical w (alert_rules (io_site s))) es"
    "key_ok al_id (alert_rules (io_site s))" "r \<in> set (alert_rules (io_site s))" "0 < al_quiet r"
    "deliveries (io_site s) = []"
  shows "spaced (al_quiet r) (sent_rows (al_id r) iid (io_site (evaluations es s)))"
proof -
  have "quiet_site (alert_rules (io_site s)) (issues (store (io_site s))) (al_quiet r) (al_id r) iid (io_site s)"
    using assms(5) by (simp add: quiet_site_def quiet_inv_def sent_rows_def spaced_def)
  from evaluations_quiet[OF assms(1-3) refl refl assms(4) this] show ?thesis
    by (simp add: quiet_site_def quiet_inv_def)
qed

definition witness_rule :: alert_rule where
  "witness_rule = \<lparr>al_id = ''r'', al_project = ''p'', al_name = ''R'', al_trigger = ''new_issue'', al_enabled = True,
     al_environments = [], al_releases = [], al_levels = [''Error''], al_count = 10, al_minutes = 60, al_quiet = 30,
     al_email = [''a@b'', ''c@d''], al_url = ''http://h'', al_secret = [], al_created = 0\<rparr>"

definition witness_payload :: evaluate_payload where
  "witness_payload = \<lparr>ep_project = ''p'', ep_issue = ''i'', ep_event = ''e'', ep_new = True, ep_regression = False,
     ep_environment = ''production'', ep_release = [], ep_level = ''error''\<rparr>"

definition witness_issue :: issue_row where
  "witness_issue = \<lparr>i_id = ''i'', i_project = ''p'', i_fingerprint = ''f'', i_version = 1, i_title = ''T'',
     i_culprit = [], i_level = ''error'', i_status = Unresolved, i_substatus = [], i_first_seen = 0,
     i_last_seen = 0, i_count = 1, i_user_count = 0, i_assignee = None\<rparr>"

definition witness_site :: site where
  "witness_site = (site_of (empty_db\<lparr>projects := [\<lparr>p_id = ''p'', p_org = ''o'', p_name = ''P'', p_slug = ''p'', p_platform = ''javascript''\<rparr>],
       issues := [witness_issue]\<rparr>))\<lparr>orgs := [\<lparr>o_id = ''o'', o_name = ''O'', o_slug = ''o''\<rparr>],
     alert_rules := [witness_rule]\<rparr>"

definition witness_io :: io where
  "witness_io = \<lparr>io_site = witness_site, io_calls = 0, io_out = []\<rparr>"

lemma witness_canonical: "canonical (witness_world t) (alert_rules (io_site witness_io))" "key_ok al_id (alert_rules (io_site witness_io))"
  by (simp_all add: canonical_def witness_world_def witness_io_def witness_site_def witness_rule_def key_ok_def)

text \<open>Three evaluations: at once, ten minutes later (quiet) and forty minutes later: two rounds of three deliveries.\<close>

theorem quiet_period_witness:
  "length (sent_rows ''r'' ''i'' (io_site (evaluations
     (map (\<lambda>t. (witness_world (t * minute), witness_net, load_config (\<lambda>_. []), witness_payload)) [0, 10, 40]) witness_io))) = 6
   \<and> spaced 30 (sent_rows ''r'' ''i'' (io_site (evaluations
     (map (\<lambda>t. (witness_world (t * minute), witness_net, load_config (\<lambda>_. []), witness_payload)) [0, 10, 40]) witness_io)))"
proof
  show "length (sent_rows ''r'' ''i'' (io_site (evaluations
     (map (\<lambda>t. (witness_world (t * minute), witness_net, load_config (\<lambda>_. []), witness_payload)) [0, 10, 40]) witness_io))) = 6"
    by code_simp
  have "witness_rule \<in> set (alert_rules (io_site witness_io))" "0 < al_quiet witness_rule"
    "deliveries (io_site witness_io) = []" "al_quiet witness_rule = 30" "al_id witness_rule = ''r''"
    by (simp_all add: witness_io_def witness_site_def witness_rule_def site_of_def)
  then show "spaced 30 (sent_rows ''r'' ''i'' (io_site (evaluations
     (map (\<lambda>t. (witness_world (t * minute), witness_net, load_config (\<lambda>_. []), witness_payload)) [0, 10, 40]) witness_io)))"
    using quiet_period[of witness_io "map (\<lambda>t. (witness_world (t * minute), witness_net, load_config (\<lambda>_. []), witness_payload)) [0, 10, 40]"
      witness_rule "''i''"] witness_calm witness_canonical by simp
qed

subsection \<open>The messages of one evaluation\<close>

lemma evaluate_rule_effect:
  assumes w: "calm w" "w_pg_uuid w (al_id r) = Some (al_id r)" "al_id r \<noteq> []" "w_pg_uuid w (ep_issue p) = Some iu"
    and known: "r \<in> set (alert_rules (io_site s))" "get_key i_id iu (issues (store (io_site s))) \<noteq> None"
  shows "\<exists>s'. evaluate_rule w n cfg proj issue p r s = (Inr (), s') \<and>
    io_out s' = io_out s @ (if fires w p iu r (io_site s) then rule_messages n cfg proj issue p r else []) \<and>
    store (io_site s') = store (io_site s) \<and> alert_rules (io_site s') = alert_rules (io_site s) \<and>
    (\<forall>rid. rid \<noteq> al_id r \<longrightarrow> q_last_sent rid iu (io_site s') = q_last_sent rid iu (io_site s)) \<and>
    (fires w p iu r (io_site s) \<longrightarrow> q_last_sent (al_id r) iu (io_site s') = Some (w_now w))"
proof -
  obtain s1 where s1: "io_site s1 = io_site s" "io_out s1 = io_out s" "evaluate_rule w n cfg proj issue p r s =
      (if fires w p iu r (io_site s)
       then bind (deliver_rule w n cfg r proj issue p False) (\<lambda>_. touch_dedupe w n (al_id r) (ep_issue p)) s1
       else (Inr (), s1))"
    using evaluate_rule_calm[OF w(1,2,4), of s n cfg proj issue] by auto
  show ?thesis
  proof (cases "fires w p iu r (io_site s)")
    case False
    then show ?thesis using s1 by simp
  next
    case True
    obtain c s2 where s2: "deliver_rule w n cfg r proj issue p False s1 = (Inr c, s2)"
      "io_out s2 = io_out s1 @ rule_messages n cfg proj issue p r"
      using deliver_rule_run by metis
    let ?K = "\<lambda>d. store d = store (io_site s) \<and> alert_rules d = alert_rules (io_site s) \<and> dedupes d = dedupes (io_site s)"
    have "?K (io_site s2)"
      using steady_deliver_rule[of ?K w r p n cfg proj issue False] s1(1) s2(1) unfolding steady_def
      by (metis (no_types, lifting) snd_conv site.ext_inject site.surjective site.update_convs(7))
    then have K: "store (io_site s2) = store (io_site s)" "alert_rules (io_site s2) = alert_rules (io_site s)"
      "\<And>rid. q_last_sent rid iu (io_site s2) = q_last_sent rid iu (io_site s)"
      by (auto simp: q_last_sent_def)
    have "get_key al_id (al_id r) (alert_rules (io_site s2)) \<noteq> None" using known(1) K(2) by (auto simp: get_key_None)
    then obtain d' where d': "q_touch_dedupe w (al_id r) iu (io_site s2) = Some ((), d')"
      using known(2) K(1) by (auto simp: q_touch_dedupe_def)
    have "evaluate_rule w n cfg proj issue p r s = (Inr (), called s2\<lparr>io_site := d'\<rparr>)"
      using True s1(3) s2(1) d' w by (simp add: bind_def touch_dedupe_def with_uuid_Some query_calm)
    then show ?thesis using True s1(2) s2(2) K last_sent_touched[OF d'] by simp
  qed
qed

lemma fires_cong: "store d' = store d \<Longrightarrow> q_last_sent (al_id r) iu d' = q_last_sent (al_id r) iu d \<Longrightarrow>
    fires w p iu r d' = fires w p iu r d"
  by (simp add: fires_def quiet_now_def q_window_count_def)

lemma for_each_messages:
  assumes "calm w" "canonical w rs" "w_pg_uuid w (ep_issue p) = Some iu" "get_key i_id iu iss \<noteq> None"
  shows "distinct (map al_id xs) \<Longrightarrow> set xs \<subseteq> set rs \<Longrightarrow> alert_rules (io_site s) = rs \<Longrightarrow> issues (store (io_site s)) = iss \<Longrightarrow>
    \<exists>s'. for_each (evaluate_rule w n cfg proj issue p) xs s = (Inr (), s') \<and>
      io_out s' = io_out s @ concat (map (rule_messages n cfg proj issue p) (filter (\<lambda>r. fires w p iu r (io_site s)) xs))"
proof (induction xs arbitrary: s)
  case (Cons x xs)
  have x: "w_pg_uuid w (al_id x) = Some (al_id x)" "al_id x \<noteq> []"
    using assms(2) Cons.prems(2) by (auto simp: canonical_def list_all_iff)
  obtain s1 where s1: "evaluate_rule w n cfg proj issue p x s = (Inr (), s1)"
    "io_out s1 = io_out s @ (if fires w p iu x (io_site s) then rule_messages n cfg proj issue p x else [])"
    "store (io_site s1) = store (io_site s)" "alert_rules (io_site s1) = alert_rules (io_site s)"
    "\<forall>rid. rid \<noteq> al_id x \<longrightarrow> q_last_sent rid iu (io_site s1) = q_last_sent rid iu (io_site s)"
    using evaluate_rule_effect[OF assms(1) x assms(3), of s n cfg proj issue] Cons.prems(2-4) assms(4) by auto
  have "filter (\<lambda>r. fires w p iu r (io_site s1)) xs = filter (\<lambda>r. fires w p iu r (io_site s)) xs"
    using Cons.prems(1) s1(3,5) by (intro filter_cong refl fires_cong) (auto, metis imageI)
  then show ?case
    using Cons.IH[of s1] Cons.prems s1 by (auto simp: bind_total s1(1))
qed (simp add: ret_def)

text \<open>C25: One evaluation in a world whose database answers sends exactly the messages of the enabled
  rules of the project that fire, in the order of the rules' creation: a mail to every address of the
  rule and one request, and a rule fires when its filters and its trigger match the signal and its quiet
  period for the issue is over. Failed sends change neither the other messages nor the result.\<close>

theorem alerts_sent:
  assumes "calm w" "canonical w (alert_rules (io_site s))" "key_ok al_id (alert_rules (io_site s))"
    "w_pg_uuid w (ep_project p) = Some pu" "w_pg_uuid w (ep_issue p) = Some iu"
    "get_key i_id iu (issues (store (io_site s))) = Some i" "q_project_brief pu (io_site s) = Some proj"
  shows "fst (evaluate_and_deliver w n cfg p s) = Inr () \<and>
    io_out (snd (evaluate_and_deliver w n cfg p s)) = io_out s @
      concat (map (rule_messages n cfg proj (brief_of i) p)
        (filter (\<lambda>r. fires w p iu r (io_site s)) (q_enabled_rules pu (io_site s))))"
proof -
  let ?rs = "q_enabled_rules pu (io_site s)"
  have load: "load_enabled_rules w n (ep_project p) s = (Inr ?rs, called s)"
    using assms(1,4) by (simp add: load_enabled_rules_def with_uuid_Some query_select_calm)
  have sub: "set ?rs \<subseteq> set (alert_rules (io_site s))" by (auto simp: q_enabled_rules_def)
  have d: "distinct (map al_id ?rs)"
    using assms(3) by (auto simp: key_ok_def q_enabled_rules_def distinct_map intro: inj_on_subset)
  show ?thesis
  proof (cases "?rs = []")
    case True
    then show ?thesis by (simp add: evaluate_and_deliver_def bind_total load ret_def)
  next
    case False
    let ?s3 = "called (called (called s))"
    have "load_issue_brief w n (ep_issue p) (called s) = (Inr (brief_of i), called (called s))"
      "load_project_brief w n (ep_project p) (called (called s)) = (Inr proj, ?s3)"
      using assms by (simp_all add: load_issue_brief_def load_project_brief_def with_uuid_Some query_row_select_calm)
    then have "evaluate_and_deliver w n cfg p s = for_each (evaluate_rule w n cfg proj (brief_of i) p) ?rs ?s3"
      using False by (simp add: evaluate_and_deliver_def bind_total load)
    then show ?thesis
      using for_each_messages[OF assms(1,2,5) _ d sub, of "issues (store (io_site s))" ?s3 n cfg proj "brief_of i"] assms(6)
      by auto
  qed
qed

theorem alerts_sent_witness:
  "fst (evaluate_and_deliver (witness_world 0) witness_net (load_config (\<lambda>_. [])) witness_payload witness_io) = Inr () \<and>
   length (io_out (snd (evaluate_and_deliver (witness_world 0) witness_net (load_config (\<lambda>_. [])) witness_payload witness_io))) = 3"
proof -
  let ?proj = "\<lparr>pb_id = ''p'', pb_name = ''P'', pb_slug = ''p'', pb_org_slug = ''o'', pb_org_name = ''O''\<rparr>"
  have "q_project_brief ''p'' (io_site witness_io) = Some ?proj" by code_simp
  moreover have "filter (\<lambda>r. fires (witness_world 0) witness_payload ''i'' r (io_site witness_io))
      (q_enabled_rules ''p'' (io_site witness_io)) = [witness_rule]" by code_simp
  moreover have "length (rule_messages witness_net c b i witness_payload witness_rule) = 3" for c b i
    by (simp add: rule_messages_def Let_def witness_rule_def witness_net_def split: prod.split)
  moreover have "io_out witness_io = []" "w_pg_uuid (witness_world 0) = Some" "ep_project witness_payload = ''p''"
    "ep_issue witness_payload = ''i''" "get_key i_id ''i'' (issues (store (io_site witness_io))) = Some witness_issue"
    by (simp_all add: witness_io_def witness_world_def witness_payload_def witness_site_def site_of_def get_key_def witness_issue_def)
  ultimately show ?thesis
    using alerts_sent[of "witness_world 0" witness_io witness_payload "''p''" "''i''" witness_issue ?proj witness_net "load_config (\<lambda>_. [])",
        OF witness_calm witness_canonical] by simp
qed

subsection \<open>The webhook body\<close>

definition texts_ok :: "string list \<Rightarrow> bool" where "texts_ok xs \<longleftrightarrow> list_all utf8_ok xs"

text \<open>C26: The body of a webhook parses back to the payload that was built: version 1, the event name,
  the rule, project, issue and links, for all names, titles and releases that are valid UTF-8 (quotes,
  line breaks, angle brackets and line separators included).\<close>

theorem webhook_body_parses:
  assumes "texts_ok [base, event, al_id r, al_name r, al_trigger r, pb_id proj, pb_name proj, pb_slug proj,
    pb_org_slug proj, ib_id issue, ib_title issue, ib_culprit issue, ib_level issue, ib_status issue,
    ib_substatus issue, ep_event p, ep_environment p, ep_release p]"
  shows "json_parse (alert_body base event r proj issue p) =
    (case payload_maps base r proj issue p of (rule, project, iss, urls) \<Rightarrow>
       Some (payload_value (build_payload event rule project iss (al_trigger r) (Some urls))))"
proof -
  obtain rule project iss urls where m: "payload_maps base r proj issue p = (rule, project, iss, urls)"
    by (cases "payload_maps base r proj issue p") auto
  have "json_ok (JObj rule) \<and> json_ok (JObj project) \<and> json_ok (JObj iss) \<and> json_ok (JObj urls)"
    using assms m unfolding payload_maps_def Let_def texts_ok_def
    by (auto simp: byte_nat_def intro!: utf8_ok_append int_lit_show_int)
  moreover have "utf8_ok event" "utf8_ok (al_trigger r)" using assms by (simp_all add: texts_ok_def)
  ultimately have "json_ok (payload_value (build_payload event rule project iss (al_trigger r) (Some urls)))"
    by (simp add: payload_value_def build_payload_def int_lit_show_int byte_nat_def)
  then show ?thesis by (simp add: alert_body_def m parse_print)
qed

theorem webhook_body_parses_witness:
  "json_parse (alert_body ''http://h'' event_alert (witness_rule\<lparr>al_name := [CHR 0x22, nl, CHR 0xC3, CHR 0xA9]\<rparr>)
     \<lparr>pb_id = ''p'', pb_name = ''P'', pb_slug = ''p'', pb_org_slug = ''o'', pb_org_name = ''O''\<rparr>
     (brief_of witness_issue) witness_payload) \<noteq> None"
proof -
  let ?proj = "\<lparr>pb_id = ''p'', pb_name = ''P'', pb_slug = ''p'', pb_org_slug = ''o'', pb_org_name = ''O''\<rparr>"
  let ?r = "witness_rule\<lparr>al_name := [CHR 0x22, nl, CHR 0xC3, CHR 0xA9]\<rparr>"
  have "texts_ok [''http://h'', event_alert, al_id ?r, al_name ?r, al_trigger ?r, pb_id ?proj, pb_name ?proj, pb_slug ?proj,
    pb_org_slug ?proj, ib_id (brief_of witness_issue), ib_title (brief_of witness_issue), ib_culprit (brief_of witness_issue),
    ib_level (brief_of witness_issue), ib_status (brief_of witness_issue), ib_substatus (brief_of witness_issue),
    ep_event witness_payload, ep_environment witness_payload, ep_release witness_payload]"
    by code_simp
  from webhook_body_parses[OF this] show ?thesis by (simp split: prod.split)
qed

end
