(* ===== verification/Calendar.thy ===== *)
theory Calendar
  imports GoTime
begin

section \<open>Dates: time.Date, AddDate and partition bounds (internal/db/partitions.go)\<close>

text \<open>
  \<open>civil\<close> is the UTC date of an instant, \<open>go_date\<close> the instant of midnight of a date with Go's
  normalization of months and days out of range, \<open>add_date\<close> is \<open>time.AddDate\<close>.  \<open>civil\<close> and
  \<open>epoch_days\<close> are inverse on valid dates.  \<open>parse_partition_timestamp\<close> reads the bound of a
  partition as the program creates it and as Postgres prints it.
\<close>

definition year_of :: "int \<Rightarrow> int" where
  "year_of n = (let y = 400 * n div 146097 + 1 in
     if n < days_before_year y then y - 1
     else if days_before_year (y + 1) \<le> n then y + 1 else y)"

fun month_search :: "int \<Rightarrow> int \<Rightarrow> int \<Rightarrow> nat \<Rightarrow> int" where
  "month_search y doy m 0 = m"
| "month_search y doy m (Suc k) =
     (if doy < days_before_month y (m + 1) then m else month_search y doy (m + 1) k)"

definition civil :: "time \<Rightarrow> int \<times> int \<times> int" where
  "civil t =
     (let n = t div day + 719162; y = year_of n; doy = n - days_before_year y;
          m = month_search y doy 1 11
      in (y, m, doy - days_before_month y m + 1))"

definition go_date :: "int \<Rightarrow> int \<Rightarrow> int \<Rightarrow> time" where
  "go_date y m d = epoch_days (y + (m - 1) div 12) ((m - 1) mod 12 + 1) d * day"

definition add_date :: "time \<Rightarrow> int \<Rightarrow> int \<Rightarrow> int \<Rightarrow> time" where
  "add_date t yy mm dd = (case civil t of (y, m, d) \<Rightarrow> go_date (y + yy) (m + mm) (d + dd) + t mod day)"

subsection \<open>Correctness\<close>

lemma days_before_year_bounds:
  "146097 * y - 146796 \<le> 400 * days_before_year y" "400 * days_before_year y \<le> 146097 * y - 145701"
proof -
  define p a b c e f g where "p = y - 1" and "a = p div 4" and "b = p div 100" and "c = p div 400"
    and "e = p mod 4" and "f = p mod 100" and "g = p mod 400"
  have m: "p = 4 * a + e" "p = 100 * b + f" "p = 400 * c + g"
    by (simp_all add: a_def b_def c_def e_def f_def g_def)
  have r: "0 \<le> e" "e < 4" "0 \<le> f" "f < 100" "0 \<le> g" "g < 400"
    unfolding e_def f_def g_def by simp_all
  have d: "days_before_year y = 365 * p + a - b + c" "y = p + 1"
    by (simp_all only: days_before_year_def Let_def a_def b_def c_def p_def)
  show "146097 * y - 146796 \<le> 400 * days_before_year y" using m r d by simp
  show "400 * days_before_year y \<le> 146097 * y - 145701" using m r d by simp
qed

lemma div_Suc_int: "(0::int) < k \<Longrightarrow> (p + 1) div k = p div k + (if (p + 1) mod k = 0 then 1 else 0)"
proof -
  assume k: "0 < k"
  define q r where "q = p div k" and "r = p mod k"
  have p: "p = q * k + r" "0 \<le> r" "r < k" using k by (simp_all add: q_def r_def)
  show ?thesis
  proof (cases "r + 1 = k")
    case True
    then have "p + 1 = (q + 1) * k" using p(1) by (simp add: algebra_simps)
    then show ?thesis using k q_def by simp
  next
    case False
    then have r: "0 \<le> r + 1" "r + 1 < k" using p by auto
    have e: "p + 1 = (r + 1) + q * k" using p(1) by simp
    have "(p + 1) div k = q" "(p + 1) mod k = r + 1" unfolding e using r k by simp_all
    then show ?thesis using q_def p(2) by simp
  qed
qed

lemma year_length: "days_before_year (y + 1) - days_before_year y = (if is_leap y then 366 else 365)"
proof -
  have d: "y div k - (y - 1) div k = (if y mod k = 0 then 1 else 0)" if "0 < k" for k :: int
    using div_Suc_int[OF that, of "y - 1"] by simp
  have "days_before_year (y + 1) - days_before_year y =
      365 + (y div 4 - (y - 1) div 4) - (y div 100 - (y - 1) div 100) + (y div 400 - (y - 1) div 400)"
    by (simp add: days_before_year_def Let_def)
  also have "\<dots> = 365 + (if y mod 4 = 0 then 1 else 0) - (if y mod 100 = 0 then 1 else 0) + (if y mod 400 = 0 then 1 else 0)"
    by (simp only: d)
  finally have e: "days_before_year (y + 1) - days_before_year y =
    365 + (if y mod 4 = 0 then 1 else 0) - (if y mod 100 = 0 then 1 else 0) + (if y mod 400 = 0 then 1 else 0)" .
  have "y mod 400 = 0 \<longrightarrow> y mod 100 = 0" "y mod 100 = 0 \<longrightarrow> y mod 4 = 0" by presburger+
  then show ?thesis unfolding e is_leap_def
    by (cases "y mod 400 = 0"; cases "y mod 100 = 0"; cases "y mod 4 = 0"; simp only: if_True if_False simp_thms; simp)
qed

lemma year_of_bounds: "days_before_year (year_of n) \<le> n \<and> n < days_before_year (year_of n + 1)"
proof -
  define q where "q = 400 * n div 146097"
  define r where "r = 400 * n mod 146097"
  have r: "400 * n = 146097 * q + r" "0 \<le> r" "r < 146097" by (simp_all add: q_def r_def)
  have "days_before_year q \<le> n" using days_before_year_bounds(2)[of q] r by simp
  moreover have "n < days_before_year (q + 3)" using days_before_year_bounds(1)[of "q + 3"] r by simp
  ultimately show ?thesis unfolding year_of_def Let_def q_def[symmetric] by (auto simp: add.commute)
qed

lemma month_starts: "days_before_month y 1 = 0" "days_before_month y 13 = (if is_leap y then 366 else 365)"
  by (simp_all add: days_before_month_def)

lemma month_length: "1 \<le> m \<Longrightarrow> m \<le> 12 \<Longrightarrow> days_before_month y (m + 1) - days_before_month y m = days_in y m"
proof -
  assume "1 \<le> m" "m \<le> 12"
  then have "m = 1 \<or> m = 2 \<or> m = 3 \<or> m = 4 \<or> m = 5 \<or> m = 6 \<or> m = 7 \<or> m = 8 \<or> m = 9 \<or> m = 10 \<or> m = 11 \<or> m = 12"
    by arith
  then show ?thesis by (auto simp: days_before_month_def days_in_def)
qed

lemma days_in_pos: "28 \<le> days_in y m" "days_in y m \<le> 31"
  by (auto simp: days_in_def)

lemma month_search_bounds:
  "days_before_month y m \<le> doy \<Longrightarrow> doy < days_before_month y (m + int k + 1) \<Longrightarrow>
   m \<le> month_search y doy m k \<and> month_search y doy m k \<le> m + int k \<and>
   days_before_month y (month_search y doy m k) \<le> doy \<and> doy < days_before_month y (month_search y doy m k + 1)"
proof (induction k arbitrary: m)
  case (Suc k)
  have e: "m + int (Suc k) + 1 = (m + 1) + int k + 1" by simp
  show ?case
  proof (cases "doy < days_before_month y (m + 1)")
    case False
    then show ?thesis using Suc.IH[of "m + 1"] Suc.prems(2) unfolding e by simp
  qed (use Suc.prems in simp)
qed simp

definition valid_date :: "int \<Rightarrow> int \<Rightarrow> int \<Rightarrow> bool" where
  "valid_date y m d \<longleftrightarrow> 1 \<le> m \<and> m \<le> 12 \<and> 1 \<le> d \<and> d \<le> days_in y m"

lemma civil_valid:
  assumes "civil t = (y, m, d)"
  shows "valid_date y m d" "epoch_days y m d = t div day"
proof -
  let ?n = "t div day + 719162"
  let ?doy = "?n - days_before_year (year_of ?n)"
  let ?m = "month_search (year_of ?n) ?doy 1 11"
  have y: "y = year_of ?n" and m: "m = ?m" and d: "d = ?doy - days_before_month y m + 1"
    using assms by (auto simp: civil_def Let_def)
  have "0 \<le> ?doy" "?doy < days_before_month (year_of ?n) 13"
    using year_of_bounds[of ?n] year_length[of "year_of ?n"] by (auto simp: month_starts)
  then have b: "1 \<le> ?m \<and> ?m \<le> 12 \<and> days_before_month (year_of ?n) ?m \<le> ?doy \<and> ?doy < days_before_month (year_of ?n) (?m + 1)"
    using month_search_bounds[of "year_of ?n" 1 ?doy 11] by (simp add: month_starts)
  then show "valid_date y m d"
    using month_length[of m y] unfolding valid_date_def y m d by auto
  show "epoch_days y m d = t div day" by (simp add: epoch_days_def d y)
qed

lemma days_before_year_mono: "y \<le> y' \<Longrightarrow> days_before_year y \<le> days_before_year y'"
proof (induction y' rule: int_ge_induct)
  case (step i)
  then show ?case using year_length[of i] by (simp split: if_splits)
qed simp

lemma year_of_unique: "days_before_year y \<le> n \<Longrightarrow> n < days_before_year (y + 1) \<Longrightarrow> year_of n = y"
  using year_of_bounds[of n] days_before_year_mono[of "y + 1" "year_of n"] days_before_year_mono[of "year_of n + 1" y]
  by linarith

lemma days_before_month_mono: "m \<le> m' \<Longrightarrow> 1 \<le> m \<Longrightarrow> m' \<le> 13 \<Longrightarrow> days_before_month y m \<le> days_before_month y m'"
proof (induction m' rule: int_ge_induct)
  case (step i)
  then show ?case using month_length[of i y] days_in_pos[of y i] by simp
qed simp

lemma civil_unique:
  assumes "valid_date y m d" "0 \<le> r" "r < day"
  shows "civil (epoch_days y m d * day + r) = (y, m, d)"
proof -
  let ?n = "epoch_days y m d + 719162"
  have q: "(epoch_days y m d * day + r) div day = epoch_days y m d"
    using assms(2,3) by (simp add: div_add1_eq)
  have m: "1 \<le> m" "m \<le> 12" and d: "1 \<le> d" "d \<le> days_in y m" using assms(1) by (simp_all add: valid_date_def)
  have n: "?n = days_before_year y + days_before_month y m + (d - 1)" by (simp add: epoch_days_def)
  have b: "0 \<le> days_before_month y m" "days_before_month y (m + 1) \<le> (if is_leap y then 366 else 365)"
    using days_before_month_mono[of 1 m y] days_before_month_mono[of "m + 1" 13 y] m by (simp_all add: month_starts)
  have "days_before_month y m + (d - 1) < days_before_month y (m + 1)" using month_length[OF m, of y] d by linarith
  then have y: "year_of ?n = y" using b d n year_length[of y] by (intro year_of_unique) auto
  let ?doy = "days_before_month y m + (d - 1)"
  let ?s = "month_search y ?doy 1 11"
  have "0 \<le> ?doy" "?doy < days_before_month y 13"
    using b d \<open>?doy < days_before_month y (m + 1)\<close> by (auto simp: month_starts)
  then have s: "1 \<le> ?s" "?s \<le> 12" "days_before_month y ?s \<le> ?doy" "?doy < days_before_month y (?s + 1)"
    using month_search_bounds[of y 1 ?doy 11] by (simp_all add: month_starts)
  have "?s = m"
    using s m d \<open>?doy < days_before_month y (m + 1)\<close>
      days_before_month_mono[of "m + 1" ?s y] days_before_month_mono[of "?s + 1" m y]
    by linarith
  moreover have "?n - days_before_year y = ?doy" using n by simp
  ultimately show ?thesis using y by (simp only: civil_def q Let_def) simp
qed

subsection \<open>Months\<close>

definition month_start :: "time \<Rightarrow> time" where
  "month_start t = (case civil t of (y, m, _) \<Rightarrow> go_date y m 1)"

definition month_end :: "time \<Rightarrow> time" where "month_end t = add_date (month_start t) 0 1 0"

lemma go_date_valid: "1 \<le> m \<Longrightarrow> m \<le> 12 \<Longrightarrow> go_date y m d = epoch_days y m d * day"
  by (simp add: go_date_def)

lemma day_pos [simp]: "0 < day"
  by (simp add: time_simps)

lemma civil_go_date: "valid_date y m d \<Longrightarrow> civil (go_date y m d) = (y, m, d)"
  using civil_unique[of y m d 0] by (simp add: go_date_valid valid_date_def)

lemma go_date_mod [simp]: "go_date y m d mod day = 0"
  by (simp add: go_date_def)

lemma next_month: "1 \<le> m \<Longrightarrow> m \<le> 12 \<Longrightarrow> go_date y (m + 1) 1 = (epoch_days y m 1 + days_in y m) * day"
proof (cases "m = 12")
  case True
  then show ?thesis
    using year_length[of y] month_length[of 12 y] by (simp add: go_date_def epoch_days_def month_starts)
next
  case False
  assume "1 \<le> m" "m \<le> 12"
  then show ?thesis using False month_length[of m y] by (simp add: go_date_def epoch_days_def algebra_simps)
qed

lemma month_bounds:
  "month_start t \<le> t" "t < month_end t" "month_end t - month_start t \<le> 31 * day" "month_start t < month_end t"
proof -
  obtain y m d where c: "civil t = (y, m, d)" by (cases "civil t") auto
  have v: "valid_date y m d" and e: "epoch_days y m d = t div day" using civil_valid[OF c] by simp_all
  have m: "1 \<le> m" "m \<le> 12" and d: "1 \<le> d" "d \<le> days_in y m" using v by (simp_all add: valid_date_def)
  have s: "month_start t = epoch_days y m 1 * day" using c m by (simp add: month_start_def go_date_valid)
  have v1: "valid_date y m 1" using m d by (simp add: valid_date_def)
  have "civil (month_start t) = (y, m, 1)"
    unfolding month_start_def c prod.case using civil_go_date[OF v1] by simp
  then have f: "month_end t = (epoch_days y m 1 + days_in y m) * day"
    using m by (simp add: month_end_def add_date_def next_month month_start_def c)
  have t: "t div day = epoch_days y m 1 + (d - 1)" using e by (simp add: epoch_days_def)
  have "t = (t div day) * day + t mod day" "0 \<le> t mod day" "t mod day < day" by simp_all
  then have t2: "t = (epoch_days y m 1 + (d - 1)) * day + t mod day" "0 \<le> t mod day" "t mod day < day"
    using t by simp_all
  have "0 \<le> (d - 1) * day" using d by (intro mult_nonneg_nonneg) (simp_all add: time_simps)
  moreover have t3: "t = epoch_days y m 1 * day + (d - 1) * day + t mod day" using t2(1) by (simp only: distrib_right)
  ultimately show "month_start t \<le> t" unfolding s using t2(2) by linarith
  have "(d - 1) * day + day \<le> days_in y m * day" using d mult_right_mono[of d "days_in y m" day] by (simp add: algebra_simps)
  moreover have "(epoch_days y m 1 + days_in y m) * day = epoch_days y m 1 * day + days_in y m * day" by (simp only: distrib_right)
  ultimately show "t < month_end t" unfolding f using t2(3) t3 by linarith
  show "month_end t - month_start t \<le> 31 * day"
    unfolding f s using days_in_pos(2)[of y m] mult_right_mono[of "days_in y m" 31 day] by (simp add: algebra_simps)
  have "0 < days_in y m * day" using days_in_pos(1)[of y m] by (intro mult_pos_pos) simp_all
  then show "month_start t < month_end t" unfolding f s by (simp add: algebra_simps)
qed

lemma add_days: "add_date t 0 0 k = t + k * day"
proof -
  obtain y m d where c: "civil t = (y, m, d)" by (cases "civil t") auto
  have "1 \<le> m" "m \<le> 12" and e: "epoch_days y m d = t div day"
    using civil_valid[OF c] by (simp_all add: valid_date_def)
  then have "go_date y m (d + k) = (t div day + k) * day"
    by (simp add: go_date_valid flip: e) (simp add: epoch_days_def)
  then show ?thesis using div_mult_mod_eq[of t day] by (simp add: add_date_def c algebra_simps)
qed

lemma same_month:
  assumes "month_start t \<le> x" "x < month_end t"
  shows "month_start x = month_start t" "month_end x = month_end t"
proof -
  obtain y m d where c: "civil t = (y, m, d)" by (cases "civil t") auto
  have v: "valid_date y m d" using civil_valid[OF c] by simp
  have m: "1 \<le> m" "m \<le> 12" and d: "1 \<le> d" "d \<le> days_in y m" using v by (simp_all add: valid_date_def)
  have s: "month_start t = epoch_days y m 1 * day" using c m by (simp add: month_start_def go_date_valid)
  have v1: "valid_date y m 1" using m d by (simp add: valid_date_def)
  have "civil (month_start t) = (y, m, 1)"
    unfolding month_start_def c prod.case using civil_go_date[OF v1] by simp
  then have f: "month_end t = (epoch_days y m 1 + days_in y m) * day"
    using m by (simp add: month_end_def add_date_def next_month month_start_def c)
  let ?k = "x div day - epoch_days y m 1"
  have dp: "0 < day" by simp
  have "epoch_days y m 1 * day div day \<le> x div day"
    using assms(1) unfolding s by (rule zdiv_mono1) (rule dp)
  then have "epoch_days y m 1 \<le> x div day" using dp by simp
  moreover have "x div day < epoch_days y m 1 + days_in y m"
  proof (rule ccontr)
    assume "\<not> x div day < epoch_days y m 1 + days_in y m"
    then have "(epoch_days y m 1 + days_in y m) * day \<le> (x div day) * day" using dp by (intro mult_right_mono) linarith+
    also have "\<dots> \<le> x" using div_mult_mod_eq[of x day] pos_mod_sign[OF dp, of x] by linarith
    finally show False using assms(2) f by simp
  qed
  ultimately have k: "0 \<le> ?k" "?k < days_in y m" by simp_all
  have e: "epoch_days y m (?k + 1) = x div day" by (simp add: epoch_days_def)
  have "valid_date y m (?k + 1)" using k m by (simp add: valid_date_def)
  from civil_unique[OF this, of "x mod day"] have "civil x = (y, m, ?k + 1)"
    unfolding e by simp
  then show "month_start x = month_start t" by (simp add: month_start_def c)
  then show "month_end x = month_end t" by (simp add: month_end_def)
qed

lemma month_start_idem: "month_start (month_start t) = month_start t" "month_end (month_start t) = month_end t"
  using same_month[of t "month_start t"] month_bounds[of t] by simp_all

end
