(* ===== verification/Retention.thy ===== *)
theory Retention
  imports Site Calendar
begin

section \<open>Partitions and retention (internal/db/partitions.go, internal/worker/retention.go)\<close>

text \<open>
  The tables of events, transactions and sessions are partitioned by month: a row needs a partition
  that covers its time, and old rows leave with their partition.  A partition is its parent table
  and its bounds (its name is the table and the month it starts in).  The sweep drops the
  partitions that ended before a table's retention, deletes aged rows of three small tables and
  opens the partitions of two months.
\<close>

subsection \<open>Creating partitions\<close>

definition partitioned_tables :: "string list" where
  "partitioned_tables = [''events_part'', ''transactions_part'', ''sessions_part'']"

definition on_store :: "'a stmt \<Rightarrow> 'a query" where
  "on_store q d = map_option (\<lambda>(a, s). (a, d\<lparr>store := s\<rparr>)) (q (store d))"

text \<open>\<open>CREATE TABLE IF NOT EXISTS ... PARTITION OF\<close>; bounds must not overlap another partition.\<close>

definition q_create_partition :: "string \<Rightarrow> time \<Rightarrow> time \<Rightarrow> unit stmt" where
  "q_create_partition tbl from to d =
     (if list_ex (\<lambda>(n, f, _). n = tbl \<and> f = from) (partitions d) then Some ((), d)
      else if list_ex (\<lambda>(n, f, e). n = tbl \<and> f < to \<and> from < e) (partitions d) \<or> to \<le> from then None
      else Some ((), d\<lparr>partitions := partitions d @ [(tbl, from, to)]\<rparr>))"

definition ensure_month :: "world \<Rightarrow> net \<Rightarrow> time \<Rightarrow> unit iom" where
  "ensure_month w n m =
     for_each (\<lambda>tbl. wrap_err (''create partition '' @ tbl)
       (query w n (on_store (q_create_partition tbl (month_start m) (month_end m))))) partitioned_tables"

definition ensure_partitions :: "world \<Rightarrow> net \<Rightarrow> time list \<Rightarrow> unit iom" where
  "ensure_partitions w n months = for_each (ensure_month w n) months"

subsection \<open>Dropping partitions\<close>

text \<open>\<open>-07:00\<close> and \<open>-07\<close>.\<close>

definition zone_colon :: "string \<Rightarrow> int option" where
  "zone_colon s = (if s = ''Z'' then None else zone_part s)"

definition zone_short :: "string \<Rightarrow> int option" where
  "zone_short s = (if length s = 3 \<and> s ! 0 \<in> {CHR ''+'', CHR ''-''} then zone_part (s @ '':00'') else None)"

definition parse_partition_timestamp :: "string \<Rightarrow> time option" where
  "parse_partition_timestamp s =
     (case parse_rfc3339 s of
        Some t \<Rightarrow> Some t
      | None \<Rightarrow>
          (case layout_parse CHR '' '' zone_colon s of
             Some t \<Rightarrow> Some t
           | None \<Rightarrow>
               (case layout_parse CHR '' '' zone_short s of
                  Some t \<Rightarrow> Some t
                | None \<Rightarrow> layout_parse CHR '' '' no_zone s)))"

definition bound_text :: "net \<Rightarrow> time \<Rightarrow> time \<Rightarrow> string" where
  "bound_text n from to =
     ''FOR VALUES FROM ('' @ [CHR 0x27] @ n_bound n from @ [CHR 0x27] @ '') TO ('' @ [CHR 0x27] @ n_bound n to @ [CHR 0x27] @ '')''"

definition bound_to :: "string \<Rightarrow> time option" where
  "bound_to s =
     (let rest = fst (snd (cut s ''TO''));
          ts = fst (snd (cut rest [CHR 0x27]));
          ts = fst (cut ts [CHR 0x27])
      in parse_partition_timestamp ts)"

definition q_partitions :: "net \<Rightarrow> string \<Rightarrow> site \<Rightarrow> ((time \<times> time) \<times> string) list" where
  "q_partitions n tbl d =
     map (\<lambda>(_, f, e). ((f, e), bound_text n f e)) (filter (\<lambda>(t, _). t = tbl) (partitions (store d)))"

text \<open>\<open>DROP TABLE\<close> of a partition takes its rows along.\<close>

definition inside :: "time \<Rightarrow> time \<Rightarrow> time \<Rightarrow> bool" where "inside f e t \<longleftrightarrow> f \<le> t \<and> t < e"

definition q_drop_partition :: "string \<Rightarrow> time \<times> time \<Rightarrow> unit stmt" where
  "q_drop_partition tbl b d = Some ((), (case b of (f, e) \<Rightarrow> d\<lparr>
     partitions := filter (\<lambda>p. p \<noteq> (tbl, f, e)) (partitions d),
     events := (if tbl = ''events_part'' then filter (\<lambda>r. \<not> inside f e (ev_timestamp r)) (events d) else events d),
     transactions := (if tbl = ''transactions_part''
       then filter (\<lambda>r. \<not> inside f e (t_timestamp r)) (transactions d) else transactions d),
     sessions := (if tbl = ''sessions_part'' then filter (\<lambda>r. \<not> inside f e (s_started r)) (sessions d) else sessions d)\<rparr>))"

definition drop_partitions :: "world \<Rightarrow> net \<Rightarrow> string \<Rightarrow> time \<Rightarrow> unit iom" where
  "drop_partitions w n tbl cutoff =
     bind (query w n (select (q_partitions n tbl))) (\<lambda>parts.
     for_each (\<lambda>(b, text). case bound_to text of
         None \<Rightarrow> ret ()
       | Some to \<Rightarrow>
           if to < cutoff then query w n (on_store (q_drop_partition tbl b)) else ret ()) parts)"

subsection \<open>The sweep\<close>

record retention_config =
  rc_events :: int
  rc_transactions :: int
  rc_sessions :: int
  rc_session_rollups :: int
  rc_feedback :: int
  rc_release_files :: int

definition job_kind_retention_sweep :: string where "job_kind_retention_sweep = ''retention_sweep''"

definition days_ago :: "time \<Rightarrow> int \<Rightarrow> time" where "days_ago t k = add_date t 0 0 (- k)"

definition q_delete_feedbacks :: "time \<Rightarrow> unit stmt" where
  "q_delete_feedbacks cutoff d = Some ((), d\<lparr>feedbacks := delete_where (\<lambda>f. fb_received f < cutoff) (feedbacks d)\<rparr>)"

definition q_delete_hashes :: "time \<Rightarrow> unit stmt" where
  "q_delete_hashes cutoff d = Some ((), d\<lparr>user_hashes := delete_where (\<lambda>h. uh_first_seen h < cutoff) (user_hashes d)\<rparr>)"

definition q_delete_rollups :: "time \<Rightarrow> unit stmt" where
  "q_delete_rollups cutoff d = Some ((), d\<lparr>session_rollups := delete_where (\<lambda>r. sr_hour r < cutoff) (session_rollups d)\<rparr>)"

definition retention_drops :: "time \<Rightarrow> retention_config \<Rightarrow> (string \<times> time) list" where
  "retention_drops now rc =
     [(''events_part'', days_ago now (rc_events rc)),
      (''transactions_part'', days_ago now (rc_transactions rc)),
      (''sessions_part'', days_ago now (rc_sessions rc))]"

definition run_retention_sweep :: "world \<Rightarrow> net \<Rightarrow> retention_config \<Rightarrow> unit iom" where
  "run_retention_sweep w n rc =
     (let now = w_now w in
      bind (for_each (\<lambda>(tbl, cutoff). wrap_err (''drop '' @ tbl @ '' partitions'') (drop_partitions w n tbl cutoff))
              (retention_drops now rc)) (\<lambda>_.
      bind (for_each (\<lambda>q. wrap_err ''retention delete'' (query w n (on_store q)))
              [q_delete_feedbacks (days_ago now (rc_feedback rc)),
               q_delete_hashes (days_ago now (rc_events rc)),
               q_delete_rollups (days_ago now (rc_session_rollups rc))]) (\<lambda>_.
      wrap_err ''ensure partitions'' (ensure_partitions w n [now, add_date now 0 1 0]))))"

end
