(* ===== verification/RetentionProps.thy ===== *)
theory RetentionProps
  imports Retention SiteSamples
begin

section \<open>What a retention sweep keeps, drops and opens\<close>

text \<open>
  Steps of the sweep as updates of the partitions and rows: young rows survive any prefix of it, and a complete sweep leaves
  neither old rows nor missing partitions.
\<close>

subsection \<open>Nothing young is lost\<close>

text \<open>The program reads the server's text of every bound back as the bound.\<close>

definition readable :: "net \<Rightarrow> site \<Rightarrow> bool" where
  "readable n d \<longleftrightarrow> list_all (\<lambda>(_, f, e). bound_to (bound_text n f e) = Some e) (partitions (store d))"

definition dropped :: "string \<Rightarrow> time \<times> time \<Rightarrow> site \<Rightarrow> site" where
  "dropped tbl b d = d\<lparr>store := snd (the (q_drop_partition tbl b (store d)))\<rparr>"

lemma on_store_drop: "on_store (q_drop_partition tbl b) d = Some ((), dropped tbl b d)"
  by (simp add: on_store_def q_drop_partition_def dropped_def)

lemma steady_drop_partitions:
  assumes r: "\<And>d. J d \<Longrightarrow> readable n d"
    and J: "\<And>d f e. J d \<Longrightarrow> e < cutoff \<Longrightarrow> J (dropped tbl (f, e) d)"
  shows "steady (on_site J) (drop_partitions w n tbl cutoff)"
proof -
  let ?f = "\<lambda>(b, text). case bound_to text of None \<Rightarrow> ret ()
    | Some to \<Rightarrow> if to < cutoff then query w n (on_store (q_drop_partition tbl b)) else ret ()"
  have parts: "steady (on_site J) (for_each ?f parts)"
    if "\<forall>(b, text)\<in>set parts. bound_to text = Some (snd b)" for parts
  proof (intro steady_for_each)
    fix x assume "x \<in> set parts"
    obtain f e bt where x: "x = ((f, e), bt)" by (metis surj_pair)
    then have "bound_to bt = Some e" using that \<open>x \<in> set parts\<close> by auto
    then show "steady (on_site J) (?f x)"
      using J[of _ e f] x by (auto simp: on_store_drop intro!: steady_intros steady_query)
  qed
  show ?thesis unfolding steady_def
  proof (intro allI impI)
    fix s :: io assume s: "J (io_site s)"
    have q: "\<forall>(b, text)\<in>set (q_partitions n tbl (io_site s)). bound_to text = Some (snd b)"
      using r[OF s] by (auto simp: readable_def q_partitions_def list_all_iff)
    show "J (io_site (snd (drop_partitions w n tbl cutoff s)))"
    proof (cases "w_fault w (io_calls s)")
      case True
      then show ?thesis using s by (simp add: drop_partitions_def bind_def query_def)
    next
      case False
      then have "query w n (select (q_partitions n tbl)) s = (Inr (q_partitions n tbl (io_site s)), called s)"
        by (simp add: query_def select_def called_def)
      moreover have "J (io_site (snd (for_each ?f (q_partitions n tbl (io_site s)) (called s))))"
        using parts[OF q] s unfolding steady_def by (metis called_simps(1))
      ultimately show ?thesis by (simp add: drop_partitions_def bind_total)
    qed
  qed
qed

text \<open>The rows a sweep must not touch, as the filtered tables.\<close>

definition young :: "time \<Rightarrow> retention_config \<Rightarrow> db \<Rightarrow> event_row list \<times> transaction_row list \<times> session_row list" where
  "young now rc d =
     (filter (\<lambda>r. days_ago now (rc_events rc) \<le> ev_timestamp r) (events d),
      filter (\<lambda>r. days_ago now (rc_transactions rc) \<le> t_timestamp r) (transactions d),
      filter (\<lambda>r. days_ago now (rc_sessions rc) \<le> s_started r) (sessions d))"

definition young_small :: "time \<Rightarrow> retention_config \<Rightarrow> db \<Rightarrow> feedback_row list \<times> user_hash_row list \<times> session_rollup_row list" where
  "young_small now rc d =
     (filter (\<lambda>r. days_ago now (rc_feedback rc) \<le> fb_received r) (feedbacks d),
      filter (\<lambda>r. days_ago now (rc_events rc) \<le> uh_first_seen r) (user_hashes d),
      filter (\<lambda>r. days_ago now (rc_session_rollups rc) \<le> sr_hour r) (session_rollups d))"

definition lasting :: "db \<Rightarrow> issue_row list \<times> event_rollup_row list \<times> project_rollup_row list \<times> release_row list" where
  "lasting d = (issues d, event_rollups d, project_rollups d, releases d)"

definition keeps_young :: "world \<Rightarrow> retention_config \<Rightarrow> site \<Rightarrow> site \<Rightarrow> bool" where
  "keeps_young w rc d0 d \<longleftrightarrow>
     young (w_now w) rc (store d) = young (w_now w) rc (store d0) \<and>
     young_small (w_now w) rc (store d) = young_small (w_now w) rc (store d0) \<and>
     lasting (store d) = lasting (store d0)"

lemma young_inside: "e < c \<Longrightarrow> filter (\<lambda>r. \<not> inside f e (k r) \<and> c \<le> k r) xs = filter (\<lambda>r. c \<le> k r) xs"
  for k :: "'r \<Rightarrow> int"
  by (rule filter_cong) (auto simp: inside_def)

lemma keeps_young_dropped:
  assumes "keeps_young w rc d0 d" "(tbl, cutoff) \<in> set (retention_drops (w_now w) rc)" "e < cutoff"
  shows "keeps_young w rc d0 (dropped tbl (f, e) d)"
proof -
  have "young (w_now w) rc (store (dropped tbl (f, e) d)) = young (w_now w) rc (store d)"
    using assms(2,3) unfolding retention_drops_def list.set
    by (elim insertE emptyE; simp add: young_def dropped_def q_drop_partition_def young_inside)
  moreover have "young_small (w_now w) rc (store (dropped tbl (f, e) d)) = young_small (w_now w) rc (store d)"
    "lasting (store (dropped tbl (f, e) d)) = lasting (store d)"
    by (simp_all add: young_small_def lasting_def dropped_def q_drop_partition_def)
  ultimately show ?thesis using assms(1) by (simp add: keeps_young_def)
qed

lemma readable_dropped: "readable n d \<Longrightarrow> readable n (dropped tbl b d)"
  by (auto simp: readable_def dropped_def q_drop_partition_def list_all_iff split: prod.splits)

lemma young_delete:
  "delete_where (\<lambda>r. f r < c) xs = filter (\<lambda>r. c \<le> f r) xs" for f :: "'r \<Rightarrow> int"
  unfolding delete_where_def by (rule filter_cong) auto

lemma keeps_young_delete:
  assumes "keeps_young w rc d0 d" "q \<in> set [q_delete_feedbacks (days_ago (w_now w) (rc_feedback rc)),
      q_delete_hashes (days_ago (w_now w) (rc_events rc)), q_delete_rollups (days_ago (w_now w) (rc_session_rollups rc))]"
    "on_store q d = Some (u, d')"
  shows "keeps_young w rc d0 d'"
proof -
  have "young (w_now w) rc (store d') = young (w_now w) rc (store d) \<and>
    young_small (w_now w) rc (store d') = young_small (w_now w) rc (store d) \<and> lasting (store d') = lasting (store d)"
    using assms(2,3) unfolding list.set
    by (elim insertE emptyE; clarsimp simp: on_store_def q_delete_feedbacks_def q_delete_hashes_def q_delete_rollups_def
        young_def young_small_def lasting_def young_delete)
  then show ?thesis using assms(1) by (simp add: keeps_young_def)
qed

lemma keeps_young_create: "keeps_young w rc d0 d \<Longrightarrow> on_store (q_create_partition tbl a b) d = Some (u, d') \<Longrightarrow> keeps_young w rc d0 d'"
  by (auto simp: keeps_young_def young_def young_small_def lasting_def on_store_def q_create_partition_def split: if_splits)

lemma bind_steady:
  "steady I m \<Longrightarrow> (\<And>s. I s \<Longrightarrow> J s) \<Longrightarrow> (\<And>a. steady J (f a)) \<Longrightarrow> I s \<Longrightarrow> J (snd (bind m f s))"
  unfolding steady_def bind_def by (auto split: prod.splits sum.splits)

lemma steady_ensure:
  assumes "\<And>d tbl a b u d'. J d \<Longrightarrow> on_store (q_create_partition tbl a b) d = Some (u, d') \<Longrightarrow> J d'"
  shows "steady (on_site J) (ensure_partitions w n ms)"
  unfolding ensure_partitions_def ensure_month_def by (intro steady_intros steady_query) (rule assms)

lemma steady_drops:
  "steady (on_site (\<lambda>d. keeps_young w rc d0 d \<and> readable n d))
     (for_each (\<lambda>(tbl, cutoff). wrap_err (''drop '' @ tbl @ '' partitions'') (drop_partitions w n tbl cutoff))
        (retention_drops (w_now w) rc))"
proof (intro steady_for_each)
  fix x assume x: "x \<in> set (retention_drops (w_now w) rc)"
  obtain tbl cutoff where t: "x = (tbl, cutoff)" by (cases x)
  show "steady (on_site (\<lambda>d. keeps_young w rc d0 d \<and> readable n d))
      (case x of (tbl, cutoff) \<Rightarrow> wrap_err (''drop '' @ tbl @ '' partitions'') (drop_partitions w n tbl cutoff))"
    using x unfolding t prod.case
    by (intro steady_wrap steady_drop_partitions) (auto intro: keeps_young_dropped readable_dropped)
qed

text \<open>C27: A retention sweep, complete or stopped by any failing statement, never removes an event, a
  transaction, a session, a feedback, a user hash or a session rollup younger than its retention, and
  leaves issues, releases and the event rollups alone, as long as the program reads the server's text of
  the partition bounds back as these bounds.\<close>

theorem sweep_keeps_young:
  assumes "readable n (io_site s)"
  shows "keeps_young w rc (io_site s) (io_site (snd (run_retention_sweep w n rc s)))"
proof -
  let ?K = "\<lambda>d. keeps_young w rc (io_site s) d"
  have start: "?K (io_site s) \<and> readable n (io_site s)" using assms by (simp add: keeps_young_def)
  have deletes: "steady (on_site ?K) (query w n (on_store q))"
    if "q \<in> set [q_delete_feedbacks (days_ago (w_now w) (rc_feedback rc)),
      q_delete_hashes (days_ago (w_now w) (rc_events rc)), q_delete_rollups (days_ago (w_now w) (rc_session_rollups rc))]" for q
    using that by (intro steady_query) (rule keeps_young_delete)
  show ?thesis
    unfolding run_retention_sweep_def Let_def
  proof (rule bind_steady[OF steady_drops, where J = "on_site ?K"])
    show "?K (io_site s) \<and> readable n (io_site s)" by (rule start)
  qed (auto intro!: steady_intros deletes steady_ensure intro: keeps_young_create)
qed

subsection \<open>A sweep whose statements succeed\<close>

definition monthly :: "site \<Rightarrow> bool" where
  "monthly d \<longleftrightarrow> list_all (\<lambda>(_, f, e). f = month_start f \<and> e = month_end f) (partitions (store d))"

text \<open>The times of the rows of a partitioned table.\<close>

definition row_times :: "string \<Rightarrow> site \<Rightarrow> time list" where
  "row_times tbl d =
     (if tbl = ''events_part'' then map ev_timestamp (events (store d))
      else if tbl = ''transactions_part'' then map t_timestamp (transactions (store d))
      else if tbl = ''sessions_part'' then map s_started (sessions (store d)) else [])"

definition placed :: "site \<Rightarrow> bool" where
  "placed d \<longleftrightarrow> list_all (\<lambda>tbl. list_all (has_partition (store d) tbl) (row_times tbl d)) partitioned_tables"

definition bounds_of :: "string \<Rightarrow> site \<Rightarrow> (time \<times> time) list" where
  "bounds_of tbl d = map snd (filter (\<lambda>p. fst p = tbl) (partitions (store d)))"

definition drop_old :: "string \<Rightarrow> time \<Rightarrow> site \<Rightarrow> site" where
  "drop_old tbl cutoff d = fold (\<lambda>(f, e). if e < cutoff then dropped tbl (f, e) else id) (bounds_of tbl d) d"

lemma for_each_calm:
  "(\<And>x s. x \<in> set xs \<Longrightarrow> I (io_site s) \<Longrightarrow> \<exists>s'. f x s = (Inr (), s') \<and> io_site s' = g x (io_site s) \<and> I (g x (io_site s))) \<Longrightarrow>
   I (io_site s) \<Longrightarrow> \<exists>s'. for_each f xs s = (Inr (), s') \<and> io_site s' = fold g xs (io_site s) \<and> I (fold g xs (io_site s))"
proof (induction xs arbitrary: s)
  case (Cons x xs)
  obtain s1 where s1: "f x s = (Inr (), s1)" "io_site s1 = g x (io_site s)" "I (io_site s1)" using Cons.prems(1)[of x s] Cons.prems(2) by auto
  then show ?case using Cons.IH[of s1] Cons.prems(1) by (auto simp: bind_total)
qed (simp add: ret_def)

lemma query_Some_calm: "calm w \<Longrightarrow> q (io_site s) = Some (a, d) \<Longrightarrow> query w n q s = (Inr a, called s\<lparr>io_site := d\<rparr>)"
  by (simp add: query_calm)

lemma wrap_ok: "m s = (Inr a, s') \<Longrightarrow> wrap_err p m s = (Inr a, s')"
  by (simp add: wrap_err_def)

lemma drop_partitions_calm:
  assumes "calm w" "readable n (io_site s)"
  shows "\<exists>s'. drop_partitions w n tbl cutoff s = (Inr (), s') \<and> io_site s' = drop_old tbl cutoff (io_site s)"
proof -
  let ?parts = "q_partitions n tbl (io_site s)"
  let ?f = "\<lambda>(b, bt). case bound_to bt of None \<Rightarrow> ret ()
    | Some to \<Rightarrow> if to < cutoff then query w n (on_store (q_drop_partition tbl b)) else ret ()"
  let ?g = "\<lambda>(b, bt :: string). if snd b < cutoff then dropped tbl b else id"
  have r: "bound_to (snd x) = Some (snd (fst x))" if "x \<in> set ?parts" for x
    using that assms(2) by (auto simp: readable_def q_partitions_def list_all_iff)
  have "\<exists>s'. for_each ?f ?parts (called s) = (Inr (), s') \<and> io_site s' = fold ?g ?parts (io_site (called s))"
  proof (rule for_each_calm[where I = "\<lambda>_. True", simplified])
    fix x s1 assume "x \<in> set ?parts"
    moreover obtain b bt where x: "x = (b, bt)" by (metis surj_pair)
    ultimately have "bound_to bt = Some (snd b)" using r[of x] by simp
    then show "\<exists>s'. ?f x s1 = (Inr (), s') \<and> io_site s' = ?g x (io_site s1)"
      using assms(1) by (simp add: x query_calm on_store_drop ret_def)
  qed
  moreover have "fold ?g (map (\<lambda>(_, f, e). ((f, e), bound_text n f e)) (filter (\<lambda>(t, _). t = tbl) ps)) d =
      fold (\<lambda>(f, e). if e < cutoff then dropped tbl (f, e) else id) (map snd (filter (\<lambda>p. fst p = tbl) ps)) d" for ps d
    by (induction ps arbitrary: d) auto
  then have "fold ?g ?parts d = fold (\<lambda>(f, e). if e < cutoff then dropped tbl (f, e) else id) (bounds_of tbl (io_site s)) d" for d
    unfolding q_partitions_def bounds_of_def .
  ultimately show ?thesis
    using assms(1) by (simp add: drop_partitions_def bind_total query_select_calm drop_old_def)
qed

lemma row_times_dropped: "tbl' \<in> set partitioned_tables \<Longrightarrow> row_times tbl (dropped tbl' (f, e) d) =
    (if tbl = tbl' then filter (\<lambda>t. \<not> inside f e t) (row_times tbl d) else row_times tbl d)"
  unfolding partitioned_tables_def list.set
  by (elim insertE emptyE; simp add: row_times_def dropped_def q_drop_partition_def filter_map comp_def)

abbreviation drop_list :: "string \<Rightarrow> time \<Rightarrow> (time \<times> time) list \<Rightarrow> site \<Rightarrow> site" where
  "drop_list tbl cutoff bs d \<equiv> fold (\<lambda>(f, e). if e < cutoff then dropped tbl (f, e) else id) bs d"

lemma row_times_drop_list: "tbl' \<in> set partitioned_tables \<Longrightarrow> row_times tbl (drop_list tbl' cutoff bs d) =
    (if tbl = tbl' then filter (\<lambda>t. list_all (\<lambda>(f, e). e < cutoff \<longrightarrow> \<not> inside f e t) bs) (row_times tbl d) else row_times tbl d)"
proof (induction bs arbitrary: d)
  case (Cons b bs)
  obtain f e where b: "b = (f, e)" by (cases b)
  show ?case
  proof (cases "e < cutoff")
    case True
    then show ?thesis using Cons.IH[OF Cons.prems, of "dropped tbl' (f, e) d"]
      by (simp add: b row_times_dropped[OF Cons.prems])
  next
    case False
    then show ?thesis using Cons.IH[OF Cons.prems, of d] by (simp add: b)
  qed
qed simp

lemma partitions_dropped: "partitions (store (dropped tbl b d)) = filter (\<lambda>p. p \<noteq> (tbl, b)) (partitions (store d))"
  by (simp add: dropped_def q_drop_partition_def split: prod.split)

lemma partitions_drop_list: "set (partitions (store (drop_list tbl cutoff bs d))) \<subseteq> set (partitions (store d))"
proof (induction bs arbitrary: d)
  case (Cons b bs)
  obtain f e where b: "b = (f, e)" by (cases b)
  show ?case using Cons.IH[of d] Cons.IH[of "dropped tbl (f, e) d"] by (auto simp: b partitions_dropped)
qed simp

lemma bounds_of_drop_list: "tbl \<noteq> tbl' \<Longrightarrow> bounds_of tbl (drop_list tbl' cutoff bs d) = bounds_of tbl d"
proof (induction bs arbitrary: d)
  case (Cons b bs)
  obtain f e where b: "b = (f, e)" by (cases b)
  have "bounds_of tbl (dropped tbl' (f, e) d) = bounds_of tbl d"
    using Cons.prems by (auto simp: bounds_of_def partitions_dropped intro!: arg_cong[of _ _ "map snd"] filter_cong)
  then show ?case using Cons.IH[OF Cons.prems, of d] Cons.IH[OF Cons.prems, of "dropped tbl' (f, e) d"] by (simp add: b)
qed simp

definition drops_done :: "time \<Rightarrow> retention_config \<Rightarrow> site \<Rightarrow> site" where
  "drops_done now rc d = fold (\<lambda>(tbl, cutoff). drop_old tbl cutoff) (retention_drops now rc) d"

lemma readable_sub: "readable n d \<Longrightarrow> set (partitions (store d')) \<subseteq> set (partitions (store d)) \<Longrightarrow> readable n d'"
  by (auto simp: readable_def list_all_iff)

lemma monthly_sub: "monthly d \<Longrightarrow> set (partitions (store d')) \<subseteq> set (partitions (store d)) \<Longrightarrow> monthly d'"
  by (auto simp: monthly_def list_all_iff)

lemma drops_done_calm:
  assumes "calm w" "readable n (io_site s)"
  shows "\<exists>s'. for_each (\<lambda>(tbl, cutoff). wrap_err (''drop '' @ tbl @ '' partitions'') (drop_partitions w n tbl cutoff))
        (retention_drops now rc) s = (Inr (), s') \<and> io_site s' = drops_done now rc (io_site s) \<and>
        set (partitions (store (io_site s'))) \<subseteq> set (partitions (store (io_site s)))"
proof -
  have "readable n (io_site s) \<Longrightarrow> \<exists>s'. for_each (\<lambda>(tbl, cutoff). wrap_err (''drop '' @ tbl @ '' partitions'') (drop_partitions w n tbl cutoff))
        ds s = (Inr (), s') \<and> io_site s' = fold (\<lambda>(tbl, cutoff). drop_old tbl cutoff) ds (io_site s) \<and>
        set (partitions (store (io_site s'))) \<subseteq> set (partitions (store (io_site s)))" for ds
  proof (induction ds arbitrary: s)
    case (Cons x ds)
    obtain tbl cutoff where x: "x = (tbl, cutoff)" by (cases x)
    obtain s1 where s1: "drop_partitions w n tbl cutoff s = (Inr (), s1)" "io_site s1 = drop_old tbl cutoff (io_site s)"
      using drop_partitions_calm[OF assms(1) Cons.prems] by blast
    have sub: "set (partitions (store (io_site s1))) \<subseteq> set (partitions (store (io_site s)))"
      using partitions_drop_list s1(2) by (simp add: drop_old_def)
    show ?case using Cons.IH[OF readable_sub[OF Cons.prems sub]] sub s1
      by (auto simp: x bind_total wrap_ok s1(1))
  qed (simp add: ret_def)
  then show ?thesis using assms(2) by (simp add: drops_done_def)
qed

text \<open>The times that are left in a table after the drops.\<close>

lemma drops_done_times:
  assumes "placed d" "monthly d" "(tbl, cutoff) \<in> set (retention_drops now rc)" "t \<in> set (row_times tbl (drops_done now rc d))"
  shows "cutoff - 31 * day \<le> t"
proof -
  let ?tbls = partitioned_tables
  have tbl: "tbl \<in> set ?tbls" using assms(3) by (auto simp: retention_drops_def partitioned_tables_def)
  have "row_times tbl (drops_done now rc d) =
      filter (\<lambda>t. list_all (\<lambda>(f, e). e < cutoff \<longrightarrow> \<not> inside f e t) (bounds_of tbl d)) (row_times tbl d)"
    using assms(3) unfolding retention_drops_def list.set
    by (elim insertE emptyE; simp add: drops_done_def retention_drops_def drop_old_def row_times_drop_list
        partitioned_tables_def bounds_of_drop_list)
  then have t: "t \<in> set (row_times tbl d)" "list_all (\<lambda>(f, e). e < cutoff \<longrightarrow> \<not> inside f e t) (bounds_of tbl d)"
    using assms(4) by auto
  then have "has_partition (store d) tbl t" using assms(1) tbl by (auto simp: placed_def list_all_iff)
  then obtain f e where p: "(tbl, f, e) \<in> set (partitions (store d))" "f \<le> t" "t < e"
    by (auto simp: has_partition_def list_ex_iff)
  then have b: "(f, e) \<in> set (bounds_of tbl d)" by (force simp: bounds_of_def)
  then have c: "cutoff \<le> e" using t(2) p(2,3) by (force simp: list_all_iff inside_def)
  have "f = month_start f" "e = month_end f" using assms(2) p(1) by (auto simp: monthly_def list_all_iff)
  then show ?thesis using month_bounds(3)[of f] c p(2) by linarith
qed

text \<open>Opening a month succeeds when all partitions are months, and loses nothing.\<close>

definition opened :: "string \<Rightarrow> time \<Rightarrow> site \<Rightarrow> site" where
  "opened tbl m d = (case on_store (q_create_partition tbl (month_start m) (month_end m)) d of
     None \<Rightarrow> d | Some (_, d') \<Rightarrow> d')"

lemma create_month:
  assumes "monthly d"
  shows "on_store (q_create_partition tbl (month_start m) (month_end m)) d = Some ((), opened tbl m d)"
    "monthly (opened tbl m d)" "row_times tbl' (opened tbl m d) = row_times tbl' d"
    "has_partition (store (opened tbl m d)) tbl m"
    "has_partition (store d) tbl' x \<Longrightarrow> has_partition (store (opened tbl m d)) tbl' x"
proof -
  let ?f = "month_start m" and ?e = "month_end m"
  have p: "f = month_start f \<and> e = month_end f" if "(n, f, e) \<in> set (partitions (store d))" for n f e
    using assms that by (auto simp: monthly_def list_all_iff)
  have clash: "f = ?f" if "(n, f, e) \<in> set (partitions (store d))" "f < ?e" "?f < e" for n f e
  proof -
    let ?x = "max f ?f"
    have "month_start ?x = month_start f" using p[OF that(1)] that(2,3) month_bounds[of f]
      by (intro same_month(1)) auto
    moreover have "month_start ?x = month_start m" using that(2,3) month_bounds[of m] by (intro same_month(1)) auto
    ultimately show ?thesis using p[OF that(1)] by simp
  qed
  have not_empty: "\<not> ?e \<le> ?f" using month_bounds(4)[of m] by simp
  show q: "on_store (q_create_partition tbl ?f ?e) d = Some ((), opened tbl m d)"
    using clash not_empty
    by (auto simp: on_store_def opened_def q_create_partition_def list_ex_iff)
  have cases: "(opened tbl m d = d \<and> (\<exists>e. (tbl, ?f, e) \<in> set (partitions (store d)))) \<or>
      opened tbl m d = d\<lparr>store := (store d)\<lparr>partitions := partitions (store d) @ [(tbl, ?f, ?e)]\<rparr>\<rparr>"
    using q by (auto simp: on_store_def q_create_partition_def list_ex_iff split: if_splits)
  show "monthly (opened tbl m d)"
    using cases by (rule disjE) (use assms in \<open>simp_all add: monthly_def month_start_idem\<close>)
  show "row_times tbl' (opened tbl m d) = row_times tbl' d"
    using cases by (rule disjE) (simp_all add: row_times_def)
  show "has_partition (store d) tbl' x \<Longrightarrow> has_partition (store (opened tbl m d)) tbl' x"
    using cases by (rule disjE) (simp_all add: has_partition_def)
  show "has_partition (store (opened tbl m d)) tbl m"
    using cases
  proof
    assume "opened tbl m d = d \<and> (\<exists>e. (tbl, ?f, e) \<in> set (partitions (store d)))"
    then obtain e where e: "opened tbl m d = d" "(tbl, ?f, e) \<in> set (partitions (store d))" by auto
    then have "e = ?e" using p month_start_idem(2) by metis
    then show ?thesis using e month_bounds(1,2)[of m] by (force simp: has_partition_def list_ex_iff)
  qed (use month_bounds(1,2)[of m] in \<open>simp add: has_partition_def\<close>)
qed

definition opens :: "time list \<Rightarrow> site \<Rightarrow> site" where
  "opens ms d = fold (\<lambda>m. fold (\<lambda>tbl. opened tbl m) partitioned_tables) ms d"

lemma opened_tables:
  assumes "monthly d"
  shows "monthly (fold (\<lambda>tbl. opened tbl m) tbls d) \<and> (\<forall>tbl. row_times tbl (fold (\<lambda>tbl. opened tbl m) tbls d) = row_times tbl d) \<and>
    (\<forall>tbl\<in>set tbls. has_partition (store (fold (\<lambda>tbl. opened tbl m) tbls d)) tbl m) \<and>
    (\<forall>tbl x. has_partition (store d) tbl x \<longrightarrow> has_partition (store (fold (\<lambda>tbl. opened tbl m) tbls d)) tbl x)"
  using assms
proof (induction tbls arbitrary: d)
  case (Cons t tbls)
  show ?case
    using Cons.IH[OF create_month(2)[OF Cons.prems, of t m]] create_month(3-5)[OF Cons.prems, where tbl = t and m = m] by auto
qed simp

lemma opens_facts:
  assumes "monthly d"
  shows "monthly (opens ms d) \<and> (\<forall>tbl. row_times tbl (opens ms d) = row_times tbl d) \<and>
    (\<forall>m\<in>set ms. \<forall>tbl\<in>set partitioned_tables. has_partition (store (opens ms d)) tbl m) \<and>
    (\<forall>tbl x. has_partition (store d) tbl x \<longrightarrow> has_partition (store (opens ms d)) tbl x)"
  using assms
proof (induction ms arbitrary: d)
  case (Cons m ms)
  have o: "opens (m # ms) d = opens ms (fold (\<lambda>tbl. opened tbl m) partitioned_tables d)" by (simp add: opens_def)
  show ?case
    using Cons.IH[of "fold (\<lambda>tbl. opened tbl m) partitioned_tables d"] opened_tables[OF Cons.prems, of m partitioned_tables]
    unfolding o by auto
qed (simp add: opens_def)

lemma ensure_calm:
  assumes "calm w" "monthly (io_site s)"
  shows "\<exists>s'. ensure_partitions w n ms s = (Inr (), s') \<and> io_site s' = opens ms (io_site s)"
proof -
  have month: "\<exists>s'. ensure_month w n m s = (Inr (), s') \<and> io_site s' = fold (\<lambda>tbl. opened tbl m) partitioned_tables (io_site s) \<and>
      monthly (fold (\<lambda>tbl. opened tbl m) partitioned_tables (io_site s))" if "monthly (io_site s)" for m s
    unfolding ensure_month_def
  proof (rule for_each_calm[where I = monthly])
    fix tbl and s1 :: io assume m: "monthly (io_site s1)"
    have "query w n (on_store (q_create_partition tbl (month_start m) (month_end m))) s1 = (Inr (), called s1\<lparr>io_site := opened tbl m (io_site s1)\<rparr>)"
      by (rule query_Some_calm[OF assms(1)]) (rule create_month(1)[OF m])
    then show "\<exists>s'. wrap_err (''create partition '' @ tbl)
        (query w n (on_store (q_create_partition tbl (month_start m) (month_end m)))) s1 = (Inr (), s') \<and>
        io_site s' = opened tbl m (io_site s1) \<and> monthly (opened tbl m (io_site s1))"
      using create_month(2)[OF m] by (simp add: wrap_ok)
  qed (rule that)
  show ?thesis
    using for_each_calm[where I = monthly and g = "\<lambda>m. fold (\<lambda>tbl. opened tbl m) partitioned_tables", OF month assms(2)]
    unfolding ensure_partitions_def opens_def by blast
qed

lemma deletes_calm:
  assumes "calm w" "\<And>q d. q \<in> set qs \<Longrightarrow> \<exists>s. q d = Some ((), s) \<and> partitions s = partitions d \<and>
    events s = events d \<and> transactions s = transactions d \<and> sessions s = sessions d"
  shows "\<exists>s'. for_each (\<lambda>q. wrap_err p (query w n (on_store q))) qs s = (Inr (), s') \<and>
    partitions (store (io_site s')) = partitions (store (io_site s)) \<and> (\<forall>tbl. row_times tbl (io_site s') = row_times tbl (io_site s))"
  using assms(2)
proof (induction qs arbitrary: s)
  case (Cons q qs)
  obtain d where d: "q (store (io_site s)) = Some ((), d)" "partitions d = partitions (store (io_site s))"
    "events d = events (store (io_site s))" "transactions d = transactions (store (io_site s))"
    "sessions d = sessions (store (io_site s))"
    using Cons.prems[of q "store (io_site s)"] by auto
  let ?s1 = "called s\<lparr>io_site := (io_site s)\<lparr>store := d\<rparr>\<rparr>"
  have "query w n (on_store q) s = (Inr (), ?s1)"
    using assms(1) d(1) by (simp add: query_calm on_store_def)
  then have run: "for_each (\<lambda>q. wrap_err p (query w n (on_store q))) (q # qs) s =
      for_each (\<lambda>q. wrap_err p (query w n (on_store q))) qs ?s1"
    by (simp add: bind_total wrap_ok)
  have "row_times tbl (io_site ?s1) = row_times tbl (io_site s)" for tbl using d(3-5) by (simp add: row_times_def)
  moreover have "partitions (store (io_site ?s1)) = partitions (store (io_site s))" using d(2) by simp
  ultimately show ?case unfolding run using Cons.IH[of ?s1] Cons.prems by auto
qed (simp add: ret_def)

text \<open>A sweep whose statements the database accepts completes: afterwards no event, transaction or
  session is older than its retention by more than 31 days (the length of a month's partition), every
  partition is still a whole month, and every table has a partition for the current day and for the same
  day of the next month.\<close>

theorem sweep_completes:
  assumes "calm w" "readable n (io_site s)" "monthly (io_site s)" "placed (io_site s)"
  shows "fst (run_retention_sweep w n rc s) = Inr () \<and> monthly (io_site (snd (run_retention_sweep w n rc s))) \<and>
    list_all (\<lambda>(tbl, cutoff). list_all (\<lambda>t. cutoff - 31 * day \<le> t) (row_times tbl (io_site (snd (run_retention_sweep w n rc s)))))
      (retention_drops (w_now w) rc) \<and>
    list_all (\<lambda>tbl. list_all (has_partition (store (io_site (snd (run_retention_sweep w n rc s)))) tbl)
      [w_now w, add_date (w_now w) 0 1 0]) partitioned_tables"
proof -
  let ?qs = "[q_delete_feedbacks (days_ago (w_now w) (rc_feedback rc)), q_delete_hashes (days_ago (w_now w) (rc_events rc)),
    q_delete_rollups (days_ago (w_now w) (rc_session_rollups rc))]"
  obtain s1 where s1: "for_each (\<lambda>(tbl, cutoff). wrap_err (''drop '' @ tbl @ '' partitions'') (drop_partitions w n tbl cutoff))
        (retention_drops (w_now w) rc) s = (Inr (), s1)" "io_site s1 = drops_done (w_now w) rc (io_site s)"
      "set (partitions (store (io_site s1))) \<subseteq> set (partitions (store (io_site s)))"
    using drops_done_calm[OF assms(1,2)] by blast
  have ok: "\<exists>s. q d = Some ((), s) \<and> partitions s = partitions d \<and> events s = events d \<and>
      transactions s = transactions d \<and> sessions s = sessions d" if "q \<in> set ?qs" for q d
    using that by (auto simp: q_delete_feedbacks_def q_delete_hashes_def q_delete_rollups_def)
  obtain s2 where s2: "for_each (\<lambda>q. wrap_err ''retention delete'' (query w n (on_store q))) ?qs s1 = (Inr (), s2)"
    "partitions (store (io_site s2)) = partitions (store (io_site s1))" "\<forall>tbl. row_times tbl (io_site s2) = row_times tbl (io_site s1)"
    using deletes_calm[OF assms(1), of ?qs "''retention delete''" n s1] ok by blast
  have m: "monthly (io_site s2)" using monthly_sub[OF assms(3) s1(3)] s2(2) by (simp add: monthly_def)
  obtain s3 where s3: "ensure_partitions w n [w_now w, add_date (w_now w) 0 1 0] s2 = (Inr (), s3)"
    "io_site s3 = opens [w_now w, add_date (w_now w) 0 1 0] (io_site s2)"
    using ensure_calm[OF assms(1) m] by blast
  have run: "run_retention_sweep w n rc s = (Inr (), s3)"
    unfolding run_retention_sweep_def Let_def by (simp only: bind_total s1(1) s2(1) wrap_ok s3(1))
  have "row_times tbl (io_site s3) = row_times tbl (drops_done (w_now w) rc (io_site s))" for tbl
    using opens_facts[OF m] s3(2) s2(3) s1(2) by simp
  then show ?thesis
    unfolding run using opens_facts[OF m] s3(2) drops_done_times[OF assms(4,3)] by (auto simp: list_all_iff)
qed

subsection \<open>Examples\<close>

definition swept_event :: "time \<Rightarrow> event_row" where
  "swept_event t = \<lparr>ev_id = ''e'', ev_timestamp = t, ev_project = ''p'', ev_issue = None, ev_platform = [],
     ev_level = [], ev_environment = [], ev_release = [], ev_dist = [], ev_title = [], ev_culprit = [],
     ev_message = [], ev_trace = None, ev_span = [], ev_user_hash = [], ev_tags = [], ev_payload = [], ev_symbolicated = None\<rparr>"

definition swept_net :: net where
  "swept_net = witness_net\<lparr>n_bound := (\<lambda>t.
     if t = go_date 2026 1 1 then ''2026-01-01 05:00:00+05'' else if t = go_date 2026 2 1 then ''2026-02-01 05:00:00+05''
     else if t = go_date 2026 5 1 then ''2026-05-01 05:00:00+05'' else ''2026-06-01 05:00:00+05'')\<rparr>"

definition swept_io :: io where
  "swept_io = \<lparr>io_site = site_of (empty_db\<lparr>events := [swept_event (go_date 2026 1 10), swept_event (go_date 2026 5 20)],
     partitions := [(''events_part'', go_date 2026 1 1, go_date 2026 2 1), (''events_part'', go_date 2026 5 1, go_date 2026 6 1)]\<rparr>),
     io_calls = 0, io_out = []\<rparr>"

definition swept_config :: retention_config where
  "swept_config = \<lparr>rc_events = 30, rc_transactions = 30, rc_sessions = 30, rc_session_rollups = 90, rc_feedback = 30,
     rc_release_files = 365\<rparr>"

abbreviation swept :: io where
  "swept \<equiv> snd (run_retention_sweep (witness_world (go_date 2026 6 15)) swept_net swept_config swept_io)"

lemma swept_months: "month_start (go_date 2026 1 1) = go_date 2026 1 1" "month_end (go_date 2026 1 1) = go_date 2026 2 1"
  "month_start (go_date 2026 5 1) = go_date 2026 5 1" "month_end (go_date 2026 5 1) = go_date 2026 6 1"
  by code_simp+

lemma swept_start: "readable swept_net (io_site swept_io)" "monthly (io_site swept_io)" "placed (io_site swept_io)"
proof -
  show "readable swept_net (io_site swept_io)" by code_simp
  show "monthly (io_site swept_io)" by (simp add: monthly_def swept_io_def site_of_def swept_months)
  show "placed (io_site swept_io)" by code_simp
qed

theorem sweep_keeps_young_witness:
  "keeps_young (witness_world (go_date 2026 6 15)) swept_config (io_site swept_io) (io_site swept) \<and>
   map ev_timestamp (events (store (io_site swept))) = [go_date 2026 5 20]"
proof (rule conjI)
  show "keeps_young (witness_world (go_date 2026 6 15)) swept_config (io_site swept_io) (io_site swept)"
    by (rule sweep_keeps_young[OF swept_start(1)])
qed code_simp

theorem sweep_completes_witness:
  "fst (run_retention_sweep (witness_world (go_date 2026 6 15)) swept_net swept_config swept_io) = Inr () \<and>
   has_partition (store (io_site swept)) ''sessions_part'' (go_date 2026 6 15) \<and>
   has_partition (store (io_site swept)) ''sessions_part'' (go_date 2026 7 15)"
proof -
  have n: "w_now (witness_world (go_date 2026 6 15)) = go_date 2026 6 15" by (simp add: witness_world_def)
  have m: "add_date (go_date 2026 6 15) 0 1 0 = go_date 2026 7 15" by code_simp
  show ?thesis
    using sweep_completes[OF witness_calm swept_start, of "go_date 2026 6 15" swept_config]
    unfolding n m partitioned_tables_def list.pred_inject by blast
qed

text \<open>\<open>AddDate(0, 1, 0)\<close> from the last days of a long month skips the next month: a sweep (or a boot) on
  January 31 opens January and March, and no row of February can be stored.\<close>

lemma sweep_skips_february:
  "civil (add_date (go_date 2026 1 31) 0 1 0) = (2026, 3, 3) \<and>
   \<not> has_partition (store (io_site (snd (run_retention_sweep (witness_world (go_date 2026 1 31)) witness_net swept_config
        \<lparr>io_site = site_of empty_db, io_calls = 0, io_out = []\<rparr>)))) ''events_part'' (go_date 2026 2 1)"
  by code_simp

end
