(* ===== verification/Rollup.thy ===== *)
theory Rollup
  imports SiteSamples
begin

section \<open>Transaction rollups (internal/worker/rollup.go)\<close>

text \<open>
  A pass recomputes the hourly rollups of a window of at most 24 hours, which starts at the stored
  watermark (never later than two hours before the current hour), and moves the watermark to the
  end of the window.  Postgres' \<open>percentile_cont\<close> is a parameter: a function of the percentage and
  of the durations of a group.  Hours are UTC hours, as for a server whose time zone is a whole
  number of hours from UTC.

  The properties: a pass makes the rollups of its window exactly the aggregates of the raw rows and
  touches no other row; consecutive passes leave no hour out, so that the rollups of all hours
  between the first watermark and the last equal one aggregation of the whole table.
\<close>

definition job_kind_rollup :: string where "job_kind_rollup = ''rollup_maintenance''"
definition trailing_hours :: duration where "trailing_hours = 2 * hour"
definition max_backfill_hours :: int where "max_backfill_hours = 24"

definition rollup_window :: "time \<Rightarrow> time option \<Rightarrow> time \<times> time" where
  "rollup_window now wm =
     (let start = truncate_to now hour - trailing_hours;
          start = (case wm of Some m \<Rightarrow> if m < start then m else start | None \<Rightarrow> start);
          stop = truncate_to now hour + hour;
          cap = start + max_backfill_hours * hour
      in (start, if cap < stop then cap else stop))"

type_synonym percentile = "int \<Rightarrow> duration list \<Rightarrow> f64"

definition rollup_row_key :: "tx_rollup_row \<Rightarrow> uuid \<times> string \<times> time" where
  "rollup_row_key r = (tr_project r, tr_name r, tr_hour r)"

definition group_key :: "transaction_row \<Rightarrow> uuid \<times> string \<times> time" where
  "group_key t = (t_project t, t_name t, truncate_to (t_start t) hour)"

definition group_rows :: "uuid \<times> string \<times> time \<Rightarrow> transaction_row list \<Rightarrow> transaction_row list" where
  "group_rows k ts = filter (\<lambda>t. group_key t = k) ts"

definition tx_failed :: "transaction_row \<Rightarrow> bool" where
  "tx_failed t \<longleftrightarrow> t_status t \<noteq> [] \<and> t_status t \<noteq> ''ok''"

definition aggregate_group :: "percentile \<Rightarrow> uuid \<times> string \<times> time \<Rightarrow> transaction_row list \<Rightarrow> tx_rollup_row" where
  "aggregate_group pc k ts =
     (case k of (p, nm, h) \<Rightarrow> \<lparr>tr_project = p, tr_name = nm, tr_hour = h, tr_count = int (length ts),
        tr_failures = int (length (filter tx_failed ts)), tr_p50 = pc 50 (map t_duration ts),
        tr_p95 = pc 95 (map t_duration ts), tr_p99 = pc 99 (map t_duration ts)\<rparr>)"

definition rollup_replace :: "tx_rollup_row \<Rightarrow> tx_rollup_row \<Rightarrow> tx_rollup_row" where
  "rollup_replace new r = r\<lparr>tr_count := tr_count new, tr_failures := tr_failures new, tr_p50 := tr_p50 new,
     tr_p95 := tr_p95 new, tr_p99 := tr_p99 new\<rparr>"

text \<open>\<open>INSERT ... SELECT ... GROUP BY ... ON CONFLICT DO UPDATE\<close>.\<close>

definition in_window_rows :: "time \<Rightarrow> time \<Rightarrow> transaction_row list \<Rightarrow> transaction_row list" where
  "in_window_rows a b ts = filter (\<lambda>t. a \<le> t_start t \<and> t_start t < b) ts"

definition put_group :: "percentile \<Rightarrow> transaction_row list \<Rightarrow> uuid \<times> string \<times> time \<Rightarrow> tx_rollup_row list \<Rightarrow> tx_rollup_row list" where
  "put_group pc ts k rs =
     (let new = aggregate_group pc k (group_rows k ts)
      in upsert (\<lambda>r. rollup_row_key r = k) (rollup_replace new) new rs)"

definition q_tx_rollups :: "percentile \<Rightarrow> time \<Rightarrow> time \<Rightarrow> unit query" where
  "q_tx_rollups pc a b d =
     (let ts = in_window_rows a b (transactions (store d))
      in Some ((), d\<lparr>tx_rollups := fold (put_group pc ts) (remdups (map group_key ts)) (tx_rollups d)\<rparr>))"

definition q_watermark :: "site \<Rightarrow> time option" where "q_watermark d = watermark d"

definition q_set_watermark :: "time \<Rightarrow> unit query" where
  "q_set_watermark t d = Some ((), d\<lparr>watermark := Some t\<rparr>)"

text \<open>The watermark, where the error of an empty result counts as none.\<close>

definition read_watermark :: "world \<Rightarrow> net \<Rightarrow> time option iom" where
  "read_watermark w n s =
     (case query_row w n (select q_watermark) s of
        (Inr t, s') \<Rightarrow> (Inr (Some t), s')
      | (Inl e, s') \<Rightarrow> if e \<noteq> no_rows then (Inl (''read watermark: '' @ e), s') else (Inr None, s'))"

definition run_rollup_pass :: "percentile \<Rightarrow> world \<Rightarrow> net \<Rightarrow> unit iom" where
  "run_rollup_pass pc w n =
     bind (read_watermark w n) (\<lambda>wm.
     let (start, stop) = rollup_window (w_now w) wm in
     bind (wrap_err ''aggregate rollups'' (query w n (q_tx_rollups pc start stop))) (\<lambda>_.
     wrap_err ''advance watermark'' (query w n (q_set_watermark stop))))"

subsection \<open>One pass\<close>

interpretation rollup_stmt: upsert_stmt rollup_row_key k "rollup_replace (aggregate_group pc k ts)" "aggregate_group pc k ts" for k pc ts
  by unfold_locales (auto simp: rollup_row_key_def rollup_replace_def aggregate_group_def split: prod.splits)

text \<open>Whatever row was there, the row of the group is replaced by the aggregate.\<close>

lemma put_group_get: "get_key rollup_row_key k' (put_group pc ts k rs) =
    (if k' = k then Some (aggregate_group pc k (group_rows k ts)) else get_key rollup_row_key k' rs)"
proof (cases "k' = k")
  case True
  let ?new = "aggregate_group pc k (group_rows k ts)"
  have "rollup_replace ?new r = ?new" if "rollup_row_key r = k" for r
    using that by (cases r; cases k) (simp add: rollup_replace_def aggregate_group_def rollup_row_key_def)
  then have "(case get_key rollup_row_key k rs of None \<Rightarrow> ?new | Some r \<Rightarrow> rollup_replace ?new r) = ?new"
    by (auto dest: get_key_Some split: option.splits)
  then show ?thesis
    using rollup_stmt.get_stmt[of k pc "group_rows k ts" rs] True
    by (simp add: put_group_def Let_def rollup_stmt.stmt_def)
next
  case False
  then show ?thesis
    using rollup_stmt.get_stmt_other[of k' k pc "group_rows k ts" rs]
    by (simp add: put_group_def Let_def rollup_stmt.stmt_def)
qed

lemma put_groups_get: "get_key rollup_row_key k (fold (put_group pc ts) ks rs) =
    (if k \<in> set ks then Some (aggregate_group pc k (group_rows k ts)) else get_key rollup_row_key k rs)"
  by (induction ks arbitrary: rs) (auto simp: put_group_get)

lemma hours_apart: "x mod hour = 0 \<Longrightarrow> y mod hour = 0 \<Longrightarrow> x < y \<Longrightarrow> x + hour \<le> y"
  using zdvd_imp_le[of hour "y - x"] by (simp add: mod_eq_0_iff_dvd)

lemma truncate_hour_mod [simp]: "truncate_to t hour mod hour = 0"
  by (simp add: truncate_hour)

lemma hour_in_window:
  assumes "a mod hour = 0" "b mod hour = 0"
  shows "a \<le> t \<longleftrightarrow> a \<le> truncate_to t hour" "t < b \<longleftrightarrow> truncate_to t hour < b"
proof -
  let ?h = "truncate_to t hour"
  show "a \<le> t \<longleftrightarrow> a \<le> ?h"
    using hours_apart[of ?h a] truncate_hour_bounds[of t] assms(1) by (cases "a \<le> ?h") auto
  show "t < b \<longleftrightarrow> ?h < b"
    using hours_apart[of ?h b] truncate_hour_bounds[of t] assms(2) by (cases "?h < b") auto
qed

abbreviation key_hour :: "uuid \<times> string \<times> time \<Rightarrow> time" where "key_hour k \<equiv> snd (snd k)"

lemma group_in_window:
  assumes "a mod hour = 0" "b mod hour = 0"
  shows "group_rows k (in_window_rows a b ts) = (if a \<le> key_hour k \<and> key_hour k < b then group_rows k ts else [])"
proof (cases "a \<le> key_hour k \<and> key_hour k < b")
  case True
  have "group_key t = k \<and> a \<le> t_start t \<and> t_start t < b \<longleftrightarrow> group_key t = k" for t
    using hour_in_window[OF assms, of "t_start t"] True by (auto simp: group_key_def)
  then show ?thesis using True by (simp add: group_rows_def in_window_rows_def conj_commute)
next
  case False
  have "\<not> (group_key t = k \<and> a \<le> t_start t \<and> t_start t < b)" for t
    using hour_in_window[OF assms, of "t_start t"] False by (auto simp: group_key_def)
  then show ?thesis using False by (auto simp: group_rows_def in_window_rows_def filter_empty_conv)
qed

lemma group_rows_keys: "k \<in> group_key ` set ts \<longleftrightarrow> group_rows k ts \<noteq> []"
  by (auto simp: group_rows_def filter_empty_conv)

definition rollup_of :: "uuid \<times> string \<times> time \<Rightarrow> site \<Rightarrow> tx_rollup_row option" where
  "rollup_of k d = get_key rollup_row_key k (tx_rollups d)"

text \<open>The rollup of a group by one aggregation of the whole table.\<close>

definition batch :: "percentile \<Rightarrow> db \<Rightarrow> uuid \<times> string \<times> time \<Rightarrow> tx_rollup_row" where
  "batch pc d k = aggregate_group pc k (group_rows k (transactions d))"

definition raw_group :: "db \<Rightarrow> uuid \<times> string \<times> time \<Rightarrow> bool" where
  "raw_group d k \<longleftrightarrow> group_rows k (transactions d) \<noteq> []"

definition aligned :: "time option \<Rightarrow> bool" where
  "aligned wm \<longleftrightarrow> (case wm of None \<Rightarrow> True | Some m \<Rightarrow> m mod hour = 0)"

lemma window_facts:
  assumes "aligned wm" "rollup_window now wm = (a, b)"
  shows "a mod hour = 0" "b mod hour = 0" "wm = Some m \<Longrightarrow> a \<le> m"
    "truncate_to now hour + hour \<le> b \<or> (\<exists>m. wm = Some m \<and> b = m + 24 * hour)"
proof -
  have m: "(truncate_to now hour - 2 * hour) mod hour = 0" "(truncate_to now hour + hour) mod hour = 0"
    by (simp_all add: mod_diff_eq[symmetric])
  have a: "a = (case wm of Some m \<Rightarrow> if m < truncate_to now hour - 2 * hour then m else truncate_to now hour - 2 * hour
      | None \<Rightarrow> truncate_to now hour - 2 * hour)"
    and b: "b = (if a + 24 * hour < truncate_to now hour + hour then a + 24 * hour else truncate_to now hour + hour)"
    using assms(2) by (auto simp: rollup_window_def Let_def trailing_hours_def max_backfill_hours_def)
  show am: "a mod hour = 0" using assms(1) m by (auto simp: a aligned_def split: option.splits)
  then show "b mod hour = 0" using m by (simp add: b)
  show "wm = Some m \<Longrightarrow> a \<le> m" by (simp add: a)
  show "truncate_to now hour + hour \<le> b \<or> (\<exists>m. wm = Some m \<and> b = m + 24 * hour)"
    unfolding b a by (auto simp: time_simps split: option.splits)
qed

lemma pass_calm:
  assumes "calm w" "aligned (watermark (io_site s))" "rollup_window (w_now w) (watermark (io_site s)) = (a, b)"
  shows "\<exists>s'. run_rollup_pass pc w n s = (Inr (), s') \<and> store (io_site s') = store (io_site s) \<and>
    watermark (io_site s') = Some b \<and>
    (\<forall>k. rollup_of k (io_site s') =
      (if a \<le> key_hour k \<and> key_hour k < b \<and> raw_group (store (io_site s)) k then Some (batch pc (store (io_site s)) k)
       else rollup_of k (io_site s)))"
proof -
  let ?ts = "in_window_rows a b (transactions (store (io_site s)))"
  have r: "read_watermark w n s = (Inr (watermark (io_site s)), called s)"
    using assms(1) by (simp add: read_watermark_def query_row_def bind_def query_select_calm q_watermark_def ret_def fail_def split: option.split)
  let ?d1 = "(io_site s)\<lparr>tx_rollups := fold (put_group pc ?ts) (remdups (map group_key ?ts)) (tx_rollups (io_site s))\<rparr>"
  have q: "query w n (q_tx_rollups pc a b) (called s) = (Inr (), called (called s)\<lparr>io_site := ?d1\<rparr>)"
    using assms(1) by (simp add: query_calm q_tx_rollups_def Let_def)
  have m: "query w n (q_set_watermark b) (called (called s)\<lparr>io_site := ?d1\<rparr>) =
      (Inr (), called (called (called s)\<lparr>io_site := ?d1\<rparr>)\<lparr>io_site := ?d1\<lparr>watermark := Some b\<rparr>\<rparr>)"
    using assms(1) by (simp add: query_calm q_set_watermark_def)
  have run: "run_rollup_pass pc w n s = (Inr (), called (called (called s)\<lparr>io_site := ?d1\<rparr>)\<lparr>io_site := ?d1\<lparr>watermark := Some b\<rparr>\<rparr>)"
    unfolding run_rollup_pass_def by (simp only: bind_total r assms(3) Let_def prod.case q m wrap_err_def sum.case)
  have "rollup_of k (?d1\<lparr>watermark := Some b\<rparr>) =
      (if a \<le> key_hour k \<and> key_hour k < b \<and> raw_group (store (io_site s)) k then Some (batch pc (store (io_site s)) k)
       else rollup_of k (io_site s))" for k
    using group_in_window[OF window_facts(1,2)[OF assms(2,3)], of k "transactions (store (io_site s))"]
    by (cases "a \<le> key_hour k \<and> key_hour k < b")
       (simp_all add: rollup_of_def put_groups_get group_rows_keys raw_group_def batch_def, auto)
  then show ?thesis unfolding run by simp
qed

subsection \<open>Many passes\<close>

type_synonym pass = "world \<times> net"

definition passes :: "percentile \<Rightarrow> pass list \<Rightarrow> io \<Rightarrow> io" where
  "passes pc ps s = fold (\<lambda>(w, n) s. snd (run_rollup_pass pc w n s)) ps s"

text \<open>The rollups of the hours from \<open>w0\<close> to the watermark are those of one aggregation.\<close>

definition rolled_up :: "percentile \<Rightarrow> time \<Rightarrow> site \<Rightarrow> bool" where
  "rolled_up pc w0 d \<longleftrightarrow> (\<exists>m. watermark d = Some m \<and> m mod hour = 0 \<and>
     (\<forall>k. w0 \<le> key_hour k \<and> key_hour k < m \<and> raw_group (store d) k \<longrightarrow> rollup_of k d = Some (batch pc (store d) k)))"

lemma pass_rolled_up:
  assumes "calm w" "rolled_up pc w0 (io_site s)"
  shows "rolled_up pc w0 (io_site (snd (run_rollup_pass pc w n s))) \<and>
    store (io_site (snd (run_rollup_pass pc w n s))) = store (io_site s)"
proof -
  obtain m where m: "watermark (io_site s) = Some m" "m mod hour = 0"
    "\<And>k. w0 \<le> key_hour k \<Longrightarrow> key_hour k < m \<Longrightarrow> raw_group (store (io_site s)) k \<Longrightarrow>
       rollup_of k (io_site s) = Some (batch pc (store (io_site s)) k)"
    using assms(2) by (auto simp: rolled_up_def)
  obtain a b where ab: "rollup_window (w_now w) (watermark (io_site s)) = (a, b)" by (metis surj_pair)
  have al: "aligned (watermark (io_site s))" using m by (simp add: aligned_def)
  obtain s' where s': "run_rollup_pass pc w n s = (Inr (), s')" "store (io_site s') = store (io_site s)" "watermark (io_site s') = Some b"
    "\<forall>k. rollup_of k (io_site s') = (if a \<le> key_hour k \<and> key_hour k < b \<and> raw_group (store (io_site s)) k
      then Some (batch pc (store (io_site s)) k) else rollup_of k (io_site s))"
    using pass_calm[OF assms(1) al ab] by blast
  have "a \<le> m" "b mod hour = 0" using window_facts(2,3)[OF al ab] m(1) by simp_all
  then have "rolled_up pc w0 (io_site s')" unfolding rolled_up_def using s' m(3) by auto
  then show ?thesis using s' by simp
qed

lemma passes_rolled_up:
  "list_all (\<lambda>(w, _). calm w) ps \<Longrightarrow> rolled_up pc w0 (io_site s) \<Longrightarrow>
   rolled_up pc w0 (io_site (passes pc ps s)) \<and> store (io_site (passes pc ps s)) = store (io_site s)"
proof (induction ps arbitrary: s)
  case (Cons p ps)
  obtain w n where p: "p = (w, n)" by (cases p)
  show ?case
    using pass_rolled_up[of w pc w0 s n] Cons.IH[of "snd (run_rollup_pass pc w n s)"] Cons.prems
    by (simp add: passes_def p)
qed (simp add: passes_def)

text \<open>C28: Incremental rollups equal one aggregation: starting from a watermark on the hour, after any
  number of passes, at any times, the rollup of every transaction name and hour between the first and the
  last watermark is the aggregate (count, failures, percentiles) of all raw transactions of that hour; no
  hour is left out between two passes and recomputing an hour does not count it twice.\<close>

theorem rollups_are_batch:
  assumes "list_all (\<lambda>(w, _). calm w) ps" "watermark (io_site s) = Some w0" "w0 mod hour = 0"
    "watermark (io_site (passes pc ps s)) = Some m" "w0 \<le> key_hour k" "key_hour k < m" "raw_group (store (io_site s)) k"
  shows "rollup_of k (io_site (passes pc ps s)) = Some (batch pc (store (io_site s)) k)"
proof -
  have "rolled_up pc w0 (io_site s)" using assms(2,3) by (auto simp: rolled_up_def)
  from passes_rolled_up[OF assms(1) this] show ?thesis
    using assms(4-7) by (cases k) (auto simp: rolled_up_def)
qed

lemma pass_progress:
  assumes "calm w" "watermark (io_site s) = Some m" "m mod hour = 0" "t \<le> w_now w"
  shows "\<exists>m'. watermark (io_site (snd (run_rollup_pass pc w n s))) = Some m' \<and> m' mod hour = 0 \<and>
    min (m + 24 * hour) (truncate_to t hour + hour) \<le> m'"
proof -
  obtain a b where ab: "rollup_window (w_now w) (watermark (io_site s)) = (a, b)" by (metis surj_pair)
  have al: "aligned (watermark (io_site s))" using assms by (simp add: aligned_def)
  have t: "truncate_to t hour \<le> truncate_to (w_now w) hour"
    using hour_in_window(1)[of "truncate_to t hour" 0 "w_now w"] truncate_hour_bounds[of t] assms(4) by simp
  obtain s' where s': "run_rollup_pass pc w n s = (Inr (), s')" "watermark (io_site s') = Some b"
    using pass_calm[OF assms(1) al ab, of pc n] by blast
  have "min (m + 24 * hour) (truncate_to t hour + hour) \<le> b"
    using window_facts(4)[OF al ab] assms(2) t by auto
  then show ?thesis using s' window_facts(2)[OF al ab] by simp
qed

text \<open>C29: The rollups catch up: however far behind the watermark is, passes at times not before \<open>t\<close> bring
  it to the end of the hour of \<open>t\<close>, one day of backlog per pass.\<close>

theorem rollup_catches_up:
  assumes "list_all (\<lambda>(w, _). calm w \<and> t \<le> w_now w) ps" "watermark (io_site s) = Some w0" "w0 mod hour = 0"
    "truncate_to t hour + hour \<le> w0 + int (length ps) * (24 * hour)"
  shows "\<exists>m. watermark (io_site (passes pc ps s)) = Some m \<and> truncate_to t hour + hour \<le> m"
proof -
  have "list_all (\<lambda>(w, _). calm w \<and> t \<le> w_now w) ps \<Longrightarrow> watermark (io_site s) = Some w0 \<Longrightarrow> w0 mod hour = 0 \<Longrightarrow>
    \<exists>m. watermark (io_site (passes pc ps s)) = Some m \<and>
      min (w0 + int (length ps) * (24 * hour)) (truncate_to t hour + hour) \<le> m" for w0
  proof (induction ps arbitrary: s w0)
    case (Cons p ps)
    obtain w n where p: "p = (w, n)" by (cases p)
    obtain m' where m': "watermark (io_site (snd (run_rollup_pass pc w n s))) = Some m'" "m' mod hour = 0"
      "min (w0 + 24 * hour) (truncate_to t hour + hour) \<le> m'"
      using pass_progress[of w s w0 t pc n] Cons.prems by (auto simp: p)
    have "0 \<le> int (length ps) * (24 * hour)" by (simp add: time_simps)
    then show ?case
      using Cons.IH[OF _ m'(1,2)] Cons.prems(1) m'(3) by (auto simp: passes_def p algebra_simps)
  qed (simp add: passes_def)
  from this[OF assms(1-3)] show ?thesis using assms(4) by auto
qed

text \<open>The first pass (no watermark) starts two hours before the current hour: older raw rows get no rollup.\<close>

lemma first_pass_skips:
  assumes "calm w" "watermark (io_site s) = None" "key_hour k < truncate_to (w_now w) hour - 2 * hour"
  shows "rollup_of k (io_site (snd (run_rollup_pass pc w n s))) = rollup_of k (io_site s) \<and>
    watermark (io_site (snd (run_rollup_pass pc w n s))) = Some (truncate_to (w_now w) hour + hour)"
proof -
  have ab: "rollup_window (w_now w) (watermark (io_site s)) = (truncate_to (w_now w) hour - 2 * hour, truncate_to (w_now w) hour + hour)"
    by (simp add: assms(2) rollup_window_def Let_def trailing_hours_def max_backfill_hours_def time_simps)
  have "aligned (watermark (io_site s))" by (simp add: assms(2) aligned_def)
  from pass_calm[OF assms(1) this ab, of pc n] obtain s' where s': "run_rollup_pass pc w n s = (Inr (), s')"
    "watermark (io_site s') = Some (truncate_to (w_now w) hour + hour)"
    "rollup_of k (io_site s') = (if truncate_to (w_now w) hour - 2 * hour \<le> key_hour k \<and>
       key_hour k < truncate_to (w_now w) hour + hour \<and> raw_group (store (io_site s)) k
       then Some (batch pc (store (io_site s)) k) else rollup_of k (io_site s))" by blast
  then show ?thesis using assms(3) by simp
qed

subsection \<open>Examples\<close>

definition rolled_tx :: "time \<Rightarrow> string \<Rightarrow> transaction_row" where
  "rolled_tx t st = \<lparr>t_id = ''t'', t_timestamp = t, t_project = ''p'', t_start = t, t_duration = second, t_trace = None,
     t_span = [], t_name = ''GET /'', t_source = [], t_status = st, t_environment = [], t_release = [], t_dist = [],
     t_measurements = JNull, t_payload = []\<rparr>"

definition rolled_io :: io where
  "rolled_io = \<lparr>io_site = (site_of (empty_db\<lparr>transactions := [rolled_tx (60 * hour + minute) ''ok'',
      rolled_tx (60 * hour + 2 * minute) ''internal_error'']\<rparr>))\<lparr>watermark := Some (50 * hour)\<rparr>, io_calls = 0, io_out = []\<rparr>"

definition rolled_passes :: "pass list" where
  "rolled_passes = [(witness_world (100 * hour), witness_net), (witness_world (100 * hour + minute), witness_net),
     (witness_world (101 * hour), witness_net)]"

lemma rolled_start: "watermark (io_site rolled_io) = Some (50 * hour)" "50 * hour mod hour = 0"
  "watermark (io_site (passes (\<lambda>_ _. (0, 0)) rolled_passes rolled_io)) = Some (102 * hour)"
  by code_simp+

theorem rollups_are_batch_witness:
  "rollup_of (''p'', ''GET /'', 60 * hour) (io_site (passes (\<lambda>_ _. (0, 0)) rolled_passes rolled_io)) =
     Some (batch (\<lambda>_ _. (0, 0)) (store (io_site rolled_io)) (''p'', ''GET /'', 60 * hour)) \<and>
   tr_count (batch (\<lambda>_ _. (0, 0)) (store (io_site rolled_io)) (''p'', ''GET /'', 60 * hour)) = 2 \<and>
   tr_failures (batch (\<lambda>_ _. (0, 0)) (store (io_site rolled_io)) (''p'', ''GET /'', 60 * hour)) = 1"
proof (intro conjI)
  show "rollup_of (''p'', ''GET /'', 60 * hour) (io_site (passes (\<lambda>_ _. (0, 0)) rolled_passes rolled_io)) =
     Some (batch (\<lambda>_ _. (0, 0)) (store (io_site rolled_io)) (''p'', ''GET /'', 60 * hour))"
  proof (rule rollups_are_batch[OF _ rolled_start])
    show "list_all (\<lambda>(w, _). calm w) rolled_passes" by (simp add: rolled_passes_def witness_calm)
    show "raw_group (store (io_site rolled_io)) (''p'', ''GET /'', 60 * hour)" by code_simp
  qed (simp_all add: time_simps)
qed code_simp+

theorem rollup_catches_up_witness:
  "\<exists>m. watermark (io_site (passes (\<lambda>_ _. (0, 0)) rolled_passes rolled_io)) = Some m \<and>
     truncate_to (100 * hour) hour + hour \<le> m"
proof (rule rollup_catches_up[OF _ rolled_start(1,2)])
  show "list_all (\<lambda>(w, _). calm w \<and> 100 * hour \<le> w_now w) rolled_passes"
    by (simp add: rolled_passes_def witness_calm) (simp add: witness_world_def time_simps)
  show "truncate_to (100 * hour) hour + hour \<le> 50 * hour + int (length rolled_passes) * (24 * hour)" by code_simp
qed

end
