(* ===== verification/Jsonb.thy ===== *)
theory Jsonb
  imports Json
begin

section \<open>JSON values in jsonb columns\<close>

text \<open>\<open>jsonb\<close> has no character zero.\<close>

fun has_nul :: "json \<Rightarrow> bool" where
  "has_nul (JStr s) \<longleftrightarrow> CHR 0x00 \<in> set s"
| "has_nul (JArr vs) \<longleftrightarrow> list_ex has_nul vs"
| "has_nul (JObj kvs) \<longleftrightarrow> list_ex (\<lambda>(k, v). CHR 0x00 \<in> set k \<or> has_nul v) kvs"
| "has_nul _ \<longleftrightarrow> False"

end
