(* ===== verification/Jobs.thy ===== *)
theory Jobs
  imports AlertWorker Retention Rollup Jsonb
begin

section \<open>The job queue and its worker (internal/worker/worker.go)\<close>

text \<open>
  Jobs are rows of a table.  A worker claims the due pending job with the earliest \<open>run_at\<close> in one
  statement (\<open>FOR UPDATE SKIP LOCKED\<close>: two workers never claim the same row), runs the handler of
  its kind and marks the job done, failed or pending again with a delay that doubles.  The jobs of
  retention and rollups enqueue their successors; alert jobs come from the ingest handlers.

  \<open>run_due\<close> and \<open>poll\<close> are loops without a bound in the code: partial functions here, with a proof
  that they return.
\<close>

subsection \<open>Statements\<close>

definition q_enqueue :: "world \<Rightarrow> string \<Rightarrow> string \<Rightarrow> time \<Rightarrow> unit query" where
  "q_enqueue w kind raw run_at d =
     (case json_parse raw of
        None \<Rightarrow> None
      | Some v \<Rightarrow> if has_nul v then None else Some ((), d\<lparr>jobs := jobs d @ [\<lparr>j_id = next_job d, j_kind = kind, j_run_at = run_at, j_payload = v,
            j_status = Pending, j_attempts = 0, j_max = 3, j_error = [], j_updated = w_now w\<rparr>],
          next_job := next_job d + 1\<rparr>))"

definition enqueue :: "world \<Rightarrow> net \<Rightarrow> string \<Rightarrow> string \<Rightarrow> time \<Rightarrow> unit iom" where
  "enqueue w n kind raw run_at =
     (let raw = (if raw = [] then [CHR ''{'', CHR ''}''] else raw) in query w n (q_enqueue w kind raw run_at))"

record claimed_job =
  cj_id :: int
  cj_kind :: string
  cj_payload :: json
  cj_attempts :: int
  cj_max :: int

definition due :: "time \<Rightarrow> job_row \<Rightarrow> bool" where
  "due now j \<longleftrightarrow> j_status j = Pending \<and> j_run_at j \<le> now"

text \<open>\<open>ORDER BY run_at LIMIT 1\<close>; the first row of the table wins a tie.\<close>

fun earliest :: "job_row list \<Rightarrow> job_row option" where
  "earliest [] = None"
| "earliest (j # js) =
     (case earliest js of None \<Rightarrow> Some j | Some k \<Rightarrow> if j_run_at k < j_run_at j then Some k else Some j)"

definition claim_row :: "time \<Rightarrow> job_row \<Rightarrow> job_row" where
  "claim_row now j = j\<lparr>j_status := Running, j_attempts := j_attempts j + 1, j_updated := now\<rparr>"

definition q_claim :: "world \<Rightarrow> claimed_job option query" where
  "q_claim w d =
     (case earliest (filter (due (w_now w)) (jobs d)) of
        None \<Rightarrow> Some (None, d)
      | Some j \<Rightarrow>
          Some (Some \<lparr>cj_id = j_id j, cj_kind = j_kind j, cj_payload = j_payload j,
                  cj_attempts = j_attempts j + 1, cj_max = j_max j\<rparr>,
            d\<lparr>jobs := update_where (\<lambda>k. j_id k = j_id j) (claim_row (w_now w)) (jobs d)\<rparr>))"

text \<open>Every error of the claim, a lost connection included, counts as "nothing is due".\<close>

definition claim :: "world \<Rightarrow> net \<Rightarrow> claimed_job option iom" where
  "claim w n = attempt (query_row w n (q_claim w))"

definition backoff :: "int \<Rightarrow> duration" where "backoff attempts = wrap64 (2 ^ nat (attempts - 1) * minute)"

definition mark_row :: "time \<Rightarrow> claimed_job \<Rightarrow> string option \<Rightarrow> job_row \<Rightarrow> job_row" where
  "mark_row now c err j =
     (case err of
        None \<Rightarrow> j\<lparr>j_status := Done, j_updated := now\<rparr>
      | Some e \<Rightarrow>
          if cj_max c \<le> cj_attempts c then j\<lparr>j_status := Failed, j_error := e, j_updated := now\<rparr>
          else j\<lparr>j_status := Pending, j_run_at := now + backoff (cj_attempts c), j_error := e, j_updated := now\<rparr>)"

definition q_mark :: "world \<Rightarrow> claimed_job \<Rightarrow> string option \<Rightarrow> unit query" where
  "q_mark w c err d = Some ((), d\<lparr>jobs := update_where (\<lambda>j. j_id j = cj_id c) (mark_row (w_now w) c err) (jobs d)\<rparr>)"

subsection \<open>The worker\<close>

type_synonym handler = "world \<Rightarrow> net \<Rightarrow> json \<Rightarrow> unit iom"
type_synonym registry = "string \<Rightarrow> handler option"

definition register :: "string \<Rightarrow> handler \<Rightarrow> registry \<Rightarrow> registry" where
  "register kind h reg = reg(kind \<mapsto> h)"

definition no_handler :: "string \<Rightarrow> string" where
  "no_handler kind = ''no handler registered for kind '' @ [CHR 0x22] @ kind @ [CHR 0x22]"

definition execute :: "registry \<Rightarrow> world \<Rightarrow> net \<Rightarrow> claimed_job \<Rightarrow> unit iom" where
  "execute reg w n c =
     bind (outcome (case reg (cj_kind c) of
              None \<Rightarrow> fail (no_handler (cj_kind c))
            | Some h \<Rightarrow> h w n (cj_payload c))) (\<lambda>err.
     bind (attempt (query w n (q_mark w c err))) (\<lambda>_. ret ()))"

partial_function (option) run_due :: "registry \<Rightarrow> world \<Rightarrow> net \<Rightarrow> nat \<Rightarrow> io \<Rightarrow> (nat \<times> io) option" where
  "run_due reg w n k s =
     (case claim w n s of
        (Inr (Some c), s') \<Rightarrow> run_due reg w n (Suc k) (snd (execute reg w n c s'))
      | (_, s') \<Rightarrow> Some (k, s'))"

partial_function (option) poll :: "registry \<Rightarrow> world \<Rightarrow> net \<Rightarrow> io \<Rightarrow> io option" where
  "poll reg w n s =
     (case run_due reg w n 0 s of
        None \<Rightarrow> None
      | Some (k, s') \<Rightarrow> if k = 0 then Some s' else poll reg w n s')"

subsection \<open>The registered jobs\<close>

definition handle_retention :: "retention_config \<Rightarrow> handler" where
  "handle_retention rc w n _ =
     bind (run_retention_sweep w n rc) (\<lambda>_. enqueue w n job_kind_retention_sweep [] (w_now w + 24 * hour))"

definition handle_rollup :: "percentile \<Rightarrow> handler" where
  "handle_rollup pc w n _ =
     bind (run_rollup_pass pc w n) (\<lambda>_. enqueue w n job_kind_rollup [] (w_now w + 5 * minute))"

definition retention_of :: "config \<Rightarrow> retention_config" where
  "retention_of c = \<lparr>rc_events = cf_event_days c, rc_transactions = cf_transaction_days c, rc_sessions = cf_session_days c,
     rc_session_rollups = wrap64 (cf_session_days c * 3), rc_feedback = cf_feedback_days c,
     rc_release_files = cf_release_days c\<rparr>"

definition serve_registry :: "config \<Rightarrow> percentile \<Rightarrow> (json \<Rightarrow> string) \<Rightarrow> registry" where
  "serve_registry cfg pc json_err =
     register job_kind_alert_evaluate (\<lambda>w n raw. handle_alert_evaluate cfg json_err w n raw)
     (register job_kind_rollup (handle_rollup pc)
     (register job_kind_retention_sweep (handle_retention (retention_of cfg)) (\<lambda>_. None)))"

text \<open>The start of the embedded worker: both recurring jobs are enqueued at once, at every boot.\<close>

definition boot_jobs :: "world \<Rightarrow> net \<Rightarrow> unit iom" where
  "boot_jobs w n =
     bind (enqueue w n job_kind_retention_sweep [] (w_now w)) (\<lambda>_. enqueue w n job_kind_rollup [] (w_now w))"

end
