(* ===== verification/JobProps.thy ===== *)
theory JobProps
  imports Jobs SiteSamples
begin

section \<open>The life of a job\<close>

subsection \<open>Concurrent workers as a step relation\<close>

text \<open>
  The queue under any number of workers: the table, the claims being executed (in any process) and
  the log of all claims.  A claimed job is finished by its worker with some outcome, or lost (the
  process dies, or the statement that marks the job fails); \<open>other\<close> is any statement that does not
  touch the jobs.
\<close>

record queue =
  qu_site :: site
  qu_running :: "claimed_job list"
  qu_log :: "int list"

definition queue0 :: "site \<Rightarrow> queue" where "queue0 d = \<lparr>qu_site = d, qu_running = [], qu_log = []\<rparr>"

inductive queue_step :: "queue \<Rightarrow> queue \<Rightarrow> bool" where
  enqueued: "q_enqueue w kind raw t (qu_site q) = Some (u, d) \<Longrightarrow> queue_step q (q\<lparr>qu_site := d\<rparr>)"
| claimed: "q_claim w (qu_site q) = Some (Some c, d) \<Longrightarrow>
    queue_step q (q\<lparr>qu_site := d, qu_running := c # qu_running q, qu_log := cj_id c # qu_log q\<rparr>)"
| finished: "c \<in> set (qu_running q) \<Longrightarrow> q_mark w c err (qu_site q) = Some (u, d) \<Longrightarrow>
    queue_step q (q\<lparr>qu_site := d, qu_running := remove1 c (qu_running q)\<rparr>)"
| lost: "c \<in> set (qu_running q) \<Longrightarrow> queue_step q (q\<lparr>qu_running := remove1 c (qu_running q)\<rparr>)"
| other: "jobs d = jobs (qu_site q) \<Longrightarrow> next_job d = next_job (qu_site q) \<Longrightarrow> queue_step q (q\<lparr>qu_site := d\<rparr>)"

inductive_cases queue_stepE: "queue_step q q'"

abbreviation queue_steps :: "queue \<Rightarrow> queue \<Rightarrow> bool" where "queue_steps \<equiv> queue_step\<^sup>*\<^sup>*"

definition job_ok :: "int list \<Rightarrow> int \<Rightarrow> job_row \<Rightarrow> bool" where
  "job_ok log nxt j \<longleftrightarrow> j_attempts j = int (count_list log (j_id j)) \<and> j_attempts j \<le> 3 \<and> j_max j = 3 \<and>
     (j_status j = Pending \<longrightarrow> j_attempts j < 3) \<and> j_id j < nxt"

definition claim_ok :: "job_row list \<Rightarrow> claimed_job \<Rightarrow> bool" where
  "claim_ok js c \<longleftrightarrow> (case get_key j_id (cj_id c) js of None \<Rightarrow> False
     | Some j \<Rightarrow> j_status j = Running \<and> j_attempts j = cj_attempts c \<and> cj_max c = 3)"

definition queue_inv :: "queue \<Rightarrow> bool" where
  "queue_inv q \<longleftrightarrow> key_ok j_id (jobs (qu_site q)) \<and>
     (\<forall>j\<in>set (jobs (qu_site q)). job_ok (qu_log q) (next_job (qu_site q)) j) \<and>
     (\<forall>i\<in>set (qu_log q). i < next_job (qu_site q)) \<and>
     distinct (map cj_id (qu_running q)) \<and> (\<forall>c\<in>set (qu_running q). claim_ok (jobs (qu_site q)) c)"

lemma earliest_mem: "earliest js = Some j \<Longrightarrow> j \<in> set js"
  by (induction js arbitrary: j) (auto split: option.splits if_splits)

lemma earliest_None: "earliest js = None \<longleftrightarrow> js = []"
  by (cases js) (auto split: option.splits)

lemma get_key_update_where:
  "(\<And>r. key (upd r) = key r) \<Longrightarrow> get_key key k (update_where (\<lambda>r. key r = k') upd rs) =
     (if k = k' then map_option upd (get_key key k rs) else get_key key k rs)"
  by (induction rs) (auto simp: get_key_def update_where_def)

lemma claim_row_facts [simp]: "j_id (claim_row t j) = j_id j" "j_status (claim_row t j) = Running"
  "j_attempts (claim_row t j) = j_attempts j + 1" "j_max (claim_row t j) = j_max j"
  by (simp_all add: claim_row_def)

lemma mark_row_facts [simp]: "j_id (mark_row t c e j) = j_id j" "j_attempts (mark_row t c e j) = j_attempts j"
  "j_max (mark_row t c e j) = j_max j"
  by (auto simp: mark_row_def split: option.split)

lemma inv_enqueued:
  assumes "queue_inv q" "q_enqueue w kind raw t (qu_site q) = Some (u, d)"
  shows "queue_inv (q\<lparr>qu_site := d\<rparr>)"
proof -
  obtain v where d: "jobs d = jobs (qu_site q) @ [\<lparr>j_id = next_job (qu_site q), j_kind = kind, j_run_at = t, j_payload = v,
      j_status = Pending, j_attempts = 0, j_max = 3, j_error = [], j_updated = w_now w\<rparr>]"
    "next_job d = next_job (qu_site q) + 1"
    using assms(2) by (auto simp: q_enqueue_def split: option.splits if_splits)
  have i: "j_id j < next_job (qu_site q)" if "j \<in> set (jobs (qu_site q))" for j
    using assms(1) that by (simp add: queue_inv_def job_ok_def)
  have "next_job (qu_site q) \<notin> set (qu_log q)" using assms(1) by (auto simp: queue_inv_def)
  then have "count_list (qu_log q) (next_job (qu_site q)) = 0" by (simp add: count_list_0_iff)
  moreover have "claim_ok (jobs d) c" if "claim_ok (jobs (qu_site q)) c" for c
    using that by (auto simp: d claim_ok_def get_key_append split: option.splits)
  moreover have "key_ok j_id (jobs d)" using assms(1) i by (force simp: d queue_inv_def)
  moreover have "job_ok (qu_log q) (next_job d) j" if "j \<in> set (jobs d)" for j
    using that assms(1) calculation(1) by (auto simp: d queue_inv_def job_ok_def)
  moreover have "i < next_job d" if "i \<in> set (qu_log q)" for i
    using that assms(1) by (auto simp: d(2) queue_inv_def)
  ultimately show ?thesis using assms(1) by (auto simp: queue_inv_def)
qed

lemma inv_claimed:
  assumes "queue_inv q" "q_claim w (qu_site q) = Some (Some c, d)"
  shows "queue_inv (q\<lparr>qu_site := d, qu_running := c # qu_running q, qu_log := cj_id c # qu_log q\<rparr>)"
proof -
  let ?js = "jobs (qu_site q)"
  obtain j where j: "earliest (filter (due (w_now w)) ?js) = Some j"
    "c = \<lparr>cj_id = j_id j, cj_kind = j_kind j, cj_payload = j_payload j, cj_attempts = j_attempts j + 1, cj_max = j_max j\<rparr>"
    "d = (qu_site q)\<lparr>jobs := update_where (\<lambda>k. j_id k = j_id j) (claim_row (w_now w)) ?js\<rparr>"
    using assms(2) by (auto simp: q_claim_def split: option.splits)
  have m: "j \<in> set ?js" "j_status j = Pending" using earliest_mem[OF j(1)] by (auto simp: due_def)
  have k: "key_ok j_id ?js" using assms(1) by (simp add: queue_inv_def)
  have g: "get_key j_id (j_id j) ?js = Some j" by (rule get_key_unique[OF k m(1)])
  have u: "k = j" if "k \<in> set ?js" "j_id k = j_id j" for k
    using get_key_unique[OF k that(1)] g that(2) by (metis option.inject)
  have g': "get_key j_id i (jobs d) = (if i = j_id j then map_option (claim_row (w_now w)) (get_key j_id i ?js) else get_key j_id i ?js)" for i
    by (simp add: j(3) get_key_update_where)
  have free: "cj_id c' \<noteq> j_id j" if "c' \<in> set (qu_running q)" for c'
    using assms(1) that g m(2) by (auto simp: queue_inv_def claim_ok_def)
  have jobs: "job_ok (j_id j # qu_log q) (next_job (qu_site q)) k" if k': "k \<in> set (jobs d)" for k
  proof -
    obtain r where r: "r \<in> set ?js" "k = (if j_id r = j_id j then claim_row (w_now w) r else r)"
      using k' by (auto simp: j(3) set_update_where)
    have ok: "job_ok (qu_log q) (next_job (qu_site q)) r" using assms(1) r(1) by (simp add: queue_inv_def)
    show ?thesis
    proof (cases "j_id r = j_id j")
      case True
      then have "r = j" by (rule u[OF r(1)])
      then show ?thesis using ok m(2) r(2) by (simp add: job_ok_def)
    next
      case False
      then show ?thesis using ok r(2) by (auto simp: job_ok_def)
    qed
  qed
  have id: "cj_id c = j_id j" "next_job d = next_job (qu_site q)" by (simp_all add: j(2,3))
  have "key_ok j_id (jobs d)" using k by (auto simp: j(3) intro!: key_ok_update_where)
  moreover have "claim_ok (jobs d) c'" if "c' \<in> set (qu_running q)" for c'
    using assms(1) that free[OF that] by (auto simp: claim_ok_def g' queue_inv_def)
  moreover have "claim_ok (jobs d) c"
  proof -
    have "j_max j = 3" using assms(1) m(1) by (simp add: queue_inv_def job_ok_def)
    then show ?thesis by (simp add: claim_ok_def g' g j(2))
  qed
  moreover have "cj_id c \<notin> cj_id ` set (qu_running q)" using free id(1) by (metis imageE)
  moreover have "distinct (map cj_id (qu_running q))" using assms(1) by (simp add: queue_inv_def)
  moreover have "j_id j < next_job (qu_site q)" using assms(1) m(1) by (simp add: queue_inv_def job_ok_def)
  moreover have "\<forall>k\<in>set (jobs d). job_ok (cj_id c # qu_log q) (next_job d) k" using jobs id by simp
  moreover have "\<forall>i\<in>set (qu_log q). i < next_job (qu_site q)" using assms(1) by (simp add: queue_inv_def)
  ultimately show ?thesis using id by (simp add: queue_inv_def)
qed

lemma inv_finished:
  assumes "queue_inv q" "c \<in> set (qu_running q)" "q_mark w c err (qu_site q) = Some (u, d)"
  shows "queue_inv (q\<lparr>qu_site := d, qu_running := remove1 c (qu_running q)\<rparr>)"
proof -
  let ?js = "jobs (qu_site q)"
  have d: "d = (qu_site q)\<lparr>jobs := update_where (\<lambda>j. j_id j = cj_id c) (mark_row (w_now w) c err) ?js\<rparr>"
    using assms(3) by (simp add: q_mark_def)
  have k: "key_ok j_id ?js" using assms(1) by (simp add: queue_inv_def)
  obtain j where j: "get_key j_id (cj_id c) ?js = Some j" "j_attempts j = cj_attempts c" "cj_max c = 3"
    using assms(1,2) by (auto simp: queue_inv_def claim_ok_def split: option.splits)
  have u: "r = j" if "r \<in> set ?js" "j_id r = cj_id c" for r
    using get_key_unique[OF k that(1)] j(1) that(2) by (metis option.inject)
  have jobs: "job_ok (qu_log q) (next_job (qu_site q)) x" if x: "x \<in> set (jobs d)" for x
  proof -
    obtain r where r: "r \<in> set ?js" "x = (if j_id r = cj_id c then mark_row (w_now w) c err r else r)"
      using x by (auto simp: d set_update_where)
    have ok: "job_ok (qu_log q) (next_job (qu_site q)) r" using assms(1) r(1) by (simp add: queue_inv_def)
    show ?thesis
    proof (cases "j_id r = cj_id c")
      case True
      then have "r = j" by (rule u[OF r(1)])
      then show ?thesis using ok j(2,3) r(2) by (auto simp: job_ok_def mark_row_def split: option.splits)
    next
      case False
      then show ?thesis using ok r(2) by simp
    qed
  qed
  have run: "cj_id c' \<noteq> cj_id c" "c' \<in> set (qu_running q)" if "c' \<in> set (remove1 c (qu_running q))" for c'
  proof -
    have dm: "distinct (map cj_id (qu_running q))" using assms(1) by (simp add: queue_inv_def)
    then have dr: "distinct (qu_running q)" by (simp add: distinct_map)
    then have c': "c' \<in> set (qu_running q)" "c' \<noteq> c" using that by auto
    then show "c' \<in> set (qu_running q)" by simp
    show "cj_id c' \<noteq> cj_id c" using dm c' assms(2) by (auto simp: distinct_map inj_on_def)
  qed
  have claims: "claim_ok (jobs d) c'" if "c' \<in> set (remove1 c (qu_running q))" for c'
    using run[OF that] assms(1) by (auto simp: queue_inv_def claim_ok_def d get_key_update_where)
  have "distinct (map cj_id (remove1 c (qu_running q)))"
    using assms(1) by (auto simp: queue_inv_def distinct_map intro: inj_on_subset dest: notin_set_remove1)
  moreover have "key_ok j_id (jobs d)" using k by (auto simp: d intro!: key_ok_update_where)
  ultimately show ?thesis using assms(1) jobs claims by (simp add: queue_inv_def d)
qed

lemma inv_lost:
  assumes "queue_inv q"
  shows "queue_inv (q\<lparr>qu_running := remove1 c (qu_running q)\<rparr>)"
proof -
  have "distinct (map cj_id (remove1 c (qu_running q)))"
    using assms by (auto simp: queue_inv_def distinct_map intro: inj_on_subset dest: notin_set_remove1)
  then show ?thesis using assms by (auto simp: queue_inv_def dest: notin_set_remove1)
qed

lemma inv_step: "queue_step q q' \<Longrightarrow> queue_inv q \<Longrightarrow> queue_inv q'"
proof (induction rule: queue_step.induct)
  case (other d q)
  then show ?case by (simp add: queue_inv_def)
qed (rule inv_enqueued inv_claimed inv_finished inv_lost; assumption)+

lemma inv_steps: "queue_steps q q' \<Longrightarrow> queue_inv q \<Longrightarrow> queue_inv q'"
  by (induction rule: rtranclp_induct) (auto intro: inv_step)

lemma inv_start: "jobs d = [] \<Longrightarrow> queue_inv (queue0 d)"
  by (simp add: queue_inv_def queue0_def)

text \<open>C30: Whatever the interleaving of enqueues, claims, completions, crashes and failing statements of
  any number of workers: a job is claimed at most three times, its attempts count its claims, and no two
  workers run the same job at the same time.\<close>

theorem jobs_bounded:
  assumes "queue_steps (queue0 d) q" "jobs d = []"
  shows "list_all (\<lambda>j. j_attempts j = int (count_list (qu_log q) (j_id j)) \<and> j_attempts j \<le> 3) (jobs (qu_site q)) \<and>
    distinct (map cj_id (qu_running q))"
  using inv_steps[OF assms(1) inv_start[OF assms(2)]] by (auto simp: queue_inv_def job_ok_def list_all_iff)

lemma final_step:
  assumes "queue_step q q'" "queue_inv q" "get_key j_id i (jobs (qu_site q)) = Some j" "j_status j = Done \<or> j_status j = Failed"
  shows "get_key j_id i (jobs (qu_site q')) = Some j"
  using assms(1)
proof (cases rule: queue_step.cases)
  case (enqueued w kind raw t u d)
  then show ?thesis using assms(3) by (auto simp: q_enqueue_def get_key_append split: option.splits if_splits)
next
  case (claimed w c d)
  then obtain k where k: "earliest (filter (due (w_now w)) (jobs (qu_site q))) = Some k"
    "d = (qu_site q)\<lparr>jobs := update_where (\<lambda>r. j_id r = j_id k) (claim_row (w_now w)) (jobs (qu_site q))\<rparr>"
    by (auto simp: q_claim_def split: option.splits)
  have "k \<in> set (jobs (qu_site q))" "j_status k = Pending" using earliest_mem[OF k(1)] by (auto simp: due_def)
  then have "get_key j_id (j_id k) (jobs (qu_site q)) = Some k" using assms(2) by (simp add: queue_inv_def get_key_unique)
  then have "i \<noteq> j_id k" using assms(3,4) \<open>j_status k = Pending\<close> by auto
  then show ?thesis using claimed(1) k(2) assms(3) by (simp add: get_key_update_where)
next
  case (finished c w err u d)
  have "claim_ok (jobs (qu_site q)) c" using assms(2) finished(2) by (simp add: queue_inv_def)
  then have "i \<noteq> cj_id c" using assms(3,4) by (auto simp: claim_ok_def)
  then show ?thesis using finished(1,3) assms(3) by (auto simp: q_mark_def get_key_update_where)
qed (use assms(3) in auto)

text \<open>A job that is done or has failed never changes again, under any interleaving.\<close>

theorem jobs_final:
  assumes "queue_steps (queue0 d) q" "jobs d = []" "queue_steps q q'"
    "get_key j_id i (jobs (qu_site q)) = Some j" "j_status j = Done \<or> j_status j = Failed"
  shows "get_key j_id i (jobs (qu_site q')) = Some j"
  using assms(3,4)
proof (induction rule: rtranclp_induct)
  case (step y z)
  have "queue_inv y" using inv_steps[OF _ inv_start[OF assms(2)]] assms(1) step.hyps(1) by (meson rtranclp_trans)
  then show ?case using final_step[OF step.hyps(2)] step.IH step.prems assms(5) by simp
qed

subsection \<open>An example\<close>

text \<open>One job, enqueued, claimed and done.\<close>

definition one_job :: job_row where
  "one_job = \<lparr>j_id = 1, j_kind = ''k'', j_run_at = 0, j_payload = JObj [], j_status = Pending, j_attempts = 0,
     j_max = 3, j_error = [], j_updated = 0\<rparr>"

definition queue1 :: queue where
  "queue1 = (queue0 (site_of empty_db))\<lparr>qu_site := (site_of empty_db)\<lparr>jobs := [one_job], next_job := 2\<rparr>\<rparr>"

definition claim1 :: claimed_job where
  "claim1 = \<lparr>cj_id = 1, cj_kind = ''k'', cj_payload = JObj [], cj_attempts = 1, cj_max = 3\<rparr>"

definition queue2 :: queue where
  "queue2 = queue1\<lparr>qu_site := (site_of empty_db)\<lparr>jobs := [claim_row 0 one_job], next_job := 2\<rparr>,
     qu_running := [claim1], qu_log := [1]\<rparr>"

definition queue3 :: queue where
  "queue3 = queue2\<lparr>qu_site := (site_of empty_db)\<lparr>jobs := [mark_row 0 claim1 None (claim_row 0 one_job)], next_job := 2\<rparr>,
     qu_running := []\<rparr>"

lemma example_steps: "queue_step (queue0 (site_of empty_db)) queue1" "queue_step queue1 queue2" "queue_step queue2 queue3"
proof -
  let ?w = "witness_world 0"
  let ?d1 = "(site_of empty_db)\<lparr>jobs := [one_job], next_job := 2\<rparr>"
  have "q_enqueue ?w ''k'' ''{}'' 0 (qu_site (queue0 (site_of empty_db))) = Some ((), ?d1)" by code_simp
  from queue_step.enqueued[OF this] show "queue_step (queue0 (site_of empty_db)) queue1" by (simp add: queue1_def)
  have "q_claim ?w (qu_site queue1) = Some (Some claim1, qu_site queue2)" by code_simp
  from queue_step.claimed[OF this] show "queue_step queue1 queue2"
    by (simp add: queue2_def queue1_def queue0_def claim1_def)
  have "q_mark ?w claim1 None (qu_site queue2) = Some ((), qu_site queue3)" by code_simp
  from queue_step.finished[OF _ this] show "queue_step queue2 queue3"
    by (simp add: queue3_def queue2_def)
qed

theorem jobs_bounded_witness:
  "list_all (\<lambda>j. j_attempts j = int (count_list (qu_log queue2) (j_id j)) \<and> j_attempts j \<le> 3) (jobs (qu_site queue2)) \<and>
   distinct (map cj_id (qu_running queue2)) \<and> map j_attempts (jobs (qu_site queue2)) = [1]"
proof -
  have "queue_steps (queue0 (site_of empty_db)) queue2" using example_steps(1,2) by (meson rtranclp.simps)
  from jobs_bounded[OF this] have
    "list_all (\<lambda>j. j_attempts j = int (count_list (qu_log queue2) (j_id j)) \<and> j_attempts j \<le> 3) (jobs (qu_site queue2)) \<and>
     distinct (map cj_id (qu_running queue2))" by (simp add: site_of_def)
  moreover have "map j_attempts (jobs (qu_site queue2)) = [1]" by code_simp
  ultimately show ?thesis by blast
qed

theorem jobs_final_witness:
  "\<exists>q'. queue_step queue3 q' \<and> get_key j_id 1 (jobs (qu_site q')) = Some (mark_row 0 claim1 None (claim_row 0 one_job))"
proof -
  let ?w = "witness_world 0"
  have "q_enqueue ?w ''k'' ''{}'' 0 (qu_site queue3) \<noteq> None" by code_simp
  then obtain u d where d: "q_enqueue ?w ''k'' ''{}'' 0 (qu_site queue3) = Some (u, d)"
    unfolding not_None_eq split_paired_Ex by (elim exE)
  have s: "queue_step queue3 (queue3\<lparr>qu_site := d\<rparr>)" by (rule queue_step.enqueued[OF d])
  have r: "queue_steps (queue0 (site_of empty_db)) queue3"
    by (intro rtranclp.rtrancl_into_rtrancl[of queue_step, OF _ example_steps(3)] rtranclp.rtrancl_into_rtrancl[of queue_step, OF _ example_steps(2)]
        r_into_rtranclp example_steps(1))
  have g: "get_key j_id 1 (jobs (qu_site queue3)) = Some (mark_row 0 claim1 None (claim_row 0 one_job))" by code_simp
  have f: "j_status (mark_row 0 claim1 None (claim_row 0 one_job)) = Done" by code_simp
  have "get_key j_id 1 (jobs (qu_site (queue3\<lparr>qu_site := d\<rparr>))) = Some (mark_row 0 claim1 None (claim_row 0 one_job))"
    by (rule jobs_final[OF r _ r_into_rtranclp[of queue_step, OF s] g disjI1[OF f]]) (simp add: site_of_def)
  then show ?thesis using s by blast
qed

end
