(* ===== verification/JobLoop.thy ===== *)
theory JobLoop
  imports JobProps AlertProps
begin

section \<open>The loops of the worker return\<close>

text \<open>
  The handlers of the registry never touch other jobs, so every claimed job leaves the backlog or moves to a later
  time: one tick of the polling loop returns.
\<close>

subsection \<open>What the handlers do to the queue\<close>

definition keeps_jobs :: "'a iom \<Rightarrow> bool" where
  "keeps_jobs m \<longleftrightarrow> (\<forall>js. steady (on_site (\<lambda>d. jobs d = js)) m)"

lemma keeps_jobs_P: "keeps_jobs m \<Longrightarrow> steady (on_site (\<lambda>d. P (jobs d))) m"
  unfolding keeps_jobs_def steady_def by metis

lemma steady_site_query: "(\<And>d a d'. q d = Some (a, d') \<Longrightarrow> jobs d' = jobs d) \<Longrightarrow> steady (on_site (\<lambda>d. jobs d = js)) (query w n q)"
  by (rule steady_query) metis

lemma jobs_on_store: "on_store q d = Some (a, d') \<Longrightarrow> jobs d' = jobs d"
  by (auto simp: on_store_def)

lemma retention_jobs: "keeps_jobs (run_retention_sweep w n rc)"
  unfolding keeps_jobs_def run_retention_sweep_def drop_partitions_def ensure_partitions_def ensure_month_def Let_def
  by (auto intro!: steady_intros steady_site_query dest: jobs_on_store split: option.splits prod.splits)

lemma rollup_jobs: "keeps_jobs (run_rollup_pass pc w n)"
proof -
  have "steady (on_site (\<lambda>d. jobs d = js)) (read_watermark w n)" for js
  proof -
    have "steady (on_site (\<lambda>d. jobs d = js)) (query_row w n (select q_watermark))" by (intro steady_intros)
    then show ?thesis unfolding steady_def read_watermark_def by (auto split: prod.splits sum.splits)
  qed
  then show ?thesis
    unfolding keeps_jobs_def run_rollup_pass_def Let_def
    by (auto simp: q_tx_rollups_def q_set_watermark_def Let_def intro!: steady_intros steady_site_query split: prod.splits)
qed


lemma alert_jobs: "keeps_jobs (handle_alert_evaluate cfg json_err w n raw)"
proof -
  have touch: "steady (on_site (\<lambda>d. jobs d = js)) (touch_dedupe w n rid iid)" for js rid iid
    unfolding touch_dedupe_def
    by (rule steady_site_query) (auto simp: with_uuid_def q_touch_dedupe_def split: option.splits if_splits)
  have check: "steady (on_site (\<lambda>d. jobs d = js)) (check_dedupe w n rid iid q)" for js rid iid q
    unfolding check_dedupe_def
    by (auto simp: with_uuid_def intro!: steady_intros steady_query_same split: option.splits)
  have rule: "steady (on_site (\<lambda>d. jobs d = js)) (evaluate_rule w n cfg proj issue p r)" for js proj issue p r
    unfolding evaluate_rule_def window_count_def Let_def
    by (intro steady_intros steady_deliver_rule touch check) simp
  show ?thesis
    unfolding keeps_jobs_def handle_alert_evaluate_def evaluate_and_deliver_def load_enabled_rules_def
      load_issue_brief_def load_project_brief_def
    by (intro allI steady_intros rule)
qed

text \<open>A handler never puts a job at the head of the queue: what it enqueues is due later.\<close>

definition backlog :: "time \<Rightarrow> nat \<Rightarrow> site \<Rightarrow> bool" where
  "backlog now k d \<longleftrightarrow> length (filter (due now) (jobs d)) \<le> k \<and>
     list_all (\<lambda>j. 0 \<le> j_attempts j \<and> j_max j \<le> 3) (jobs d)"

definition tame :: "registry \<Rightarrow> world \<Rightarrow> net \<Rightarrow> bool" where
  "tame reg w n \<longleftrightarrow> (\<forall>kind h raw k. reg kind = Some h \<longrightarrow> steady (on_site (backlog (w_now w) k)) (h w n raw))"

lemma keeps_jobs_backlog: "keeps_jobs m \<Longrightarrow> steady (on_site (backlog now k)) m"
  unfolding backlog_def by (rule keeps_jobs_P)

lemma steady_enqueue:
  assumes "w_now w < t"
  shows "steady (on_site (backlog (w_now w) k)) (enqueue w n kind raw t)"
  unfolding enqueue_def Let_def
  by (rule steady_query) (use assms in \<open>auto simp: q_enqueue_def backlog_def due_def split: option.splits if_splits\<close>)

lemma handlers_tame:
  "steady (on_site (backlog (w_now w) k)) (handle_retention rc w n raw)"
  "steady (on_site (backlog (w_now w) k)) (handle_rollup pc w n raw)"
  "steady (on_site (backlog (w_now w) k)) (handle_alert_evaluate cfg json_err w n raw)"
  unfolding handle_retention_def handle_rollup_def
  by (intro steady_bind keeps_jobs_backlog retention_jobs rollup_jobs alert_jobs steady_enqueue; simp add: time_simps)+

lemma serve_tame: "tame (serve_registry cfg pc json_err) w n"
  unfolding tame_def serve_registry_def register_def using handlers_tame by (auto split: if_splits)

subsection \<open>Each turn removes a due job\<close>

lemma backoff_positive: "1 \<le> a \<Longrightarrow> a \<le> 3 \<Longrightarrow> 0 < backoff a"
proof -
  assume "1 \<le> a" "a \<le> 3"
  then have "a = 1 \<or> a = 2 \<or> a = 3" by linarith
  then show ?thesis by (elim disjE) (simp_all add: backoff_def, code_simp+)
qed

lemma length_filter_update:
  assumes "\<And>r. r \<in> set rs \<Longrightarrow> hit r \<Longrightarrow> \<not> P (upd r)"
  shows "length (filter P (update_where hit upd rs)) \<le> length (filter P rs)"
    "r \<in> set rs \<Longrightarrow> hit r \<Longrightarrow> P r \<Longrightarrow> length (filter P (update_where hit upd rs)) < length (filter P rs)"
  using assms by (induction rs) (auto simp: update_where_def less_Suc_eq_le split: if_splits)

lemma claim_backlog:
  assumes "claim w n s = (Inr (Some c), s')" "backlog (w_now w) k (io_site s)"
  shows "0 < k" "backlog (w_now w) (k - 1) (io_site s')" "1 \<le> cj_attempts c" "cj_max c \<le> 3"
proof -
  let ?js = "jobs (io_site s)"
  obtain j where j: "earliest (filter (due (w_now w)) ?js) = Some j" "c = \<lparr>cj_id = j_id j, cj_kind = j_kind j,
      cj_payload = j_payload j, cj_attempts = j_attempts j + 1, cj_max = j_max j\<rparr>"
    "jobs (io_site s') = update_where (\<lambda>r. j_id r = j_id j) (claim_row (w_now w)) ?js"
    using assms(1)
    by (auto simp: claim_def attempt_def query_row_def query_def bind_def q_claim_def fail_def ret_def
        split: prod.splits sum.splits option.splits if_splits)
  have m: "j \<in> set ?js" "due (w_now w) j" using earliest_mem[OF j(1)] by auto
  have nd: "\<not> due (w_now w) (claim_row (w_now w) r)" for r by (simp add: due_def)
  have "length (filter (due (w_now w)) (jobs (io_site s'))) < length (filter (due (w_now w)) ?js)"
    unfolding j(3) by (rule length_filter_update(2)[where r = j]) (use nd m in auto)
  then show "0 < k" "backlog (w_now w) (k - 1) (io_site s')"
    using assms(2) by (auto simp: backlog_def j(3) list_all_iff set_update_where)
  show "1 \<le> cj_attempts c" "cj_max c \<le> 3" using assms(2) m(1) by (auto simp: backlog_def list_all_iff j(2))
qed

lemma execute_backlog:
  assumes "tame reg w n" "backlog (w_now w) k (io_site s)" "1 \<le> cj_attempts c" "cj_max c \<le> 3"
  shows "backlog (w_now w) k (io_site (snd (execute reg w n c s)))"
proof -
  have "steady (on_site (backlog (w_now w) k)) (query w n (q_mark w c err))" for err
  proof (rule steady_query)
    fix d a d' assume d: "backlog (w_now w) k d" "q_mark w c err d = Some (a, d')"
    have nd: "\<not> due (w_now w) (mark_row (w_now w) c err r)" for r
      using assms(3,4) backoff_positive[of "cj_attempts c"] by (auto simp: due_def mark_row_def split: option.split)
    have "length (filter (due (w_now w)) (jobs d')) \<le> length (filter (due (w_now w)) (jobs d))"
      using d(2) by (auto simp: q_mark_def nd intro!: length_filter_update(1))
    then show "backlog (w_now w) k d'"
      using d by (auto simp: backlog_def q_mark_def list_all_iff set_update_where)
  qed
  moreover have "steady (on_site (backlog (w_now w) k)) (case reg (cj_kind c) of None \<Rightarrow> fail (no_handler (cj_kind c)) | Some h \<Rightarrow> h w n (cj_payload c))"
    using assms(1) unfolding tame_def by (auto intro: steady_fail split: option.split)
  ultimately have "steady (on_site (backlog (w_now w) k)) (execute reg w n c)"
    unfolding execute_def by (intro steady_bind steady_outcome steady_attempt steady_ret)
  then show ?thesis using assms(2) by (simp add: steady_def)
qed

definition due_jobs :: "time \<Rightarrow> site \<Rightarrow> nat" where "due_jobs now d = length (filter (due now) (jobs d))"

definition jobs_fine :: "site \<Rightarrow> bool" where
  "jobs_fine d \<longleftrightarrow> list_all (\<lambda>j. 0 \<le> j_attempts j \<and> j_max j \<le> 3) (jobs d)"

lemma backlog_fine: "backlog now k d \<longleftrightarrow> due_jobs now d \<le> k \<and> jobs_fine d"
  by (simp add: backlog_def due_jobs_def jobs_fine_def)

lemma claim_stops:
  assumes "\<nexists>c. fst (claim w n s) = Inr (Some c)"
  shows "run_due reg w n k s = Some (k, snd (claim w n s))" "jobs (io_site (snd (claim w n s))) = jobs (io_site s)"
    "calm w \<Longrightarrow> due_jobs (w_now w) (io_site s) = 0"
proof -
  show "run_due reg w n k s = Some (k, snd (claim w n s))"
    using assms by (subst run_due.simps) (auto split: prod.split sum.split option.split)
  show "jobs (io_site (snd (claim w n s))) = jobs (io_site s)"
    using assms
    by (auto simp: claim_def attempt_def query_row_def query_def bind_def q_claim_def fail_def ret_def
        split: prod.splits sum.splits option.splits if_splits)
  show "due_jobs (w_now w) (io_site s) = 0" if "calm w"
    using assms that
    by (auto simp: claim_def attempt_def query_row_def query_def bind_def q_claim_def fail_def ret_def calm_def
        due_jobs_def earliest_None filter_empty_conv split: prod.splits sum.splits option.splits if_splits)
qed

lemma run_due_returns:
  assumes "tame reg w n" "jobs_fine (io_site s)" "due_jobs (w_now w) (io_site s) \<le> b"
  shows "\<exists>m s'. run_due reg w n k s = Some (k + m, s') \<and> m + due_jobs (w_now w) (io_site s') \<le> b \<and>
    jobs_fine (io_site s') \<and> (calm w \<longrightarrow> due_jobs (w_now w) (io_site s') = 0)"
  using assms(2,3)
proof (induction b arbitrary: k s rule: less_induct)
  case (less b)
  show ?case
  proof (cases "\<exists>c. fst (claim w n s) = Inr (Some c)")
    case False
    show ?thesis
      using claim_stops(1)[OF False, where reg = reg and k = k] claim_stops(2,3)[OF False] less.prems by (auto simp: due_jobs_def jobs_fine_def)
  next
    case True
    then obtain c s1 where c: "claim w n s = (Inr (Some c), s1)" by (metis prod.collapse)
    have b: "backlog (w_now w) b (io_site s)" using less.prems by (simp add: backlog_fine)
    note cb = claim_backlog[OF c b]
    have "backlog (w_now w) (b - 1) (io_site (snd (execute reg w n c s1)))"
      using execute_backlog[OF assms(1)] cb by blast
    then obtain m s' where m: "run_due reg w n (Suc k) (snd (execute reg w n c s1)) = Some (Suc k + m, s')"
      "m + due_jobs (w_now w) (io_site s') \<le> b - 1" "jobs_fine (io_site s')" "calm w \<longrightarrow> due_jobs (w_now w) (io_site s') = 0"
      using less.IH[of "b - 1"] cb(1) unfolding backlog_fine by (metis diff_less zero_less_one)
    have "run_due reg w n k s = Some (k + Suc m, s')" using m(1) by (subst run_due.simps) (simp add: c)
    then show ?thesis using m cb(1) by (intro exI[of _ "Suc m"] exI[of _ s']) auto
  qed
qed

lemma poll_returns:
  assumes "tame reg w n" "jobs_fine (io_site s)" "due_jobs (w_now w) (io_site s) \<le> b"
  shows "\<exists>s'. poll reg w n s = Some s' \<and> jobs_fine (io_site s') \<and> (calm w \<longrightarrow> due_jobs (w_now w) (io_site s') = 0)"
  using assms(2,3)
proof (induction b arbitrary: s rule: less_induct)
  case (less b)
  obtain m s' where m: "run_due reg w n 0 s = Some (m, s')" "m + due_jobs (w_now w) (io_site s') \<le> b"
    "jobs_fine (io_site s')" "calm w \<longrightarrow> due_jobs (w_now w) (io_site s') = 0"
    using run_due_returns[OF assms(1) less.prems, of 0] by auto
  show ?case
  proof (cases "m = 0")
    case True
    then show ?thesis using m by (subst poll.simps) simp
  next
    case False
    then have "b - m < b" "due_jobs (w_now w) (io_site s') \<le> b - m" using m(2) by auto
    then show ?thesis using less.IH[of "b - m" s'] m(1,3) False by (subst poll.simps) simp
  qed
qed

text \<open>C31: One tick of the worker returns, whatever statements fail: its loops claim each due job once, since
  what the handlers enqueue and what failed is due later.  Without failing statements no due job is left.\<close>

theorem poll_drains:
  assumes "list_all (\<lambda>j. 0 \<le> j_attempts j \<and> j_max j \<le> 3) (jobs (io_site s))"
  shows "\<exists>s'. poll (serve_registry cfg pc json_err) w n s = Some s' \<and>
    (calm w \<longrightarrow> list_all (\<lambda>j. \<not> due (w_now w) j) (jobs (io_site s')))"
  using poll_returns[OF serve_tame[of cfg pc json_err w n] _ order_refl, of s] assms
  by (auto simp: jobs_fine_def due_jobs_def list_all_iff filter_empty_conv)

definition job_at :: "int \<Rightarrow> string \<Rightarrow> time \<Rightarrow> job_row" where
  "job_at i kind t = \<lparr>j_id = i, j_kind = kind, j_run_at = t, j_payload = JObj [], j_status = Pending,
     j_attempts = 0, j_max = 3, j_error = [], j_updated = t\<rparr>"

definition idle_config :: config where
  "idle_config = load_config (\<lambda>_. [])"

definition jobs_io :: io where
  "jobs_io = \<lparr>io_site = (site_of empty_db)\<lparr>jobs := [job_at 1 ''rollup'' 0, job_at 2 ''nobody'' 0]\<rparr>, io_calls = 0, io_out = []\<rparr>"

theorem poll_drains_witness:
  "\<exists>s'. poll (serve_registry idle_config (\<lambda>_ _. (0, 0)) (\<lambda>_. [])) (witness_world (100 * hour)) witness_net jobs_io = Some s' \<and>
    list_all (\<lambda>j. \<not> due (100 * hour) j) (jobs (io_site s'))"
proof -
  have "list_all (\<lambda>j. 0 \<le> j_attempts j \<and> j_max j \<le> 3) (jobs (io_site jobs_io))" by code_simp
  from poll_drains[OF this, of "idle_config" "\<lambda>_ _. (0, 0)" "\<lambda>_. []" "witness_world (100 * hour)" witness_net]
  show ?thesis using witness_calm[of "100 * hour"] by (auto simp: witness_world_def)
qed

end
