(* ===== verification/Artifacts.thy ===== *)
theory Artifacts
  imports SourceMap
begin

section \<open>Release artifacts and frames (internal/sourcemap: extract.go, resolve.go, symbolicate.go)\<close>

text \<open>
  An uploaded release file is scanned once for what it refers to (\<open>extract_artifact\<close>).  To symbolicate
  a frame, \<open>resolve_map\<close> looks for its source map among the artifacts the event may see, and
  \<open>symbolicate_frame\<close> maps the position.  Resolving a reference against an absolute URL (net/url) is
  the parameter \<open>url_join\<close>: \<open>None\<close> when one of the two does not parse.
\<close>

subsection \<open>References of an upload\<close>

definition tail_scan_bytes :: nat where "tail_scan_bytes = 64 * 1024"

text \<open>White space of a regular expression, and a literal matched without case (a long s is an s).\<close>

definition rx_space :: "char \<Rightarrow> bool" where
  "rx_space c \<longleftrightarrow> c \<in> {CHR '' '', CHR 0x09, nl, CHR 0x0C, CHR 0x0D}"

fun fold_lit :: "string \<Rightarrow> string \<Rightarrow> string option" where
  "fold_lit [] s = Some s"
| "fold_lit (p # ps) [] = None"
| "fold_lit (p # ps) (c # s) =
     (if lower_c c = lower_c p then fold_lit ps s
      else if lower_c p = CHR ''s'' \<and> c = CHR 0xC5 \<and> take 1 s = [CHR 0xBF] then fold_lit ps (drop 1 s)
      else None)"

text \<open>\<open>[/*#@]\s*word[=:]\s*\<close> at the start of a text, and what follows.\<close>

definition comment_at :: "string \<Rightarrow> string \<Rightarrow> string option" where
  "comment_at word s =
     (case s of
        [] \<Rightarrow> None
      | c # s \<Rightarrow>
          if c \<notin> set ''/*#@'' then None
          else (case fold_lit word (dropWhile rx_space s) of
                  Some (d # s) \<Rightarrow> if d \<in> set ''=:'' then Some (dropWhile rx_space s) else None
                | _ \<Rightarrow> None))"

definition debug_group :: "string \<Rightarrow> string option" where
  "debug_group s =
     (if length s \<ge> 36 \<and> list_all (\<lambda>c. is_hex_c c \<or> c = CHR ''-'') (take 36 s) then Some (take 36 s) else None)"

definition url_group :: "string \<Rightarrow> string option" where
  "url_group s = (let g = takeWhile (\<lambda>c. \<not> rx_space c) s in if g = [] then None else Some g)"

fun find_comment :: "string \<Rightarrow> (string \<Rightarrow> string option) \<Rightarrow> string \<Rightarrow> string option" where
  "find_comment word grp [] = None"
| "find_comment word grp (c # s) =
     (case comment_at word (c # s) of
        None \<Rightarrow> find_comment word grp s
      | Some rest \<Rightarrow> (case grp rest of None \<Rightarrow> find_comment word grp s | Some g \<Rightarrow> Some g))"

definition debug_id_re :: "string \<Rightarrow> string option" where "debug_id_re = find_comment ''debugId'' debug_group"

definition source_mapping_re :: "string \<Rightarrow> string option" where
  "source_mapping_re = find_comment ''sourceMappingURL'' url_group"

record map_probe =
  mp_version :: int
  mp_sources :: "string list"
  mp_mappings :: string

definition dec_map_probe :: "map_probe dec" where
  "dec_map_probe = dec_struct
     [(''version'', on mp_version mp_version_update dec_int),
      (''sources'', on mp_sources mp_sources_update (dec_list [] dec_string)),
      (''mappings'', on mp_mappings mp_mappings_update dec_string)]"

definition is_sourcemap_artifact :: "string \<Rightarrow> string \<Rightarrow> bool" where
  "is_sourcemap_artifact name content =
     (if has_suffix name ''.map'' then True
      else if \<not> has_prefix (dropWhile (\<lambda>r. r \<in> {CHR '' '', nl, CHR 0x0D, CHR 0x09}) content) [CHR ''{''] then False
      else case unmarshal dec_map_probe \<lparr>mp_version = 0, mp_sources = [], mp_mappings = []\<rparr> content of
        None \<Rightarrow> False
      | Some p \<Rightarrow> (mp_version p = 3 \<and> mp_mappings p \<noteq> []) \<or> mp_sources p \<noteq> [])"

definition dec_debug_id :: "string dec" where
  "dec_debug_id = dec_struct [(''debugId'', on (\<lambda>s. s) (\<lambda>f s. f s) dec_string)]"

text \<open>\<open>ExtractArtifact\<close>: the debug id and the source mapping URL, empty when absent.\<close>

definition extract_artifact :: "string \<Rightarrow> string \<Rightarrow> string \<times> string" where
  "extract_artifact name content =
     (if is_sourcemap_artifact name content then
        (case unmarshal dec_debug_id [] content of
           None \<Rightarrow> ([], [])
         | Some s \<Rightarrow> (to_lower (trim_space s), []))
      else
        let tail = (if length content > tail_scan_bytes then drop (length content - tail_scan_bytes) content else content)
        in (case debug_id_re tail of None \<Rightarrow> [] | Some g \<Rightarrow> to_lower g,
            case source_mapping_re tail of None \<Rightarrow> [] | Some g \<Rightarrow> g))"

subsection \<open>Paths\<close>

definition path_base :: "string \<Rightarrow> string" where
  "path_base p = (case last_index_byte p (CHR ''/'') of Some i \<Rightarrow> drop (i + 1) p | None \<Rightarrow> p)"

definition normalize_path :: "string \<Rightarrow> string" where
  "normalize_path s =
     (let s = trim_space s;
          s = (case index_if (\<lambda>c. c \<in> set ''?#'') s of Some i \<Rightarrow> take i s | None \<Rightarrow> s)
      in case index_of s ''://'' of
           None \<Rightarrow> s
         | Some i \<Rightarrow>
             let rest = drop (i + 3) s in
             (case index_byte rest (CHR ''/'') of Some j \<Rightarrow> drop j rest | None \<Rightarrow> s))"

definition clean_step :: "string \<Rightarrow> string list \<Rightarrow> string list" where
  "clean_step s out =
     (if s = [] \<or> s = ''.'' then out
      else if s = ''..'' then (if out \<noteq> [] then butlast out else out)
      else out @ [s])"

definition clean_path :: "string \<Rightarrow> string" where
  "clean_path p =
     (let joined = join ''/'' (fold clean_step (split_on (CHR ''/'') p) [])
      in if has_prefix p ''/'' then ''/'' @ joined else joined)"

definition normalize_path_join :: "string \<Rightarrow> string \<Rightarrow> string" where
  "normalize_path_join dir ref =
     (if has_prefix ref ''/'' then clean_path ref
      else if dir = [] then clean_path ref
      else clean_path (dir @ ''/'' @ ref))"

type_synonym url_join = "string \<Rightarrow> string \<Rightarrow> string option"

definition join_reference :: "url_join \<Rightarrow> string \<Rightarrow> string \<Rightarrow> string" where
  "join_reference uj base ref =
     (case (if has_prefix base ''http://'' \<or> has_prefix base ''https://'' then uj base ref else None) of
        Some u \<Rightarrow> u
      | None \<Rightarrow>
          let dir = (case last_index_byte base (CHR ''/'') of Some i \<Rightarrow> take i base | None \<Rightarrow> [])
          in normalize_path_join dir ref)"

subsection \<open>Inline maps\<close>

text \<open>\<open>base64.StdEncoding\<close>: line breaks are skipped, padding ends the text.\<close>

fun b64_groups :: "string \<Rightarrow> string option" where
  "b64_groups [] = Some []"
| "b64_groups (a # b # c # d # s) =
     (case (b64index a, b64index b) of
        (Some x, Some y) \<Rightarrow>
          (let c1 = char_of (x * 4 + y div 16) in
           case (b64index c, b64index d) of
             (Some z, Some t) \<Rightarrow>
               map_option (\<lambda>r. c1 # char_of (y mod 16 * 16 + z div 4) # char_of (z mod 4 * 64 + t) # r) (b64_groups s)
           | (Some z, None) \<Rightarrow>
               if d = CHR ''='' \<and> s = [] then Some [c1, char_of (y mod 16 * 16 + z div 4)] else None
           | (None, _) \<Rightarrow> if c = CHR ''='' \<and> d = CHR ''='' \<and> s = [] then Some [c1] else None)
      | _ \<Rightarrow> None)"
| "b64_groups _ = None"

definition base64_decode :: "string \<Rightarrow> string option" where
  "base64_decode s = b64_groups (filter (\<lambda>c. c \<notin> {CHR 0x0D, nl}) s)"

text \<open>\<open>url.QueryUnescape\<close>.\<close>

fun query_unescape :: "string \<Rightarrow> string option" where
  "query_unescape [] = Some []"
| "query_unescape (c # s) =
     (if c = CHR ''%'' then
        (case s of
           a # b # t \<Rightarrow>
             (case (hex_val a, hex_val b) of
                (Some x, Some y) \<Rightarrow> map_option (\<lambda>r. char_of (16 * x + y) # r) (query_unescape t)
              | _ \<Rightarrow> None)
         | _ \<Rightarrow> None)
      else map_option (\<lambda>r. (if c = CHR ''+'' then CHR '' '' else c) # r) (query_unescape s))"

definition map_of_result :: "'e + 'a \<Rightarrow> 'a option" where
  "map_of_result r = (case r of Inl _ \<Rightarrow> None | Inr m \<Rightarrow> Some m)"

definition parse_inline_map :: "string \<Rightarrow> source_map option" where
  "parse_inline_map url =
     (case index_byte url (CHR '','') of
        None \<Rightarrow> None
      | Some comma \<Rightarrow>
          let meta = take comma url; payload = drop (comma + 1) url in
          if contains meta '';base64'' then
            (case base64_decode payload of None \<Rightarrow> None | Some raw \<Rightarrow> map_of_result (parse_map raw))
          else map_of_result (parse_map (case query_unescape payload of None \<Rightarrow> [] | Some raw \<Rightarrow> raw)))"

subsection \<open>The artifacts of a release\<close>

record artifact =
  ar_name :: string
  ar_dist :: string
  ar_sha :: string
  ar_debug :: string
  ar_url :: string
  ar_body :: string

record index =
  ix_artifacts :: "artifact list"
  ix_dist :: string

definition candidates :: "index \<Rightarrow> artifact list" where
  "candidates ix =
     filter (\<lambda>a. ar_dist a \<noteq> [] \<and> ix_dist ix \<noteq> [] \<and> ar_dist a = ix_dist ix) (ix_artifacts ix) @
     filter (\<lambda>a. ar_dist a = []) (ix_artifacts ix)"

type_synonym artifact_map = "string \<rightharpoonup> artifact"

definition add_name :: "artifact \<Rightarrow> artifact_map \<Rightarrow> artifact_map" where
  "add_name a m =
     (let m = m(ar_name a \<mapsto> a);
          m = m(normalize_path (ar_name a) \<mapsto> a);
          b = path_base (ar_name a)
      in if b \<noteq> [] \<and> b \<noteq> ar_name a then m(b \<mapsto> a) else m)"

definition by_name :: "artifact list \<Rightarrow> artifact_map" where
  "by_name cands = fold add_name cands Map.empty"

definition add_debug :: "artifact \<Rightarrow> artifact_map \<Rightarrow> artifact_map" where
  "add_debug a m = (if ar_debug a \<noteq> [] then m(ar_debug a \<mapsto> a) else m)"

definition by_debug :: "artifact list \<Rightarrow> artifact_map" where
  "by_debug cands = fold add_debug cands Map.empty"

definition find_art :: "artifact_map \<Rightarrow> string \<Rightarrow> artifact option" where
  "find_art names path = (case names path of Some a \<Rightarrow> Some a | None \<Rightarrow> names (path_base path))"

definition parse_map_artifact :: "artifact \<Rightarrow> source_map option" where
  "parse_map_artifact a = (if ar_body a = [] then None else map_of_result (parse_map (ar_body a)))"

text \<open>The artifact with its map, when it parses.\<close>

definition with_map :: "artifact option \<Rightarrow> (artifact \<times> source_map) option" where
  "with_map a = (case a of None \<Rightarrow> None | Some a \<Rightarrow> map_option (\<lambda>m. (a, m)) (parse_map_artifact a))"

fun by_images :: "artifact_map \<Rightarrow> string list \<Rightarrow> (artifact \<times> source_map) option" where
  "by_images debugs [] = None"
| "by_images debugs (i # is) =
     (case with_map (debugs (to_lower i)) of Some r \<Rightarrow> Some r | None \<Rightarrow> by_images debugs is)"

definition by_sourcemap_url :: "url_join \<Rightarrow> artifact_map \<Rightarrow> artifact \<Rightarrow> string \<Rightarrow> (artifact \<times> source_map) option" where
  "by_sourcemap_url uj names art frame_path =
     (if has_prefix (to_lower (ar_url art)) ''data:'' then
        map_option (\<lambda>m. (art, m)) (parse_inline_map (ar_url art))
      else
        let base = (if frame_path = [] then normalize_path (ar_name art) else frame_path)
        in with_map (find_art names (join_reference uj base (ar_url art))))"

definition by_artifact :: "url_join \<Rightarrow> artifact_map \<Rightarrow> artifact_map \<Rightarrow> string \<Rightarrow> (artifact \<times> source_map) option" where
  "by_artifact uj names debugs p =
     (case find_art names p of
        None \<Rightarrow> None
      | Some art \<Rightarrow>
          (case (if ar_debug art \<noteq> [] then with_map (debugs (ar_debug art)) else None) of
             Some r \<Rightarrow> Some r
           | None \<Rightarrow> if ar_url art \<noteq> [] then by_sourcemap_url uj names art p else None))"

definition resolve_map :: "url_join \<Rightarrow> index \<Rightarrow> string \<Rightarrow> string list \<Rightarrow> (artifact \<times> source_map) option" where
  "resolve_map uj ix abs_path image_ids =
     (let p = normalize_path abs_path;
          names = by_name (candidates ix);
          debugs = by_debug (candidates ix)
      in case by_images debugs image_ids of
           Some r \<Rightarrow> Some r
         | None \<Rightarrow>
             (case by_artifact uj names debugs p of
                Some r \<Rightarrow> Some r
              | None \<Rightarrow> with_map (find_art names (p @ ''.map''))))"

end
