(* ===== verification/Frames.thy ===== *)
theory Frames
  imports Artifacts
begin

section \<open>Frames and their lookups: definitions of symbolicate.go, properties of resolution\<close>

text \<open>
  Snippets, cleaned paths and the lookup of an artifact: windows around a line, proper path segments, and which
  upload wins under one name.
\<close>

subsection \<open>One frame\<close>

record min_frame =
  mf_lineno :: int
  mf_colno :: int
  mf_abs_path :: string
  mf_filename :: string
  mf_function :: string

record snippet =
  sn_path :: string
  sn_line :: int
  sn_pre :: "string list"
  sn_text :: string
  sn_post :: "string list"

record frame_result =
  fr_resolved :: bool
  fr_source :: string
  fr_line :: int
  fr_col :: int
  fr_function :: string
  fr_context :: "snippet option"

definition frame_result0 :: frame_result where
  "frame_result0 = \<lparr>fr_resolved = False, fr_source = [], fr_line = 0, fr_col = 0, fr_function = [], fr_context = None\<rparr>"

definition snippet_radius :: nat where "snippet_radius = 2"

definition join_source_root :: "string \<Rightarrow> string \<Rightarrow> string" where
  "join_source_root root src =
     (let root = trim_suffix root ''/'' in
      if root = [] then src
      else if has_prefix src ''/'' then root @ src
      else root @ ''/'' @ src)"

text \<open>The lines above, nearest first, and below.\<close>

fun pre_loop :: "string list \<Rightarrow> int \<Rightarrow> string list \<Rightarrow> nat \<Rightarrow> string list" where
  "pre_loop lns i acc 0 = acc"
| "pre_loop lns i acc (Suc k) = (if i \<ge> 0 then pre_loop lns (i - 1) (acc @ [lns ! nat i]) k else acc)"

fun post_loop :: "string list \<Rightarrow> int \<Rightarrow> string list \<Rightarrow> nat \<Rightarrow> string list" where
  "post_loop lns i acc 0 = acc"
| "post_loop lns i acc (Suc k) =
     (if i < int (length lns) then post_loop lns (i + 1) (acc @ [lns ! nat i]) k else acc)"

definition snippet_at :: "string \<Rightarrow> string \<Rightarrow> int \<Rightarrow> snippet option" where
  "snippet_at path content line =
     (let lns = split_on nl content in
      if line < 1 \<or> line > int (length lns) then None
      else Some \<lparr>sn_path = path, sn_line = line, sn_pre = pre_loop lns (line - 2) [] snippet_radius,
             sn_text = lns ! nat (line - 1), sn_post = post_loop lns line [] snippet_radius\<rparr>)"

definition symbolicate_frame :: "source_map \<Rightarrow> min_frame \<Rightarrow> frame_result" where
  "symbolicate_frame m f =
     (if mf_lineno f \<le> 0 \<or> mf_colno f \<le> 0 then frame_result0
      else case map_lookup m (mf_lineno f - 1) (mf_colno f - 1) of
        None \<Rightarrow> frame_result0
      | Some seg \<Rightarrow>
          let si = sint (src_idx seg); ni = sint (name_idx seg) in
          if si < 0 \<or> si \<ge> int (length (sm_sources m)) then frame_result0
          else
            let src = join_source_root (sm_source_root m) (sm_sources m ! nat si);
                line = sint (src_line seg + 1)
            in \<lparr>fr_resolved = True, fr_source = src, fr_line = line, fr_col = sint (src_col seg + 1),
                fr_function = (if ni \<ge> 0 \<and> ni < int (length (sm_names m)) then sm_names m ! nat ni else []),
                fr_context = (if si < int (length (sm_contents m)) then
                    (case sm_contents m ! nat si of None \<Rightarrow> None | Some c \<Rightarrow> snippet_at src c line) else None)\<rparr>)"

subsection \<open>Snippets\<close>

lemma pre_loop_spec: "-1 \<le> i \<Longrightarrow> i < int (length lns) \<Longrightarrow>
    pre_loop lns i acc k = acc @ take k (rev (take (nat (i + 1)) lns))"
proof (induction k arbitrary: i acc)
  case (Suc k)
  show ?case
  proof (cases "0 \<le> i")
    case True
    have "take (nat (i + 1)) lns = take (nat i) lns @ [lns ! nat i]"
      using Suc.prems True by (simp add: nat_add_distrib take_Suc_conv_app_nth)
    then show ?thesis using Suc True by simp
  next
    case False
    then have "i = -1" using Suc.prems by linarith
    then show ?thesis by simp
  qed
qed simp

lemma post_loop_spec: "0 \<le> i \<Longrightarrow> post_loop lns i acc k = acc @ take k (drop (nat i) lns)"
proof (induction k arbitrary: i acc)
  case (Suc k)
  show ?case
  proof (cases "i < int (length lns)")
    case True
    then have "drop (nat i) lns = lns ! nat i # drop (Suc (nat i)) lns"
      using Suc.prems by (simp add: Cons_nth_drop_Suc nat_less_iff)
    then show ?thesis using Suc True by (simp add: nat_add_distrib)
  qed (use Suc.prems in simp)
qed simp

lemma take_rev_take: "n \<le> length xs \<Longrightarrow> rev (take k (rev (take n xs))) = drop (n - k) (take n xs)"
  by (simp add: take_rev)

text \<open>A snippet is a window of the source's lines: the lines before in order, the line itself and the
  lines after are consecutive lines of the content, at most two on each side, and there is one exactly when
  the line exists.\<close>

theorem snippet_window:
  "(case snippet_at path content line of
      None \<Rightarrow> line < 1 \<or> int (length (split_on nl content)) < line
    | Some s \<Rightarrow> sn_line s = line \<and> 1 \<le> line \<and> length (sn_pre s) \<le> 2 \<and> length (sn_post s) \<le> 2 \<and>
        rev (sn_pre s) @ [sn_text s] @ sn_post s = drop (nat line - 3) (take (nat line + 2) (split_on nl content)))"
proof (cases "line < 1 \<or> int (length (split_on nl content)) < line")
  case True
  then show ?thesis by (auto simp: snippet_at_def)
next
  case False
  let ?l = "split_on nl content"
  define k where "k = nat line - 1"
  have k: "line = int (Suc k)" using False by (simp add: k_def)
  have k': "k < length ?l" using False k by simp
  have pre: "pre_loop ?l (int k - 1) [] snippet_radius = take 2 (rev (take k ?l))"
    using k k' by (subst pre_loop_spec) (auto simp: snippet_radius_def)
  have post: "post_loop ?l (1 + int k) [] snippet_radius = take 2 (drop (Suc k) ?l)"
    using k by (subst post_loop_spec) (auto simp: snippet_radius_def nat_add_distrib)
  have "drop (k - 2) (take k ?l) @ [?l ! k] @ take 2 (drop (Suc k) ?l) = drop (k - 2) (take (Suc (Suc (Suc k))) ?l)"
  proof -
    have "take (Suc (Suc (Suc k))) ?l = take k ?l @ take 3 (drop k ?l)"
      using take_add[of k 3 ?l] by (simp add: numeral_3_eq_3)
    also have "take 3 (drop k ?l) = ?l ! k # take 2 (drop (Suc k) ?l)"
      using k' by (simp add: Cons_nth_drop_Suc[symmetric] numeral_3_eq_3 numeral_2_eq_2)
    finally show ?thesis using k' by simp
  qed
  then show ?thesis
    using False k' by (simp add: snippet_at_def Let_def pre post k take_rev_take nat_add_distrib)
qed

subsection \<open>Paths\<close>

definition clean_seg :: "string \<Rightarrow> bool" where
  "clean_seg s \<longleftrightarrow> s \<noteq> [] \<and> s \<noteq> ''.'' \<and> s \<noteq> ''..'' \<and> CHR ''/'' \<notin> set s"

lemma clean_step_ok: "list_all clean_seg out \<Longrightarrow> CHR ''/'' \<notin> set s \<Longrightarrow> list_all clean_seg (clean_step s out)"
  unfolding clean_step_def list_all_iff using in_set_butlastD[of _ out] by (auto simp: clean_seg_def)

lemma clean_steps:
  "list_all clean_seg out \<Longrightarrow> list_all (\<lambda>s. CHR ''/'' \<notin> set s) segs \<Longrightarrow> list_all clean_seg (fold clean_step segs out)"
  by (induction segs arbitrary: out) (simp_all add: clean_step_ok)

lemma clean_steps_id: "list_all clean_seg segs \<Longrightarrow> fold clean_step segs out = out @ segs"
  by (induction segs arbitrary: out) (auto simp: clean_step_def clean_seg_def)

definition path_segs :: "string \<Rightarrow> string list" where
  "path_segs p = fold clean_step (split_on (CHR ''/'') p) []"

lemma path_segs_clean: "list_all clean_seg (path_segs p)"
  unfolding path_segs_def by (rule clean_steps) (auto simp: list_all_iff dest: split_on_clean)

lemma split_join_clean: "list_all clean_seg segs \<Longrightarrow> segs \<noteq> [] \<Longrightarrow> split_on (CHR ''/'') (join ''/'' segs) = segs"
  by (rule split_on_join) (auto simp: clean_seg_def list_all_iff)

lemma clean_path_segs: "clean_path p = (if has_prefix p ''/'' then ''/'' else []) @ join ''/'' (path_segs p)"
  by (simp add: clean_path_def path_segs_def Let_def)

lemma join_clean_hd: "list_all clean_seg segs \<Longrightarrow> \<not> has_prefix (join ''/'' segs) ''/''"
proof (cases segs)
  case (Cons s ss)
  assume "list_all clean_seg segs"
  then obtain c t where "s = c # t" "c \<noteq> CHR ''/''" by (cases s) (auto simp: Cons clean_seg_def)
  then show ?thesis by (cases ss) (simp_all add: Cons)
qed simp

lemma path_segs_clean_path: "path_segs (clean_path p) = path_segs p"
proof (cases "path_segs p = []")
  case True
  have "path_segs ''/'' = []" "path_segs [] = []" by code_simp+
  then show ?thesis using True by (simp add: clean_path_segs)
next
  case False
  let ?s = "path_segs p"
  note c = path_segs_clean[of p]
  have "split_on (CHR ''/'') (''/'' @ join ''/'' ?s) = [] # ?s"
    using split_on_append[of "CHR ''/''" "[]" "join ''/'' ?s"] split_join_clean[OF c False] by simp
  then show ?thesis
    using clean_steps_id[OF c, of "[]"] split_join_clean[OF c False]
    by (simp add: clean_path_segs path_segs_def[of "_ @ _"] path_segs_def[of "join _ _"] clean_step_def)
qed

text \<open>Cleaning a path resolves every \<open>.\<close> and \<open>..\<close> and every empty segment: what is left are proper
  segments, absolute paths stay absolute and relative ones relative, and cleaning again changes nothing.\<close>

theorem clean_path_proper:
  "list_all (\<lambda>s. s \<noteq> [] \<and> s \<noteq> ''.'' \<and> s \<noteq> ''..'' \<and> CHR ''/'' \<notin> set s) (path_segs p) \<and>
   clean_path p = (if has_prefix p ''/'' then ''/'' else []) @ join ''/'' (path_segs p) \<and>
   clean_path (clean_path p) = clean_path p"
proof -
  have "has_prefix (clean_path p) ''/'' = has_prefix p ''/''"
    using join_clean_hd[OF path_segs_clean[of p]] by (simp add: clean_path_segs)
  then have "clean_path (clean_path p) = clean_path p"
    by (simp only: clean_path_segs[of "clean_path p"] path_segs_clean_path) (simp only: clean_path_segs)
  then show ?thesis using path_segs_clean[of p] clean_path_segs[of p] by (simp add: clean_seg_def[abs_def])
qed

subsection \<open>Which artifacts an event sees\<close>

lemma add_name_ran: "names k = Some a \<Longrightarrow> names = add_name b m \<Longrightarrow> a = b \<or> m k = Some a"
  by (auto simp: add_name_def Let_def split: if_splits)

lemma by_name_mem: "fold add_name cs m k = Some a \<Longrightarrow> a \<in> set cs \<or> m k = Some a"
proof (induction cs arbitrary: m)
  case (Cons c cs)
  then show ?case using add_name_ran[of _ k a c m] by fastforce
qed simp

lemma by_debug_mem: "fold add_debug cs m k = Some a \<Longrightarrow> a \<in> set cs \<or> m k = Some a"
proof (induction cs arbitrary: m)
  case (Cons c cs)
  from Cons.IH[of "add_debug c m"] Cons.prems have "a \<in> set cs \<or> add_debug c m k = Some a" by simp
  then show ?case by (auto simp: add_debug_def split: if_splits)
qed simp

lemma find_art_mem: "find_art (by_name cs) p = Some a \<Longrightarrow> a \<in> set cs"
  using by_name_mem[of cs Map.empty] by (auto simp: find_art_def by_name_def split: option.splits)

lemma with_map_Some: "with_map a = Some (b, m) \<longleftrightarrow> a = Some b \<and> parse_map_artifact b = Some m"
  by (auto simp: with_map_def split: option.splits)

lemma by_images_Some: "by_images debugs is = Some (a, m) \<Longrightarrow> (\<exists>i. debugs i = Some a) \<and> parse_map_artifact a = Some m"
proof (induction "is")
  case (Cons i "is")
  show ?case
  proof (cases "with_map (debugs (to_lower i))")
    case None
    then show ?thesis using Cons by simp
  next
    case (Some r)
    then have "with_map (debugs (to_lower i)) = Some (a, m)" using Cons.prems by simp
    then show ?thesis by (auto simp: with_map_Some)
  qed
qed simp

lemma candidates_dist: "a \<in> set (candidates ix) \<longleftrightarrow> a \<in> set (ix_artifacts ix) \<and> (ar_dist a = [] \<or> ar_dist a = ix_dist ix)"
  by (auto simp: candidates_def)

text \<open>C33: An artifact tagged with a dist never serves an event of another dist (and none serves an event
  without a dist): the map a frame resolves to comes from an uploaded artifact that is untagged or carries
  the event's dist, and it is the parse of that artifact's body or of its inline URL.\<close>

theorem resolve_respects_dist:
  assumes "resolve_map uj ix abs_path ids = Some (a, m)"
  shows "a \<in> set (ix_artifacts ix) \<and> (ar_dist a = [] \<or> ar_dist a = ix_dist ix) \<and>
    (parse_map_artifact a = Some m \<or> parse_inline_map (ar_url a) = Some m)"
proof -
  let ?cs = "candidates ix"
  have d: "by_debug ?cs i = Some b \<Longrightarrow> b \<in> set ?cs" for i b
    using by_debug_mem[of ?cs Map.empty i b] by (simp add: by_debug_def)
  have art: "b \<in> set ?cs \<and> (parse_map_artifact b = Some n \<or> parse_inline_map (ar_url b) = Some n)"
    if "by_artifact uj (by_name ?cs) (by_debug ?cs) p = Some (b, n)" for p b n
    using that
    by (auto simp: by_artifact_def by_sourcemap_url_def Let_def with_map_Some dest: find_art_mem d split: option.splits if_splits)
  have "a \<in> set ?cs \<and> (parse_map_artifact a = Some m \<or> parse_inline_map (ar_url a) = Some m)"
  proof (cases "by_images (by_debug ?cs) ids")
    case (Some r)
    then have "by_images (by_debug ?cs) ids = Some (a, m)" using assms by (simp add: resolve_map_def)
    then show ?thesis using by_images_Some d by blast
  next
    case None
    note im = this
    show ?thesis
    proof (cases "by_artifact uj (by_name ?cs) (by_debug ?cs) (normalize_path abs_path)")
      case (Some r)
      then show ?thesis using assms art im by (simp add: resolve_map_def)
    next
      case None
      then have "with_map (find_art (by_name ?cs) (normalize_path abs_path @ ''.map'')) = Some (a, m)"
        using assms im by (simp add: resolve_map_def)
      then show ?thesis using find_art_mem by (auto simp: with_map_Some)
    qed
  qed
  then show ?thesis by (simp add: candidates_dist)
qed

lemma add_name_dom: "m k \<noteq> None \<Longrightarrow> add_name a m k \<noteq> None"
  by (auto simp: add_name_def Let_def)

lemma fold_add_name_dom: "m k \<noteq> None \<Longrightarrow> fold add_name cs m k \<noteq> None"
  by (induction cs arbitrary: m) (simp_all add: add_name_dom del: not_None_eq)

lemma fold_add_name_last:
  "a \<in> set cs \<Longrightarrow> k = ar_name a \<or> k = normalize_path (ar_name a) \<Longrightarrow> \<exists>b\<in>set cs. fold add_name cs m k = Some b"
proof (induction cs arbitrary: m)
  case (Cons c cs)
  show ?case
  proof (cases "a \<in> set cs")
    case True
    then show ?thesis using Cons by force
  next
    case False
    then have "add_name c m k = Some c" using Cons.prems by (auto simp: add_name_def Let_def)
    then show ?thesis
      using fold_add_name_dom[of "add_name c m" k cs] by_name_mem[of cs "add_name c m" k] by fastforce
  qed
qed simp

text \<open>An untagged upload is found before one with the event's own dist: when an untagged artifact has the
  name of a path, the artifact looked up for that path is untagged, whatever else was uploaded.\<close>

theorem bare_upload_wins:
  assumes "a \<in> set (ix_artifacts ix)" "ar_dist a = []" "path = ar_name a \<or> path = normalize_path (ar_name a)"
  shows "\<exists>b. find_art (by_name (candidates ix)) path = Some b \<and> ar_dist b = []"
proof -
  let ?bare = "filter (\<lambda>a. ar_dist a = []) (ix_artifacts ix)"
  obtain m where "by_name (candidates ix) = fold add_name ?bare m"
    by (simp add: by_name_def candidates_def)
  moreover have "a \<in> set ?bare" using assms by simp
  ultimately obtain b where "b \<in> set ?bare" "by_name (candidates ix) path = Some b"
    using fold_add_name_last[of a ?bare path m] assms(3) by auto
  then show ?thesis by (auto simp: find_art_def)
qed

subsection \<open>An example\<close>

definition js_string :: "string \<Rightarrow> string" where "js_string s = [CHR 0x22] @ s @ [CHR 0x22]"

definition map_text :: "string \<Rightarrow> string" where
  "map_text src = [CHR ''{''] @ js_string ''version'' @ '':3,'' @ js_string ''sources'' @ '':['' @ js_string src @ ''],'' @
     js_string ''mappings'' @ '':'' @ js_string ''AAAA'' @ [CHR ''}'']"

definition dist_artifact :: "string \<Rightarrow> string \<Rightarrow> artifact" where
  "dist_artifact dist src = \<lparr>ar_name = ''app.js.map'', ar_dist = dist, ar_sha = [], ar_debug = [], ar_url = [],
     ar_body = map_text src\<rparr>"

definition dist_index :: "string \<Rightarrow> index" where
  "dist_index dist = \<lparr>ix_artifacts = [dist_artifact ''ios'' ''ios.ts'', dist_artifact [] ''bare.ts'',
     dist_artifact ''web'' ''web.ts''], ix_dist = dist\<rparr>"

theorem resolve_respects_dist_witness:
  "\<exists>a m. resolve_map (\<lambda>_ _. None) (dist_index ''ios'') ''http://x/js/app.js'' [] = Some (a, m) \<and>
     a \<in> set (ix_artifacts (dist_index ''ios'')) \<and> (ar_dist a = [] \<or> ar_dist a = ''ios'')"
proof -
  have "resolve_map (\<lambda>_ _. None) (dist_index ''ios'') ''http://x/js/app.js'' [] \<noteq> None" by code_simp
  then obtain a m where "resolve_map (\<lambda>_ _. None) (dist_index ''ios'') ''http://x/js/app.js'' [] = Some (a, m)"
    by (metis option.exhaust surj_pair)
  then show ?thesis using resolve_respects_dist by (fastforce simp: dist_index_def)
qed

theorem bare_upload_wins_witness:
  "\<exists>b. find_art (by_name (candidates (dist_index ''ios''))) ''app.js.map'' = Some b \<and> ar_dist b = []"
  by (rule bare_upload_wins[of "dist_artifact [] ''bare.ts''"]) (simp_all add: dist_index_def dist_artifact_def)

end
