(* ===== verification/Symbolicate.thy ===== *)
theory Symbolicate
  imports Frames Site Jsonb "HOL-Library.List_Lexorder" "HOL-Library.Char_ord" "HOL-Library.Product_Lexorder"
begin

section \<open>Symbolication of an event (internal/sourcemap/event.go)\<close>

text \<open>
  \<open>symbolicate_event\<close> resolves the frames of a stored event against the artifacts of its release.  The
  outcome is written to the event's row under a hash of the artifact set: the next view reads it back
  unless the artifacts changed.
\<close>

subsection \<open>Results\<close>

definition result_v :: int where "result_v = 1"
definition missing_map_cap :: nat where "missing_map_cap = 20"

record frame_view =
  fv_lineno :: int
  fv_colno :: int
  fv_abs_path :: string
  fv_filename :: string
  fv_in_app :: bool
  fv_function :: string
  fv_source :: string
  fv_src_line :: int
  fv_src_col :: int
  fv_context :: "snippet option"
  fv_resolved :: bool

record exception_result =
  xr_type :: string
  xr_value :: string
  xr_frames :: "frame_view list"

record missing_map =
  mm_abs_path :: string
  mm_release :: string
  mm_dist :: string
  mm_reason :: string

record event_result =
  er_v :: int
  er_cache_key :: string
  er_symbolicated :: bool
  er_no_release :: bool
  er_exceptions :: "exception_result list"
  er_missing :: "missing_map list"

subsection \<open>Results as JSON\<close>

text \<open>A field with \<open>omitempty\<close>; a nil slice is \<open>null\<close>.\<close>

definition omit :: "bool \<Rightarrow> string \<Rightarrow> json \<Rightarrow> (string \<times> json) list" where
  "omit b k v = (if b then [] else [(k, v)])"

definition int_value :: "int \<Rightarrow> json" where "int_value i = JNum (show_int i)"

definition slice_value :: "('a \<Rightarrow> json) \<Rightarrow> 'a list \<Rightarrow> json" where
  "slice_value f xs = (if xs = [] then JNull else JArr (map f xs))"

definition snippet_value :: "snippet \<Rightarrow> json" where
  "snippet_value s = JObj [(''path'', JStr (sn_path s)), (''line'', int_value (sn_line s)),
     (''pre_context'', slice_value JStr (sn_pre s)), (''context_line'', JStr (sn_text s)),
     (''post_context'', slice_value JStr (sn_post s))]"

definition frame_view_value :: "frame_view \<Rightarrow> json" where
  "frame_view_value f = JObj ([(''lineno'', int_value (fv_lineno f)), (''colno'', int_value (fv_colno f))] @
     omit (fv_abs_path f = []) ''abs_path'' (JStr (fv_abs_path f)) @
     omit (fv_filename f = []) ''filename'' (JStr (fv_filename f)) @
     omit (\<not> fv_in_app f) ''in_app'' (JBool (fv_in_app f)) @
     omit (fv_function f = []) ''function'' (JStr (fv_function f)) @
     omit (fv_source f = []) ''source'' (JStr (fv_source f)) @
     omit (fv_src_line f = 0) ''src_line'' (int_value (fv_src_line f)) @
     omit (fv_src_col f = 0) ''src_col'' (int_value (fv_src_col f)) @
     omit (fv_context f = None) ''context'' (case fv_context f of None \<Rightarrow> JNull | Some s \<Rightarrow> snippet_value s) @
     omit (\<not> fv_resolved f) ''resolved'' (JBool (fv_resolved f)))"

definition exception_value :: "exception_result \<Rightarrow> json" where
  "exception_value x = JObj (omit (xr_type x = []) ''type'' (JStr (xr_type x)) @
     omit (xr_value x = []) ''value'' (JStr (xr_value x)) @
     [(''frames'', slice_value frame_view_value (xr_frames x))])"

definition missing_value :: "missing_map \<Rightarrow> json" where
  "missing_value m = JObj ([(''abs_path'', JStr (mm_abs_path m)), (''release'', JStr (mm_release m))] @
     omit (mm_dist m = []) ''dist'' (JStr (mm_dist m)) @ [(''reason'', JStr (mm_reason m))])"

definition result_value :: "event_result \<Rightarrow> json" where
  "result_value r = JObj ([(''v'', int_value (er_v r)), (''cache_key'', JStr (er_cache_key r)),
       (''symbolicated'', JBool (er_symbolicated r))] @
     omit (\<not> er_no_release r) ''no_release'' (JBool (er_no_release r)) @
     omit (er_exceptions r = []) ''exceptions'' (slice_value exception_value (er_exceptions r)) @
     omit (er_missing r = []) ''missing_maps'' (slice_value missing_value (er_missing r)))"

subsection \<open>Reading results\<close>

definition snippet0 :: snippet where
  "snippet0 = \<lparr>sn_path = [], sn_line = 0, sn_pre = [], sn_text = [], sn_post = []\<rparr>"

definition snippet_fields :: "snippet fields" where
  "snippet_fields =
     [(''path'', on sn_path sn_path_update dec_string), (''line'', on sn_line sn_line_update dec_int),
      (''pre_context'', on sn_pre sn_pre_update (dec_list [] dec_string)),
      (''context_line'', on sn_text sn_text_update dec_string),
      (''post_context'', on sn_post sn_post_update (dec_list [] dec_string))]"

definition dec_snippet :: "snippet dec" where "dec_snippet = dec_struct snippet_fields"

definition frame_view0 :: frame_view where
  "frame_view0 = \<lparr>fv_lineno = 0, fv_colno = 0, fv_abs_path = [], fv_filename = [], fv_in_app = False, fv_function = [],
     fv_source = [], fv_src_line = 0, fv_src_col = 0, fv_context = None, fv_resolved = False\<rparr>"

definition frame_view_fields :: "frame_view fields" where
  "frame_view_fields =
     [(''lineno'', on fv_lineno fv_lineno_update dec_int), (''colno'', on fv_colno fv_colno_update dec_int),
      (''abs_path'', on fv_abs_path fv_abs_path_update dec_string),
      (''filename'', on fv_filename fv_filename_update dec_string),
      (''in_app'', on fv_in_app fv_in_app_update dec_bool),
      (''function'', on fv_function fv_function_update dec_string),
      (''source'', on fv_source fv_source_update dec_string),
      (''src_line'', on fv_src_line fv_src_line_update dec_int),
      (''src_col'', on fv_src_col fv_src_col_update dec_int),
      (''context'', on fv_context fv_context_update (dec_ptr snippet0 dec_snippet)),
      (''resolved'', on fv_resolved fv_resolved_update dec_bool)]"

definition dec_frame_view :: "frame_view dec" where "dec_frame_view = dec_struct frame_view_fields"

definition exception_result0 :: exception_result where
  "exception_result0 = \<lparr>xr_type = [], xr_value = [], xr_frames = []\<rparr>"

definition exception_result_fields :: "exception_result fields" where
  "exception_result_fields =
     [(''type'', on xr_type xr_type_update dec_string), (''value'', on xr_value xr_value_update dec_string),
      (''frames'', on xr_frames xr_frames_update (dec_list frame_view0 dec_frame_view))]"

definition dec_exception_result :: "exception_result dec" where "dec_exception_result = dec_struct exception_result_fields"

definition missing_map0 :: missing_map where
  "missing_map0 = \<lparr>mm_abs_path = [], mm_release = [], mm_dist = [], mm_reason = []\<rparr>"

definition missing_map_fields :: "missing_map fields" where
  "missing_map_fields =
     [(''abs_path'', on mm_abs_path mm_abs_path_update dec_string),
      (''release'', on mm_release mm_release_update dec_string),
      (''dist'', on mm_dist mm_dist_update dec_string),
      (''reason'', on mm_reason mm_reason_update dec_string)]"

definition dec_missing_map :: "missing_map dec" where "dec_missing_map = dec_struct missing_map_fields"

definition event_result0 :: event_result where
  "event_result0 = \<lparr>er_v = 0, er_cache_key = [], er_symbolicated = False, er_no_release = False,
     er_exceptions = [], er_missing = []\<rparr>"

definition event_result_fields :: "event_result fields" where
  "event_result_fields =
     [(''v'', on er_v er_v_update dec_int), (''cache_key'', on er_cache_key er_cache_key_update dec_string),
      (''symbolicated'', on er_symbolicated er_symbolicated_update dec_bool),
      (''no_release'', on er_no_release er_no_release_update dec_bool),
      (''exceptions'', on er_exceptions er_exceptions_update (dec_list exception_result0 dec_exception_result)),
      (''missing_maps'', on er_missing er_missing_update (dec_list missing_map0 dec_missing_map))]"

definition dec_event_result :: "event_result dec" where "dec_event_result = dec_struct event_result_fields"

subsection \<open>The payload\<close>

record debug_image =
  im_debug_id :: string
  im_code_file :: string

record sym_frame =
  sf_lineno :: int
  sf_colno :: int
  sf_abs_path :: string
  sf_filename :: string
  sf_function :: string
  sf_in_app :: "bool option"

record sym_exception =
  sx_type :: string
  sx_value :: string
  sx_frames :: "sym_frame list"

record sym_payload =
  sp_release :: string
  sp_dist :: string
  sp_images :: "debug_image list"
  sp_exceptions :: "sym_exception list"

definition dec_debug_image :: "debug_image dec" where
  "dec_debug_image = dec_struct
     [(''debug_id'', on im_debug_id im_debug_id_update dec_string),
      (''code_file'', on im_code_file im_code_file_update dec_string)]"

definition dec_sym_frame :: "sym_frame dec" where
  "dec_sym_frame = dec_struct
     [(''lineno'', on sf_lineno sf_lineno_update dec_int), (''colno'', on sf_colno sf_colno_update dec_int),
      (''abs_path'', on sf_abs_path sf_abs_path_update dec_string),
      (''filename'', on sf_filename sf_filename_update dec_string),
      (''function'', on sf_function sf_function_update dec_string),
      (''in_app'', on sf_in_app sf_in_app_update (dec_ptr False dec_bool))]"

definition sym_frame0 :: sym_frame where
  "sym_frame0 = \<lparr>sf_lineno = 0, sf_colno = 0, sf_abs_path = [], sf_filename = [], sf_function = [], sf_in_app = None\<rparr>"

definition dec_sym_exception :: "sym_exception dec" where
  "dec_sym_exception = dec_struct
     [(''type'', on sx_type sx_type_update dec_string), (''value'', on sx_value sx_value_update dec_string),
      (''stacktrace'', dec_struct [(''frames'', on sx_frames sx_frames_update (dec_list sym_frame0 dec_sym_frame))])]"

definition dec_sym_payload :: "sym_payload dec" where
  "dec_sym_payload = dec_struct
     [(''release'', on sp_release sp_release_update dec_string), (''dist'', on sp_dist sp_dist_update dec_string),
      (''debug_meta'', dec_struct [(''images'', on sp_images sp_images_update
          (dec_list \<lparr>im_debug_id = [], im_code_file = []\<rparr> dec_debug_image))]),
      (''exception'', dec_struct [(''values'', on sp_exceptions sp_exceptions_update
          (dec_list \<lparr>sx_type = [], sx_value = [], sx_frames = []\<rparr> dec_sym_exception))])]"

definition sym_payload0 :: sym_payload where
  "sym_payload0 = \<lparr>sp_release = [], sp_dist = [], sp_images = [], sp_exceptions = []\<rparr>"

subsection \<open>Artifacts\<close>

record artifact_row = artifact +
  aw_id :: uuid
  aw_mapish :: bool
  aw_body :: "string option"

definition has_suffix_fold :: "string \<Rightarrow> string \<Rightarrow> bool" where
  "has_suffix_fold s suf \<longleftrightarrow> length s \<ge> length suf \<and> to_lower (drop (length s - length suf) s) = to_lower suf"

definition has_prefix_fold :: "string \<Rightarrow> string \<Rightarrow> bool" where
  "has_prefix_fold s pre \<longleftrightarrow> length s \<ge> length pre \<and> to_lower (take (length pre) s) = to_lower pre"

definition artifact_of :: "release_file_row \<Rightarrow> artifact_row" where
  "artifact_of r = \<lparr>ar_name = rf_name r, ar_dist = rf_dist r, ar_sha = rf_sha r, ar_debug = rf_debug r,
     ar_url = rf_url r, ar_body = [], aw_id = rf_id r,
     aw_mapish = (rf_debug r \<noteq> [] \<or> has_suffix_fold (rf_name r) ''.map'' \<or> has_prefix_fold (rf_url r) ''data:''),
     aw_body = None\<rparr>"

definition q_artifacts :: "uuid \<Rightarrow> string \<Rightarrow> site \<Rightarrow> artifact_row list" where
  "q_artifacts pid release d =
     map artifact_of (filter (\<lambda>r. rf_project r = pid \<and> rf_release r = release) (release_files d))"

definition q_bodies :: "uuid list \<Rightarrow> site \<Rightarrow> (uuid \<times> string) list" where
  "q_bodies ids d = map (\<lambda>r. (rf_id r, rf_body r)) (filter (\<lambda>r. rf_id r \<in> set ids) (release_files d))"

definition fill_body :: "(uuid \<times> string) list \<Rightarrow> artifact_row \<Rightarrow> artifact" where
  "fill_body bodies a =
     (case map_of bodies (aw_id a) of
        None \<Rightarrow> artifact.truncate a
      | Some b \<Rightarrow> (artifact.truncate a)\<lparr>ar_body := b\<rparr>)"

definition load_artifacts :: "world \<Rightarrow> net \<Rightarrow> string \<Rightarrow> string \<Rightarrow> artifact list iom" where
  "load_artifacts w n pid release =
     (if release = [] then ret []
      else bind (query w n (with_uuid w pid (\<lambda>p. select (q_artifacts p release)))) (\<lambda>arts.
        let need = map aw_id (filter aw_mapish arts) in
        bind (if need \<noteq> [] then query w n (select (q_bodies need)) else ret []) (\<lambda>bodies.
        ret (map (fill_body bodies) arts))))"

definition artifact_set_key :: "string \<Rightarrow> artifact list \<Rightarrow> string" where
  "artifact_set_key release arts =
     (let rs = sort_key (\<lambda>(dist, nm, sha). (nm, dist)) (map (\<lambda>a. (ar_dist a, ar_name a, ar_sha a)) arts)
      in sha256_hex (release @ [CHR 0x00] @
           concat (map (\<lambda>(dist, nm, sha). dist @ [CHR 0x1F] @ nm @ [CHR 0x1F] @ sha @ [CHR 0x1E]) rs)))"

definition image_debug_ids :: "debug_image list \<Rightarrow> string \<Rightarrow> string \<Rightarrow> string list" where
  "image_debug_ids images abs_path filename =
     (if images = [] then []
      else
        let want = normalize_path (first_non_empty abs_path filename) in
        if want = [] then []
        else map im_debug_id (filter (\<lambda>img. let cf = normalize_path (im_code_file img)
               in cf \<noteq> [] \<and> (cf = want \<or> path_base cf = path_base want)) images))"

subsection \<open>The frames of an event\<close>

record sym_acc =
  sa_seen :: "string list"
  sa_missing :: "missing_map list"
  sa_symbolicated :: bool

definition view_of :: "sym_frame \<Rightarrow> frame_view" where
  "view_of f = frame_view0\<lparr>fv_lineno := sf_lineno f, fv_colno := sf_colno f, fv_abs_path := sf_abs_path f,
     fv_filename := sf_filename f, fv_function := sf_function f, fv_in_app := (sf_in_app f = Some True)\<rparr>"

definition note_missing :: "sym_payload \<Rightarrow> sym_frame \<Rightarrow> sym_acc \<Rightarrow> sym_acc" where
  "note_missing p f acc =
     (if sf_abs_path f \<noteq> [] \<and> sf_abs_path f \<notin> set (sa_seen acc) \<and> length (sa_missing acc) < missing_map_cap
      then acc\<lparr>sa_seen := sf_abs_path f # sa_seen acc,
             sa_missing := sa_missing acc @ [\<lparr>mm_abs_path = sf_abs_path f, mm_release = sp_release p,
               mm_dist = sp_dist p, mm_reason = ''no source map found''\<rparr>]\<rparr>
      else acc)"

definition overlay :: "frame_view \<Rightarrow> frame_result \<Rightarrow> frame_view" where
  "overlay fv r =
     (let fv = fv\<lparr>fv_resolved := True, fv_source := fr_source r, fv_src_line := fr_line r, fv_src_col := fr_col r\<rparr>;
          fv = (if fr_function r \<noteq> [] then fv\<lparr>fv_function := fr_function r\<rparr> else fv)
      in fv\<lparr>fv_context := fr_context r\<rparr>)"

definition sym_frame_step :: "url_join \<Rightarrow> sym_payload \<Rightarrow> index \<Rightarrow> sym_frame \<Rightarrow> sym_acc \<Rightarrow> frame_view \<times> sym_acc" where
  "sym_frame_step uj p ix f acc =
     (let fv = view_of f;
          ids = image_debug_ids (sp_images p) (sf_abs_path f) (sf_filename f)
      in case resolve_map uj ix (first_non_empty (sf_abs_path f) (sf_filename f)) ids of
           None \<Rightarrow> (fv, note_missing p f acc)
         | Some (a, m) \<Rightarrow>
             let r = symbolicate_frame m \<lparr>mf_lineno = sf_lineno f, mf_colno = sf_colno f,
                    mf_abs_path = sf_abs_path f, mf_filename = sf_filename f, mf_function = sf_function f\<rparr>
             in if fr_resolved r then (overlay fv r, acc\<lparr>sa_symbolicated := True\<rparr>) else (fv, acc))"

fun sym_frames :: "url_join \<Rightarrow> sym_payload \<Rightarrow> index \<Rightarrow> sym_frame list \<Rightarrow> sym_acc \<Rightarrow> frame_view list \<times> sym_acc" where
  "sym_frames uj p ix [] acc = ([], acc)"
| "sym_frames uj p ix (f # fs) acc =
     (let (v, acc) = sym_frame_step uj p ix f acc; (vs, acc) = sym_frames uj p ix fs acc in (v # vs, acc))"

fun sym_exceptions ::
    "url_join \<Rightarrow> sym_payload \<Rightarrow> index \<Rightarrow> sym_exception list \<Rightarrow> sym_acc \<Rightarrow> exception_result list \<times> sym_acc" where
  "sym_exceptions uj p ix [] acc = ([], acc)"
| "sym_exceptions uj p ix (x # xs) acc =
     (let (fs, acc) = sym_frames uj p ix (sx_frames x) acc; (rs, acc) = sym_exceptions uj p ix xs acc
      in (\<lparr>xr_type = sx_type x, xr_value = sx_value x, xr_frames = fs\<rparr> # rs, acc))"

definition compute_result :: "url_join \<Rightarrow> sym_payload \<Rightarrow> artifact list \<Rightarrow> event_result" where
  "compute_result uj p arts =
     (let res = event_result0\<lparr>er_v := result_v, er_cache_key := artifact_set_key (sp_release p) arts\<rparr> in
      if sp_release p = [] then res\<lparr>er_no_release := True\<rparr>
      else
        let (xs, acc) = sym_exceptions uj p \<lparr>ix_artifacts = arts, ix_dist = sp_dist p\<rparr> (sp_exceptions p)
              \<lparr>sa_seen = [], sa_missing = [], sa_symbolicated = False\<rparr>
        in res\<lparr>er_symbolicated := sa_symbolicated acc, er_exceptions := xs, er_missing := sa_missing acc\<rparr>)"

subsection \<open>The cache on the event's row\<close>

definition q_symbolicated :: "uuid \<Rightarrow> time \<Rightarrow> site \<Rightarrow> json option option" where
  "q_symbolicated eid ts d =
     map_option ev_symbolicated (find (\<lambda>e. ev_id e = eid \<and> ev_timestamp e = ts) (events (store d)))"

definition q_write_back :: "json \<Rightarrow> uuid \<Rightarrow> time \<Rightarrow> unit query" where
  "q_write_back v eid ts d =
     (if has_nul v then None
      else Some ((), d\<lparr>store := (store d)\<lparr>events :=
        update_where (\<lambda>e. ev_id e = eid \<and> ev_timestamp e = ts) (\<lambda>e. e\<lparr>ev_symbolicated := Some v\<rparr>) (events (store d))\<rparr>\<rparr>))"

text \<open>The result, and the error of storing it.\<close>

definition write_back :: "world \<Rightarrow> net \<Rightarrow> uuid \<Rightarrow> time \<Rightarrow> event_result \<Rightarrow> (event_result \<times> string option) iom" where
  "write_back w n eid ts res s =
     (case query w n (q_write_back (result_value res) eid ts) s of
        (Inl e, s') \<Rightarrow> (Inr (res, Some e), s')
      | (Inr _, s') \<Rightarrow> (Inr (res, None), s'))"

definition cached_result :: "string \<Rightarrow> json option option \<Rightarrow> event_result option" where
  "cached_result key stored =
     (case stored of
        Some (Some v) \<Rightarrow>
          (case dec_event_result v event_result0 of
             None \<Rightarrow> None
           | Some r \<Rightarrow> if er_v r = result_v \<and> er_cache_key r = key then Some r else None)
      | _ \<Rightarrow> None)"

definition symbolicate_event ::
    "url_join \<Rightarrow> (string \<Rightarrow> string) \<Rightarrow> world \<Rightarrow> net \<Rightarrow> string \<Rightarrow> uuid \<Rightarrow> time \<Rightarrow> string \<Rightarrow> (event_result \<times> string option) iom" where
  "symbolicate_event uj json_err w n pid eid ts raw =
     (case unmarshal dec_sym_payload sym_payload0 raw of
        None \<Rightarrow> fail (json_err raw)
      | Some p \<Rightarrow>
          bind (load_artifacts w n pid (sp_release p)) (\<lambda>arts.
          bind (attempt (query_row w n (select (q_symbolicated eid ts)))) (\<lambda>stored.
          case cached_result (artifact_set_key (sp_release p) arts) stored of
            Some r \<Rightarrow> ret (r, None)
          | None \<Rightarrow> write_back w n eid ts (compute_result uj p arts))))"

end
