(* ===== verification/SymbolicateProps.thy ===== *)
theory SymbolicateProps
  imports Symbolicate SiteSamples
begin

section \<open>What symbolication keeps, and the cache\<close>

text \<open>
  The JSON form of a result is read back field by field, so the cached result is the computed one; frames are kept in
  order.
\<close>

subsection \<open>Decoding structs field by field\<close>

lemma find_field:
  "distinct (map to_lower (map fst fs)) \<Longrightarrow> k \<in> set (map fst fs) \<Longrightarrow>
   find (\<lambda>(n, _). equal_fold n k) fs = Some (k, the (map_of fs k))"
proof (induction fs)
  case (Cons x fs)
  obtain n f where x: "x = (n, f)" by (cases x)
  show ?case
  proof (cases "n = k")
    case True
    then show ?thesis by (simp add: x equal_fold_def)
  next
    case False
    then have k: "k \<in> set (map fst fs)" using Cons.prems(2) by (simp add: x)
    then have "to_lower k \<in> set (map to_lower (map fst fs))" unfolding set_map by (rule imageI)
    then have "\<not> equal_fold n k" using Cons.prems(1) unfolding x equal_fold_def list.map fst_conv distinct.simps by metis
    then show ?thesis using Cons.IH Cons.prems(1) k False by (simp add: x)
  qed
qed simp

lemma dec_known:
  assumes "distinct (map (to_lower \<circ> fst) fs)" "map_of fs k \<noteq> None"
  shows "dec_fields fs ((k, v) # kvs) r =
      (case the (map_of fs k) v r of None \<Rightarrow> None | Some r' \<Rightarrow> dec_fields fs kvs r')"
    "dec_fields fs (omit b k v @ kvs) r =
      (if b then dec_fields fs kvs r
       else case the (map_of fs k) v r of None \<Rightarrow> None | Some r' \<Rightarrow> dec_fields fs kvs r')"
    "dec_fields fs (omit b k v) r = (if b then Some r else the (map_of fs k) v r)"
proof -
  have "k \<in> set (map fst fs)" using assms(2) by (simp add: map_of_eq_None_iff)
  then have "find (\<lambda>(n, _). equal_fold n k) fs = Some (k, the (map_of fs k))"
    using find_field[of fs k] assms(1) by simp
  then show "dec_fields fs ((k, v) # kvs) r =
      (case the (map_of fs k) v r of None \<Rightarrow> None | Some r' \<Rightarrow> dec_fields fs kvs r')"
    "dec_fields fs (omit b k v @ kvs) r =
      (if b then dec_fields fs kvs r
       else case the (map_of fs k) v r of None \<Rightarrow> None | Some r' \<Rightarrow> dec_fields fs kvs r')"
    "dec_fields fs (omit b k v) r = (if b then Some r else the (map_of fs k) v r)"
    by (simp_all add: omit_def split: option.split)
qed

lemma dec_slice: "(\<And>x. x \<in> set xs \<Longrightarrow> d (f x) z = Some x) \<Longrightarrow> dec_list z d (slice_value f xs) old = Some xs"
proof -
  assume "\<And>x. x \<in> set xs \<Longrightarrow> d (f x) z = Some x"
  then have "dec_elems z d (map f xs) = Some xs" by (induction xs) auto
  then show ?thesis by (simp add: dec_list_def slice_value_def)
qed

lemma dec_fields_inv:
  "dec_fields fs kvs r = Some r' \<Longrightarrow> P r \<Longrightarrow> (\<And>n f v r r'. (n, f) \<in> set fs \<Longrightarrow> P r \<Longrightarrow> f v r = Some r' \<Longrightarrow> P r') \<Longrightarrow> P r'"
proof (induction fs kvs r rule: dec_fields.induct)
  case (2 fs k v kvs r)
  show ?case
  proof (cases "find (\<lambda>(n, _). equal_fold n k) fs")
    case None
    then show ?thesis using 2 by simp
  next
    case (Some x)
    obtain n f where x: "x = (n, f)" by (cases x)
    have m: "(n, f) \<in> set fs" using Some by (auto simp: x find_Some_iff in_set_conv_nth)
    obtain r1 where "f v r = Some r1" "dec_fields fs kvs r1 = Some r'"
      using "2.prems"(1) Some by (auto simp: x split: option.splits)
    then show ?thesis using 2(2)[OF Some _ _ _ _ _] x "2.prems"(2,3) m by blast
  qed
qed simp

lemma dec_struct_inv:
  assumes "dec_struct fs v r = Some r'" "P r" "\<And>n f v r r'. (n, f) \<in> set fs \<Longrightarrow> P r \<Longrightarrow> f v r = Some r' \<Longrightarrow> P r'"
  shows "P r'"
  using assms(1,2) dec_fields_inv[of fs _ r r' P] assms(3) by (auto simp: dec_struct_def split: json.splits)

lemma dec_list_inv: "dec_list z d v old = Some xs \<Longrightarrow> (\<And>v x. d v z = Some x \<Longrightarrow> P x) \<Longrightarrow> list_all P xs"
proof -
  assume d: "\<And>v x. d v z = Some x \<Longrightarrow> P x"
  have "dec_elems z d vs = Some xs \<Longrightarrow> list_all P xs" for vs
    by (induction vs arbitrary: xs) (auto dest: d split: option.splits)
  then show "dec_list z d v old = Some xs \<Longrightarrow> list_all P xs"
    by (auto simp: dec_list_def split: json.splits)
qed

subsection \<open>Integers\<close>

lemma digits_val_append: "digits_val acc (a @ b) = digits_val (digits_val acc a) b"
  by (induction a arbitrary: acc) auto

lemma digits_val_show: "digits_val 0 (show_nat n) = int n"
proof (induction n rule: show_nat.induct)
  case (1 n)
  have d: "of_char (digit_char m) - 48 = int m" if "m < 10" for m
  proof -
    have "list_all (\<lambda>m. of_char (digit_char m) - 48 = int m) [0..<10]" by code_simp
    then show ?thesis using that by (simp only: list_all_iff) simp
  qed
  show ?case
  proof (cases "n < 10")
    case True
    then show ?thesis using d[of n] by (simp add: show_nat.simps[of n])
  next
    case False
    then show ?thesis
      using 1 d[of "n mod 10"] by (simp add: show_nat.simps[of n] digits_val_append zdiv_int zmod_int)
  qed
qed

lemma dec_int_value: "in_int64 i \<Longrightarrow> dec_int (int_value i) old = Some i"
proof -
  assume i: "in_int64 i"
  have n: "list_all is_digit (show_nat m)" "show_nat m \<noteq> []" for m using show_nat_digits by auto
  have d: "\<not> has_prefix (show_nat m) ''-''" for m
    using n[of m] by (cases "show_nat m") (auto simp: is_digit_def)
  have "lit_int (show_int i) = Some i"
    using n d by (simp add: lit_int_def show_int_def Let_def digits_val_show)
  then show ?thesis using i by (simp add: dec_int_def int_value_def)
qed

lemma in_int64_sint: "in_int64 (sint (x :: i64))"
  using sint_range_size[of x] by (simp add: in_int64_def word_size)

subsection \<open>What is stored is read back\<close>

lemma dec_simple: "dec_string (JStr t) old = Some t" "dec_bool (JBool b) old' = Some b"
  by (simp_all add: dec_string_def dec_bool_def)

lemma fields_distinct: "distinct (map (to_lower \<circ> fst) snippet_fields)" "distinct (map (to_lower \<circ> fst) frame_view_fields)"
  "distinct (map (to_lower \<circ> fst) exception_result_fields)" "distinct (map (to_lower \<circ> fst) missing_map_fields)"
  "distinct (map (to_lower \<circ> fst) event_result_fields)"
  by (simp_all only: snippet_fields_def frame_view_fields_def exception_result_fields_def missing_map_fields_def
      event_result_fields_def list.map fst_conv comp_def) (code_simp)+

lemma snippet_lookup: "map_of snippet_fields ''path'' = Some (on sn_path sn_path_update dec_string)"
  "map_of snippet_fields ''line'' = Some (on sn_line sn_line_update dec_int)"
  "map_of snippet_fields ''pre_context'' = Some (on sn_pre sn_pre_update (dec_list [] dec_string))"
  "map_of snippet_fields ''context_line'' = Some (on sn_text sn_text_update dec_string)"
  "map_of snippet_fields ''post_context'' = Some (on sn_post sn_post_update (dec_list [] dec_string))"
  by (simp_all add: snippet_fields_def)

lemma snippet_roundtrip: "in_int64 (sn_line s) \<Longrightarrow> dec_snippet (snippet_value s) snippet0 = Some s"
  by (simp add: dec_snippet_def snippet_value_def dec_struct_def dec_known fields_distinct snippet_lookup
      on_def dec_simple dec_slice dec_int_value snippet0_def del: dec_fields.simps(2))

lemma view_lookup: "map_of frame_view_fields ''lineno'' = Some (on fv_lineno fv_lineno_update dec_int)"
  "map_of frame_view_fields ''colno'' = Some (on fv_colno fv_colno_update dec_int)"
  "map_of frame_view_fields ''abs_path'' = Some (on fv_abs_path fv_abs_path_update dec_string)"
  "map_of frame_view_fields ''filename'' = Some (on fv_filename fv_filename_update dec_string)"
  "map_of frame_view_fields ''in_app'' = Some (on fv_in_app fv_in_app_update dec_bool)"
  "map_of frame_view_fields ''function'' = Some (on fv_function fv_function_update dec_string)"
  "map_of frame_view_fields ''source'' = Some (on fv_source fv_source_update dec_string)"
  "map_of frame_view_fields ''src_line'' = Some (on fv_src_line fv_src_line_update dec_int)"
  "map_of frame_view_fields ''src_col'' = Some (on fv_src_col fv_src_col_update dec_int)"
  "map_of frame_view_fields ''context'' = Some (on fv_context fv_context_update (dec_ptr snippet0 dec_snippet))"
  "map_of frame_view_fields ''resolved'' = Some (on fv_resolved fv_resolved_update dec_bool)"
  by (simp_all add: frame_view_fields_def)

definition view_ints :: "frame_view \<Rightarrow> bool" where
  "view_ints f \<longleftrightarrow> in_int64 (fv_lineno f) \<and> in_int64 (fv_colno f) \<and> in_int64 (fv_src_line f) \<and> in_int64 (fv_src_col f) \<and>
     (\<forall>s\<in>set_option (fv_context f). in_int64 (sn_line s))"

lemma dec_context: "(\<forall>s\<in>set_option c. in_int64 (sn_line s)) \<Longrightarrow>
    dec_ptr snippet0 dec_snippet (case c of None \<Rightarrow> JNull | Some s \<Rightarrow> snippet_value s) None = Some c"
proof (cases c)
  case (Some a)
  assume "\<forall>s\<in>set_option c. in_int64 (sn_line s)"
  then have "dec_snippet (snippet_value a) snippet0 = Some a" by (simp add: Some snippet_roundtrip)
  moreover obtain kvs where "snippet_value a = JObj kvs" by (simp add: snippet_value_def)
  ultimately show ?thesis by (simp add: Some dec_ptr_def)
qed (simp add: dec_ptr_def)

text \<open>One field more; a field left out keeps the zero value it had.\<close>

lemma known_field:
  assumes "distinct (map (to_lower \<circ> fst) fs)" "map_of fs k = Some (on get upd d)" "d v (get r) = Some x"
    "b \<Longrightarrow> upd (\<lambda>_. x) r = r" "dec_fields fs kvs (upd (\<lambda>_. x) r) = Some z"
  shows "dec_fields fs (omit b k v @ kvs) r = Some z"
  using assms by (auto simp: dec_known on_def)

lemmas view_field = known_field[OF fields_distinct(2)]

lemma view_roundtrip:
  assumes "view_ints f"
  shows "dec_frame_view (frame_view_value f) frame_view0 = Some f"
proof -
  note i = assms[unfolded view_ints_def]
  have "dec_fields frame_view_fields (omit False ''lineno'' (int_value (fv_lineno f)) @
     omit False ''colno'' (int_value (fv_colno f)) @
     omit (fv_abs_path f = []) ''abs_path'' (JStr (fv_abs_path f)) @
     omit (fv_filename f = []) ''filename'' (JStr (fv_filename f)) @
     omit (\<not> fv_in_app f) ''in_app'' (JBool (fv_in_app f)) @
     omit (fv_function f = []) ''function'' (JStr (fv_function f)) @
     omit (fv_source f = []) ''source'' (JStr (fv_source f)) @
     omit (fv_src_line f = 0) ''src_line'' (int_value (fv_src_line f)) @
     omit (fv_src_col f = 0) ''src_col'' (int_value (fv_src_col f)) @
     omit (fv_context f = None) ''context'' (case fv_context f of None \<Rightarrow> JNull | Some s \<Rightarrow> snippet_value s) @
     omit (\<not> fv_resolved f) ''resolved'' (JBool (fv_resolved f)) @ []) frame_view0 = Some f"
    by (intro view_field[OF view_lookup(1), where x = "fv_lineno f"] view_field[OF view_lookup(2), where x = "fv_colno f"]
        view_field[OF view_lookup(3), where x = "fv_abs_path f"] view_field[OF view_lookup(4), where x = "fv_filename f"]
        view_field[OF view_lookup(5), where x = "fv_in_app f"] view_field[OF view_lookup(6), where x = "fv_function f"]
        view_field[OF view_lookup(7), where x = "fv_source f"] view_field[OF view_lookup(8), where x = "fv_src_line f"]
        view_field[OF view_lookup(9), where x = "fv_src_col f"] view_field[OF view_lookup(10), where x = "fv_context f"]
        view_field[OF view_lookup(11), where x = "fv_resolved f"])
      (simp_all add: frame_view0_def i dec_int_value dec_simple dec_context)
  then show ?thesis
    by (simp add: dec_frame_view_def frame_view_value_def dec_struct_def omit_def[of False])
qed

lemma missing_lookup: "map_of missing_map_fields ''abs_path'' = Some (on mm_abs_path mm_abs_path_update dec_string)"
  "map_of missing_map_fields ''release'' = Some (on mm_release mm_release_update dec_string)"
  "map_of missing_map_fields ''dist'' = Some (on mm_dist mm_dist_update dec_string)"
  "map_of missing_map_fields ''reason'' = Some (on mm_reason mm_reason_update dec_string)"
  by (simp_all add: missing_map_fields_def)

lemmas missing_field = known_field[OF fields_distinct(4)]

lemma missing_roundtrip: "dec_missing_map (missing_value m) missing_map0 = Some m"
proof -
  have "dec_fields missing_map_fields (omit False ''abs_path'' (JStr (mm_abs_path m)) @
     omit False ''release'' (JStr (mm_release m)) @ omit (mm_dist m = []) ''dist'' (JStr (mm_dist m)) @
     omit False ''reason'' (JStr (mm_reason m)) @ []) missing_map0 = Some m"
    by (intro missing_field[OF missing_lookup(1), where x = "mm_abs_path m"]
        missing_field[OF missing_lookup(2), where x = "mm_release m"]
        missing_field[OF missing_lookup(3), where x = "mm_dist m"]
        missing_field[OF missing_lookup(4), where x = "mm_reason m"])
      (simp_all add: missing_map0_def dec_simple)
  then show ?thesis
    by (simp add: dec_missing_map_def missing_value_def dec_struct_def omit_def[of False])
qed

lemma exception_lookup: "map_of exception_result_fields ''type'' = Some (on xr_type xr_type_update dec_string)"
  "map_of exception_result_fields ''value'' = Some (on xr_value xr_value_update dec_string)"
  "map_of exception_result_fields ''frames'' = Some (on xr_frames xr_frames_update (dec_list frame_view0 dec_frame_view))"
  by (simp_all add: exception_result_fields_def)

lemmas exception_field = known_field[OF fields_distinct(3)]

lemma exception_roundtrip:
  assumes "list_all view_ints (xr_frames x)"
  shows "dec_exception_result (exception_value x) exception_result0 = Some x"
proof -
  have f: "dec_list frame_view0 dec_frame_view (slice_value frame_view_value (xr_frames x)) old = Some (xr_frames x)" for old
    using assms by (intro dec_slice view_roundtrip) (simp add: list_all_iff)
  have "dec_fields exception_result_fields (omit (xr_type x = []) ''type'' (JStr (xr_type x)) @
     omit (xr_value x = []) ''value'' (JStr (xr_value x)) @
     omit False ''frames'' (slice_value frame_view_value (xr_frames x)) @ []) exception_result0 = Some x"
    by (intro exception_field[OF exception_lookup(1), where x = "xr_type x"]
        exception_field[OF exception_lookup(2), where x = "xr_value x"]
        exception_field[OF exception_lookup(3), where x = "xr_frames x"])
      (simp_all add: exception_result0_def dec_simple f)
  then show ?thesis
    by (simp add: dec_exception_result_def exception_value_def dec_struct_def omit_def[of False])
qed

lemma result_lookup: "map_of event_result_fields ''v'' = Some (on er_v er_v_update dec_int)"
  "map_of event_result_fields ''cache_key'' = Some (on er_cache_key er_cache_key_update dec_string)"
  "map_of event_result_fields ''symbolicated'' = Some (on er_symbolicated er_symbolicated_update dec_bool)"
  "map_of event_result_fields ''no_release'' = Some (on er_no_release er_no_release_update dec_bool)"
  "map_of event_result_fields ''exceptions'' = Some (on er_exceptions er_exceptions_update (dec_list exception_result0 dec_exception_result))"
  "map_of event_result_fields ''missing_maps'' = Some (on er_missing er_missing_update (dec_list missing_map0 dec_missing_map))"
  by (simp_all add: event_result_fields_def)

lemmas result_field = known_field[OF fields_distinct(5)]

definition result_ints :: "event_result \<Rightarrow> bool" where
  "result_ints r \<longleftrightarrow> in_int64 (er_v r) \<and> list_all (\<lambda>x. list_all view_ints (xr_frames x)) (er_exceptions r)"

lemma result_roundtrip:
  assumes "result_ints r"
  shows "dec_event_result (result_value r) event_result0 = Some r"
proof -
  have x: "dec_list exception_result0 dec_exception_result (slice_value exception_value (er_exceptions r)) old = Some (er_exceptions r)" for old
    using assms by (intro dec_slice exception_roundtrip) (simp add: list_all_iff result_ints_def)
  have m: "dec_list missing_map0 dec_missing_map (slice_value missing_value (er_missing r)) old = Some (er_missing r)" for old
    by (intro dec_slice missing_roundtrip)
  have "dec_fields event_result_fields (omit False ''v'' (int_value (er_v r)) @
     omit False ''cache_key'' (JStr (er_cache_key r)) @ omit False ''symbolicated'' (JBool (er_symbolicated r)) @
     omit (\<not> er_no_release r) ''no_release'' (JBool (er_no_release r)) @
     omit (er_exceptions r = []) ''exceptions'' (slice_value exception_value (er_exceptions r)) @
     omit (er_missing r = []) ''missing_maps'' (slice_value missing_value (er_missing r)) @ []) event_result0 = Some r"
    using assms
    by (intro result_field[OF result_lookup(1), where x = "er_v r"]
        result_field[OF result_lookup(2), where x = "er_cache_key r"]
        result_field[OF result_lookup(3), where x = "er_symbolicated r"]
        result_field[OF result_lookup(4), where x = "er_no_release r"]
        result_field[OF result_lookup(5), where x = "er_exceptions r"]
        result_field[OF result_lookup(6), where x = "er_missing r"])
      (simp_all add: event_result0_def dec_simple dec_int_value x m result_ints_def)
  then show ?thesis
    by (simp add: dec_event_result_def result_value_def dec_struct_def omit_def[of False])
qed

subsection \<open>Results of a computation\<close>

definition payload_ints :: "sym_payload \<Rightarrow> bool" where
  "payload_ints p \<longleftrightarrow> list_all (\<lambda>x. list_all (\<lambda>f. in_int64 (sf_lineno f) \<and> in_int64 (sf_colno f)) (sx_frames x)) (sp_exceptions p)"

lemma dec_int_range: "dec_int v old = Some i \<Longrightarrow> in_int64 old \<Longrightarrow> in_int64 i"
  by (auto simp: dec_int_def split: json.splits option.splits if_splits)

lemma dec_frame_ints: "dec_sym_frame v sym_frame0 = Some f \<Longrightarrow> in_int64 (sf_lineno f) \<and> in_int64 (sf_colno f)"
  unfolding dec_sym_frame_def
  by (erule dec_struct_inv) (auto simp: on_def sym_frame0_def in_int64_def[of 0], (metis dec_int_range)+)

lemma dec_exception_ints:
  "dec_sym_exception v \<lparr>sx_type = [], sx_value = [], sx_frames = []\<rparr> = Some x \<Longrightarrow>
   list_all (\<lambda>f. in_int64 (sf_lineno f) \<and> in_int64 (sf_colno f)) (sx_frames x)"
  unfolding dec_sym_exception_def
proof (erule dec_struct_inv)
  fix n f v r r'
  assume f: "(n, f) \<in> set [(''type'', on sx_type sx_type_update dec_string), (''value'', on sx_value sx_value_update dec_string),
      (''stacktrace'', dec_struct [(''frames'', on sx_frames sx_frames_update (dec_list sym_frame0 dec_sym_frame))])]"
    and r: "list_all (\<lambda>f. in_int64 (sf_lineno f) \<and> in_int64 (sf_colno f)) (sx_frames r)" "f v r = Some r'"
  have "list_all (\<lambda>f. in_int64 (sf_lineno f) \<and> in_int64 (sf_colno f)) (sx_frames r')"
    if "dec_struct [(''frames'', on sx_frames sx_frames_update (dec_list sym_frame0 dec_sym_frame))] v r = Some r'"
    using that r(1)
    by (rule dec_struct_inv) (auto simp: on_def dest!: dec_list_inv[OF _ dec_frame_ints])
  then show "list_all (\<lambda>f. in_int64 (sf_lineno f) \<and> in_int64 (sf_colno f)) (sx_frames r')"
    using f r by (auto simp: on_def)
qed simp

lemma dec_payload_ints: "dec_sym_payload v sym_payload0 = Some p \<Longrightarrow> payload_ints p"
  unfolding dec_sym_payload_def
proof (erule dec_struct_inv)
  fix n f v r r'
  assume f: "(n, f) \<in> set [(''release'', on sp_release sp_release_update dec_string), (''dist'', on sp_dist sp_dist_update dec_string),
      (''debug_meta'', dec_struct [(''images'', on sp_images sp_images_update
          (dec_list \<lparr>im_debug_id = [], im_code_file = []\<rparr> dec_debug_image))]),
      (''exception'', dec_struct [(''values'', on sp_exceptions sp_exceptions_update
          (dec_list \<lparr>sx_type = [], sx_value = [], sx_frames = []\<rparr> dec_sym_exception))])]"
    and r: "payload_ints r" "f v r = Some r'"
  have x: "payload_ints r'" if "dec_struct [(''values'', on sp_exceptions sp_exceptions_update
      (dec_list \<lparr>sx_type = [], sx_value = [], sx_frames = []\<rparr> dec_sym_exception))] v r = Some r'"
    using that r(1)
    by (rule dec_struct_inv) (auto simp: on_def payload_ints_def dest!: dec_list_inv[OF _ dec_exception_ints])
  have i: "payload_ints r'" if "dec_struct [(''images'', on sp_images sp_images_update d)] v r = Some r'" for d
    using that r(1) by (rule dec_struct_inv) (auto simp: on_def payload_ints_def)
  show "payload_ints r'"
    using f r x i by (auto simp: on_def) (auto simp: payload_ints_def)
qed (simp add: payload_ints_def sym_payload0_def)

lemma step_ints:
  assumes "in_int64 (sf_lineno f)" "in_int64 (sf_colno f)"
  shows "view_ints (fst (sym_frame_step uj p ix f acc))"
proof -
  have s: "in_int64 (sn_line sn)" if "snippet_at path c (sint (x :: i64)) = Some sn" for path c x sn
    using that in_int64_sint[of x] by (auto simp: snippet_at_def Let_def split: if_splits)
  have r: "in_int64 (fr_line (symbolicate_frame m g))" "in_int64 (fr_col (symbolicate_frame m g))"
    "sn \<in> set_option (fr_context (symbolicate_frame m g)) \<Longrightarrow> in_int64 (sn_line sn)" for m g sn
    by (auto simp: symbolicate_frame_def frame_result0_def Let_def in_int64_sint in_int64_def[of 0]
        intro: s split: option.splits if_splits)
  have "view_ints (view_of f)"
    using assms by (simp add: view_ints_def view_of_def frame_view0_def in_int64_def[of 0])
  moreover have "view_ints (overlay (view_of f) (symbolicate_frame m g))" for m g
    using assms r[where m = m and g = g] by (auto simp: overlay_def Let_def view_ints_def view_of_def frame_view0_def)
  ultimately show ?thesis by (auto simp: sym_frame_step_def Let_def split: option.split)
qed

lemma frames_ints: "list_all (\<lambda>f. in_int64 (sf_lineno f) \<and> in_int64 (sf_colno f)) fs \<Longrightarrow>
    list_all view_ints (fst (sym_frames uj p ix fs acc))"
proof (induction fs arbitrary: acc)
  case (Cons f fs)
  then show ?case
    using step_ints[of f uj p ix acc] by (simp add: Let_def split_beta)
qed simp

lemma exceptions_ints: "list_all (\<lambda>x. list_all (\<lambda>f. in_int64 (sf_lineno f) \<and> in_int64 (sf_colno f)) (sx_frames x)) xs \<Longrightarrow>
    list_all (\<lambda>x. list_all view_ints (xr_frames x)) (fst (sym_exceptions uj p ix xs acc))"
proof (induction xs arbitrary: acc)
  case (Cons x xs)
  then show ?case
    using frames_ints[of "sx_frames x" uj p ix acc] by (simp add: Let_def split_beta)
qed simp

lemma computed_ints: "payload_ints p \<Longrightarrow> result_ints (compute_result uj p arts)"
  unfolding payload_ints_def
  by (simp add: compute_result_def result_ints_def event_result0_def result_v_def in_int64_def[of 1] Let_def split_beta exceptions_ints)

subsection \<open>The cache\<close>

lemma load_calm:
  assumes "calm w" "load_artifacts w n pid rel s = (Inr arts, s1)"
  shows "io_site s1 = io_site s"
    "release_files (io_site t) = release_files (io_site s) \<Longrightarrow>
     \<exists>t1. load_artifacts w n pid rel t = (Inr arts, t1) \<and> io_site t1 = io_site t"
proof -
  have q: "query w n (select f) t = (Inr (f (io_site t)), called t)" for f :: "site \<Rightarrow> 'a" and t
    by (rule query_select_calm[OF assms(1)])
  show "io_site s1 = io_site s"
    using assms by (auto simp: load_artifacts_def bind_def query_calm with_uuid_def Let_def ret_def
        split: prod.splits sum.splits option.splits if_splits)
  show "\<exists>t1. load_artifacts w n pid rel t = (Inr arts, t1) \<and> io_site t1 = io_site t"
    if r: "release_files (io_site t) = release_files (io_site s)"
  proof (cases "rel = []")
    case True
    then show ?thesis using assms(2) by (auto simp: load_artifacts_def)
  next
    case False
    then obtain u where u: "w_pg_uuid w pid = Some u"
      using assms by (cases "w_pg_uuid w pid") (auto simp: load_artifacts_def bind_def query_calm with_uuid_def)
    have "q_artifacts u rel (io_site t) = q_artifacts u rel (io_site s)" "\<And>ids. q_bodies ids (io_site t) = q_bodies ids (io_site s)"
      by (simp_all add: q_artifacts_def q_bodies_def r)
    then show ?thesis
      using assms False
      by (auto simp: load_artifacts_def bind_def query_calm with_uuid_Some[OF u] select_def Let_def ret_def split: if_splits)
  qed
qed

lemma cached_written:
  assumes "payload_ints p"
  shows "cached_result (artifact_set_key (sp_release p) arts) (Some (Some (result_value (compute_result uj p arts)))) =
    Some (compute_result uj p arts)"
proof -
  have "er_v (compute_result uj p arts) = result_v" "er_cache_key (compute_result uj p arts) = artifact_set_key (sp_release p) arts"
    by (simp_all add: compute_result_def Let_def split_beta)
  then show ?thesis using result_roundtrip[OF computed_ints[OF assms]] by (simp add: cached_result_def)
qed

lemma written_back:
  assumes "q_write_back v eid ts d = Some (u, d')" "q_symbolicated eid ts d \<noteq> None"
  shows "q_symbolicated eid ts d' = Some (Some v)" "release_files d' = release_files d"
proof -
  have "find P (update_where P f es) = map_option f (find P es)" if "\<And>e. P (f e) = P e" for P f and es :: "event_row list"
    using that by (induction es) (auto simp: update_where_def)
  from this[of "\<lambda>e. ev_id e = eid \<and> ev_timestamp e = ts" "\<lambda>e. e\<lparr>ev_symbolicated := Some v\<rparr>"]
  show "q_symbolicated eid ts d' = Some (Some v)" "release_files d' = release_files d"
    using assms by (auto simp: q_write_back_def q_symbolicated_def split: if_splits)
qed

lemma stored_calm: "calm w \<Longrightarrow> attempt (query_row w n (select (q_symbolicated eid ts))) s = (Inr (q_symbolicated eid ts (io_site s)), called s)"
  by (simp add: attempt_def query_row_def bind_def query_select_calm fail_def ret_def split: option.split)

text \<open>C32: Symbolication is cached: once a view of a stored event has symbolicated it and written the result,
  every later view returns the same result and changes nothing, as long as the release's artifacts and the
  event's row are the same.  What was written as JSON reads back as the result that was computed.\<close>

theorem symbolicate_cached:
  assumes "calm w" "symbolicate_event uj json_err w n pid eid ts raw s = (Inr (res, None), s1)"
    "q_symbolicated eid ts (io_site s) \<noteq> None" "release_files (io_site t) = release_files (io_site s1)"
    "q_symbolicated eid ts (io_site t) = q_symbolicated eid ts (io_site s1)"
  shows "\<exists>t1. symbolicate_event uj json_err w n pid eid ts raw t = (Inr (res, None), t1) \<and> io_site t1 = io_site t"
proof -
  obtain p where p: "unmarshal dec_sym_payload sym_payload0 raw = Some p"
    using assms(2) by (auto simp: symbolicate_event_def split: option.splits)
  have ints: "payload_ints p" using p dec_payload_ints by (auto simp: unmarshal_def split: option.splits)
  obtain arts s2 where l: "load_artifacts w n pid (sp_release p) s = (Inr arts, s2)"
    using assms(2) by (auto simp: symbolicate_event_def p bind_def split: prod.splits sum.splits)
  let ?key = "artifact_set_key (sp_release p) arts"
  let ?res = "compute_result uj p arts"
  note lc = load_calm[OF assms(1) l]
  have run: "(case cached_result ?key (q_symbolicated eid ts (io_site s)) of
      Some r \<Rightarrow> ret (r, None) | None \<Rightarrow> write_back w n eid ts ?res) (called s2) = (Inr (res, None), s1)"
    using assms(2) by (simp add: symbolicate_event_def p bind_total l stored_calm[OF assms(1)] lc(1))
  have "cached_result ?key (q_symbolicated eid ts (io_site s1)) = Some res \<and> release_files (io_site s1) = release_files (io_site s)"
  proof (cases "cached_result ?key (q_symbolicated eid ts (io_site s))")
    case None
    then have wb: "write_back w n eid ts ?res (called s2) = (Inr (res, None), s1)" using run by simp
    obtain u d' where w: "q_write_back (result_value ?res) eid ts (io_site s) = Some (u, d')"
    proof (cases "q_write_back (result_value ?res) eid ts (io_site s)")
      case None
      then show ?thesis using wb by (simp add: write_back_def query_calm[OF assms(1)] lc(1))
    next
      case (Some x)
      then show ?thesis by (cases x) (simp add: that)
    qed
    have r: "io_site s1 = d'" "res = ?res"
      using wb by (auto simp: write_back_def query_calm[OF assms(1)] lc(1) w)
    show ?thesis using written_back[OF w assms(3)] cached_written[OF ints] r by simp
  next
    case (Some r)
    then have "res = r" "s1 = called s2" using run by (auto simp: ret_def)
    then show ?thesis using Some lc(1) by simp
  qed
  then have c: "cached_result ?key (q_symbolicated eid ts (io_site t)) = Some res"
    "release_files (io_site t) = release_files (io_site s)" using assms(4,5) by simp_all
  obtain t2 where t2: "load_artifacts w n pid (sp_release p) t = (Inr arts, t2)" "io_site t2 = io_site t"
    using lc(2)[OF c(2)] by blast
  have "symbolicate_event uj json_err w n pid eid ts raw t = (Inr (res, None), called t2)"
    using c(1) by (simp add: symbolicate_event_def p bind_total t2 stored_calm[OF assms(1)] ret_def)
  then show ?thesis using t2(2) by (intro exI[of _ "called t2"]) simp
qed

subsection \<open>Frames\<close>

definition frame_kept :: "sym_frame \<Rightarrow> frame_view \<Rightarrow> bool" where
  "frame_kept f v \<longleftrightarrow> fv_lineno v = sf_lineno f \<and> fv_colno v = sf_colno f \<and> fv_abs_path v = sf_abs_path f \<and>
     fv_filename v = sf_filename f \<and> fv_in_app v = (sf_in_app f = Some True) \<and> (\<not> fv_resolved v \<longrightarrow> v = view_of f)"

definition acc_ok :: "sym_acc \<Rightarrow> bool" where
  "acc_ok acc \<longleftrightarrow> length (sa_missing acc) \<le> missing_map_cap \<and> distinct (map mm_abs_path (sa_missing acc)) \<and>
     set (map mm_abs_path (sa_missing acc)) \<subseteq> set (sa_seen acc)"

lemma step_kept:
  assumes "acc_ok acc"
  shows "frame_kept f (fst (sym_frame_step uj p ix f acc))" "acc_ok (snd (sym_frame_step uj p ix f acc))"
    "sa_symbolicated (snd (sym_frame_step uj p ix f acc)) \<longleftrightarrow>
       sa_symbolicated acc \<or> fv_resolved (fst (sym_frame_step uj p ix f acc))"
proof -
  have v: "\<not> fv_resolved (view_of f)" by (simp add: view_of_def frame_view0_def)
  have n: "acc_ok (note_missing p f acc)" "sa_symbolicated (note_missing p f acc) = sa_symbolicated acc"
    using assms by (auto simp: note_missing_def acc_ok_def)
  show "frame_kept f (fst (sym_frame_step uj p ix f acc))" "acc_ok (snd (sym_frame_step uj p ix f acc))"
    "sa_symbolicated (snd (sym_frame_step uj p ix f acc)) \<longleftrightarrow>
       sa_symbolicated acc \<or> fv_resolved (fst (sym_frame_step uj p ix f acc))"
    using assms v n
    by (auto simp: sym_frame_step_def Let_def frame_kept_def overlay_def acc_ok_def split: option.split)
      (simp_all add: view_of_def frame_view0_def)
qed

lemma frames_kept_acc: "acc_ok acc \<Longrightarrow>
    list_all2 frame_kept fs (fst (sym_frames uj p ix fs acc)) \<and> acc_ok (snd (sym_frames uj p ix fs acc)) \<and>
    (sa_symbolicated (snd (sym_frames uj p ix fs acc)) \<longleftrightarrow>
       sa_symbolicated acc \<or> list_ex fv_resolved (fst (sym_frames uj p ix fs acc)))"
proof (induction fs arbitrary: acc)
  case (Cons f fs)
  note k = step_kept[OF Cons.prems, where f = f and uj = uj and p = p and ix = ix]
  show ?case using Cons.IH[OF k(2)] k
    by (auto simp: Let_def split_beta)
qed simp

definition exception_kept :: "sym_exception \<Rightarrow> exception_result \<Rightarrow> bool" where
  "exception_kept x r \<longleftrightarrow> xr_type r = sx_type x \<and> xr_value r = sx_value x \<and> list_all2 frame_kept (sx_frames x) (xr_frames r)"

lemma exceptions_kept_acc: "acc_ok acc \<Longrightarrow>
    list_all2 exception_kept xs (fst (sym_exceptions uj p ix xs acc)) \<and> acc_ok (snd (sym_exceptions uj p ix xs acc)) \<and>
    (sa_symbolicated (snd (sym_exceptions uj p ix xs acc)) \<longleftrightarrow>
       sa_symbolicated acc \<or> list_ex (\<lambda>r. list_ex fv_resolved (xr_frames r)) (fst (sym_exceptions uj p ix xs acc)))"
proof (induction xs arbitrary: acc)
  case (Cons x xs)
  note f = frames_kept_acc[OF Cons.prems, where fs = "sx_frames x" and uj = uj and p = p and ix = ix]
  show ?case using f Cons.IH[OF f[THEN conjunct2, THEN conjunct1]]
    by (auto simp: Let_def split_beta exception_kept_def)
qed simp

text \<open>Symbolication keeps the stack: the exceptions and frames of a result are those of the event, in
  order; every frame keeps its position, paths and in-app flag, and one that no map resolves is shown exactly
  as received.  The event counts as symbolicated if and only if a frame was resolved, and at most twenty
  missing maps are reported, none twice.\<close>

theorem frames_kept:
  "if sp_release p = [] then er_no_release (compute_result uj p arts) \<and> er_exceptions (compute_result uj p arts) = []
   else list_all2 exception_kept (sp_exceptions p) (er_exceptions (compute_result uj p arts)) \<and>
     (er_symbolicated (compute_result uj p arts) \<longleftrightarrow>
        list_ex (\<lambda>r. list_ex fv_resolved (xr_frames r)) (er_exceptions (compute_result uj p arts))) \<and>
     length (er_missing (compute_result uj p arts)) \<le> 20 \<and>
     distinct (map mm_abs_path (er_missing (compute_result uj p arts)))"
proof -
  have "acc_ok \<lparr>sa_seen = [], sa_missing = [], sa_symbolicated = False\<rparr>" by (simp add: acc_ok_def)
  from exceptions_kept_acc[OF this, where xs = "sp_exceptions p" and uj = uj and p = p and
      ix = "\<lparr>ix_artifacts = arts, ix_dist = sp_dist p\<rparr>"]
  show ?thesis
    by (simp add: compute_result_def event_result0_def Let_def split_beta acc_ok_def missing_map_cap_def)
qed

subsection \<open>An example\<close>

definition seen_event :: event_row where
  "seen_event = \<lparr>ev_id = ''e'', ev_timestamp = 0, ev_project = ''p'', ev_issue = None, ev_platform = [],
     ev_level = [], ev_environment = [], ev_release = ''r'', ev_dist = [], ev_title = [], ev_culprit = [],
     ev_message = [], ev_trace = None, ev_span = [], ev_user_hash = [], ev_tags = [], ev_payload = [], ev_symbolicated = None\<rparr>"

definition seen_raw :: string where
  "seen_raw = json_print (JObj [(''release'', JStr ''r''), (''exception'', JObj [(''values'', JArr [JObj
     [(''type'', JStr ''E''), (''stacktrace'', JObj [(''frames'', JArr [JObj [(''lineno'', JNum ''1''),
        (''colno'', JNum ''1''), (''abs_path'', JStr ''http://h/app.js'')]])])]])])])"

definition seen_payload :: sym_payload where
  "seen_payload = \<lparr>sp_release = ''r'', sp_dist = [], sp_images = [], sp_exceptions =
     [\<lparr>sx_type = ''E'', sx_value = [], sx_frames = [sym_frame0\<lparr>sf_lineno := 1, sf_colno := 1, sf_abs_path := ''http://h/app.js''\<rparr>]\<rparr>]\<rparr>"

definition seen_io :: io where
  "seen_io = \<lparr>io_site = (site_of (empty_db\<lparr>events := [seen_event]\<rparr>))\<lparr>release_files := [\<lparr>rf_id = ''f'', rf_project = ''p'',
     rf_release = ''r'', rf_dist = [], rf_name = ''app.js.map'', rf_body = map_text ''a.ts'', rf_sha = ''s'', rf_debug = [],
     rf_url = []\<rparr>]\<rparr>, io_calls = 0, io_out = []\<rparr>"

abbreviation no_join :: url_join where "no_join \<equiv> \<lambda>_ _. None"

abbreviation seen_result :: event_result where
  "seen_result \<equiv> compute_result no_join seen_payload [dist_artifact [] ''a.ts''\<lparr>ar_sha := ''s''\<rparr>]"

lemma key_no_nul: "CHR 0x00 \<notin> set (artifact_set_key release arts)"
proof -
  have "set (artifact_set_key release arts) \<subseteq> set hex_digits"
    using set_hex_encode by (simp add: artifact_set_key_def sha256_hex_def Let_def)
  moreover have "CHR 0x00 \<notin> set hex_digits" by code_simp
  ultimately show ?thesis by blast
qed

lemma seen_run: "symbolicate_event no_join (\<lambda>_. []) (witness_world 0) witness_net ''p'' ''e'' 0 seen_raw seen_io =
    (Inr (seen_result, None), snd (query (witness_world 0) witness_net (q_write_back (result_value seen_result) ''e'' 0)
       (seen_io\<lparr>io_calls := 3\<rparr>)))"
proof -
  let ?acc = "\<lparr>sa_seen = [], sa_missing = [], sa_symbolicated = False\<rparr>"
  let ?ix = "\<lparr>ix_artifacts = [dist_artifact [] ''a.ts''\<lparr>ar_sha := ''s''\<rparr>], ix_dist = []\<rparr>"
  have p: "unmarshal dec_sym_payload sym_payload0 seen_raw = Some seen_payload" by code_simp
  have l: "load_artifacts (witness_world 0) witness_net ''p'' (sp_release seen_payload) seen_io =
      (Inr [dist_artifact [] ''a.ts''\<lparr>ar_sha := ''s''\<rparr>], seen_io\<lparr>io_calls := 2\<rparr>)" by code_simp
  have q: "q_symbolicated ''e'' 0 (io_site seen_io) = Some None" by code_simp
  have c: "called (seen_io\<lparr>io_calls := 2\<rparr>) = seen_io\<lparr>io_calls := 3\<rparr>" by (simp add: called_def)
  have "\<not> has_nul (slice_value exception_value (fst (sym_exceptions no_join seen_payload ?ix (sp_exceptions seen_payload) ?acc))) \<and>
      sa_missing (snd (sym_exceptions no_join seen_payload ?ix (sp_exceptions seen_payload) ?acc)) = [] \<and>
      sp_dist seen_payload = [] \<and> sp_release seen_payload \<noteq> []" by code_simp
  then have "\<not> has_nul (result_value seen_result)"
    using key_no_nul
    by (auto simp: result_value_def compute_result_def event_result0_def Let_def split_beta omit_def int_value_def)
  then have w: "fst (query (witness_world 0) witness_net (q_write_back (result_value seen_result) ''e'' 0) (seen_io\<lparr>io_calls := 3\<rparr>)) = Inr ()"
    by (simp add: query_calm[OF witness_calm] q_write_back_def)
  have "write_back (witness_world 0) witness_net ''e'' 0 seen_result (seen_io\<lparr>io_calls := 3\<rparr>) = (Inr (seen_result, None),
      snd (query (witness_world 0) witness_net (q_write_back (result_value seen_result) ''e'' 0) (seen_io\<lparr>io_calls := 3\<rparr>)))"
    using w by (auto simp: write_back_def split: prod.split sum.split)
  then show ?thesis
    by (simp add: symbolicate_event_def p bind_total l stored_calm[OF witness_calm] q c cached_result_def)
qed

theorem symbolicate_cached_witness:
  "\<exists>s1 t1. symbolicate_event no_join (\<lambda>_. []) (witness_world 0) witness_net ''p'' ''e'' 0 seen_raw seen_io = (Inr (seen_result, None), s1) \<and>
     symbolicate_event no_join (\<lambda>_. []) (witness_world 0) witness_net ''p'' ''e'' 0 seen_raw s1 = (Inr (seen_result, None), t1) \<and>
     io_site t1 = io_site s1"
proof -
  have "q_symbolicated ''e'' 0 (io_site seen_io) \<noteq> None" by code_simp
  from symbolicate_cached[OF witness_calm seen_run this refl refl] seen_run show ?thesis by blast
qed

end
