(* ===== verification/Http.thy ===== *)
theory Http
  imports RateLimit Envelope JsonPrint
begin

section \<open>Requests and responses\<close>

text \<open>
  A request is what the handlers read of it: the method, the values of the path pattern, the query
  and form parameters, the headers (canonical names), the cookies and the body.  A response is what
  they write: the first status wins, headers are a map.
\<close>

record request =
  rq_method :: string
  rq_path :: "(string \<times> string) list"
  rq_query :: "(string \<times> string) list"
  rq_form :: "(string \<times> string) list"
  rq_headers :: "(string \<times> string) list"
  rq_cookies :: "(string \<times> string) list"
  rq_length :: int
  rq_body :: stream

record response =
  rs_status :: int
  rs_headers :: "(string \<times> string) list"
  rs_body :: string

definition response0 :: response where "response0 = \<lparr>rs_status = 200, rs_headers = [], rs_body = []\<rparr>"

text \<open>\<open>Get\<close> of a header, parameter or path value: the first value, or the empty string.\<close>

definition get_val :: "(string \<times> string) list \<Rightarrow> string \<Rightarrow> string" where
  "get_val kvs k = (case map_of kvs k of None \<Rightarrow> [] | Some v \<Rightarrow> v)"

definition set_header :: "string \<Rightarrow> string \<Rightarrow> response \<Rightarrow> response" where
  "set_header k v r = r\<lparr>rs_headers := alist_put k v (rs_headers r)\<rparr>"

text \<open>\<open>json.NewEncoder(w).Encode\<close> ends with a newline.\<close>

definition encode_json :: "json \<Rightarrow> response \<Rightarrow> response" where
  "encode_json v r = r\<lparr>rs_body := rs_body r @ json_print v @ [nl]\<rparr>"

definition write_json_status :: "int \<Rightarrow> json \<Rightarrow> response \<Rightarrow> response" where
  "write_json_status status v r =
     encode_json v ((set_header ''Content-Type'' ''application/json'' r)\<lparr>rs_status := status\<rparr>)"

definition write_json :: "json \<Rightarrow> response \<Rightarrow> response" where "write_json v = write_json_status 200 v"

definition write_err :: "int \<Rightarrow> string \<Rightarrow> response \<Rightarrow> response" where
  "write_err code msg r =
     encode_json (JObj [(''error'', JStr msg)])
       ((set_header ''Content-Type'' ''application/json'' r)\<lparr>rs_status := code\<rparr>)"

lemma write_err_status [simp]: "rs_status (write_err code msg r) = code"
  by (simp add: write_err_def encode_json_def set_header_def)

lemma write_json_status [simp]: "rs_status (write_json v r) = 200"
  by (simp add: write_json_def write_json_status_def encode_json_def set_header_def)

end
