(* ===== verification/HttpIngest.thy ===== *)
theory HttpIngest
  imports Http IngestAuth Jobs Process
begin

section \<open>The ingest endpoints (internal/httpapi/ingest.go)\<close>

text \<open>
  \<open>handle_envelope\<close> and \<open>handle_store\<close> compose the parts of ingest: body, framing, key, quota,
  storing and the jobs that evaluate alerts.  The state of the server is the cache of keys beside
  the site.  The texts of the errors of the parts are a parameter.
\<close>

record server =
  sv_cache :: auth_cache
  sv_io :: io

record err_texts =
  et_body :: "body_error \<Rightarrow> string"
  et_envelope :: "envelope_error \<Rightarrow> string"
  et_store :: "store_error \<Rightarrow> string"
  et_json :: "string \<Rightarrow> string"

subsection \<open>The parts, with the server's state\<close>

definition on_io :: "(io \<Rightarrow> 'a \<times> io) \<Rightarrow> server \<Rightarrow> 'a \<times> server" where
  "on_io f sv = (case f (sv_io sv) of (a, s) \<Rightarrow> (a, sv\<lparr>sv_io := s\<rparr>))"

definition resolve_key :: "world \<Rightarrow> string \<Rightarrow> string \<Rightarrow> server \<Rightarrow> (auth_error + project_auth) \<times> server" where
  "resolve_key w pid key sv =
     (let s = sv_io sv;
          asks = (pid \<noteq> [] \<and> key \<noteq> [] \<and> cache_lookup (sv_cache sv) (w_now w) (cache_key pid key) = None);
          (r, c) = resolve w (w_fault w (io_calls s)) (store (io_site s)) (sv_cache sv) pid key
      in (r, sv\<lparr>sv_cache := c, sv_io := (if asks then called s else s)\<rparr>))"

definition take_slot :: "world \<Rightarrow> int \<Rightarrow> uuid \<Rightarrow> io \<Rightarrow> (bool \<times> duration \<times> int) \<times> io" where
  "take_slot w limit pid s =
     (case check_limit w (w_fault w (io_calls s)) limit (store (io_site s)) pid of
        (r, d) \<Rightarrow> (r, (if limit \<le> 0 then s else called s)\<lparr>io_site := (io_site s)\<lparr>store := d\<rparr>\<rparr>))"

text \<open>The transaction of an envelope: its statements, \<open>Begin\<close> and \<open>Commit\<close> are calls of their own.\<close>

definition tx_world :: "world \<Rightarrow> io \<Rightarrow> world" where
  "tx_world w s = w\<lparr>w_fault := (\<lambda>k. w_fault w (io_calls s + k))\<rparr>"

definition tx_calls :: "world \<Rightarrow> envelope \<Rightarrow> uuid \<Rightarrow> db \<Rightarrow> nat" where
  "tx_calls w env pid d =
     (if w_fault w 0 then 1
      else Suc (tx_count (snd (process_items w env pid (e_items env) result0
             \<lparr>tx_db = d, tx_count = 1, tx_aborted = False\<rparr>))))"

definition process_envelope :: "world \<Rightarrow> envelope \<Rightarrow> uuid \<Rightarrow> io \<Rightarrow> (store_error + process_result) \<times> io" where
  "process_envelope w env pid s =
     (let d = store (io_site s) in
      case process (tx_world w s) env pid d of
        (r, d') \<Rightarrow> (r, s\<lparr>io_site := (io_site s)\<lparr>store := d'\<rparr>, io_calls := io_calls s + tx_calls (tx_world w s) env pid d\<rparr>))"

subsection \<open>Alert evaluations\<close>

text \<open>The members of a Go map are printed by key.\<close>

definition signal_payload :: "string \<Rightarrow> alert_signal \<Rightarrow> json" where
  "signal_payload pid sg = JObj [(''environment'', JStr (sg_environment sg)), (''event_id'', JStr (sg_event sg)),
     (''is_new'', JBool (sg_new sg)), (''is_regression'', JBool (sg_regression sg)),
     (''issue_id'', JStr (sg_issue sg)), (''level'', JStr (sg_level sg)), (''project_id'', JStr pid),
     (''release'', JStr (sg_release sg))]"

definition enqueue_evaluation :: "world \<Rightarrow> net \<Rightarrow> string \<Rightarrow> alert_signal \<Rightarrow> unit iom" where
  "enqueue_evaluation w n pid sg =
     bind (attempt (query w n (q_enqueue w ''alert_evaluate'' (json_print (signal_payload pid sg)) (w_now w)))) (\<lambda>_. ret ())"

definition enqueue_alert_evaluations :: "world \<Rightarrow> net \<Rightarrow> alert_signal list \<Rightarrow> string \<Rightarrow> io \<Rightarrow> io" where
  "enqueue_alert_evaluations w n signals pid s = snd (for_each (enqueue_evaluation w n pid) signals s)"

subsection \<open>Requests\<close>

definition write_ingest_err :: "int \<Rightarrow> string \<Rightarrow> response \<Rightarrow> response" where
  "write_ingest_err code msg r =
     encode_json (JObj [(''error'', JStr msg)])
       ((set_header ''Content-Type'' ''application/json'' r)\<lparr>rs_status := code\<rparr>)"

definition cors :: "response \<Rightarrow> response" where
  "cors r =
     set_header ''Access-Control-Max-Age'' ''86400''
     (set_header ''Access-Control-Allow-Headers'' ''X-Sentry-Auth, Content-Type, Content-Encoding''
     (set_header ''Access-Control-Allow-Methods'' ''POST, OPTIONS''
     (set_header ''Access-Control-Allow-Origin'' ''*'' r)))"

text \<open>The body, or the response that refuses it.\<close>

definition read_ingest_body :: "codecs \<Rightarrow> err_texts \<Rightarrow> config \<Rightarrow> request \<Rightarrow> response \<Rightarrow> response + string" where
  "read_ingest_body cd et cfg rq r =
     (let max_bytes = (if cf_max_event_bytes cfg \<le> 0 then 20 * 2 ^ 20 else cf_max_event_bytes cfg) in
      if rq_length rq > max_bytes + 64 * 2 ^ 10 then Inl (write_ingest_err 413 ''request body too large'' r)
      else case decompress cd (rq_body rq) (get_val (rq_headers rq) ''Content-Encoding'') max_bytes of
        Inl e \<Rightarrow>
          Inl (if e = Too_large then write_ingest_err 413 ''decompressed envelope too large'' r
               else write_ingest_err 400 (''could not read body: '' @ et_body et e) r)
      | Inr body \<Rightarrow> Inr body)"

definition add_quota_headers :: "(string \<times> string) list \<Rightarrow> response \<Rightarrow> response" where
  "add_quota_headers kvs r = fold (\<lambda>(k, v). set_header k v) kvs r"

definition ingest_key :: "request \<Rightarrow> envelope \<Rightarrow> string" where
  "ingest_key rq env =
     (let key = get_val (rq_query rq) ''sentry_key'';
          key = (if key = [] then get_val (rq_query rq) ''glitchtip_key'' else key);
          key = (if key = [] then fst (parse_x_sentry_auth (get_val (rq_headers rq) ''X-Sentry-Auth'')) else key)
      in if key = [] then dsn_public_key (e_header env) else key)"

definition accepted_body :: "string \<Rightarrow> process_result \<Rightarrow> json" where
  "accepted_body i res = JObj [(''accepted'', JNum (show_int (int (pr_accepted res)))), (''id'', JStr i)]"

definition handle_envelope ::
    "codecs \<Rightarrow> err_texts \<Rightarrow> world \<Rightarrow> net \<Rightarrow> config \<Rightarrow> request \<Rightarrow> response \<Rightarrow> server \<Rightarrow> response \<times> server" where
  "handle_envelope cd et w n cfg rq r sv =
     (case read_ingest_body cd et cfg rq r of
        Inl r' \<Rightarrow> (r', sv)
      | Inr body \<Rightarrow>
     (case parse_envelope body of
        Inl e \<Rightarrow> (write_ingest_err 400 (''malformed envelope: '' @ et_envelope et e) r, sv)
      | Inr env \<Rightarrow>
     (case resolve_key w (get_val (rq_path rq) ''projectID'') (ingest_key rq env) sv of
        (Inl _, sv) \<Rightarrow> (write_ingest_err 403 ''invalid ingest key for project'' r, sv)
      | (Inr auth, sv) \<Rightarrow>
     (case on_io (take_slot w (cf_rate_limit cfg) (a_project auth)) sv of
        ((allowed, retry_after, remaining), sv) \<Rightarrow>
          if \<not> allowed then
            (encode_json (JObj [(''error'', JStr ''rate limited'')])
               ((add_quota_headers (quota_headers retry_after remaining)
                   (set_header ''Content-Type'' ''application/json'' r))\<lparr>rs_status := 429\<rparr>), sv)
          else
     (case on_io (process_envelope w env (a_project auth)) sv of
        (Inl e, sv) \<Rightarrow> (write_ingest_err 400 (''envelope rejected: '' @ et_store et e) r, sv)
      | (Inr res, sv) \<Rightarrow>
          (encode_json (accepted_body (h_event_id (e_header env)) res) (set_header ''Content-Type'' ''application/json'' r),
           snd (on_io (\<lambda>s. ((), enqueue_alert_evaluations w n (pr_signals res) (a_project auth) s)) sv)))))))"

text \<open>The legacy endpoint wraps its body into an envelope of one event.\<close>

definition store_envelope :: "json option \<Rightarrow> string \<Rightarrow> string" where
  "store_envelope event_id body =
     json_print (JObj [(''event_id'', case event_id of None \<Rightarrow> JNull | Some v \<Rightarrow> v)]) @ [nl] @
     ([CHR ''{'', CHR 0x22] @ ''type'' @ [CHR 0x22, CHR '':'', CHR 0x22] @ ''event'' @ [CHR 0x22, CHR ''}'']) @ [nl] @ body"

definition store_key :: "request \<Rightarrow> string" where
  "store_key rq =
     (let key = get_val (rq_query rq) ''sentry_key''
      in if key = [] then fst (parse_x_sentry_auth (get_val (rq_headers rq) ''X-Sentry-Auth'')) else key)"

definition event_id_text :: "json option \<Rightarrow> string" where
  "event_id_text event_id =
     (case event_id of None \<Rightarrow> [] | Some v \<Rightarrow> (case dec_string v [] of None \<Rightarrow> [] | Some s \<Rightarrow> s))"

definition handle_store ::
    "codecs \<Rightarrow> err_texts \<Rightarrow> world \<Rightarrow> net \<Rightarrow> config \<Rightarrow> request \<Rightarrow> response \<Rightarrow> server \<Rightarrow> response \<times> server" where
  "handle_store cd et w n cfg rq r sv =
     (case read_ingest_body cd et cfg rq r of
        Inl r' \<Rightarrow> (r', sv)
      | Inr body \<Rightarrow>
     (case unmarshal (dec_map JNull (\<lambda>v _. Some v)) [] body of
        None \<Rightarrow> (write_ingest_err 400 (''malformed event JSON: '' @ et_json et body) r, sv)
      | Some payload \<Rightarrow>
     (case resolve_key w (get_val (rq_path rq) ''projectID'') (store_key rq) sv of
        (Inl _, sv) \<Rightarrow> (write_ingest_err 403 ''invalid ingest key for project'' r, sv)
      | (Inr auth, sv) \<Rightarrow>
     (case on_io (take_slot w (cf_rate_limit cfg) (a_project auth)) sv of
        ((allowed, retry_after, remaining), sv) \<Rightarrow>
          if \<not> allowed then ((add_quota_headers (quota_headers retry_after remaining) r)\<lparr>rs_status := 429\<rparr>, sv)
          else
     (case parse_envelope (store_envelope (map_of payload ''event_id'') body) of
        Inl e \<Rightarrow> (write_ingest_err 400 (''malformed event: '' @ et_envelope et e) r, sv)
      | Inr env \<Rightarrow>
     (case on_io (process_envelope w env (a_project auth)) sv of
        (Inl e, sv) \<Rightarrow> (write_ingest_err 400 (''event rejected: '' @ et_store et e) r, sv)
      | (Inr res, sv) \<Rightarrow>
          (encode_json (accepted_body (event_id_text (map_of payload ''event_id'')) res)
             (set_header ''Content-Type'' ''application/json'' r),
           snd (on_io (\<lambda>s. ((), enqueue_alert_evaluations w n (pr_signals res) (a_project auth) s)) sv))))))))"

datatype endpoint = Envelope_endpoint | Store_endpoint

definition ingest_endpoint ::
    "endpoint \<Rightarrow> codecs \<Rightarrow> err_texts \<Rightarrow> world \<Rightarrow> net \<Rightarrow> config \<Rightarrow> request \<Rightarrow> server \<Rightarrow> response \<times> server" where
  "ingest_endpoint ep cd et w n cfg rq sv =
     (let r = cors response0 in
      if rq_method rq = ''OPTIONS'' then (r\<lparr>rs_status := 204\<rparr>, sv)
      else case ep of
        Envelope_endpoint \<Rightarrow> handle_envelope cd et w n cfg rq r sv
      | Store_endpoint \<Rightarrow> handle_store cd et w n cfg rq r sv)"

end
