(* ===== verification/HttpIngestProps.thy ===== *)
theory HttpIngestProps
  imports HttpIngest SymbolicateProps
begin

section \<open>What the ingest endpoints guarantee\<close>

text \<open>
  A request that is refused leaves the site as it was; the jobs enqueued decode to the evaluations of the signals; the
  synthetic envelope of the legacy endpoint.
\<close>

subsection \<open>Refused requests\<close>

definition but_counters :: "site \<Rightarrow> site" where
  "but_counters d = d\<lparr>store := (store d)\<lparr>ingest_counters := []\<rparr>\<rparr>"

lemma resolve_key_site: "resolve_key w pid key sv = (a, sv') \<Longrightarrow> io_site (sv_io sv') = io_site (sv_io sv)"
  by (auto simp: resolve_key_def Let_def split: prod.splits)

lemma take_slot_site: "take_slot w limit pid s = (a, s') \<Longrightarrow> but_counters (io_site s') = but_counters (io_site s)"
  by (auto simp: take_slot_def check_limit_def auto_def count_slot_def but_counters_def Let_def
      split: prod.splits option.splits if_splits)

lemma process_refused: "process_envelope w env pid s = (Inl e, s') \<Longrightarrow> io_site s' = io_site s"
  by (auto simp: process_envelope_def process_def run_tx_def Let_def split: prod.splits sum.splits if_splits)

lemma status_simps [simp]: "rs_status (set_header k v r) = rs_status r" "rs_status (encode_json j r) = rs_status r"
  "rs_status (write_ingest_err code msg r) = code" "rs_status (cors r) = rs_status r"
  by (simp_all add: set_header_def encode_json_def write_ingest_err_def cors_def)

lemma body_status: "read_ingest_body cd et cfg rq r = Inl r' \<Longrightarrow> rs_status r' = 413 \<or> rs_status r' = 400"
  by (auto simp: read_ingest_body_def Let_def split: sum.splits if_splits)

definition answered :: "request \<Rightarrow> server \<Rightarrow> response \<times> server \<Rightarrow> bool" where
  "answered rq sv a \<longleftrightarrow> rs_status (fst a) \<in> {200, 204, 400, 403, 413, 429} \<and>
     (rs_status (fst a) \<noteq> 200 \<longrightarrow> but_counters (io_site (sv_io (snd a))) = but_counters (io_site (sv_io sv))) \<and>
     (rs_status (fst a) \<in> {204, 413, 403} \<longrightarrow> io_site (sv_io (snd a)) = io_site (sv_io sv))"

lemma answeredI:
  "rs_status rs = 200 \<Longrightarrow> answered rq sv (rs, sv')"
  "rs_status rs \<in> {413, 403, 204} \<Longrightarrow> io_site (sv_io sv') = io_site (sv_io sv) \<Longrightarrow> answered rq sv (rs, sv')"
  "rs_status rs \<in> {400, 429} \<Longrightarrow> but_counters (io_site (sv_io sv')) = but_counters (io_site (sv_io sv)) \<Longrightarrow> answered rq sv (rs, sv')"
  by (auto simp: answered_def)

lemma answered_body: "read_ingest_body cd et cfg rq r = Inl r' \<Longrightarrow> answered rq sv (r', sv)"
  using body_status[of cd et cfg rq r r'] by (auto intro: answeredI)

text \<open>The three parts that change the state, whatever is answered.\<close>

lemma answered_resolve:
  assumes "\<And>x. rs_status (forbidden x) = 403"
    "\<And>auth sv1. io_site (sv_io sv1) = io_site (sv_io sv) \<Longrightarrow> answered rq sv (next auth sv1)"
  shows "answered rq sv (case resolve_key w pid key sv of (Inl x, sv1) \<Rightarrow> (forbidden x, sv1) | (Inr auth, sv1) \<Rightarrow> next auth sv1)"
  using resolve_key_site[of w pid key sv] assms
  by (auto split: prod.split sum.split intro!: answeredI(2))

lemma answered_slot:
  assumes "io_site (sv_io sv1) = io_site (sv_io sv)" "\<And>ra rem. rs_status (refused ra rem) = 429"
    "\<And>sv2. but_counters (io_site (sv_io sv2)) = but_counters (io_site (sv_io sv)) \<Longrightarrow> answered rq sv (next sv2)"
  shows "answered rq sv (case on_io (take_slot w limit pid) sv1 of
     ((allowed, ra, rem), sv2) \<Rightarrow> if \<not> allowed then (refused ra rem, sv2) else next sv2)"
  using take_slot_site[of w limit pid "sv_io sv1"] assms
  by (auto simp: on_io_def split: prod.split intro!: answeredI(3) assms(3))

lemma answered_process:
  assumes "but_counters (io_site (sv_io sv2)) = but_counters (io_site (sv_io sv))" "\<And>e. rs_status (bad e) = 400"
    "\<And>res. rs_status (good res) = 200"
  shows "answered rq sv (case on_io (process_envelope w env pid) sv2 of
      (Inl e, sv3) \<Rightarrow> (bad e, sv3) | (Inr res, sv3) \<Rightarrow> (good res, f res sv3))"
proof -
  obtain x s3 where x: "process_envelope w env pid (sv_io sv2) = (x, s3)" by (cases "process_envelope w env pid (sv_io sv2)")
  show ?thesis
  proof (cases x)
    case (Inl e)
    then show ?thesis using process_refused[of w env pid "sv_io sv2"] x assms
      by (auto simp: on_io_def intro!: answeredI(3))
  next
    case (Inr res)
    then show ?thesis using x assms(3) by (simp add: on_io_def answeredI(1))
  qed
qed

lemma quota_status [simp]: "rs_status (add_quota_headers kvs r) = rs_status r"
proof -
  have "rs_status (fold (\<lambda>(k, v). set_header k v) kvs r) = rs_status r"
    by (induction kvs arbitrary: r) (auto simp: split_beta)
  then show ?thesis by (simp add: add_quota_headers_def)
qed

lemma answered_envelope: "rs_status r = 200 \<Longrightarrow> answered rq sv (handle_envelope cd et w n cfg rq r sv)"
proof (cases "read_ingest_body cd et cfg rq r")
  case (Inl r')
  then show ?thesis by (simp add: handle_envelope_def answered_body)
next
  case (Inr body)
  assume "rs_status r = 200"
  then show ?thesis
    unfolding handle_envelope_def Inr sum.case
    by (auto split: sum.split intro!: answeredI(3) answered_resolve answered_slot answered_process)
qed

lemma answered_store: "rs_status r = 200 \<Longrightarrow> answered rq sv (handle_store cd et w n cfg rq r sv)"
proof (cases "read_ingest_body cd et cfg rq r")
  case (Inl r')
  then show ?thesis by (simp add: handle_store_def answered_body)
next
  case (Inr body)
  assume "rs_status r = 200"
  then show ?thesis
    unfolding handle_store_def Inr sum.case
    by (auto split: sum.split option.split intro!: answeredI(3) answered_resolve answered_slot answered_process)
qed

text \<open>C34: An ingest request that is not answered with 200 stores nothing: whatever fails (the body, the
  framing, the key, the quota, one statement of one item), every table is as before, up to the counter of the
  quota, and no alert job is enqueued.  The other answers are 204, 400, 403, 413 and 429.\<close>

theorem refused_stores_nothing:
  "case ingest_endpoint ep cd et w n cfg rq sv of (rs, sv') \<Rightarrow>
     rs_status rs \<in> {200, 204, 400, 403, 413, 429} \<and>
     (rs_status rs \<noteq> 200 \<longrightarrow> but_counters (io_site (sv_io sv')) = but_counters (io_site (sv_io sv))) \<and>
     (rs_status rs \<in> {204, 413, 403} \<longrightarrow> io_site (sv_io sv') = io_site (sv_io sv))"
proof -
  have "rs_status (cors response0) = 200" by (simp add: response0_def)
  then have "answered rq sv (ingest_endpoint ep cd et w n cfg rq sv)"
    using answered_envelope[of "cors response0" rq sv] answered_store[of "cors response0" rq sv]
    by (auto simp: ingest_endpoint_def Let_def answered_def[of rq sv "(_, _)"] split: endpoint.split)
  then show ?thesis by (simp add: answered_def split_beta)
qed

subsection \<open>Alert jobs\<close>

definition evaluation_of :: "string \<Rightarrow> alert_signal \<Rightarrow> evaluate_payload" where
  "evaluation_of pid sg = \<lparr>ep_project = pid, ep_issue = sg_issue sg, ep_event = sg_event sg, ep_new = sg_new sg,
     ep_regression = sg_regression sg, ep_environment = sg_environment sg, ep_release = sg_release sg,
     ep_level = sg_level sg\<rparr>"

text \<open>The texts of a signal, and the signal as a reader of its JSON gets it: invalid UTF-8 is replaced on the way.\<close>

definition signal_texts :: "string \<Rightarrow> alert_signal \<Rightarrow> string list" where
  "signal_texts pid sg = [pid, sg_issue sg, sg_event sg, sg_environment sg, sg_release sg, sg_level sg]"

definition readable :: "alert_signal \<Rightarrow> alert_signal" where
  "readable sg = sg\<lparr>sg_issue := fix_utf8 (sg_issue sg), sg_event := fix_utf8 (sg_event sg),
     sg_environment := fix_utf8 (sg_environment sg), sg_release := fix_utf8 (sg_release sg), sg_level := fix_utf8 (sg_level sg)\<rparr>"

text \<open>The signals that get a job: a statement that fails loses its signal, and so does a zero byte, which \<open>jsonb\<close> rejects.\<close>

fun queued :: "world \<Rightarrow> string \<Rightarrow> nat \<Rightarrow> alert_signal list \<Rightarrow> alert_signal list" where
  "queued w pid k [] = []"
| "queued w pid k (sg # sgs) =
     (if w_fault w k \<or> list_ex (\<lambda>t. CHR 0x00 \<in> set t) (signal_texts pid sg) then queued w pid (Suc k) sgs
      else sg # queued w pid (Suc k) sgs)"

lemma signal_decodes: "dec_evaluate_payload (signal_payload pid sg) evaluate_payload0 = Some (evaluation_of pid sg)"
proof -
  define fs :: "evaluate_payload fields" where "fs =
     [(''project_id'', on ep_project ep_project_update dec_string), (''issue_id'', on ep_issue ep_issue_update dec_string),
      (''event_id'', on ep_event ep_event_update dec_string), (''is_new'', on ep_new ep_new_update dec_bool),
      (''is_regression'', on ep_regression ep_regression_update dec_bool),
      (''environment'', on ep_environment ep_environment_update dec_string),
      (''release'', on ep_release ep_release_update dec_string), (''level'', on ep_level ep_level_update dec_string)]"
  have d: "distinct (map (to_lower \<circ> fst) fs)"
    unfolding fs_def by (simp only: list.map fst_conv comp_def) code_simp
  have m: "map_of fs ''project_id'' = Some (on ep_project ep_project_update dec_string)"
    "map_of fs ''issue_id'' = Some (on ep_issue ep_issue_update dec_string)"
    "map_of fs ''event_id'' = Some (on ep_event ep_event_update dec_string)"
    "map_of fs ''is_new'' = Some (on ep_new ep_new_update dec_bool)"
    "map_of fs ''is_regression'' = Some (on ep_regression ep_regression_update dec_bool)"
    "map_of fs ''environment'' = Some (on ep_environment ep_environment_update dec_string)"
    "map_of fs ''release'' = Some (on ep_release ep_release_update dec_string)"
    "map_of fs ''level'' = Some (on ep_level ep_level_update dec_string)"
    by (simp_all add: fs_def)
  have e: "dec_evaluate_payload = dec_struct fs" unfolding dec_evaluate_payload_def fs_def ..
  show ?thesis
    unfolding e signal_payload_def dec_struct_def json.case
    by (simp add: dec_known(1)[OF d] m on_def dec_simple evaluate_payload0_def evaluation_of_def del: dec_fields.simps(2))
qed

lemma fix_ascii: "list_all (\<lambda>c. byte_nat c < 128) t \<Longrightarrow> fix_utf8 t = t"
proof -
  assume "list_all (\<lambda>c. byte_nat c < 128) t"
  then have "utf8_ok t" by (induction t) simp_all
  then show ?thesis by (rule fix_utf8_ok)
qed

lemma signal_printed:
  "json_parse (json_print (signal_payload pid sg)) = Some (signal_payload (fix_utf8 pid) (readable sg))"
proof -
  have "nums_ok (signal_payload pid sg)" by (simp add: signal_payload_def)
  from parse_printed[OF this] show ?thesis
    unfolding signal_payload_def readable_def by (simp add: fix_ascii byte_nat_def)
qed

lemma signal_nul: "has_nul (signal_payload (fix_utf8 pid) (readable sg)) \<longleftrightarrow> list_ex (\<lambda>t. CHR 0x00 \<in> set t) (signal_texts pid sg)"
  by (auto simp: signal_payload_def signal_texts_def readable_def nul_fix_utf8)

definition evaluation_job :: "world \<Rightarrow> string \<Rightarrow> alert_signal \<Rightarrow> int \<Rightarrow> job_row" where
  "evaluation_job w pid sg i = \<lparr>j_id = i, j_kind = job_kind_alert_evaluate, j_run_at = w_now w,
     j_payload = signal_payload (fix_utf8 pid) (readable sg), j_status = Pending, j_attempts = 0, j_max = 3, j_error = [], j_updated = w_now w\<rparr>"

fun numbered :: "world \<Rightarrow> string \<Rightarrow> alert_signal list \<Rightarrow> int \<Rightarrow> job_row list" where
  "numbered w pid [] i = []"
| "numbered w pid (sg # sgs) i = evaluation_job w pid sg i # numbered w pid sgs (i + 1)"

lemma enqueue_one: "enqueue_evaluation w n pid sg s = (Inr (), called s\<lparr>io_site :=
    (if w_fault w (io_calls s) \<or> list_ex (\<lambda>t. CHR 0x00 \<in> set t) (signal_texts pid sg) then io_site s
     else (io_site s)\<lparr>jobs := jobs (io_site s) @ [evaluation_job w pid sg (next_job (io_site s))], next_job := next_job (io_site s) + 1\<rparr>)\<rparr>)"
  by (auto simp: enqueue_evaluation_def bind_def attempt_def query_def q_enqueue_def signal_printed
      signal_nul ret_def evaluation_job_def job_kind_alert_evaluate_def called_def)

lemma enqueue_all: "io_site (enqueue_alert_evaluations w n sgs pid s) = (let new = queued w pid (io_calls s) sgs in
    (io_site s)\<lparr>jobs := jobs (io_site s) @ numbered w pid new (next_job (io_site s)), next_job := next_job (io_site s) + int (length new)\<rparr>)"
proof (induction sgs arbitrary: s)
  case (Cons sg sgs)
  then show ?case
    by (simp add: enqueue_alert_evaluations_def bind_total enqueue_one Let_def called_def)
qed (simp add: enqueue_alert_evaluations_def ret_def)

lemma numbered_jobs: "list_all2 (\<lambda>sg j. j_kind j = job_kind_alert_evaluate \<and> due (w_now w) j \<and>
    j_payload j = signal_payload (fix_utf8 pid) (readable sg)) sgs (numbered w pid sgs i)"
  by (induction sgs arbitrary: i) (auto simp: evaluation_job_def due_def)

lemma length_numbered: "length (numbered w pid sgs i) = length sgs"
  by (induction sgs arbitrary: i) simp_all

text \<open>C35: Which alert signals reach the worker, and as what, whatever the faults and whatever bytes the texts hold.  The signals handed
  to \<open>enqueueAlertEvaluations\<close> become jobs in their order, with new ids and due at once, and nothing else of the site changes;
  a signal has no job exactly when its INSERT fails or one of its texts has a zero byte (\<open>queued\<close>): the code only logs that, so the
  alert is lost.  Whenever and wherever a job runs later, the handler the server registers for its kind runs exactly the evaluation of its
  signal (project, issue, event, whether it is new or a regression, environment, release and level), with
  invalid UTF-8 in the texts replaced (\<open>readable\<close>), and texts of valid UTF-8 as they are.\<close>

theorem signals_reach_worker:
  "\<exists>new. io_site (enqueue_alert_evaluations w n sgs pid s) = (io_site s)\<lparr>jobs := jobs (io_site s) @ new,
      next_job := next_job (io_site s) + int (length new)\<rparr> \<and>
    list_all2 (\<lambda>sg j. due (w_now w) j \<and> (\<exists>h. serve_registry cfg pc json_err (j_kind j) = Some h \<and>
      (\<forall>w' n'. h w' n' (j_payload j) = evaluate_and_deliver w' n' cfg (evaluation_of (fix_utf8 pid) (readable sg)))))
      (queued w pid (io_calls s) sgs) new \<and>
    (list_all utf8_ok (signal_texts pid one) \<longrightarrow> fix_utf8 pid = pid \<and> readable one = one)"
proof (intro exI conjI)
  let ?q = "queued w pid (io_calls s) sgs" and ?new = "numbered w pid (queued w pid (io_calls s) sgs) (next_job (io_site s))"
  show "io_site (enqueue_alert_evaluations w n sgs pid s) = (io_site s)\<lparr>
      jobs := jobs (io_site s) @ ?new, next_job := next_job (io_site s) + int (length ?new)\<rparr>"
    by (simp add: enqueue_all Let_def length_numbered)
  show "list_all2 (\<lambda>sg j. due (w_now w) j \<and> (\<exists>h. serve_registry cfg pc json_err (j_kind j) = Some h \<and>
      (\<forall>w' n'. h w' n' (j_payload j) = evaluate_and_deliver w' n' cfg (evaluation_of (fix_utf8 pid) (readable sg))))) ?q ?new"
    using numbered_jobs[of w pid ?q "next_job (io_site s)"]
    by (rule list_all2_mono) (auto simp: serve_registry_def register_def handle_alert_evaluate_def signal_decodes)
  show "list_all utf8_ok (signal_texts pid one) \<longrightarrow> fix_utf8 pid = pid \<and> readable one = one"
    by (simp add: signal_texts_def readable_def fix_utf8_ok)
qed

subsection \<open>The legacy endpoint\<close>

lemma u_escape_no_nl: "r < 65536 \<Longrightarrow> nl \<notin> set (u_escape r)"
proof -
  assume r: "r < 65536"
  have h: "nl \<noteq> hex_nibble n" if "n < 16" for n
  proof -
    have "list_all (\<lambda>n. nl \<noteq> hex_nibble n) [0..<16]" by code_simp
    then show ?thesis using that by (simp only: list_all_iff) simp
  qed
  have "r div 4096 < 16" using r by (simp add: less_mult_imp_div_less)
  then show ?thesis
    using h[of "r div 4096"] h[of "r div 256 mod 16"] h[of "r div 16 mod 16"] h[of "r mod 16"] by (simp add: u_escape_def)
qed

lemma of_char_less_256: "byte_nat c < 256"
  by (simp add: byte_nat_def)

lemma escape_no_nl: "nl \<notin> set (escape_char c)"
proof -
  have "byte_nat c < 65536" using of_char_less_256[of c] by simp
  from u_escape_no_nl[OF this] show ?thesis by (simp add: escape_char_def)
qed

lemma print_body_no_nl: "nl \<notin> set (print_body s)"
proof (induction s rule: print_body.induct)
  case (1 s)
  have u: "nl \<notin> set (u_escape 65533)" "nl \<notin> set (u_escape 8232)" "nl \<notin> set (u_escape 8233)"
    by (simp_all add: u_escape_no_nl)
  show ?case
  proof (cases "s = []")
    case False
    note ne = this
    show ?thesis
    proof (cases "byte_nat (hd s) < 128")
      case True
      then show ?thesis using 1 ne escape_no_nl by (subst print_body.simps) simp
    next
      case False
      have "nl \<notin> set (take (rune_width s) s)" if "rune_width s \<noteq> 0"
        using rune_bytes[of s] False that by (auto simp: byte_nat_def)
      then show ?thesis using 1 ne False u by (subst print_body.simps) (auto simp: Let_def)
    qed
  qed (subst print_body.simps, simp)
qed

text \<open>C36: The legacy endpoint wraps an event into an envelope with its id and the unchanged body as one event
  item, for every body on one line.\<close>

theorem store_wraps:
  assumes "nl \<notin> set body" "event_id = None \<and> i = [] \<or> event_id = Some (JStr i) \<and> utf8_ok i"
  shows "\<exists>env. parse_envelope (store_envelope event_id body) = Inr env \<and> h_event_id (e_header env) = i \<and>
    e_items env = [\<lparr>it_header = item_header0\<lparr>ih_type := ''event''\<rparr>, it_payload = body\<rparr>]"
proof -
  let ?v = "JObj [(''event_id'', case event_id of None \<Rightarrow> JNull | Some v \<Rightarrow> v)]"
  let ?hl = "[CHR ''{'', CHR 0x22] @ ''type'' @ [CHR 0x22, CHR '':'', CHR 0x22] @ ''event'' @ [CHR 0x22, CHR ''}'']"
  have ok: "json_ok ?v" using assms(2) by (auto simp: byte_nat_def)
  have line: "nl \<notin> set (json_print ?v)" "json_print ?v \<noteq> []"
    using assms(2) by (auto simp: print_string_def print_body_no_nl)
  have hd: "unmarshal dec_header header0 (json_print ?v) = Some (header0\<lparr>h_event_id := i\<rparr>)"
    unfolding unmarshal_print[OF ok] dec_header_def dec_struct_def json.case
    using assms(2) by (auto simp: on_def dec_string_def header0_def equal_fold_def)
  have hl: "nl \<notin> set ?hl" "?hl \<noteq> []" "unmarshal dec_item_header item_header0 ?hl = Some (item_header0\<lparr>ih_type := ''event''\<rparr>)"
    by code_simp+
  have done_items: "parse_items [] items = Inr items" for items by (subst parse_items.simps) simp
  have "parse_items (?hl @ nl # body) [] = Inr [\<lparr>it_header = item_header0\<lparr>ih_type := ''event''\<rparr>, it_payload = body\<rparr>]"
    using hl next_line_append[OF hl(1), of body] next_line_none[OF assms(1)]
    by (subst parse_items.simps) (simp add: max_envelope_items_def Let_def take_payload_def item_header0_def done_items del: append.simps)
  then show ?thesis
    using line hd next_line_append[OF line(1), of "?hl @ nl # body"]
    by (simp add: parse_envelope_def store_envelope_def Let_def)
qed

text \<open>A body with a line break is cut there, and the rest read as the header of an item: an event in pretty
  printed JSON is refused.\<close>

lemma store_cuts_lines: "parse_envelope (store_envelope None [CHR ''{'', nl, CHR ''}'']) = Inl Env_item_header \<and>
    unmarshal (dec_map JNull (\<lambda>v _. Some v)) [] [CHR ''{'', nl, CHR ''}''] = Some []"
  by code_simp

subsection \<open>Examples\<close>

definition some_signal :: alert_signal where
  "some_signal = \<lparr>sg_issue = ''i'', sg_event = ''e'', sg_new = True, sg_regression = False,
     sg_environment = ''a<b'', sg_release = [], sg_level = ''error''\<rparr>"

definition some_codecs :: codecs where
  "some_codecs = \<lparr>c_gzip = Some, c_zlib = (\<lambda>_. None), c_flate = (\<lambda>b. \<lparr>st_bytes = b, st_err = False\<rparr>), c_brotli = id, c_zstd = Some\<rparr>"

definition some_texts :: err_texts where
  "some_texts = \<lparr>et_body = (\<lambda>_. ''body''), et_envelope = (\<lambda>_. ''envelope''), et_store = (\<lambda>_. ''store''), et_json = (\<lambda>_. ''json'')\<rparr>"

definition huge_request :: request where
  "huge_request = \<lparr>rq_method = ''POST'', rq_path = [], rq_query = [], rq_form = [], rq_headers = [], rq_cookies = [],
     rq_length = 2 ^ 40, rq_body = \<lparr>st_bytes = [], st_err = False\<rparr>\<rparr>"

definition some_server :: server where "some_server = \<lparr>sv_cache = new_auth_cache, sv_io = seen_io\<rparr>"

lemma load_max_bytes: "cf_max_event_bytes (load_config (\<lambda>_. [])) = 20 * 2 ^ 20"
  by (simp add: load_config_def get_env_int_def get_env_def wrap64_id in_int64_def)

theorem refused_stores_nothing_witness:
  "rs_status (fst (ingest_endpoint Envelope_endpoint some_codecs some_texts (witness_world 0) witness_net
      (load_config (\<lambda>_. [])) huge_request some_server)) = 413 \<and>
   io_site (sv_io (snd (ingest_endpoint Envelope_endpoint some_codecs some_texts (witness_world 0) witness_net
      (load_config (\<lambda>_. [])) huge_request some_server))) = io_site seen_io"
proof -
  have "rs_status (fst (ingest_endpoint Envelope_endpoint some_codecs some_texts (witness_world 0) witness_net
      (load_config (\<lambda>_. [])) huge_request some_server)) = 413"
    by (simp add: ingest_endpoint_def handle_envelope_def read_ingest_body_def huge_request_def load_max_bytes)
  then show ?thesis
    using refused_stores_nothing[where ep = Envelope_endpoint and cd = some_codecs and et = some_texts and
      w = "witness_world 0" and n = witness_net and cfg = "load_config (\<lambda>_. [])" and rq = huge_request and sv = some_server]
    by (simp add: split_beta some_server_def)
qed

theorem signals_reach_worker_witness:
  "readable some_signal = some_signal \<and> (\<exists>new. length new = 1 \<and>
    io_site (enqueue_alert_evaluations (witness_world 0) witness_net [some_signal] ''p'' seen_io) = (io_site seen_io)\<lparr>jobs := new, next_job := 2\<rparr> \<and>
    list_all2 (\<lambda>sg j. due 0 j \<and> (\<exists>h. serve_registry (load_config (\<lambda>_. [])) (\<lambda>_ _. (0, 0)) (\<lambda>_. []) (j_kind j) = Some h \<and>
      (\<forall>w' n'. h w' n' (j_payload j) =
        evaluate_and_deliver w' n' (load_config (\<lambda>_. [])) (evaluation_of (fix_utf8 ''p'') (readable sg))))) [some_signal] new)"
proof -
  have q: "queued (witness_world 0) ''p'' (io_calls seen_io) [some_signal] = [some_signal]"
    by (simp add: witness_world_def signal_texts_def some_signal_def)
  have u: "list_all utf8_ok (signal_texts ''p'' some_signal)" by code_simp
  have "jobs (io_site seen_io) = []" "next_job (io_site seen_io) = 1" "w_now (witness_world 0) = 0"
    by (simp_all add: seen_io_def site_of_def witness_world_def)
  then show ?thesis
    using signals_reach_worker[where w = "witness_world 0" and n = witness_net and sgs = "[some_signal]" and pid = "''p''" and s = seen_io
        and cfg = "load_config (\<lambda>_. [])" and pc = "\<lambda>_ _. (0, 0)" and json_err = "\<lambda>_. []" and one = some_signal]
    unfolding q using u by (fastforce dest: list_all2_lengthD)
qed

theorem store_wraps_witness:
  "\<exists>env. parse_envelope (store_envelope (Some (JStr ''abc'')) ''{}'') = Inr env \<and> h_event_id (e_header env) = ''abc'' \<and>
    e_items env = [\<lparr>it_header = item_header0\<lparr>ih_type := ''event''\<rparr>, it_payload = ''{}''\<rparr>]"
  by (rule store_wraps) (simp_all add: byte_nat_def)

end
