(* ===== verification/Auth.thy ===== *)
theory Auth
  imports Http Sha256 Config
begin

section \<open>Tokens, passwords and sessions (internal/auth)\<close>

text \<open>
  \<open>tokens.go\<close>, \<open>password.go\<close> and \<open>session.go\<close>.  \<open>app\<close> gathers what the handlers get from outside the
  repository: random bytes (the n-th draw, or an error), Argon2, the HTML of a page, the server's text of a
  timestamp and its order of texts and the text of a JSON error.  \<open>fmt.Sscanf\<close> and unpadded base64 are defined here as the
  program uses them.  Argon2 panics on zero rounds or threads, which only a foreign hash can ask for.
\<close>

datatype page_data = Page_data (pd_title: string) (pd_error: string) (pd_notice: string) (pd_data: "(string \<times> json) list")

record app =
  ap_cfg :: config
  ap_version :: string
  ap_rand :: "nat \<Rightarrow> nat \<Rightarrow> string option"      \<comment> \<open>draw, number of bytes\<close>
  ap_argon :: "string \<Rightarrow> string \<Rightarrow> nat \<Rightarrow> nat \<Rightarrow> nat \<Rightarrow> nat \<Rightarrow> string"
  ap_argon_version :: nat
  ap_page :: "string \<Rightarrow> page_data \<Rightarrow> string"
  ap_time_text :: "time \<Rightarrow> string"
  ap_collate :: "string \<Rightarrow> string \<Rightarrow> bool"     \<comment> \<open>the order of texts in the server\<close>
  ap_json_err :: "string \<Rightarrow> string"

subsection \<open>Randomness\<close>

definition next_serial :: "io \<Rightarrow> nat \<times> io" where
  "next_serial s = (let d = store (io_site s) in
     (serial d, s\<lparr>io_site := (io_site s)\<lparr>store := d\<lparr>serial := Suc (serial d)\<rparr>\<rparr>\<rparr>))"

definition rand_error :: string where "rand_error = ''rand''"

definition draw :: "app \<Rightarrow> nat \<Rightarrow> string iom" where
  "draw ap k s = (case next_serial s of (i, s') \<Rightarrow>
     (case ap_rand ap i k of None \<Rightarrow> (Inl rand_error, s') | Some b \<Rightarrow> (Inr b, s')))"

text \<open>\<open>uuid.NewString\<close>.\<close>

definition new_uuid :: "world \<Rightarrow> (io, 'e, uuid) sm" where
  "new_uuid w s = (case next_serial s of (i, s') \<Rightarrow> (Inr (w_fresh w i), s'))"

subsection \<open>Tokens\<close>

definition new_token :: "app \<Rightarrow> string iom" where
  "new_token ap = bind (draw ap 32) (\<lambda>b. ret (hex_encode b))"

definition hash_token :: "string \<Rightarrow> string" where "hash_token token = sha256_hex token"

definition api_prefix :: string where "api_prefix = ''bghan_''"

definition new_api_token :: "app \<Rightarrow> (string \<times> string) iom" where
  "new_api_token ap = bind (draw ap 24) (\<lambda>b.
     let full = api_prefix @ hex_encode b in ret (full, take (length api_prefix + 6) full))"

definition is_hex :: "string \<Rightarrow> bool" where
  "is_hex s \<longleftrightarrow> list_all (\<lambda>c. is_digit c \<or> 97 \<le> byte_nat c \<and> byte_nat c \<le> 102) s"

definition valid_api_token_shape :: "string \<Rightarrow> bool" where
  "valid_api_token_shape token =
     (if \<not> has_prefix token api_prefix then False
      else let rest = trim_prefix token api_prefix in length rest = 48 \<and> is_hex rest)"

definition slug_step :: "char \<Rightarrow> string \<times> bool \<Rightarrow> string \<times> bool" where
  "slug_step r st = (case st of (b, last_hyphen) \<Rightarrow>
     if is_lower_c r \<or> is_digit r then (b @ [r], False)
     else if r \<in> set '' -_.'' then if last_hyphen then (b, True) else (b @ ''-'', True)
     else (b, last_hyphen))"

definition slugify :: "string \<Rightarrow> string" where
  "slugify name =
     (let b = fst (fold slug_step (to_lower (trim_space name)) ([], True));
          out = trim_right (\<lambda>c. c = CHR ''-'') (trim_left (\<lambda>c. c = CHR ''-'') b)
      in if out = [] then ''item'' else out)"

subsection \<open>Base64 without padding\<close>

definition b64_alphabet :: string where
  "b64_alphabet = ''ABCDEFGHIJKLMNOPQRSTUVWXYZabcdefghijklmnopqrstuvwxyz0123456789+/''"

definition b64_char :: "nat \<Rightarrow> char" where "b64_char n = b64_alphabet ! (n mod 64)"

fun b64_encode :: "string \<Rightarrow> string" where
  "b64_encode (a # b # c # s) =
     (let v = (byte_nat a * 256 + byte_nat b) * 256 + byte_nat c in
      b64_char (v div 262144) # b64_char (v div 4096) # b64_char (v div 64) # b64_char v # b64_encode s)"
| "b64_encode [a, b] =
     (let v = (byte_nat a * 256 + byte_nat b) * 4 in [b64_char (v div 4096), b64_char (v div 64), b64_char v])"
| "b64_encode [a] = (let v = byte_nat a * 16 in [b64_char (v div 64), b64_char v])"
| "b64_encode [] = []"

text \<open>The value of a character; line breaks are skipped by the decoder.\<close>

definition b64_val :: "char \<Rightarrow> nat option" where
  "b64_val c = (let i = length (takeWhile (\<lambda>x. x \<noteq> c) b64_alphabet) in if i < 64 then Some i else None)"

fun b64_bytes :: "nat list \<Rightarrow> string option" where
  "b64_bytes (a # b # c # d # vs) =
     (let v = ((a * 64 + b) * 64 + c) * 64 + d in
      map_option (\<lambda>t. char_of (v div 65536) # char_of (v div 256 mod 256) # char_of (v mod 256) # t) (b64_bytes vs))"
| "b64_bytes [a, b, c] =
     (let v = ((a * 64 + b) * 64 + c) div 4 in Some [char_of (v div 256), char_of (v mod 256)])"
| "b64_bytes [a, b] = Some [char_of ((a * 64 + b) div 16)]"
| "b64_bytes [a] = None"
| "b64_bytes [] = Some []"

fun all_some :: "'a option list \<Rightarrow> 'a list option" where
  "all_some [] = Some []"
| "all_some (x # xs) = (case x of None \<Rightarrow> None | Some a \<Rightarrow> map_option ((#) a) (all_some xs))"

definition b64_decode :: "string \<Rightarrow> string option" where
  "b64_decode s =
     (case all_some (map b64_val (filter (\<lambda>c. c \<noteq> nl \<and> c \<noteq> CHR 0x0D) s)) of
        None \<Rightarrow> None | Some vs \<Rightarrow> b64_bytes vs)"

subsection \<open>Scanning numbers\<close>

text \<open>\<open>%d\<close> of \<open>Sscanf\<close>: blanks are skipped, a line break is an error, the rest of the text stays.\<close>

definition scan_blanks :: "string \<Rightarrow> string option" where
  "scan_blanks s = (let t = dropWhile (\<lambda>c. is_space_c c \<and> c \<noteq> nl) s in if t \<noteq> [] \<and> hd t = nl then None else Some t)"

definition scan_uint :: "nat \<Rightarrow> string \<Rightarrow> (nat \<times> string) option" where
  "scan_uint bits s =
     (case scan_blanks s of
        None \<Rightarrow> None
      | Some t \<Rightarrow> (case span_digits t of (ds, r) \<Rightarrow>
          let n = nat (digits_val 0 ds) in if ds = [] \<or> 2 ^ bits \<le> n then None else Some (n, r)))"

definition scan_int :: "string \<Rightarrow> (int \<times> string) option" where
  "scan_int s =
     (case scan_blanks s of
        None \<Rightarrow> None
      | Some t \<Rightarrow>
          let neg = has_prefix t ''-''; t = (if neg \<or> has_prefix t ''+'' then tl t else t) in
          (case span_digits t of (ds, r) \<Rightarrow>
             let n = (if neg then - digits_val 0 ds else digits_val 0 ds)
             in if ds = [] \<or> \<not> in_int64 n then None else Some (n, r)))"

definition scan_lit :: "string \<Rightarrow> string \<Rightarrow> string option" where
  "scan_lit p s = (if has_prefix s p then Some (drop (length p) s) else None)"

definition scan_version :: "string \<Rightarrow> int option" where
  "scan_version s = (case scan_lit ''v='' s of None \<Rightarrow> None | Some t \<Rightarrow> map_option fst (scan_int t))"

definition scan_costs :: "string \<Rightarrow> (nat \<times> nat \<times> nat) option" where
  "scan_costs s =
     (case scan_lit ''m='' s of None \<Rightarrow> None | Some s \<Rightarrow>
     (case scan_uint 32 s of None \<Rightarrow> None | Some (m, s) \<Rightarrow>
     (case scan_lit '',t='' s of None \<Rightarrow> None | Some s \<Rightarrow>
     (case scan_uint 32 s of None \<Rightarrow> None | Some (t, s) \<Rightarrow>
     (case scan_lit '',p='' s of None \<Rightarrow> None | Some s \<Rightarrow>
     (case scan_uint 8 s of None \<Rightarrow> None | Some (p, s) \<Rightarrow> Some (m, t, p)))))))"

subsection \<open>Passwords\<close>

definition argon_time :: nat where "argon_time = 1"
definition argon_memory :: nat where "argon_memory = 64 * 1024"
definition argon_threads :: nat where "argon_threads = 2"
definition argon_key_len :: nat where "argon_key_len = 32"
definition argon_salt_len :: nat where "argon_salt_len = 16"

definition costs_text :: string where
  "costs_text = ''m='' @ show_nat argon_memory @ '',t='' @ show_nat argon_time @ '',p='' @ show_nat argon_threads"

definition phc_text :: "nat \<Rightarrow> string \<Rightarrow> string \<Rightarrow> string" where
  "phc_text version salt key =
     ''$argon2id$v='' @ show_nat version @ ''$'' @ costs_text @ ''$'' @ b64_encode salt @ ''$'' @ b64_encode key"

definition hash_password :: "app \<Rightarrow> string \<Rightarrow> string iom" where
  "hash_password ap pw = bind (draw ap argon_salt_len) (\<lambda>salt.
     ret (phc_text (ap_argon_version ap) salt (ap_argon ap pw salt argon_time argon_memory argon_threads argon_key_len)))"

text \<open>\<open>None\<close> is an error.\<close>

definition verify_password :: "app \<Rightarrow> string \<Rightarrow> string \<Rightarrow> bool option" where
  "verify_password ap pw encoded =
     (let parts = split_on (CHR ''$'') encoded in
      if length parts \<noteq> 6 \<or> parts ! 1 \<noteq> ''argon2id'' then None
      else
     (case scan_version (parts ! 2) of None \<Rightarrow> None | Some _ \<Rightarrow>
     (case scan_costs (parts ! 3) of None \<Rightarrow> None | Some (memory, time, threads) \<Rightarrow>
     (case b64_decode (parts ! 4) of None \<Rightarrow> None | Some salt \<Rightarrow>
     (case b64_decode (parts ! 5) of None \<Rightarrow> None | Some key \<Rightarrow>
        Some (ap_argon ap pw salt time memory threads (length key) = key))))))"

subsection \<open>Sessions\<close>

definition session_cookie :: string where "session_cookie = ''bughan_session''"
definition session_ttl :: duration where "session_ttl = 14 * 24 * hour"
definition sliding_window :: duration where "sliding_window = 24 * hour"

definition cookie_of :: "request \<Rightarrow> string" where "cookie_of rq = get_val (rq_cookies rq) session_cookie"

text \<open>\<open>http.SetCookie\<close> adds a header; a negative age is printed as 0.\<close>

definition set_session_cookie :: "string \<Rightarrow> bool \<Rightarrow> int \<Rightarrow> response \<Rightarrow> response" where
  "set_session_cookie v secure age r = r\<lparr>rs_headers := rs_headers r @ [(''Set-Cookie'',
     session_cookie @ ''='' @ v @ ''; Path=/; Max-Age='' @ show_int (max 0 age) @ ''; HttpOnly'' @
     (if secure then ''; Secure'' else []) @ ''; SameSite=Lax'')]\<rparr>"

definition q_create_session :: "world \<Rightarrow> string \<Rightarrow> uuid \<Rightarrow> unit query" where
  "q_create_session w h uid d =
     (let u = w_fresh w (serial (store d)); d = d\<lparr>store := (store d)\<lparr>serial := Suc (serial (store d))\<rparr>\<rparr> in
      if \<not> list_ex (\<lambda>r. us_id r = uid) (users d) \<or> list_ex (\<lambda>r. ss_id r = u \<or> ss_token r = h) (auth_sessions d) then None
      else Some ((), d\<lparr>auth_sessions := auth_sessions d @ [\<lparr>ss_id = u, ss_user = uid, ss_token = h,
             ss_expires = pg_time (w_now w + session_ttl), ss_seen = w_now w\<rparr>]\<rparr>))"

definition create_session :: "app \<Rightarrow> world \<Rightarrow> net \<Rightarrow> string \<Rightarrow> bool \<Rightarrow> response \<Rightarrow> response iom" where
  "create_session ap w n uid secure r =
     bind (new_token ap) (\<lambda>raw.
     bind (query w n (with_uuid w uid (q_create_session w (hash_token raw)))) (\<lambda>_.
     ret (set_session_cookie raw secure (session_ttl div second) r)))"

definition q_session_user :: "world \<Rightarrow> string \<Rightarrow> site \<Rightarrow> (uuid \<times> time) option" where
  "q_session_user w h d =
     map_option (\<lambda>r. (ss_user r, ss_expires r)) (find (\<lambda>r. ss_token r = h \<and> w_now w < ss_expires r) (auth_sessions d))"

definition q_slide :: "world \<Rightarrow> string \<Rightarrow> unit query" where
  "q_slide w h d = Some ((), d\<lparr>auth_sessions := update_where (\<lambda>r. ss_token r = h)
     (\<lambda>r. r\<lparr>ss_expires := pg_time (w_now w + session_ttl), ss_seen := w_now w\<rparr>) (auth_sessions d)\<rparr>)"

text \<open>The user of the cookie, or the empty string; only the row slides, the cookie keeps its age.\<close>

definition session_user :: "world \<Rightarrow> net \<Rightarrow> request \<Rightarrow> (io, 'e, string) sm" where
  "session_user w n rq =
     (if cookie_of rq = [] then ret []
      else let h = hash_token (cookie_of rq) in
     bind (attempt (query_row w n (select (q_session_user w h)))) (\<lambda>row. case row of
       None \<Rightarrow> ret []
     | Some (uid, expires) \<Rightarrow>
         if expires - w_now w < sliding_window then bind (attempt (query w n (q_slide w h))) (\<lambda>_. ret uid)
         else ret uid))"

definition q_destroy :: "string \<Rightarrow> unit query" where
  "q_destroy h d = Some ((), d\<lparr>auth_sessions := delete_where (\<lambda>r. ss_token r = h) (auth_sessions d)\<rparr>)"

definition destroy_session :: "world \<Rightarrow> net \<Rightarrow> request \<Rightarrow> response \<Rightarrow> (io, 'e, response) sm" where
  "destroy_session w n rq r =
     bind (if cookie_of rq = [] then ret None else attempt (query w n (q_destroy (hash_token (cookie_of rq))))) (\<lambda>_.
     ret (set_session_cookie [] False (- 1) r))"

end
