(* ===== verification/Principal.thy ===== *)
theory Principal
  imports Auth
begin

section \<open>Who makes a request, and what it may do (internal/httpapi/middleware.go)\<close>

text \<open>
  A handler is a computation that ends with a response, or is cut short by one: \<open>Answer\<close> is a response
  written before an early return, \<open>Crash\<close> a panic (the server drops the connection).  The principal
  travels in the context: the user with its roles, the CSRF token of a cookie session (empty for API
  tokens) and the scope of an API token.
\<close>

datatype abort = Answer response | Crash

type_synonym 'a act = "(io, abort, 'a) sm"

record user =
  u_id :: uuid
  u_email :: string
  u_name :: string
  u_roles :: "(string \<times> string) list"

record ctx =
  cx_user :: "user option"
  cx_csrf :: string
  cx_scope :: string

definition anonymous :: ctx where "anonymous = \<lparr>cx_user = None, cx_csrf = [], cx_scope = []\<rparr>"

type_synonym hand = "ctx \<Rightarrow> request \<Rightarrow> response act"

text \<open>\<open>if err != nil { respond; return }\<close>, and the end of the request.\<close>

definition or_answer :: "(string \<Rightarrow> response) \<Rightarrow> 'a iom \<Rightarrow> 'a act" where
  "or_answer f m s = (case m s of (Inl e, s') \<Rightarrow> (Inl (Answer (f e)), s') | (Inr a, s') \<Rightarrow> (Inr a, s'))"

definition server_error :: "string \<Rightarrow> response" where "server_error e = write_err 500 e response0"

definition deny :: "int \<Rightarrow> string \<Rightarrow> 'a act" where "deny code msg = fail (Answer (write_err code msg response0))"

definition finish :: "response act \<Rightarrow> io \<Rightarrow> response option \<times> io" where
  "finish h s = (case h s of (Inl (Answer r), s') \<Rightarrow> (Some r, s') | (Inl Crash, s') \<Rightarrow> (None, s') | (Inr r, s') \<Rightarrow> (Some r, s'))"

subsection \<open>The principal\<close>

record member_row =
  m_id :: uuid
  m_email :: string
  m_name :: string
  m_org :: string
  m_role :: string
  m_slug :: string

text \<open>A user joined with its memberships and their organizations: one row at least.\<close>

definition principal_rows :: "uuid \<Rightarrow> site \<Rightarrow> member_row list" where
  "principal_rows uid d =
     concat (map (\<lambda>u.
       let ms = filter (\<lambda>m. mb_user m = us_id u) (memberships d) in
       if ms = [] then [\<lparr>m_id = us_id u, m_email = us_email u, m_name = us_name u, m_org = [], m_role = [], m_slug = []\<rparr>]
       else map (\<lambda>m. \<lparr>m_id = us_id u, m_email = us_email u, m_name = us_name u, m_org = mb_org m, m_role = mb_role m,
              m_slug = (case get_key o_id (mb_org m) (orgs d) of None \<Rightarrow> [] | Some og \<Rightarrow> o_slug og)\<rparr>) ms)
       (filter (\<lambda>u. us_id u = uid) (users d)))"

definition add_role :: "member_row \<Rightarrow> user \<Rightarrow> user" where
  "add_role m u = (if m_org m = [] then u
     else u\<lparr>u_roles := alist_put (m_slug m) (m_role m) (alist_put (m_org m) (m_role m) (u_roles u))\<rparr>)"

fun scan_member_rows :: "member_row list \<Rightarrow> user option" where
  "scan_member_rows [] = None"
| "scan_member_rows (m # ms) =
     Some (fold add_role (m # ms) \<lparr>u_id = m_id m, u_email = m_email m, u_name = m_name m, u_roles = []\<rparr>)"

definition q_csrf :: "string \<Rightarrow> site \<Rightarrow> uuid option" where
  "q_csrf h d = map_option ss_id (find (\<lambda>r. ss_token r = h) (auth_sessions d))"

definition user_for_session :: "world \<Rightarrow> net \<Rightarrow> request \<Rightarrow> string \<Rightarrow> (io, 'e, (user \<times> string) option) sm" where
  "user_for_session w n rq uid =
     bind (attempt (query w n (with_uuid w uid (\<lambda>u. select (principal_rows u))))) (\<lambda>rows. case rows of
       None \<Rightarrow> ret None
     | Some rows \<Rightarrow> (case scan_member_rows rows of
         None \<Rightarrow> ret None
       | Some u \<Rightarrow>
           bind (attempt (query_row w n (select (q_csrf (hash_token (cookie_of rq)))))) (\<lambda>csrf.
           ret (Some (u, case csrf of None \<Rightarrow> [] | Some c \<Rightarrow> c)))))"

definition q_token_user :: "string \<Rightarrow> site \<Rightarrow> (member_row list \<times> string)" where
  "q_token_user h d =
     (case find (\<lambda>t. tk_token t = h \<and> \<not> tk_revoked t) (api_tokens d) of
        None \<Rightarrow> ([], []) | Some t \<Rightarrow> (principal_rows (tk_user t) d, tk_scope t))"

definition q_touch_token :: "world \<Rightarrow> string \<Rightarrow> unit query" where
  "q_touch_token w h d = Some ((), d\<lparr>api_tokens := update_where
     (\<lambda>t. tk_token t = h \<and> (case tk_used t of None \<Rightarrow> True | Some u \<Rightarrow> u < w_now w - minute))
     (\<lambda>t. t\<lparr>tk_used := Some (w_now w)\<rparr>) (api_tokens d)\<rparr>)"

definition user_for_token :: "world \<Rightarrow> net \<Rightarrow> string \<Rightarrow> (io, 'e, (user \<times> string) option) sm" where
  "user_for_token w n token =
     bind (attempt (query w n (select (q_token_user (hash_token token))))) (\<lambda>r. case r of
       None \<Rightarrow> ret None
     | Some (rows, scope) \<Rightarrow> (case scan_member_rows rows of
         None \<Rightarrow> ret None
       | Some u \<Rightarrow> bind (attempt (query w n (q_touch_token w (hash_token token)))) (\<lambda>_. ret (Some (u, scope)))))"

definition bearer :: string where "bearer = ''Bearer ''"

definition bad_token :: response where
  "bad_token = write_err 401 ''invalid or revoked API token''
     (set_header ''WWW-Authenticate'' (''Bearer realm='' @ [CHR 0x22] @ ''bughan'' @ [CHR 0x22]) response0)"

definition load_principal :: "world \<Rightarrow> net \<Rightarrow> (ctx \<Rightarrow> response act) \<Rightarrow> request \<Rightarrow> response act" where
  "load_principal w n inner rq =
     (let authz = get_val (rq_headers rq) ''Authorization'' in
      if has_prefix authz bearer then
        let token = trim_space (trim_prefix authz bearer) in
        bind (if valid_api_token_shape token then user_for_token w n token else ret None) (\<lambda>p. case p of
          None \<Rightarrow> fail (Answer bad_token)
        | Some (u, scope) \<Rightarrow> inner \<lparr>cx_user = Some u, cx_csrf = [], cx_scope = scope\<rparr>)
      else
        bind (session_user w n rq) (\<lambda>uid.
        if uid = [] then inner anonymous
        else bind (user_for_session w n rq uid) (\<lambda>p. case p of
          None \<Rightarrow> inner anonymous
        | Some (u, csrf) \<Rightarrow> inner \<lparr>cx_user = Some u, cx_csrf = csrf, cx_scope = []\<rparr>)))"

subsection \<open>Guards\<close>

definition require_auth :: "hand \<Rightarrow> hand" where
  "require_auth h cx rq = (if cx_user cx = None then deny 401 ''authentication required'' else h cx rq)"

definition require_csrf :: "hand \<Rightarrow> hand" where
  "require_csrf h cx rq =
     (if cx_csrf cx = [] then h cx rq
      else let tok = get_val (rq_headers rq) ''X-Csrf-Token''; tok = (if tok = [] then get_val (rq_form rq) ''csrf_token'' else tok) in
        if tok = [] \<or> tok \<noteq> cx_csrf cx then deny 403 ''missing or invalid CSRF token'' else h cx rq)"

definition org_role :: "ctx \<Rightarrow> string \<Rightarrow> string" where
  "org_role cx k = (case cx_user cx of None \<Rightarrow> [] | Some u \<Rightarrow> get_val (u_roles u) k)"

definition role_rank :: "string \<Rightarrow> nat" where
  "role_rank r = (if r = ''owner'' then 3 else if r = ''admin'' then 2 else if r = ''member'' then 1 else 0)"

definition role_at_least :: "string \<Rightarrow> string \<Rightarrow> bool" where "role_at_least r m \<longleftrightarrow> role_rank m \<le> role_rank r"

subsection \<open>Bodies\<close>

text \<open>\<open>json.NewDecoder(r.Body).Decode\<close>: the first value of the body, whatever follows.\<close>

definition decode_first :: "'a dec \<Rightarrow> 'a \<Rightarrow> stream \<Rightarrow> 'a option" where
  "decode_first dec z st =
     (case pval (json_fuel (st_bytes st)) (st_bytes st) of
        None \<Rightarrow> None
      | Some (v, r) \<Rightarrow> if v = JNull \<and> r = [] \<and> st_err st then None else dec v z)"

definition decode_body :: "app \<Rightarrow> 'a dec \<Rightarrow> 'a \<Rightarrow> request \<Rightarrow> 'a act" where
  "decode_body ap dec z rq =
     (case decode_first dec z (rq_body rq) of
        None \<Rightarrow> deny 400 (''invalid JSON body: '' @ ap_json_err ap (st_bytes (rq_body rq)))
      | Some v \<Rightarrow> ret v)"

text \<open>The server rejects texts that are not UTF-8 or hold a zero byte.\<close>

definition pg_text :: "string \<Rightarrow> bool" where "pg_text t \<longleftrightarrow> utf8_ok t \<and> CHR 0x00 \<notin> set t"

definition with_texts :: "string list \<Rightarrow> 'a query \<Rightarrow> 'a query" where
  "with_texts ts q d = (if list_all pg_text ts then q d else None)"

end
