(* ===== verification/Tenancy.thy ===== *)
theory Tenancy
  imports Principal Calendar
begin

section \<open>Organizations, members, projects, keys and tokens (internal/httpapi/api_tenancy.go)\<close>

text \<open>
  One definition per statement and per handler.  \<open>tenancy\<close> is the route table with the guards each route
  is registered with; \<open>in_tx\<close> is a transaction of a handler, undone by any early return.
\<close>

subsection \<open>Shared parts\<close>

definition jstrs :: "(string \<times> string) list \<Rightarrow> json" where "jstrs kvs = JObj (map (\<lambda>(k, v). (k, JStr v)) kvs)"

definition no_content :: response where "no_content = response0\<lparr>rs_status := 204\<rparr>"

definition created :: "json \<Rightarrow> response" where "created v = write_json_status 201 v response0"

definition ok_json :: "json \<Rightarrow> response" where "ok_json v = write_json v response0"

text \<open>\<open>ORDER BY\<close> a text: a stable insertion sort by the server's order.\<close>

fun insert_by :: "('r \<Rightarrow> 'r \<Rightarrow> bool) \<Rightarrow> 'r \<Rightarrow> 'r list \<Rightarrow> 'r list" where
  "insert_by le x [] = [x]"
| "insert_by le x (y # ys) = (if le x y then x # y # ys else y # insert_by le x ys)"

definition order_by :: "app \<Rightarrow> ('r \<Rightarrow> string) \<Rightarrow> 'r list \<Rightarrow> 'r list" where
  "order_by ap f rs = foldr (insert_by (\<lambda>x y. ap_collate ap (f x) (f y))) rs []"

text \<open>A rollback undoes everything but the ids and random bytes drawn.\<close>

definition rollback :: "io \<Rightarrow> io \<Rightarrow> io" where
  "rollback s0 s = s\<lparr>io_site := (io_site s0)\<lparr>store := (store (io_site s0))\<lparr>serial := serial (store (io_site s))\<rparr>\<rparr>\<rparr>"

definition in_tx :: "world \<Rightarrow> net \<Rightarrow> 'a act \<Rightarrow> 'a act" where
  "in_tx w n body s =
     (if w_fault w (io_calls s) then (Inl (Answer (server_error (n_text n (io_calls s)))), called s)
      else case body (called s) of
        (Inl a, s') \<Rightarrow> (Inl a, rollback s s')
      | (Inr a, s') \<Rightarrow>
          if w_fault w (io_calls s') then (Inl (Answer (server_error (n_text n (io_calls s')))), called (rollback s s'))
          else (Inr a, called s'))"

definition run500 :: "world \<Rightarrow> net \<Rightarrow> 'a query \<Rightarrow> 'a act" where
  "run500 w n q = or_answer server_error (query w n q)"

record proj =
  pj_id :: uuid
  pj_org :: uuid
  pj_org_slug :: string
  pj_org_name :: string
  pj_name :: string
  pj_slug :: string
  pj_platform :: string

definition q_org :: "string \<Rightarrow> site \<Rightarrow> org_row option" where
  "q_org k d = find (\<lambda>og. o_slug og = k \<or> o_id og = k) (orgs d)"

definition org_from_path :: "world \<Rightarrow> net \<Rightarrow> request \<Rightarrow> org_row option act" where
  "org_from_path w n rq = attempt (query_row w n (select (q_org (get_val (rq_path rq) ''org''))))"

definition proj_of :: "org_row \<Rightarrow> project_row \<Rightarrow> proj" where
  "proj_of og p = \<lparr>pj_id = p_id p, pj_org = p_org p, pj_org_slug = o_slug og, pj_org_name = o_name og,
     pj_name = p_name p, pj_slug = p_slug p, pj_platform = p_platform p\<rparr>"

definition q_project :: "string \<Rightarrow> string \<Rightarrow> site \<Rightarrow> proj option" where
  "q_project os ps d =
     (case concat (map (\<lambda>p. case get_key o_id (p_org p) (orgs d) of None \<Rightarrow> []
          | Some og \<Rightarrow> if o_slug og = os \<and> (p_slug p = ps \<or> p_id p = ps) then [proj_of og p] else []) (projects (store d))) of
        [] \<Rightarrow> None | x # _ \<Rightarrow> Some x)"

definition project_from_path :: "world \<Rightarrow> net \<Rightarrow> request \<Rightarrow> proj option act" where
  "project_from_path w n rq =
     attempt (query_row w n (select (q_project (get_val (rq_path rq) ''org'') (get_val (rq_path rq) ''project''))))"

text \<open>The handlers read the organization again and use it without a check.\<close>

definition the_org :: "org_row option \<Rightarrow> org_row act" where
  "the_org x = (case x of None \<Rightarrow> fail Crash | Some og \<Rightarrow> ret og)"

definition the_proj :: "proj option \<Rightarrow> proj act" where
  "the_proj x = (case x of None \<Rightarrow> fail Crash | Some p \<Rightarrow> ret p)"

definition the_user :: "ctx \<Rightarrow> user act" where
  "the_user cx = (case cx_user cx of None \<Rightarrow> fail Crash | Some u \<Rightarrow> ret u)"

subsection \<open>Guards\<close>

definition require_org :: "world \<Rightarrow> net \<Rightarrow> string \<Rightarrow> hand \<Rightarrow> hand" where
  "require_org w n min_role h = require_auth (\<lambda>cx rq.
     bind (org_from_path w n rq) (\<lambda>og. case og of
       None \<Rightarrow> deny 404 ''organization not found''
     | Some og \<Rightarrow> if \<not> role_at_least (org_role cx (o_slug og)) min_role then deny 403 ''insufficient role'' else h cx rq))"

definition require_project :: "world \<Rightarrow> net \<Rightarrow> string \<Rightarrow> hand \<Rightarrow> hand" where
  "require_project w n min_role h = require_auth (\<lambda>cx rq.
     bind (project_from_path w n rq) (\<lambda>p. case p of
       None \<Rightarrow> deny 404 ''project not found''
     | Some p \<Rightarrow> if \<not> role_at_least (org_role cx (pj_org_slug p)) min_role then deny 403 ''insufficient role'' else h cx rq))"

subsection \<open>Organizations\<close>

definition handle_not_found :: hand where "handle_not_found cx rq = deny 404 ''not found''"

definition handle_whoami :: "app \<Rightarrow> hand" where
  "handle_whoami ap cx rq = bind (the_user cx) (\<lambda>u.
     ret (ok_json (JObj [(''user'', jstrs [(''email'', u_email u), (''id'', u_id u), (''name'', u_name u)]),
       (''version'', JStr (ap_version ap))])))"

definition q_user_orgs :: "app \<Rightarrow> uuid \<Rightarrow> site \<Rightarrow> (org_row \<times> string) list" where
  "q_user_orgs ap uid d = order_by ap (o_name \<circ> fst) (concat (map (\<lambda>og.
     map (\<lambda>m. (og, mb_role m)) (filter (\<lambda>m. mb_org m = o_id og \<and> mb_user m = uid) (memberships d))) (orgs d)))"

definition handle_list_orgs :: "app \<Rightarrow> world \<Rightarrow> net \<Rightarrow> hand" where
  "handle_list_orgs ap w n cx rq =
     bind (the_user cx) (\<lambda>u.
     bind (run500 w n (with_uuid w (u_id u) (\<lambda>uid. select (q_user_orgs ap uid)))) (\<lambda>rows.
     ret (ok_json (JArr (map (\<lambda>(og, role). jstrs [(''id'', o_id og), (''name'', o_name og), (''role'', role), (''slug'', o_slug og)]) rows)))))"

definition dec_named :: "string dec" where
  "dec_named = dec_struct [(''Name'', on (\<lambda>s. s) (\<lambda>f. f) dec_string)]"

text \<open>\<open>Inl\<close> is a unique violation.\<close>

definition q_create_org :: "uuid \<Rightarrow> string \<Rightarrow> string \<Rightarrow> (unit + string) query" where
  "q_create_org i name slug = with_texts [name, slug] (\<lambda>d.
     if list_ex (\<lambda>og. o_id og = i \<or> o_slug og = slug) (orgs d) then Some (Inl (), d)
     else Some (Inr slug, d\<lparr>orgs := orgs d @ [\<lparr>o_id = i, o_name = name, o_slug = slug\<rparr>]\<rparr>))"

definition valid_role :: "string \<Rightarrow> bool" where "valid_role r \<longleftrightarrow> r \<in> set [''owner'', ''admin'', ''member'']"

definition q_add_member :: "world \<Rightarrow> uuid \<Rightarrow> uuid \<Rightarrow> uuid \<Rightarrow> string \<Rightarrow> unit query" where
  "q_add_member w i oid uid role d =
     (if \<not> valid_role role \<or> get_key o_id oid (orgs d) = None \<or> get_key us_id uid (users d) = None \<or>
         list_ex (\<lambda>m. mb_id m = i \<or> mb_org m = oid \<and> mb_user m = uid) (memberships d) then None
      else Some ((), d\<lparr>memberships := memberships d @
        [\<lparr>mb_id = i, mb_org = oid, mb_user = uid, mb_role = role, mb_created = w_now w\<rparr>]\<rparr>))"

definition handle_create_org :: "app \<Rightarrow> world \<Rightarrow> net \<Rightarrow> hand" where
  "handle_create_org ap w n cx rq =
     bind (decode_body ap dec_named [] rq) (\<lambda>name.
     if trim_space name = [] then ret response0
     else
     bind (if cf_single_org (ap_cfg ap) then attempt (query w n (select (\<lambda>d. length (orgs d)))) else ret (Some 0)) (\<lambda>k.
     if (case k of None \<Rightarrow> False | Some k \<Rightarrow> 0 < k) then deny 403 ''this install is locked to a single organization''
     else
     bind (new_uuid w) (\<lambda>i.
     bind (run500 w n (q_create_org i (trim_space name) (slugify name))) (\<lambda>r. case r of
       Inl _ \<Rightarrow> deny 400 ''an organization with this name already exists''
     | Inr slug \<Rightarrow>
     bind (new_uuid w) (\<lambda>mid.
     bind (the_user cx) (\<lambda>u.
     bind (run500 w n (with_uuid w (u_id u) (\<lambda>uid. q_add_member w mid i uid ''owner''))) (\<lambda>_.
     ret (created (jstrs [(''id'', i), (''name'', name), (''slug'', slug)])))))))))"

definition handle_org_detail :: "world \<Rightarrow> net \<Rightarrow> hand" where
  "handle_org_detail w n cx rq = bind (bind (org_from_path w n rq) the_org) (\<lambda>og.
     ret (ok_json (jstrs [(''id'', o_id og), (''name'', o_name og), (''slug'', o_slug og)])))"

subsection \<open>Members and invitations\<close>

definition q_members :: "uuid \<Rightarrow> site \<Rightarrow> (membership_row \<times> user_row) list" where
  "q_members oid d = concat (map (\<lambda>m. case get_key us_id (mb_user m) (users d) of None \<Rightarrow> [] | Some u \<Rightarrow> [(m, u)])
     (sort_key mb_created (filter (\<lambda>m. mb_org m = oid) (memberships d))))"

definition handle_list_members :: "app \<Rightarrow> world \<Rightarrow> net \<Rightarrow> hand" where
  "handle_list_members ap w n cx rq =
     bind (bind (org_from_path w n rq) the_org) (\<lambda>og.
     bind (run500 w n (select (q_members (o_id og)))) (\<lambda>rows.
     ret (ok_json (JArr (map (\<lambda>(m, u). jstrs [(''email'', us_email u), (''id'', mb_id m), (''joined'', ap_time_text ap (mb_created m)),
       (''name'', us_name u), (''role'', mb_role m), (''user_id'', us_id u)]) rows)))))"

definition owner_count :: "uuid \<Rightarrow> site \<Rightarrow> nat" where
  "owner_count oid d = length (filter (\<lambda>m. mb_org m = oid \<and> mb_role m = ''owner'') (memberships d))"

definition q_membership :: "uuid \<Rightarrow> uuid \<Rightarrow> site \<Rightarrow> (string \<times> uuid) option" where
  "q_membership mid oid d =
     map_option (\<lambda>m. (mb_role m, mb_user m)) (find (\<lambda>m. mb_id m = mid \<and> mb_org m = oid) (memberships d))"

definition q_delete_member :: "uuid \<Rightarrow> unit query" where
  "q_delete_member mid d = Some ((), d\<lparr>memberships := delete_where (\<lambda>m. mb_id m = mid) (memberships d)\<rparr>)"

definition q_drop_sessions :: "uuid \<Rightarrow> unit query" where
  "q_drop_sessions uid d = Some ((), d\<lparr>auth_sessions := delete_where (\<lambda>r. ss_user r = uid) (auth_sessions d)\<rparr>)"

definition handle_remove_member :: "world \<Rightarrow> net \<Rightarrow> hand" where
  "handle_remove_member w n cx rq =
     (let member = get_val (rq_path rq) ''memberID'' in
     bind (bind (org_from_path w n rq) the_org) (\<lambda>og.
     bind (run500 w n (select (owner_count (o_id og)))) (\<lambda>owners.
     bind (or_answer (\<lambda>_. write_err 404 ''member not found'' response0)
            (query_row w n (with_uuid w member (\<lambda>mid. select (q_membership mid (o_id og)))))) (\<lambda>(role, uid).
     if role = ''owner'' \<and> owners \<le> 1 then deny 400 ''cannot remove the last owner''
     else
     bind (run500 w n (with_uuid w member q_delete_member)) (\<lambda>_.
     bind (attempt (query w n (with_uuid w uid q_drop_sessions))) (\<lambda>_.
     ret no_content))))))"

record invite_body =
  ib_email :: string
  ib_role :: string

definition dec_invite :: "invite_body dec" where
  "dec_invite = dec_struct [(''Email'', on ib_email ib_email_update dec_string), (''Role'', on ib_role ib_role_update dec_string)]"

definition q_create_invite :: "world \<Rightarrow> uuid \<Rightarrow> uuid \<Rightarrow> string \<Rightarrow> string \<Rightarrow> string \<Rightarrow> uuid \<Rightarrow> unit query" where
  "q_create_invite w i oid email role h uid = with_texts [email] (\<lambda>d.
     if role \<notin> set [''admin'', ''member''] \<or> get_key o_id oid (orgs d) = None \<or> get_key us_id uid (users d) = None \<or>
        list_ex (\<lambda>v. iv_id v = i \<or> iv_token v = h) (invitations d) then None
     else Some ((), d\<lparr>invitations := invitations d @ [\<lparr>iv_id = i, iv_org = oid, iv_email = email, iv_role = role, iv_token = h,
            iv_by = uid, iv_expires = w_now w + 7 * day, iv_accepted = None, iv_created = w_now w\<rparr>]\<rparr>))"

definition invite_link :: "app \<Rightarrow> string \<Rightarrow> string" where "invite_link ap raw = cf_public_url (ap_cfg ap) @ ''/accept/'' @ raw"

definition invite_subject :: "org_row \<Rightarrow> string" where
  "invite_subject og = ''You'' @ [CHR 0x27] @ ''re invited to '' @ o_name og @ '' on BugHan''"

definition invite_text :: "string \<Rightarrow> string" where
  "invite_text link = ''Accept your invitation:'' @ [nl] @ link @ [nl, nl] @ ''The link expires in 7 days.''"

text \<open>\<open>raw, _ := auth.NewToken()\<close>: without random bytes the token is the empty text.\<close>

definition token_or_empty :: "app \<Rightarrow> string act" where
  "token_or_empty ap = bind (attempt (new_token ap)) (\<lambda>t. ret (case t of None \<Rightarrow> [] | Some t \<Rightarrow> t))"

definition handle_create_invite :: "app \<Rightarrow> world \<Rightarrow> net \<Rightarrow> hand" where
  "handle_create_invite ap w n cx rq =
     bind (org_from_path w n rq) (\<lambda>og.
     bind (decode_body ap dec_invite \<lparr>ib_email = [], ib_role = []\<rparr> rq) (\<lambda>b.
     let email = to_lower (trim_space (ib_email b)); role = (if ib_role b = [] then ''member'' else ib_role b) in
     if role \<noteq> ''admin'' \<and> role \<noteq> ''member'' then deny 400 ''role must be admin or member''
     else if email = [] then deny 400 ''email is required''
     else
     bind (token_or_empty ap) (\<lambda>raw.
     bind (new_uuid w) (\<lambda>i.
     bind (the_org og) (\<lambda>og.
     bind (the_user cx) (\<lambda>u.
     bind (run500 w n (with_uuid w (u_id u) (\<lambda>uid. q_create_invite w i (o_id og) email role (hash_token raw) uid))) (\<lambda>_.
     bind (attempt (send_mail n (ap_cfg ap) email (invite_subject og) (invite_text (invite_link ap raw)))) (\<lambda>_.
     ret (created (jstrs ([(''email'', email), (''id'', i)] @
       (if smtp_enabled (ap_cfg ap) then [] else [(''invite_link'', invite_link ap raw)]) @ [(''role'', role)])))))))))))"

definition q_invites :: "world \<Rightarrow> uuid \<Rightarrow> site \<Rightarrow> invitation_row list" where
  "q_invites w oid d = sort_key (\<lambda>v. - iv_created v)
     (filter (\<lambda>v. iv_org v = oid \<and> w_now w - 30 * day < iv_expires v) (invitations d))"

definition handle_list_invites :: "app \<Rightarrow> world \<Rightarrow> net \<Rightarrow> hand" where
  "handle_list_invites ap w n cx rq =
     bind (bind (org_from_path w n rq) the_org) (\<lambda>og.
     bind (run500 w n (select (q_invites w (o_id og)))) (\<lambda>rows.
     ret (ok_json (JArr (map (\<lambda>v. JObj [
       (''accepted'', case iv_accepted v of None \<Rightarrow> JNull | Some t \<Rightarrow> JStr (ap_time_text ap t)), (''email'', JStr (iv_email v)),
       (''expires'', JStr (ap_time_text ap (iv_expires v))), (''id'', JStr (iv_id v)), (''role'', JStr (iv_role v))]) rows)))))"

definition q_delete_invite :: "uuid \<Rightarrow> uuid \<Rightarrow> unit query" where
  "q_delete_invite i oid d = Some ((), d\<lparr>invitations :=
     delete_where (\<lambda>v. iv_id v = i \<and> iv_org v = oid \<and> iv_accepted v = None) (invitations d)\<rparr>)"

definition handle_delete_invite :: "world \<Rightarrow> net \<Rightarrow> hand" where
  "handle_delete_invite w n cx rq =
     bind (bind (org_from_path w n rq) the_org) (\<lambda>og.
     bind (run500 w n (with_uuid w (get_val (rq_path rq) ''inviteID'') (\<lambda>i. q_delete_invite i (o_id og)))) (\<lambda>_.
     ret no_content))"

subsection \<open>Projects\<close>

definition handle_list_projects :: "app \<Rightarrow> world \<Rightarrow> net \<Rightarrow> hand" where
  "handle_list_projects ap w n cx rq =
     bind (bind (org_from_path w n rq) the_org) (\<lambda>og.
     bind (run500 w n (select (\<lambda>d. order_by ap p_name (filter (\<lambda>p. p_org p = o_id og) (projects (store d)))))) (\<lambda>rows.
     ret (ok_json (JArr (map (\<lambda>p. jstrs [(''id'', p_id p), (''name'', p_name p), (''platform'', p_platform p),
       (''slug'', p_slug p)]) rows)))))"

record project_body =
  pb_name' :: string
  pb_platform' :: string

definition dec_project :: "project_body dec" where
  "dec_project = dec_struct [(''Name'', on pb_name' pb_name'_update dec_string),
     (''Platform'', on pb_platform' pb_platform'_update dec_string)]"

definition on_projects :: "(project_row list \<Rightarrow> project_row list) \<Rightarrow> site \<Rightarrow> site" where
  "on_projects f d = d\<lparr>store := (store d)\<lparr>projects := f (projects (store d))\<rparr>\<rparr>"

definition on_keys :: "(ingest_key_row list \<Rightarrow> ingest_key_row list) \<Rightarrow> site \<Rightarrow> site" where
  "on_keys f d = d\<lparr>store := (store d)\<lparr>ingest_keys := f (ingest_keys (store d))\<rparr>\<rparr>"

text \<open>A project with the same slug is renamed instead, and its id returned.\<close>

definition q_create_project :: "uuid \<Rightarrow> uuid \<Rightarrow> string \<Rightarrow> string \<Rightarrow> string \<Rightarrow> (string \<times> uuid) query" where
  "q_create_project i oid name slug platform = with_texts [name, slug, platform] (\<lambda>d.
     if get_key o_id oid (orgs d) = None then None
     else case find (\<lambda>p. p_org p = oid \<and> p_slug p = slug) (projects (store d)) of
       Some p \<Rightarrow> Some ((p_slug p, p_id p), on_projects (update_where (\<lambda>q. p_org q = oid \<and> p_slug q = slug) (\<lambda>q. q\<lparr>p_name := name\<rparr>)) d)
     | None \<Rightarrow>
         if list_ex (\<lambda>p. p_id p = i) (projects (store d)) then None
         else Some ((slug, i), on_projects (\<lambda>ps. ps @
                [\<lparr>p_id = i, p_org = oid, p_name = name, p_slug = slug, p_platform = platform\<rparr>]) d))"

definition q_create_key :: "world \<Rightarrow> uuid \<Rightarrow> uuid \<Rightarrow> string \<Rightarrow> unit query" where
  "q_create_key w i pid name = with_texts [name] (\<lambda>d.
     if \<not> project_exists (store d) pid \<or> list_ex (\<lambda>k. k_id k = i) (ingest_keys (store d)) then None
     else Some ((), on_keys (\<lambda>ks. ks @
            [\<lparr>k_id = i, k_project = pid, k_name = name, k_created = w_now w, k_revoked = False\<rparr>]) d))"

definition dsn_for :: "app \<Rightarrow> uuid \<Rightarrow> uuid \<Rightarrow> string" where
  "dsn_for ap pid kid =
     (let u = trim_prefix (trim_prefix (cf_public_url (ap_cfg ap)) ''https://'') ''http://''
      in ''https://'' @ kid @ ''@'' @ u @ ''/'' @ pid)"

definition handle_create_project :: "app \<Rightarrow> world \<Rightarrow> net \<Rightarrow> hand" where
  "handle_create_project ap w n cx rq =
     bind (org_from_path w n rq) (\<lambda>og.
     bind (decode_body ap dec_project \<lparr>pb_name' = [], pb_platform' = []\<rparr> rq) (\<lambda>b.
     if trim_space (pb_name' b) = [] then ret response0
     else
     let platform = (if pb_platform' b = [] then ''javascript'' else pb_platform' b); slug = slugify (pb_name' b) in
     bind (new_uuid w) (\<lambda>i.
     bind (in_tx w n (
       bind (the_org og) (\<lambda>og.
       bind (or_answer (\<lambda>e. write_err 400 (''could not create project: '' @ e) response0)
              (query w n (q_create_project i (o_id og) (trim_space (pb_name' b)) slug platform))) (\<lambda>(slug, pid).
       bind (new_uuid w) (\<lambda>kid.
       bind (run500 w n (q_create_key w kid pid ''Default'')) (\<lambda>_.
       ret (slug, pid, kid))))))) (\<lambda>(slug, pid, kid).
     ret (created (JObj [(''id'', JStr pid),
       (''keys'', JArr [jstrs [(''dsn'', dsn_for ap pid kid), (''id'', kid), (''name'', ''Default'')]]),
       (''name'', JStr (pb_name' b)), (''platform'', JStr platform), (''slug'', JStr slug)]))))))"

definition q_keys :: "uuid \<Rightarrow> site \<Rightarrow> ingest_key_row list" where
  "q_keys pid d = sort_key k_created (filter (\<lambda>k. k_project k = pid) (ingest_keys (store d)))"

definition dsn_entry :: "app \<Rightarrow> uuid \<Rightarrow> ingest_key_row \<Rightarrow> (string \<times> json) list" where
  "dsn_entry ap pid k = (if k_revoked k then [] else [(''dsn'', JStr (dsn_for ap pid (k_id k)))])"

definition handle_project_detail :: "app \<Rightarrow> world \<Rightarrow> net \<Rightarrow> hand" where
  "handle_project_detail ap w n cx rq =
     bind (bind (project_from_path w n rq) the_proj) (\<lambda>p.
     bind (run500 w n (select (q_keys (pj_id p)))) (\<lambda>rows.
     ret (ok_json (JObj [(''id'', JStr (pj_id p)),
       (''keys'', JArr (map (\<lambda>k. JObj ([(''active'', JBool (\<not> k_revoked k))] @ dsn_entry ap (pj_id p) k @
          [(''id'', JStr (k_id k)), (''name'', JStr (k_name k))])) rows)),
       (''name'', JStr (pj_name p)), (''organization'', JStr (pj_org_slug p)), (''platform'', JStr (pj_platform p)),
       (''slug'', JStr (pj_slug p))]))))"

subsection \<open>Keys\<close>

definition handle_list_keys :: "app \<Rightarrow> world \<Rightarrow> net \<Rightarrow> hand" where
  "handle_list_keys ap w n cx rq =
     bind (bind (project_from_path w n rq) the_proj) (\<lambda>p.
     bind (run500 w n (select (q_keys (pj_id p)))) (\<lambda>rows.
     ret (ok_json (JArr (map (\<lambda>k. JObj ([(''active'', JBool (\<not> k_revoked k)),
         (''created'', JStr (ap_time_text ap (k_created k)))] @ dsn_entry ap (pj_id p) k @
         [(''id'', JStr (k_id k)), (''name'', JStr (k_name k))])) rows)))))"

text \<open>The error of the decoder is dropped, the name read so far kept.\<close>

definition key_name :: "stream \<Rightarrow> string" where
  "key_name st =
     (case pval (json_fuel (st_bytes st)) (st_bytes st) of
        Some (JObj kvs, _) \<Rightarrow> fold (\<lambda>(k, v) a. if equal_fold k ''Name'' then (case v of JStr t \<Rightarrow> t | _ \<Rightarrow> a) else a) kvs []
      | _ \<Rightarrow> [])"

definition two_digits :: "int \<Rightarrow> string" where
  "two_digits i = (if i < 10 then ''0'' else []) @ show_int i"

definition time_now_short :: "time \<Rightarrow> string" where
  "time_now_short t =
     (case civil t of (y, m, dd) \<Rightarrow> two_digits m @ two_digits dd @ ''-'' @ two_digits (t div hour mod 24) @
        two_digits (t div minute mod 60) @ two_digits (t div second mod 60))"

definition handle_create_key :: "app \<Rightarrow> world \<Rightarrow> net \<Rightarrow> hand" where
  "handle_create_key ap w n cx rq =
     bind (project_from_path w n rq) (\<lambda>p.
     let name = key_name (rq_body rq); name = (if trim_space name = [] then ''Key '' @ time_now_short (w_now w) else name) in
     bind (new_uuid w) (\<lambda>i.
     bind (the_proj p) (\<lambda>p.
     bind (run500 w n (q_create_key w i (pj_id p) (trim_space name))) (\<lambda>_.
     ret (created (JObj [(''active'', JBool True), (''dsn'', JStr (dsn_for ap (pj_id p) i)), (''id'', JStr i), (''name'', JStr name)]))))))"

definition q_revoke_key :: "uuid \<Rightarrow> uuid \<Rightarrow> unit query" where
  "q_revoke_key i pid d = Some ((), on_keys (update_where (\<lambda>k. k_id k = i \<and> k_project k = pid \<and> \<not> k_revoked k)
     (\<lambda>k. k\<lparr>k_revoked := True\<rparr>)) d)"

definition handle_revoke_key :: "world \<Rightarrow> net \<Rightarrow> hand" where
  "handle_revoke_key w n cx rq =
     bind (bind (project_from_path w n rq) the_proj) (\<lambda>p.
     bind (run500 w n (with_uuid w (get_val (rq_path rq) ''keyID'') (\<lambda>i. q_revoke_key i (pj_id p)))) (\<lambda>_.
     ret no_content))"

subsection \<open>API tokens\<close>

definition handle_list_tokens :: "app \<Rightarrow> world \<Rightarrow> net \<Rightarrow> hand" where
  "handle_list_tokens ap w n cx rq =
     bind (the_user cx) (\<lambda>u.
     bind (run500 w n (with_uuid w (u_id u) (\<lambda>uid. select (\<lambda>d.
       sort_key (\<lambda>t. - tk_created t) (filter (\<lambda>t. tk_user t = uid) (api_tokens d)))))) (\<lambda>rows.
     ret (ok_json (JArr (map (\<lambda>t. JObj [(''active'', JBool (\<not> tk_revoked t)), (''created'', JStr (ap_time_text ap (tk_created t))),
       (''id'', JStr (tk_id t)), (''name'', JStr (tk_name t)), (''prefix'', JStr (tk_prefix t)), (''scope'', JStr (tk_scope t))]) rows)))))"

record token_body =
  tb_name :: string
  tb_scope :: string

definition dec_token :: "token_body dec" where
  "dec_token = dec_struct [(''Name'', on tb_name tb_name_update dec_string), (''Scope'', on tb_scope tb_scope_update dec_string)]"

definition q_create_token :: "world \<Rightarrow> uuid \<Rightarrow> uuid \<Rightarrow> string \<Rightarrow> string \<Rightarrow> string \<Rightarrow> string \<Rightarrow> unit query" where
  "q_create_token w i uid name h pre scope = with_texts [name] (\<lambda>d.
     if scope \<notin> set [''read'', ''write''] \<or> get_key us_id uid (users d) = None \<or>
        list_ex (\<lambda>t. tk_id t = i \<or> tk_token t = h) (api_tokens d) then None
     else Some ((), d\<lparr>api_tokens := api_tokens d @ [\<lparr>tk_id = i, tk_user = uid, tk_name = name, tk_token = h, tk_prefix = pre,
            tk_scope = scope, tk_created = w_now w, tk_revoked = False, tk_used = None\<rparr>]\<rparr>))"

definition handle_create_token :: "app \<Rightarrow> world \<Rightarrow> net \<Rightarrow> hand" where
  "handle_create_token ap w n cx rq =
     bind (decode_body ap dec_token \<lparr>tb_name = [], tb_scope = []\<rparr> rq) (\<lambda>b.
     if trim_space (tb_name b) = [] then ret response0
     else
     let scope = (if tb_scope b = [] then ''write'' else tb_scope b) in
     if scope \<noteq> ''read'' \<and> scope \<noteq> ''write'' then deny 400 ''scope must be read or write''
     else
     bind (or_answer server_error (new_api_token ap)) (\<lambda>(full, pre).
     bind (new_uuid w) (\<lambda>i.
     bind (the_user cx) (\<lambda>u.
     bind (run500 w n (with_uuid w (u_id u) (\<lambda>uid.
       q_create_token w i uid (trim_space (tb_name b)) (hash_token full) pre scope))) (\<lambda>_.
     ret (created (jstrs [(''id'', i), (''name'', tb_name b), (''prefix'', pre), (''scope'', scope), (''token'', full)])))))))"

definition q_revoke_token :: "uuid \<Rightarrow> uuid \<Rightarrow> unit query" where
  "q_revoke_token i uid d = Some ((), d\<lparr>api_tokens := update_where
     (\<lambda>t. tk_id t = i \<and> tk_user t = uid \<and> \<not> tk_revoked t) (\<lambda>t. t\<lparr>tk_revoked := True\<rparr>) (api_tokens d)\<rparr>)"

definition handle_revoke_token :: "world \<Rightarrow> net \<Rightarrow> hand" where
  "handle_revoke_token w n cx rq =
     bind (the_user cx) (\<lambda>u.
     bind (run500 w n (with_uuid w (get_val (rq_path rq) ''tokenID'') (\<lambda>i. with_uuid w (u_id u) (q_revoke_token i)))) (\<lambda>_.
     ret no_content))"

subsection \<open>Routes\<close>

datatype tenancy_route =
    Whoami | List_orgs | Unknown_org_path | Unknown_project_path | Create_org | Org_detail | List_members | Remove_member
  | Create_invite | List_invites | Delete_invite | Create_project | List_projects | Project_detail
  | List_keys | Create_key | Revoke_key | List_tokens | Create_token | Revoke_token

definition tenancy :: "app \<Rightarrow> world \<Rightarrow> net \<Rightarrow> tenancy_route \<Rightarrow> hand" where
  "tenancy ap w n r =
     (let org = require_org w n; project = require_project w n in
      case r of
        Whoami \<Rightarrow> require_auth (handle_whoami ap)
      | List_orgs \<Rightarrow> require_auth (handle_list_orgs ap w n)
      | Unknown_org_path \<Rightarrow> require_auth handle_not_found
      | Unknown_project_path \<Rightarrow> require_auth handle_not_found
      | Create_org \<Rightarrow> require_csrf (require_auth (handle_create_org ap w n))
      | Org_detail \<Rightarrow> org ''member'' (handle_org_detail w n)
      | List_members \<Rightarrow> org ''member'' (handle_list_members ap w n)
      | Remove_member \<Rightarrow> require_csrf (org ''admin'' (handle_remove_member w n))
      | Create_invite \<Rightarrow> require_csrf (org ''admin'' (handle_create_invite ap w n))
      | List_invites \<Rightarrow> org ''admin'' (handle_list_invites ap w n)
      | Delete_invite \<Rightarrow> require_csrf (org ''admin'' (handle_delete_invite w n))
      | Create_project \<Rightarrow> require_csrf (org ''admin'' (handle_create_project ap w n))
      | List_projects \<Rightarrow> org ''member'' (handle_list_projects ap w n)
      | Project_detail \<Rightarrow> project ''member'' (handle_project_detail ap w n)
      | List_keys \<Rightarrow> project ''member'' (handle_list_keys ap w n)
      | Create_key \<Rightarrow> require_csrf (project ''admin'' (handle_create_key ap w n))
      | Revoke_key \<Rightarrow> require_csrf (project ''admin'' (handle_revoke_key w n))
      | List_tokens \<Rightarrow> require_auth (handle_list_tokens ap w n)
      | Create_token \<Rightarrow> require_csrf (require_auth (handle_create_token ap w n))
      | Revoke_token \<Rightarrow> require_csrf (require_auth (handle_revoke_token w n)))"

definition serve_tenancy :: "app \<Rightarrow> world \<Rightarrow> net \<Rightarrow> tenancy_route \<Rightarrow> request \<Rightarrow> io \<Rightarrow> response option \<times> io" where
  "serve_tenancy ap w n r rq = finish (load_principal w n (\<lambda>cx. tenancy ap w n r cx rq) rq)"

end
