(* ===== verification/Accounts.thy ===== *)
theory Accounts
  imports Tenancy AlertWorker
begin

section \<open>Setup, login, sign-up, password reset and invitations (internal/httpapi/auth_handlers.go)\<close>

text \<open>
  The pages and forms of the accounts.  A page is the template's output for its data (\<open>ap_page\<close>);
  \<open>accounts\<close> is the route table.  The handlers never check the errors of \<open>userCount\<close> and of the session they
  start: an unreadable count is 0, a session that could not be stored sets no cookie.
\<close>

subsection \<open>Pages and redirects\<close>

definition page :: "app \<Rightarrow> int \<Rightarrow> string \<Rightarrow> string \<Rightarrow> string \<Rightarrow> string \<Rightarrow> (string \<times> json) list \<Rightarrow> response" where
  "page ap status name title err notice kvs =
     (set_header ''Content-Type'' ''text/html; charset=utf-8'' response0)\<lparr>rs_status := status,
        rs_body := ap_page ap name (Page_data title err notice kvs)\<rparr>"

definition error_page :: "app \<Rightarrow> int \<Rightarrow> string \<Rightarrow> string \<Rightarrow> string \<Rightarrow> 'a act" where
  "error_page ap status name title err = fail (Answer (page ap status name title err [] []))"

text \<open>\<open>http.Redirect\<close> with a clean path: a body for \<open>GET\<close> only.\<close>

definition redirect :: "string \<Rightarrow> request \<Rightarrow> response \<Rightarrow> response" where
  "redirect url rq r =
     (let r = (set_header ''Location'' url r)\<lparr>rs_status := 302\<rparr>;
          r = (if rq_method rq \<in> set [''GET'', ''HEAD''] then set_header ''Content-Type'' ''text/html; charset=utf-8'' r else r)
      in if rq_method rq = ''GET'' then r\<lparr>rs_body := rs_body r @ ''<a href='' @ [CHR 0x22] @ url @ [CHR 0x22] @ ''>Found</a>.'' @ [nl, nl]\<rparr>
         else r)"

definition go_to :: "string \<Rightarrow> request \<Rightarrow> 'a act" where "go_to url rq = fail (Answer (redirect url rq response0))"

definition form :: "request \<Rightarrow> string \<Rightarrow> string" where "form rq k = get_val (rq_form rq) k"

definition form_email :: "request \<Rightarrow> string" where "form_email rq = to_lower (trim_space (form rq ''email''))"

definition secure_cookies :: "app \<Rightarrow> bool" where "secure_cookies ap = (\<not> cf_insecure_cookies (ap_cfg ap))"

definition user_count :: "world \<Rightarrow> net \<Rightarrow> nat act" where
  "user_count w n = bind (attempt (query w n (select (\<lambda>d. length (users d))))) (\<lambda>k. ret (case k of None \<Rightarrow> 0 | Some k \<Rightarrow> k))"

text \<open>\<open>_ = s.sessions.Create(...)\<close> and the redirect to the start page.\<close>

definition log_in :: "app \<Rightarrow> world \<Rightarrow> net \<Rightarrow> string \<Rightarrow> request \<Rightarrow> response act" where
  "log_in ap w n uid rq =
     bind (attempt (create_session ap w n uid (secure_cookies ap) response0)) (\<lambda>r.
     ret (redirect ''/'' rq (case r of None \<Rightarrow> response0 | Some r \<Rightarrow> r)))"

definition handle_root :: hand where
  "handle_root cx rq = (if cx_user cx = None then go_to ''/auth/login/'' rq else go_to ''/auth/landing/'' rq)"

subsection \<open>First-run setup\<close>

definition page_setup :: "app \<Rightarrow> world \<Rightarrow> net \<Rightarrow> hand" where
  "page_setup ap w n cx rq =
     (if cx_user cx \<noteq> None then go_to ''/'' rq
      else bind (user_count w n) (\<lambda>k. if 0 < k then go_to ''/auth/login/'' rq
        else ret (page ap 200 ''setup.html'' ''Set up BugHan'' [] [] [])))"

definition q_setup_org :: "uuid \<Rightarrow> string \<Rightarrow> string \<Rightarrow> string query" where
  "q_setup_org i name slug = with_texts [name, slug] (\<lambda>d.
     case find (\<lambda>og. o_slug og = slug) (orgs d) of
       Some og \<Rightarrow> Some (o_slug og, d\<lparr>orgs := update_where (\<lambda>og. o_slug og = slug) (\<lambda>og. og\<lparr>o_name := name\<rparr>) (orgs d)\<rparr>)
     | None \<Rightarrow>
         if list_ex (\<lambda>og. o_id og = i) (orgs d) then None
         else Some (slug, d\<lparr>orgs := orgs d @ [\<lparr>o_id = i, o_name = name, o_slug = slug\<rparr>]\<rparr>))"

definition q_create_user :: "uuid \<Rightarrow> string \<Rightarrow> string \<Rightarrow> string \<Rightarrow> bool \<Rightarrow> unit query" where
  "q_create_user i email name h verified = with_texts [email, name] (\<lambda>d.
     if list_ex (\<lambda>u. us_id u = i \<or> us_email u = email) (users d) then None
     else Some ((), d\<lparr>users := users d @ [\<lparr>us_id = i, us_email = email, us_name = name, us_hash = h, us_verified = verified,
            us_reset = None, us_reset_expires = None\<rparr>]\<rparr>))"

definition setup_error :: "app \<Rightarrow> string \<Rightarrow> 'a act" where
  "setup_error ap e = error_page ap 400 ''setup.html'' ''Set up BugHan'' e"

definition or_setup_error :: "app \<Rightarrow> string \<Rightarrow> 'a iom \<Rightarrow> 'a act" where
  "or_setup_error ap p m = or_answer (\<lambda>e. page ap 400 ''setup.html'' ''Set up BugHan'' (p @ e) [] []) m"

definition post_setup :: "app \<Rightarrow> world \<Rightarrow> net \<Rightarrow> hand" where
  "post_setup ap w n cx rq =
     bind (user_count w n) (\<lambda>k.
     if 0 < k then go_to ''/auth/login/'' rq
     else
     let name = trim_space (form rq ''name''); email = form_email rq; pw = form rq ''password''; org = trim_space (form rq ''org'') in
     if name = [] \<or> email = [] \<or> pw = [] \<or> org = [] then setup_error ap ''All fields are required.''
     else if length pw < 8 then setup_error ap ''Password must be at least 8 characters.''
     else
     bind (new_uuid w) (\<lambda>uid.
     bind (new_uuid w) (\<lambda>oid.
     bind (or_answer (\<lambda>e. server_error (''hash password: '' @ e)) (hash_password ap pw)) (\<lambda>h.
     bind (in_tx w n (
       bind (or_setup_error ap ''Could not create organization: '' (query w n (q_setup_org oid org (slugify org)))) (\<lambda>_.
       bind (or_setup_error ap ''Could not create user: '' (query w n (q_create_user uid email name h True))) (\<lambda>_.
       bind (new_uuid w) (\<lambda>mid.
       run500 w n (q_add_member w mid oid uid ''owner'')))))) (\<lambda>_.
     log_in ap w n uid rq)))))"

subsection \<open>Login and sign-up\<close>

definition page_login :: "app \<Rightarrow> world \<Rightarrow> net \<Rightarrow> hand" where
  "page_login ap w n cx rq =
     (if cx_user cx \<noteq> None then go_to ''/'' rq
      else bind (user_count w n) (\<lambda>k. if k = 0 then go_to ''/auth/setup/'' rq
        else ret (page ap 200 ''login.html'' ''Log in'' [] [] [])))"

definition q_login :: "string \<Rightarrow> site \<Rightarrow> (uuid \<times> string) option" where
  "q_login email d = map_option (\<lambda>u. (us_id u, us_hash u)) (get_key us_email email (users d))"

definition login_error :: "app \<Rightarrow> int \<Rightarrow> string \<Rightarrow> 'a act" where
  "login_error ap status e = error_page ap status ''login.html'' ''Log in'' e"

definition post_login :: "app \<Rightarrow> world \<Rightarrow> net \<Rightarrow> hand" where
  "post_login ap w n cx rq =
     bind (attempt (query_row w n (select (q_login (form_email rq))))) (\<lambda>row. case row of
       None \<Rightarrow> login_error ap 401 ''Invalid email or password.''
     | Some (uid, h) \<Rightarrow>
         if verify_password ap (form rq ''password'') h \<noteq> Some True then login_error ap 401 ''Invalid email or password.''
         else log_in ap w n uid rq)"

definition post_logout :: "world \<Rightarrow> net \<Rightarrow> hand" where
  "post_logout w n cx rq = bind (destroy_session w n rq response0) (\<lambda>r. ret (redirect ''/auth/login/'' rq r))"

definition page_signup :: "app \<Rightarrow> hand" where
  "page_signup ap cx rq = (if cx_user cx \<noteq> None then go_to ''/'' rq
     else ret (page ap 200 ''signup.html'' ''Sign up'' [] [] []))"

definition signup_error :: "app \<Rightarrow> string \<Rightarrow> 'a act" where
  "signup_error ap e = error_page ap 400 ''signup.html'' ''Sign up'' e"

definition post_signup :: "app \<Rightarrow> world \<Rightarrow> net \<Rightarrow> hand" where
  "post_signup ap w n cx rq =
     (if cf_single_org (ap_cfg ap) then login_error ap 403 ''This install does not accept open signups.''
      else
      let name = trim_space (form rq ''name''); email = form_email rq; pw = form rq ''password'' in
      if name = [] \<or> email = [] \<or> length pw < 8 then signup_error ap ''Name, email, and a password of at least 8 characters are required.''
      else
      bind (or_answer server_error (hash_password ap pw)) (\<lambda>h.
      bind (new_uuid w) (\<lambda>uid.
      bind (or_answer (\<lambda>_. page ap 400 ''signup.html'' ''Sign up'' ''Could not create account (email may already exist).'' [] [])
             (query w n (q_create_user uid email name h False))) (\<lambda>_.
      log_in ap w n uid rq))))"

subsection \<open>Password reset\<close>

definition page_forgot :: "app \<Rightarrow> hand" where
  "page_forgot ap cx rq = ret (page ap 200 ''forgot.html'' ''Forgot password'' [] [] [])"

definition q_user_by_email :: "string \<Rightarrow> site \<Rightarrow> uuid option" where
  "q_user_by_email email d = map_option us_id (get_key us_email email (users d))"

definition q_set_reset :: "uuid \<Rightarrow> string \<Rightarrow> time \<Rightarrow> unit query" where
  "q_set_reset uid h t d = Some ((), d\<lparr>users := update_where (\<lambda>u. us_id u = uid)
     (\<lambda>u. u\<lparr>us_reset := Some h, us_reset_expires := Some (pg_time t)\<rparr>) (users d)\<rparr>)"

definition reset_link :: "app \<Rightarrow> string \<Rightarrow> string" where "reset_link ap raw = cf_public_url (ap_cfg ap) @ ''/auth/reset/'' @ raw"

definition reset_text :: "string \<Rightarrow> string" where
  "reset_text link = ''Reset your password:'' @ [nl] @ link @ [nl, nl] @ ''The link expires in one hour.''"

definition post_forgot :: "app \<Rightarrow> world \<Rightarrow> net \<Rightarrow> hand" where
  "post_forgot ap w n cx rq =
     (let email = form_email rq; notice = ''If that account exists, a reset link has been sent.'';
          done = (\<lambda>notice. ret (page ap 200 ''forgot.html'' ''Forgot password'' [] notice [])) in
     bind (attempt (query_row w n (select (q_user_by_email email)))) (\<lambda>uid. case uid of
       None \<Rightarrow> done notice
     | Some uid \<Rightarrow>
         bind (token_or_empty ap) (\<lambda>raw.
         bind (attempt (query w n (with_uuid w uid (\<lambda>u. q_set_reset u (hash_token raw) (w_now w + hour))))) (\<lambda>ok.
         if ok = None then done notice
         else
         bind (attempt (send_mail n (ap_cfg ap) email ''BugHan password reset'' (reset_text (reset_link ap raw)))) (\<lambda>_.
         done (if smtp_enabled (ap_cfg ap) then notice
           else ''SMTP is not configured'' @ em_dash @ ''use this link to reset the password: '' @ reset_link ap raw))))))"

definition page_reset :: "app \<Rightarrow> hand" where
  "page_reset ap cx rq =
     ret (page ap 200 ''reset.html'' ''Reset password'' [] [] [(''token'', JStr (get_val (rq_path rq) ''token''))])"

definition q_reset :: "world \<Rightarrow> string \<Rightarrow> string \<Rightarrow> nat query" where
  "q_reset w h new_hash d =
     (let hit = (\<lambda>u. us_reset u = Some h \<and> (case us_reset_expires u of None \<Rightarrow> False | Some t \<Rightarrow> w_now w < t)) in
      Some (length (filter hit (users d)), d\<lparr>users := update_where hit
        (\<lambda>u. u\<lparr>us_hash := new_hash, us_reset := None, us_reset_expires := None\<rparr>) (users d)\<rparr>))"

definition post_reset :: "app \<Rightarrow> world \<Rightarrow> net \<Rightarrow> hand" where
  "post_reset ap w n cx rq =
     (let token = form rq ''token''; pw = form rq ''password'' in
      if length pw < 8 then
        fail (Answer (page ap 400 ''reset.html'' ''Reset password'' ''Password must be at least 8 characters.'' [] [(''token'', JStr token)]))
      else
      bind (or_answer server_error (hash_password ap pw)) (\<lambda>h.
      bind (attempt (query w n (q_reset w (hash_token token) h))) (\<lambda>k.
      if k = None \<or> k = Some 0 then error_page ap 400 ''forgot.html'' ''Forgot password'' ''That reset link is invalid or expired.''
      else ret (redirect ''/auth/login/'' rq response0))))"

subsection \<open>Invitations\<close>

definition open_invite :: "world \<Rightarrow> string \<Rightarrow> invitation_row \<Rightarrow> bool" where
  "open_invite w h v \<longleftrightarrow> iv_token v = h \<and> iv_accepted v = None \<and> w_now w < iv_expires v"

definition q_invite_page :: "world \<Rightarrow> string \<Rightarrow> site \<Rightarrow> (string \<times> string) option" where
  "q_invite_page w h d =
     (case find (open_invite w h) (invitations d) of
        None \<Rightarrow> None
      | Some v \<Rightarrow> (case get_key o_id (iv_org v) (orgs d) of None \<Rightarrow> None | Some og \<Rightarrow> Some (o_name og, iv_role v)))"

definition page_accept_invite :: "app \<Rightarrow> world \<Rightarrow> net \<Rightarrow> hand" where
  "page_accept_invite ap w n cx rq =
     (let token = get_val (rq_path rq) ''token'' in
     bind (attempt (query_row w n (select (q_invite_page w (hash_token token))))) (\<lambda>x. case x of
       None \<Rightarrow> login_error ap 404 ''That invite link is invalid, used, or expired.''
     | Some (org_name, role) \<Rightarrow>
         ret (page ap 200 ''accept.html'' ''Accept invite'' [] []
           [(''org_name'', JStr org_name), (''role'', JStr role), (''token'', JStr token)])))"

definition q_invite :: "world \<Rightarrow> string \<Rightarrow> string \<Rightarrow> site \<Rightarrow> (uuid \<times> uuid \<times> string) option" where
  "q_invite w h email d = map_option (\<lambda>v. (iv_id v, iv_org v, iv_role v))
     (find (\<lambda>v. open_invite w h v \<and> to_lower (iv_email v) = email) (invitations d))"

definition q_join :: "world \<Rightarrow> uuid \<Rightarrow> uuid \<Rightarrow> string \<Rightarrow> uuid \<Rightarrow> unit query" where
  "q_join w i oid role uid d =
     (if list_ex (\<lambda>m. mb_org m = oid \<and> mb_user m = uid) (memberships d) \<and> valid_role role then
        Some ((), d\<lparr>memberships := update_where (\<lambda>m. mb_org m = oid \<and> mb_user m = uid) (\<lambda>m. m\<lparr>mb_role := role\<rparr>) (memberships d)\<rparr>)
      else q_add_member w i oid uid role d)"

definition q_accept :: "world \<Rightarrow> uuid \<Rightarrow> unit query" where
  "q_accept w i d = Some ((), d\<lparr>invitations := update_where (\<lambda>v. iv_id v = i)
     (\<lambda>v. v\<lparr>iv_accepted := Some (w_now w)\<rparr>) (invitations d)\<rparr>)"

definition post_accept_invite :: "app \<Rightarrow> world \<Rightarrow> net \<Rightarrow> hand" where
  "post_accept_invite ap w n cx rq =
     (case cx_user cx of
        None \<Rightarrow> deny 401 ''log in first''
      | Some u \<Rightarrow>
     bind (attempt (query_row w n (select (q_invite w (hash_token (get_val (rq_path rq) ''token'')) (to_lower (u_email u)))))) (\<lambda>x. case x of
       None \<Rightarrow> login_error ap 404 ''That invite link is invalid, used, or expired (or was sent to a different email).''
     | Some (i, oid, role) \<Rightarrow>
         bind (in_tx w n (
           bind (new_uuid w) (\<lambda>mid.
           bind (run500 w n (with_uuid w (u_id u) (q_join w mid oid role))) (\<lambda>_.
           run500 w n (q_accept w i))))) (\<lambda>_.
         ret (redirect ''/'' rq response0))))"

subsection \<open>The landing page\<close>

definition page_landing :: "app \<Rightarrow> world \<Rightarrow> net \<Rightarrow> hand" where
  "page_landing ap w n cx rq =
     (case cx_user cx of
        None \<Rightarrow> go_to ''/auth/login/'' rq
      | Some u \<Rightarrow>
     bind (run500 w n (with_uuid w (u_id u) (\<lambda>uid. select (q_user_orgs ap uid)))) (\<lambda>rows.
     ret (page ap 200 ''landing.html'' ''Your organizations'' [] [] [(''user'', JStr (u_name u)),
       (''orgs'', JArr (map (\<lambda>(og, role). jstrs [(''Name'', o_name og), (''Slug'', o_slug og), (''Role'', role)]) rows)),
       (''has_orgs'', JStr (if rows = [] then ''none'' else [])), (''csrf'', JStr (cx_csrf cx))])))"

text \<open>The form is handed to the API's handler as a JSON body.\<close>

definition post_new_org :: "app \<Rightarrow> world \<Rightarrow> net \<Rightarrow> hand" where
  "post_new_org ap w n cx rq =
     (let name = trim_space (form rq ''name'') in
      if name = [] then go_to ''/auth/landing/'' rq
      else handle_create_org ap w n cx (rq\<lparr>rq_body := \<lparr>st_bytes = json_print (jstrs [(''name'', name)]), st_err = False\<rparr>\<rparr>))"

subsection \<open>Routes\<close>

datatype account_route =
    Root | Page_setup | Post_setup | Page_login | Post_login | Post_logout | Page_signup | Post_signup
  | Page_forgot | Post_forgot | Page_reset | Post_reset | Page_accept | Post_accept | Page_landing | Post_new_org

definition accounts :: "app \<Rightarrow> world \<Rightarrow> net \<Rightarrow> account_route \<Rightarrow> hand" where
  "accounts ap w n r =
     (case r of
        Root \<Rightarrow> handle_root
      | Page_setup \<Rightarrow> page_setup ap w n
      | Post_setup \<Rightarrow> post_setup ap w n
      | Page_login \<Rightarrow> page_login ap w n
      | Post_login \<Rightarrow> post_login ap w n
      | Post_logout \<Rightarrow> require_csrf (post_logout w n)
      | Page_signup \<Rightarrow> page_signup ap
      | Post_signup \<Rightarrow> post_signup ap w n
      | Page_forgot \<Rightarrow> page_forgot ap
      | Post_forgot \<Rightarrow> post_forgot ap w n
      | Page_reset \<Rightarrow> page_reset ap
      | Post_reset \<Rightarrow> post_reset ap w n
      | Page_accept \<Rightarrow> page_accept_invite ap w n
      | Post_accept \<Rightarrow> require_csrf (post_accept_invite ap w n)
      | Page_landing \<Rightarrow> page_landing ap w n
      | Post_new_org \<Rightarrow> require_csrf (post_new_org ap w n))"

definition serve_account :: "app \<Rightarrow> world \<Rightarrow> net \<Rightarrow> account_route \<Rightarrow> request \<Rightarrow> io \<Rightarrow> response option \<times> io" where
  "serve_account ap w n r rq = finish (load_principal w n (\<lambda>cx. accounts ap w n r cx rq) rq)"

end
