(* ===== verification/AuthProps.thy ===== *)
theory AuthProps
  imports Auth SiteSamples SymbolicateProps
begin

section \<open>Passwords and slugs\<close>

text \<open>
  Round trips of base64, of the scanned numbers and of a whole password hash; the shape of slugs; the sample
  organization and app the witnesses of the account theories use.
\<close>

subsection \<open>Base64\<close>

lemma b64_table: "list_all (\<lambda>n. b64_val (b64_char n) = Some n \<and> b64_char n \<noteq> nl \<and> b64_char n \<noteq> CHR 0x0D \<and> b64_char n \<noteq> CHR ''$'') [0..<64]"
  by code_simp

lemma b64_char_facts [simp]:
  "b64_val (b64_char n) = Some (n mod 64)" "b64_char n \<noteq> nl" "b64_char n \<noteq> CHR 0x0D" "b64_char n \<noteq> CHR ''$''"
proof -
  have "n mod 64 < 64" by simp
  then have "b64_val (b64_char (n mod 64)) = Some (n mod 64) \<and> b64_char (n mod 64) \<noteq> nl \<and> b64_char (n mod 64) \<noteq> CHR 0x0D \<and>
      b64_char (n mod 64) \<noteq> CHR ''$''"
    using b64_table unfolding list_all_iff by (metis atLeastLessThan_iff le0 set_upt)
  moreover have "b64_char (n mod 64) = b64_char n" by (simp add: b64_char_def)
  ultimately show "b64_val (b64_char n) = Some (n mod 64)" "b64_char n \<noteq> nl" "b64_char n \<noteq> CHR 0x0D" "b64_char n \<noteq> CHR ''$''"
    by simp_all
qed

lemma b64_encode_clean: "c \<in> set (b64_encode s) \<Longrightarrow> c \<noteq> nl \<and> c \<noteq> CHR 0x0D \<and> c \<noteq> CHR ''$''"
  by (induction s rule: b64_encode.induct) (auto simp: Let_def)

lemma sextets:
  fixes v :: nat
  assumes "v < 16777216"
  shows "((v div 262144 mod 64 * 64 + v div 4096 mod 64) * 64 + v div 64 mod 64) * 64 + v mod 64 = v"
proof -
  define x y where "x = v div 64" and "y = v div 64 div 64"
  have d: "v div 4096 = y" "v div 262144 = y div 64" by (simp_all add: y_def flip: div_mult2_eq)
  have "y div 64 < 64" using assms by (simp add: y_def flip: div_mult2_eq)
  then have "y div 64 mod 64 * 64 + y mod 64 = y" by simp
  moreover have "y * 64 + x mod 64 = x" "x * 64 + v mod 64 = v" by (simp_all add: x_def y_def)
  ultimately show ?thesis unfolding d x_def[symmetric] by simp
qed

lemma byte_div: "(c :: nat) < 256 \<Longrightarrow> (x * 256 + c) div 256 = x \<and> (x * 256 + c) mod 256 = c"
  by simp

lemma byte_nat_less: "byte_nat c < 256"
  by (simp add: byte_nat_def)

lemma char_byte [simp]: "char_of (byte_nat c) = c"
  by (simp add: byte_nat_def)

lemma three_bytes:
  fixes v :: nat
  assumes "v = (byte_nat a * 256 + byte_nat b) * 256 + byte_nat c"
  shows "v < 16777216" "v div 65536 = byte_nat a" "v div 256 mod 256 = byte_nat b" "v mod 256 = byte_nat c"
proof -
  have s: "v div 256 = byte_nat a * 256 + byte_nat b" "v mod 256 = byte_nat c"
    unfolding assms by (simp_all only: byte_div byte_nat_less)
  then show "v div 256 mod 256 = byte_nat b" "v mod 256 = byte_nat c" by (simp_all only: byte_div byte_nat_less)
  have "v div 65536 = v div 256 div 256" by (simp flip: div_mult2_eq)
  then show "v div 65536 = byte_nat a" by (simp only: s byte_div byte_nat_less)
  have "byte_nat a \<le> 255" "byte_nat b \<le> 255" "byte_nat c \<le> 255"
    using byte_nat_less[of a] byte_nat_less[of b] byte_nat_less[of c] by simp_all
  then show "v < 16777216" unfolding assms by (simp add: algebra_simps)
qed

lemma b64_vals: "\<exists>vs. all_some (map b64_val (b64_encode s)) = Some vs \<and> b64_bytes vs = Some s"
proof (induction s rule: b64_encode.induct)
  case (1 a b c s)
  define v where "v = (byte_nat a * 256 + byte_nat b) * 256 + byte_nat c"
  from 1 obtain vs where vs: "all_some (map b64_val (b64_encode s)) = Some vs" "b64_bytes vs = Some s" by auto
  note t = three_bytes[OF v_def]
  have e: "b64_encode (a # b # c # s) = b64_char (v div 262144) # b64_char (v div 4096) # b64_char (v div 64) # b64_char v # b64_encode s"
    by (simp add: Let_def v_def)
  have "b64_bytes (v div 262144 mod 64 # v div 4096 mod 64 # v div 64 mod 64 # v mod 64 # vs) = Some (a # b # c # s)"
    unfolding b64_bytes.simps(1) sextets[OF t(1)] Let_def t(2-4) vs(2) by simp
  then show ?case using vs(1) unfolding e by simp
next
  case (2 a b)
  define v where "v = (byte_nat a * 256 + byte_nat b) * 4"
  have v: "v < 262144" "v div 4 div 256 = byte_nat a" "v div 4 mod 256 = byte_nat b"
    using byte_nat_less[of a] byte_nat_less[of b] by (simp_all add: v_def)
  have "v div 262144 = 0" using v(1) by simp
  then have "(v div 4096 mod 64 * 64 + v div 64 mod 64) * 64 + v mod 64 = v" using sextets[of v] v(1) by simp
  moreover have "b64_bytes [x, y, z] = Some [a, b]" if "(x * 64 + y) * 64 + z = v" for x y z
    unfolding b64_bytes.simps(2) that Let_def v(2,3) by simp
  ultimately have "b64_bytes [v div 4096 mod 64, v div 64 mod 64, v mod 64] = Some [a, b]" by blast
  moreover have "b64_encode [a, b] = [b64_char (v div 4096), b64_char (v div 64), b64_char v]" by (simp add: Let_def v_def)
  ultimately show ?case by simp
next
  case (3 a)
  have "byte_nat a * 16 div 64 mod 64 * 64 + byte_nat a * 16 mod 64 = byte_nat a * 16"
    using byte_nat_less[of a] sextets[of "byte_nat a * 16"] by simp
  moreover have "b64_bytes [x, y] = Some [a]" if "x * 64 + y = byte_nat a * 16" for x y
    unfolding b64_bytes.simps(3) that by simp
  ultimately have "b64_bytes [byte_nat a * 16 div 64 mod 64, byte_nat a * 16 mod 64] = Some [a]" by blast
  moreover have "b64_encode [a] = [b64_char (byte_nat a * 16 div 64), b64_char (byte_nat a * 16)]" by (simp add: Let_def)
  ultimately show ?case by (simp del: b64_encode.simps)
qed simp

lemma b64_decode_encode: "b64_decode (b64_encode s) = Some s"
proof -
  have "filter (\<lambda>c. c \<noteq> nl \<and> c \<noteq> CHR 0x0D) (b64_encode s) = b64_encode s"
    using b64_encode_clean by (simp add: filter_id_conv)
  then show ?thesis using b64_vals[of s] by (auto simp: b64_decode_def)
qed

subsection \<open>Password hashes\<close>

lemma digit_not_blank: "is_digit c \<Longrightarrow> \<not> is_space_c c \<and> c \<noteq> nl \<and> c \<noteq> CHR ''-'' \<and> c \<noteq> CHR ''+'' \<and> c \<noteq> CHR ''$''"
  by (auto simp: is_digit_def is_space_c_def)

lemma span_digits_show: "r = [] \<or> \<not> is_digit (hd r) \<Longrightarrow> span_digits (show_nat n @ r) = (show_nat n, r)"
  using show_nat_digits[of n] by (cases r) (simp_all add: span_digits_def list_all_iff takeWhile_append2 dropWhile_append2)

lemma scan_blanks_show: "scan_blanks (show_nat n @ r) = Some (show_nat n @ r)"
proof -
  obtain c t where c: "show_nat n = c # t" "is_digit c" using show_nat_digits[of n] by (cases "show_nat n") auto
  then show ?thesis using digit_not_blank[OF c(2)] by (simp add: scan_blanks_def)
qed

lemma scan_uint_show: "n < 2 ^ bits \<Longrightarrow> r = [] \<or> \<not> is_digit (hd r) \<Longrightarrow> scan_uint bits (show_nat n @ r) = Some (n, r)"
  using show_nat_digits[of n] by (simp add: scan_uint_def scan_blanks_show span_digits_show digits_val_show)

lemma scan_int_show: "in_int64 (int n) \<Longrightarrow> scan_int (show_nat n) = Some (int n, [])"
proof -
  obtain c t where c: "show_nat n = c # t" "is_digit c" using show_nat_digits[of n] by (cases "show_nat n") auto
  then have "\<not> has_prefix (show_nat n) ''-''" "\<not> has_prefix (show_nat n) ''+''" using digit_not_blank[OF c(2)] by simp_all
  then show "in_int64 (int n) \<Longrightarrow> scan_int (show_nat n) = Some (int n, [])"
    using scan_blanks_show[of n "[]"] span_digits_show[of "[]" n] show_nat_digits[of n] by (simp add: scan_int_def digits_val_show)
qed

lemma scan_costs_phc: "scan_costs costs_text = Some (argon_memory, argon_time, argon_threads)"
proof -
  have c: "argon_memory < 2 ^ 32" "argon_time < 2 ^ 32" "argon_threads < 2 ^ 8"
    by (simp_all add: argon_memory_def argon_time_def argon_threads_def)
  have "scan_uint 32 (show_nat argon_memory @ r) = Some (argon_memory, r)" if "\<not> is_digit (hd r)" for r
    using scan_uint_show[OF c(1)] that by blast
  moreover have "scan_uint 32 (show_nat argon_time @ r) = Some (argon_time, r)" if "\<not> is_digit (hd r)" for r
    using scan_uint_show[OF c(2)] that by blast
  moreover have "scan_uint 8 (show_nat argon_threads) = Some (argon_threads, [])"
    using scan_uint_show[OF c(3), of "[]"] by simp
  ultimately show ?thesis by (simp add: costs_text_def scan_costs_def scan_lit_def is_digit_def)
qed

lemma phc_parts: "split_on (CHR ''$'') (phc_text v salt key) =
    [[], ''argon2id'', ''v='' @ show_nat v, costs_text, b64_encode salt, b64_encode key]"
proof -
  have d: "CHR ''$'' \<notin> set (show_nat n)" for n using show_nat_digits[of n] digit_not_blank by (auto simp: list_all_iff)
  have b: "CHR ''$'' \<notin> set (b64_encode s)" for s using b64_encode_clean by blast
  let ?ps = "[[], ''argon2id'', ''v='' @ show_nat v, costs_text, b64_encode salt, b64_encode key]"
  have "phc_text v salt key = join ''$'' ?ps" by (simp add: phc_text_def)
  moreover have "split_on (CHR ''$'') (join [CHR ''$''] ?ps) = ?ps" by (rule split_on_join) (simp_all add: d b costs_text_def)
  ultimately show ?thesis by simp
qed

text \<open>C37: The stored text of a password is parsed back to its salt, costs and key: a password is accepted exactly
  when Argon2 gives the stored key for it, so the password it was made from is always accepted.\<close>

theorem password_roundtrip:
  assumes "hash_password ap pw s = (Inr h, s')" "in_int64 (int (ap_argon_version ap))"
    "\<And>p x t m n k. length (ap_argon ap p x t m n k) = k"
  shows "\<exists>salt. ap_rand ap (serial (store (io_site s))) 16 = Some salt \<and> verify_password ap pw h = Some True \<and>
    (\<forall>pw'. verify_password ap pw' h =
       Some (ap_argon ap pw' salt 1 (64 * 1024) 2 32 = ap_argon ap pw salt 1 (64 * 1024) 2 32))"
proof -
  obtain salt where r: "ap_rand ap (serial (store (io_site s))) 16 = Some salt"
    and h: "h = phc_text (ap_argon_version ap) salt (ap_argon ap pw salt argon_time argon_memory argon_threads argon_key_len)"
    using assms(1)
    by (auto simp: hash_password_def bind_Inr draw_def next_serial_def argon_salt_len_def Let_def split: option.splits)
  have "scan_version (''v='' @ show_nat (ap_argon_version ap)) = Some (int (ap_argon_version ap))"
    using scan_int_show[OF assms(2)] by (simp add: scan_version_def scan_lit_def)
  then have sv: "scan_version (CHR ''v'' # CHR ''='' # show_nat (ap_argon_version ap)) = Some (int (ap_argon_version ap))" by simp
  have v: "verify_password ap p h = Some (
      ap_argon ap p salt argon_time argon_memory argon_threads (length (ap_argon ap pw salt argon_time argon_memory argon_threads argon_key_len)) =
      ap_argon ap pw salt argon_time argon_memory argon_threads argon_key_len)" for p
    unfolding h verify_password_def phc_parts by (simp add: scan_costs_phc b64_decode_encode sv)
  have n: "argon_memory = 64 * 1024" "argon_time = 1" "argon_threads = 2" "argon_key_len = 32"
    by (simp_all only: argon_memory_def argon_time_def argon_threads_def argon_key_len_def)
  show ?thesis using r v[unfolded n] by (simp add: assms(3))
qed

text \<open>An organization with one owner, an admin session, a project and its key.\<close>

definition acme_site :: "string \<Rightarrow> site" where
  "acme_site h = (site_of (empty_db\<lparr>
       projects := [\<lparr>p_id = ''p1'', p_org = ''o1'', p_name = ''Web'', p_slug = ''web'', p_platform = ''javascript''\<rparr>],
       ingest_keys := [\<lparr>k_id = ''k1'', k_project = ''p1'', k_name = ''Default'', k_created = 0, k_revoked = False\<rparr>]\<rparr>))\<lparr>
     orgs := [\<lparr>o_id = ''o1'', o_name = ''Acme'', o_slug = ''acme''\<rparr>],
     users := [\<lparr>us_id = ''u1'', us_email = ''a@b'', us_name = ''Ann'', us_hash = ''x'', us_verified = True, us_reset = None, us_reset_expires = None\<rparr>],
     memberships := [\<lparr>mb_id = ''m1'', mb_org = ''o1'', mb_user = ''u1'', mb_role = ''owner'', mb_created = 0\<rparr>],
     auth_sessions := [\<lparr>ss_id = ''s1'', ss_user = ''u1'', ss_token = h, ss_expires = 60 * day, ss_seen = 0\<rparr>]\<rparr>"

definition io_of :: "site \<Rightarrow> io" where "io_of d = \<lparr>io_site = d, io_calls = 0, io_out = []\<rparr>"

text \<open>An app with a toy Argon2.\<close>

definition witness_app :: app where
  "witness_app = \<lparr>ap_cfg = load_config (\<lambda>_. []), ap_version = ''1'', ap_rand = (\<lambda>i k. Some (replicate k CHR ''r'')),
     ap_argon = (\<lambda>pw salt t m p k. take k (pw @ salt @ replicate k CHR ''x'')), ap_argon_version = 19,
     ap_page = (\<lambda>nm _. nm), ap_time_text = (\<lambda>_. ''now''), ap_collate = (\<lambda>_ _. True), ap_json_err = (\<lambda>_. ''bad'')\<rparr>"

lemma password_roundtrip_witness:
  "\<exists>h. fst (hash_password witness_app ''secret 1'' (io_of (acme_site ''h''))) = Inr h \<and>
     verify_password witness_app ''secret 1'' h = Some True"
proof -
  obtain h s' where h: "hash_password witness_app ''secret 1'' (io_of (acme_site ''h'')) = (Inr h, s')"
    by (simp add: hash_password_def bind_def draw_def next_serial_def Let_def witness_app_def ret_def)
  have "in_int64 (int (ap_argon_version witness_app))" "length (ap_argon witness_app p x t m n k) = k" for p x t m n k
    by (simp_all add: witness_app_def in_int64_def)
  from password_roundtrip[OF h this] show ?thesis using h by auto
qed

subsection \<open>Slugs\<close>

definition slug_char :: "char \<Rightarrow> bool" where "slug_char c \<longleftrightarrow> is_lower_c c \<or> is_digit c \<or> c = CHR ''-''"

definition single_hyphens :: "string \<Rightarrow> bool" where
  "single_hyphens s \<longleftrightarrow> successively (\<lambda>a b. a \<noteq> CHR ''-'' \<or> b \<noteq> CHR ''-'') s"

definition proper_slug :: "string \<Rightarrow> bool" where
  "proper_slug s \<longleftrightarrow> s \<noteq> [] \<and> list_all slug_char s \<and> hd s \<noteq> CHR ''-'' \<and> last s \<noteq> CHR ''-'' \<and> single_hyphens s"

definition slug_inv :: "string \<times> bool \<Rightarrow> bool" where
  "slug_inv st \<longleftrightarrow> (case st of (b, h) \<Rightarrow> list_all slug_char b \<and> (b \<noteq> [] \<longrightarrow> hd b \<noteq> CHR ''-'') \<and> single_hyphens b \<and>
     (h \<longleftrightarrow> b = [] \<or> last b = CHR ''-''))"

lemma not_hyphen: "is_lower_c c \<or> is_digit c \<Longrightarrow> c \<noteq> CHR ''-''"
  by (auto simp: is_lower_c_def is_digit_def)

lemma slug_inv_step: "slug_inv st \<Longrightarrow> slug_inv (slug_step r st)"
proof -
  assume i: "slug_inv st"
  obtain b h where st: "st = (b, h)" by (cases st)
  show ?thesis
    using i not_hyphen[of r] unfolding st
    by (cases "b = []") (auto simp: slug_inv_def slug_step_def slug_char_def single_hyphens_def successively_append_iff)
qed

lemma slug_inv_fold: "slug_inv st \<Longrightarrow> slug_inv (fold slug_step s st)"
  by (induction s arbitrary: st) (auto simp: slug_inv_step)

lemma trim_single:
  assumes "single_hyphens b" "b \<noteq> []" "hd b \<noteq> CHR ''-''"
  shows "trim_right (\<lambda>c. c = CHR ''-'') b = (if last b = CHR ''-'' then butlast b else b)"
proof -
  obtain x c where b: "b = x @ [c]" using assms(2) by (metis rev_exhaust)
  show ?thesis
  proof (cases "c = CHR ''-''")
    case True
    then have "x \<noteq> []" "last x \<noteq> CHR ''-''" using assms b by (auto simp: single_hyphens_def successively_append_iff)
    then have "trim_right (\<lambda>c. c = CHR ''-'') x = x" by (simp add: trim_right_eq)
    then show ?thesis using True b by (simp add: trim_right_def)
  qed (simp add: b trim_right_eq)
qed

lemma fold_proper:
  "slug_inv (b, h) \<Longrightarrow> list_all slug_char s \<Longrightarrow> single_hyphens (b @ s) \<Longrightarrow> b @ s = [] \<or> hd (b @ s) \<noteq> CHR ''-'' \<Longrightarrow>
   fst (fold slug_step s (b, h)) = b @ s"
proof (induction s arbitrary: b h)
  case (Cons c s)
  have "slug_step c (b, h) = (b @ [c], c = CHR ''-'')"
    using Cons.prems not_hyphen[of c]
    by (cases "b = []") (auto simp: slug_step_def slug_inv_def slug_char_def single_hyphens_def successively_append_iff)
  moreover have "slug_inv (b @ [c], c = CHR ''-'')" using slug_inv_step[OF Cons.prems(1), of c] calculation by simp
  ultimately show ?case using Cons.IH[of "b @ [c]" "c = CHR ''-''"] Cons.prems by simp
qed simp

lemma slug_chars_kept: "list_all slug_char s \<Longrightarrow> to_lower s = s \<and> trim_space s = s"
proof -
  assume c: "list_all slug_char s"
  have l: "lower_c c = c \<and> \<not> is_space_c c" if "slug_char c" for c
    using that by (auto simp: slug_char_def lower_c_def is_upper_c_def is_lower_c_def is_digit_def is_space_c_def)
  have "trim_left is_space_c s = s" using c l by (cases s) (auto simp: trim_left_def)
  moreover have "s = [] \<or> \<not> is_space_c (last s)" using c l by (metis last_in_set list_all_iff)
  then have "trim_right is_space_c s = s" by (rule trim_right_eq)
  ultimately show ?thesis using c l by (simp add: trim_space_def to_lower_def list_all_iff map_idI)
qed

text \<open>A slug is never empty, consists of lower-case letters, digits and single hyphens with none at its ends (so
  it is one path segment of a URL), and slugging it again gives it back.\<close>

theorem slugs_proper: "proper_slug (slugify name) \<and> slugify (slugify name) = slugify name"
proof -
  have inv0: "slug_inv ([], True)" by (simp add: slug_inv_def single_hyphens_def)
  have p: "proper_slug (slugify name)" for name
  proof -
    obtain b h where b: "fold slug_step (to_lower (trim_space name)) ([], True) = (b, h)" by fastforce
    with slug_inv_fold[OF inv0] have i: "slug_inv (b, h)" by metis
    show ?thesis
    proof (cases "b = []")
      case True
      have "proper_slug ''item''" by code_simp
      then show ?thesis using True b by (simp add: slugify_def trim_left_def trim_right_def)
    next
      case False
      with i have hd: "hd b \<noteq> CHR ''-''" "single_hyphens b" "list_all slug_char b" by (auto simp: slug_inv_def)
      have l: "trim_left (\<lambda>c. c = CHR ''-'') b = b" using hd(1) False by (cases b) (auto simp: trim_left_def)
      have t: "slugify name = (let t = (if last b = CHR ''-'' then butlast b else b) in if t = [] then ''item'' else t)"
        using b by (simp add: slugify_def l trim_single[OF hd(2) False hd(1)])
      obtain x c where x: "b = x @ [c]" using False by (metis rev_exhaust)
      show ?thesis
      proof (cases "c = CHR ''-''")
        case True
        then have "x \<noteq> []" "last x \<noteq> CHR ''-''" using hd x by (auto simp: single_hyphens_def successively_append_iff)
        then show ?thesis using t hd x True by (auto simp: proper_slug_def single_hyphens_def successively_append_iff)
      qed (use t hd x in \<open>simp add: proper_slug_def\<close>)
    qed
  qed
  have f: "slugify s = s" if "proper_slug s" for s
  proof -
    have c: "list_all slug_char s" "s \<noteq> []" "hd s \<noteq> CHR ''-''" "last s \<noteq> CHR ''-''" "single_hyphens s"
      using that by (auto simp: proper_slug_def)
    have "fst (fold slug_step s ([], True)) = s" using fold_proper[OF inv0 c(1)] c by simp
    moreover have "trim_left (\<lambda>c. c = CHR ''-'') s = s" using c(2,3) by (cases s) (auto simp: trim_left_def)
    ultimately show ?thesis using c slug_chars_kept[OF c(1)] by (simp add: slugify_def trim_right_eq)
  qed
  show ?thesis using p f by blast
qed

end
