(* ===== verification/TenancyProps.thy ===== *)
theory TenancyProps
  imports Accounts AuthProps SiteSamples
begin

section \<open>What every request keeps of the tenants' tables\<close>

text \<open>
  Locales that lift an invariant of the SQL statements to every request that sends them, layer by layer, and their
  first instance: the types of the tenants' tables.
\<close>

subsection \<open>Invariants of statements and requests\<close>

definition stmt_keeps :: "(site \<Rightarrow> bool) \<Rightarrow> 'a query \<Rightarrow> bool" where
  "stmt_keeps J q \<longleftrightarrow> (\<forall>d a d'. J d \<longrightarrow> q d = Some (a, d') \<longrightarrow> J d')"

lemma stmt_keepsI: "(\<And>d a d'. J d \<Longrightarrow> q d = Some (a, d') \<Longrightarrow> J d') \<Longrightarrow> stmt_keeps J q"
  by (auto simp: stmt_keeps_def)

lemma stmt_keeps_select [steady_intros]: "stmt_keeps J (select f)"
  by (simp add: stmt_keeps_def)

lemma stmt_keeps_uuid [steady_intros]: "(\<And>v. stmt_keeps J (q v)) \<Longrightarrow> stmt_keeps J (with_uuid w u q)"
  by (auto simp: stmt_keeps_def with_uuid_def split: option.splits)

lemma stmt_keeps_texts [steady_intros]: "stmt_keeps J q \<Longrightarrow> stmt_keeps J (with_texts ts q)"
  by (auto simp: stmt_keeps_def with_texts_def split: if_splits)

lemma steady_stmt [steady_intros]: "stmt_keeps J q \<Longrightarrow> steady (on_site J) (query w n q)"
  by (rule steady_query) (auto simp: stmt_keeps_def)

lemma steady_stmt_row [steady_intros]: "stmt_keeps J q \<Longrightarrow> steady (on_site J) (query_row w n q)"
  by (rule steady_query_row) (auto simp: stmt_keeps_def)

lemma steady_or_answer [steady_intros]: "steady I m \<Longrightarrow> steady I (or_answer f m)"
  unfolding steady_def or_answer_def by (auto split: prod.splits sum.splits)

lemma steady_prod [steady_intros]: "(\<And>a b. steady I (f a b)) \<Longrightarrow> steady I (case x of (a, b) \<Rightarrow> f a b)"
  by (cases x) simp

lemma steady_sum [steady_intros]: "(\<And>a. steady I (f a)) \<Longrightarrow> (\<And>b. steady I (g b)) \<Longrightarrow> steady I (case x of Inl a \<Rightarrow> f a | Inr b \<Rightarrow> g b)"
  by (cases x) simp_all

lemma steady_ends [steady_intros]: "steady I (deny c m)" "steady I (error_page ap st nm ti e)" "steady I (go_to u rq)"
  "steady I (login_error ap st e)" "steady I (setup_error ap e)" "steady I (signup_error ap e)"
  by (simp_all add: deny_def error_page_def go_to_def login_error_def setup_error_def signup_error_def steady_fail)

lemma steady_the [steady_intros]: "steady I (the_org x)" "steady I (the_user cx)" "steady I (the_proj p)"
  by (auto simp: the_org_def the_user_def the_proj_def intro!: steady_intros split: option.split)

lemma steady_run500 [steady_intros]: "stmt_keeps J q \<Longrightarrow> steady (on_site J) (run500 w n q)"
  unfolding run500_def by (intro steady_intros)

lemma steady_lookups [steady_intros]: "steady (on_site J) (org_from_path w n rq)" "steady (on_site J) (project_from_path w n rq)"
  "steady (on_site J) (user_count w n)"
  unfolding org_from_path_def project_from_path_def user_count_def by (intro steady_intros)+

lemma steady_decode [steady_intros]: "steady I (decode_body ap dc z rq)"
  unfolding decode_body_def by (intro steady_intros)

lemma steady_setup_error [steady_intros]: "steady I m \<Longrightarrow> steady I (or_setup_error ap p m)"
  unfolding or_setup_error_def by (intro steady_intros)

lemma steady_mail [steady_intros]: "steady (on_site J) (send_mail n cfg rcpt subject body)"
  by (auto simp: steady_def send_mail_def Let_def split: option.split)

subsection \<open>What the handlers see to before they store\<close>

definition named :: "string \<Rightarrow> bool" where "named t \<longleftrightarrow> t \<noteq> [] \<and> trim_space t = t"

definition address :: "string \<Rightarrow> bool" where "address t \<longleftrightarrow> named t \<and> to_lower t = t"

definition hashed :: "string \<Rightarrow> bool" where "hashed h \<longleftrightarrow> length h = 64 \<and> is_hex h"

definition stored_password :: "string \<Rightarrow> bool" where "stored_password h \<longleftrightarrow> (\<exists>version salt key. h = phc_text version salt key)"

definition token_prefix :: "string \<Rightarrow> bool" where "token_prefix p \<longleftrightarrow> has_prefix p api_prefix \<and> length p \<le> 12"

lemma named_trim: "trim_space t \<noteq> [] \<Longrightarrow> named (trim_space t)"
  by (simp add: named_def)

lemma trim_lower: "trim_space (to_lower t) = to_lower (trim_space t)"
  by (simp add: trim_space_def trim_left_def trim_right_def to_lower_def dropWhile_map rev_map comp_def)

lemma address_form: "to_lower (trim_space t) \<noteq> [] \<Longrightarrow> address (to_lower (trim_space t))"
  by (simp add: address_def named_def trim_lower)

lemma named_key: "named (trim_space (if trim_space t = [] then ''Key '' @ u else t))"
proof -
  have "\<not> is_space_c CHR ''K''" by code_simp
  then have "trim_space (CHR ''K'' # v) \<noteq> []" for v
    by (simp add: trim_space_def trim_left_def trim_right_def dropWhile_eq_Nil_conv)
  then show ?thesis by (auto simp: named_def)
qed

lemma named_default: "named ''Default''"
  by (simp add: named_def) code_simp

lemma hashed_token: "hashed (hash_token t)"
proof -
  have "is_hex hex_digits" by code_simp
  then have "is_hex (sha256_hex t)" using set_hex_encode[of "sha256 t"] by (auto simp: is_hex_def list_all_iff sha256_hex_def)
  then show ?thesis by (simp add: hashed_def hash_token_def)
qed

text \<open>An invariant that does not look at the supply of ids: rollbacks and draws keep it.\<close>

locale site_inv =
  fixes J :: "site \<Rightarrow> bool"
  assumes J_serial: "J d \<Longrightarrow> J (d\<lparr>store := (store d)\<lparr>serial := k\<rparr>\<rparr>)"
begin

lemma steady_draw: "steady (on_site J) (draw ap k)"
  using J_serial by (auto simp: steady_def draw_def next_serial_def Let_def split: option.split)

lemma steady_uuid: "steady (on_site J) (new_uuid w)"
  using J_serial by (auto simp: steady_def new_uuid_def next_serial_def Let_def)

lemma steady_tx: "steady (on_site J) m \<Longrightarrow> steady (on_site J) (in_tx w n m)"
  unfolding steady_def
proof (intro allI impI)
  fix s :: io
  assume m: "\<forall>s. on_site J s \<longrightarrow> on_site J (snd (m s))" and s: "on_site J s"
  obtain r s' where r: "m (called s) = (r, s')" by fastforce
  have "on_site J s'" using m s r by (metis called_simps(1) snd_conv)
  then show "on_site J (snd (in_tx w n m s))"
    using s J_serial by (cases r) (simp_all add: in_tx_def r rollback_def)
qed

lemma steady_tokens: "steady (on_site J) (new_token ap)" "steady (on_site J) (new_api_token ap)"
  "steady (on_site J) (token_or_empty ap)" "steady (on_site J) (hash_password ap pw)"
  unfolding new_token_def new_api_token_def token_or_empty_def hash_password_def Let_def
  by (intro steady_intros steady_draw)+

lemmas draws = steady_draw steady_uuid steady_tx steady_tokens

lemma steady_password:
  assumes "\<And>h. stored_password h \<Longrightarrow> steady (on_site J) (f h)"
  shows "steady (on_site J) (bind (or_answer g (hash_password ap pw)) f)"
  unfolding steady_def
proof (intro allI impI)
  fix s :: io
  assume s: "on_site J s"
  let ?s = "snd (next_serial s)"
  have p: "stored_password (phc_text v a k)" for v a k by (auto simp: stored_password_def)
  have "on_site J ?s" using s J_serial by (simp add: next_serial_def Let_def)
  then show "on_site J (snd (bind (or_answer g (hash_password ap pw)) f s))"
    using assms[OF p] by (cases "ap_rand ap (fst (next_serial s)) argon_salt_len")
      (auto simp: bind_def or_answer_def hash_password_def draw_def ret_def steady_def split_beta)
qed

lemma steady_api_token:
  assumes "\<And>full p. token_prefix p \<Longrightarrow> steady (on_site J) (f full p)"
  shows "steady (on_site J) (bind (or_answer g (new_api_token ap)) (\<lambda>(full, p). f full p))"
  unfolding steady_def
proof (intro allI impI)
  fix s :: io
  assume s: "on_site J s"
  let ?s = "snd (next_serial s)"
  have J: "on_site J ?s" using s J_serial by (simp add: next_serial_def Let_def)
  have p: "token_prefix (take 12 (''bghan_'' @ t))" for t by (simp add: token_prefix_def api_prefix_def has_prefix_def)
  show "on_site J (snd (bind (or_answer g (new_api_token ap)) (\<lambda>(full, p). f full p) s))"
    using assms[OF p] J by (cases "ap_rand ap (fst (next_serial s)) 24")
      (auto simp: bind_def or_answer_def new_api_token_def draw_def ret_def steady_def api_prefix_def Let_def split_beta)
qed

end

text \<open>
  The statements by who sends them: every request notes that it was made, the tenancy API adds rows and revokes
  keys, members are removed, and the account pages do the rest.  An invariant kept by the statements, with arguments
  as the handlers prepare them, is kept by the requests that send them.
\<close>

locale request_inv = site_inv +
  assumes J_seen: "stmt_keeps J (q_slide w h)" "stmt_keeps J (q_touch_token w h)"
begin

lemma steady_session_user: "steady (on_site J) (session_user w n rq)"
  unfolding session_user_def Let_def by (intro steady_intros J_seen)

lemma steady_principal: "(\<And>cx. steady (on_site J) (inner cx)) \<Longrightarrow> steady (on_site J) (load_principal w n inner rq)"
  unfolding load_principal_def user_for_token_def user_for_session_def Let_def
  by (intro steady_intros draws J_seen steady_session_user) simp_all

lemma steady_guards:
  "(\<And>cx rq. steady (on_site J) (h cx rq)) \<Longrightarrow> steady (on_site J) (require_auth h cx rq)"
  "(\<And>cx rq. steady (on_site J) (h cx rq)) \<Longrightarrow> steady (on_site J) (require_csrf h cx rq)"
  "(\<And>cx rq. steady (on_site J) (h cx rq)) \<Longrightarrow> steady (on_site J) (require_org w n mr h cx rq)"
  "(\<And>cx rq. steady (on_site J) (h cx rq)) \<Longrightarrow> steady (on_site J) (require_project w n mr h cx rq)"
  unfolding require_auth_def require_csrf_def require_org_def require_project_def Let_def by (intro steady_intros; simp)+

lemma principal_keeps:
  assumes "\<And>cx. steady (on_site J) (inner cx)" "J (io_site s)"
  shows "J (io_site (snd (finish (load_principal w n inner rq) s)))"
proof -
  have "io_site (snd (finish m s)) = io_site (snd (m s))" for m
    by (auto simp: finish_def split: prod.split sum.split abort.split)
  then show ?thesis using steady_principal[OF assms(1)] assms(2) by (simp add: steady_def)
qed

end

locale tenancy_inv = request_inv +
  assumes J_token: "named name \<Longrightarrow> token_prefix pre \<Longrightarrow> scope = ''read'' \<or> scope = ''write'' \<Longrightarrow>
        stmt_keeps J (q_create_token w i uid name (hash_token full) pre scope)"
      "stmt_keeps J (q_revoke_token i uid)"
    and J_org: "named name \<Longrightarrow> stmt_keeps J (q_create_org i name (slugify raw))" "stmt_keeps J (q_add_member w i oid uid ''owner'')"
    and J_invite: "address email \<Longrightarrow> role = ''admin'' \<or> role = ''member'' \<Longrightarrow>
        stmt_keeps J (q_create_invite w i oid email role (hash_token raw) uid)"
      "stmt_keeps J (q_delete_invite i oid)"
    and J_project: "named name \<Longrightarrow> platform \<noteq> [] \<Longrightarrow> stmt_keeps J (q_create_project i oid name (slugify raw) platform)"
    and J_key: "named name \<Longrightarrow> stmt_keeps J (q_create_key w i pid name)" "stmt_keeps J (q_revoke_key i pid)"
begin

lemma steady_org_handlers: "steady (on_site J) (handle_not_found cx rq)" "steady (on_site J) (handle_whoami ap cx rq)"
  "steady (on_site J) (handle_list_orgs ap w n cx rq)" "steady (on_site J) (handle_create_org ap w n cx rq)"
  "steady (on_site J) (handle_org_detail w n cx rq)" "steady (on_site J) (handle_list_members ap w n cx rq)"
  unfolding handle_not_found_def handle_whoami_def handle_list_orgs_def handle_create_org_def handle_org_detail_def
    handle_list_members_def Let_def
  by ((intro J_org named_trim steady_intros draws; simp)+)

lemma steady_invite_handlers: "steady (on_site J) (handle_create_invite ap w n cx rq)"
  "steady (on_site J) (handle_list_invites ap w n cx rq)" "steady (on_site J) (handle_delete_invite w n cx rq)"
  unfolding handle_create_invite_def handle_list_invites_def handle_delete_invite_def Let_def
  by ((intro J_invite address_form steady_intros draws; auto)+)

lemma steady_project_handlers: "steady (on_site J) (handle_list_projects ap w n cx rq)"
  "steady (on_site J) (handle_create_project ap w n cx rq)" "steady (on_site J) (handle_project_detail ap w n cx rq)"
  "steady (on_site J) (handle_list_keys ap w n cx rq)" "steady (on_site J) (handle_create_key ap w n cx rq)"
  "steady (on_site J) (handle_revoke_key w n cx rq)"
  unfolding handle_list_projects_def handle_create_project_def handle_project_detail_def handle_list_keys_def
    handle_create_key_def handle_revoke_key_def Let_def
  by ((intro J_project J_key named_trim named_key named_default steady_intros draws; simp)+)

lemma steady_token_handlers: "steady (on_site J) (handle_list_tokens ap w n cx rq)"
  "steady (on_site J) (handle_create_token ap w n cx rq)" "steady (on_site J) (handle_revoke_token w n cx rq)"
  unfolding handle_list_tokens_def handle_create_token_def handle_revoke_token_def Let_def
  by ((intro J_token named_trim steady_api_token steady_intros draws; auto split: if_splits)+)

lemma steady_tenancy:
  "(\<And>cx rq. r = Remove_member \<Longrightarrow> steady (on_site J) (handle_remove_member w n cx rq)) \<Longrightarrow> steady (on_site J) (tenancy ap w n r cx rq)"
  by (cases r) (simp_all add: tenancy_def steady_guards steady_org_handlers steady_invite_handlers steady_project_handlers
      steady_token_handlers)

end

locale account_inv = tenancy_inv +
  assumes J_session: "stmt_keeps J (q_create_session w (hash_token raw) uid)" "stmt_keeps J (q_destroy h)"
    and J_user: "named name \<Longrightarrow> stmt_keeps J (q_setup_org i name (slugify raw))"
      "named name \<Longrightarrow> address email \<Longrightarrow> stored_password h \<Longrightarrow> stmt_keeps J (q_create_user i email name h verified)"
      "stmt_keeps J (q_set_reset uid (hash_token raw) t)"
begin

lemmas stmts = J_org J_session J_user

lemma steady_log_in: "steady (on_site J) (log_in ap w n uid rq)"
  unfolding log_in_def create_session_def by (intro steady_intros draws J_session)

lemma steady_pages: "steady (on_site J) (handle_root cx rq)" "steady (on_site J) (page_setup ap w n cx rq)"
  "steady (on_site J) (page_login ap w n cx rq)" "steady (on_site J) (page_signup ap cx rq)"
  "steady (on_site J) (page_forgot ap cx rq)" "steady (on_site J) (page_reset ap cx rq)"
  "steady (on_site J) (page_accept_invite ap w n cx rq)" "steady (on_site J) (page_landing ap w n cx rq)"
  unfolding handle_root_def page_setup_def page_login_def page_signup_def page_forgot_def page_reset_def
    page_accept_invite_def page_landing_def Let_def
  by (intro steady_intros)+

lemma steady_forms: "steady (on_site J) (post_setup ap w n cx rq)" "steady (on_site J) (post_login ap w n cx rq)"
  "steady (on_site J) (post_logout w n cx rq)" "steady (on_site J) (post_signup ap w n cx rq)"
  "steady (on_site J) (post_forgot ap w n cx rq)" "steady (on_site J) (post_new_org ap w n cx rq)"
  unfolding post_setup_def post_login_def post_logout_def post_signup_def post_forgot_def post_new_org_def
    destroy_session_def form_email_def Let_def
  by ((intro stmts named_trim address_form steady_password steady_intros draws steady_log_in steady_org_handlers; auto)+)

lemma steady_accounts:
  assumes "\<And>cx rq. r = Post_accept \<Longrightarrow> steady (on_site J) (post_accept_invite ap w n cx rq)"
    "\<And>cx rq. r = Post_reset \<Longrightarrow> steady (on_site J) (post_reset ap w n cx rq)"
  shows "steady (on_site J) (accounts ap w n r cx rq)"
  using assms by (cases r) (simp_all add: accounts_def steady_guards steady_pages steady_forms)

end

locale every_inv = account_inv +
  assumes J_remove: "stmt_keeps J (q_delete_member i)" "stmt_keeps J (q_drop_sessions uid)"
    and J_join: "stmt_keeps J (q_join w i oid role uid)" "stmt_keeps J (q_accept w i)"
    and J_reset: "stored_password new_hash \<Longrightarrow> stmt_keeps J (q_reset w h new_hash)"
begin

lemma steady_rest: "steady (on_site J) (handle_remove_member w n cx rq)" "steady (on_site J) (post_reset ap w n cx rq)"
  "steady (on_site J) (post_accept_invite ap w n cx rq)"
  unfolding handle_remove_member_def post_reset_def post_accept_invite_def Let_def
  by ((intro J_remove J_join J_reset steady_password steady_intros draws; assumption?)+)

lemma serve_keeps:
  "J (io_site s) \<Longrightarrow> J (io_site (snd (serve_tenancy ap w n r rq s)))"
  "J (io_site s) \<Longrightarrow> J (io_site (snd (serve_account ap w n r' rq s)))"
  unfolding serve_tenancy_def serve_account_def
  by (rule principal_keeps, rule steady_tenancy steady_accounts, (rule steady_rest)+, assumption)+

end

subsection \<open>The tenants' tables are well typed\<close>

text \<open>Primary keys, unique constraints, references and the sets of values of the schema, table by table.\<close>

definition members_ok :: "uuid set \<Rightarrow> uuid set \<Rightarrow> membership_row list \<Rightarrow> bool" where
  "members_ok os us ms \<longleftrightarrow> key_ok mb_id ms \<and> key_ok (\<lambda>m. (mb_org m, mb_user m)) ms \<and>
     (\<forall>m\<in>set ms. valid_role (mb_role m) \<and> mb_org m \<in> os \<and> mb_user m \<in> us)"

definition invites_ok :: "uuid set \<Rightarrow> uuid set \<Rightarrow> invitation_row list \<Rightarrow> bool" where
  "invites_ok os us vs \<longleftrightarrow> key_ok iv_id vs \<and> key_ok iv_token vs \<and>
     (\<forall>v\<in>set vs. (iv_role v = ''admin'' \<or> iv_role v = ''member'') \<and> iv_org v \<in> os \<and> iv_by v \<in> us)"

definition projects_ok :: "uuid set \<Rightarrow> project_row list \<Rightarrow> bool" where
  "projects_ok os ps \<longleftrightarrow> key_ok p_id ps \<and> key_ok (\<lambda>p. (p_org p, p_slug p)) ps \<and> (\<forall>p\<in>set ps. p_org p \<in> os)"

definition ingest_keys_ok :: "uuid set \<Rightarrow> ingest_key_row list \<Rightarrow> bool" where
  "ingest_keys_ok ps ks \<longleftrightarrow> key_ok k_id ks \<and> (\<forall>k\<in>set ks. k_project k \<in> ps)"

definition tokens_ok :: "uuid set \<Rightarrow> api_token_row list \<Rightarrow> bool" where
  "tokens_ok us ts \<longleftrightarrow> key_ok tk_id ts \<and> key_ok tk_token ts \<and>
     (\<forall>t\<in>set ts. (tk_scope t = ''read'' \<or> tk_scope t = ''write'') \<and> tk_user t \<in> us)"

definition sessions_ok :: "uuid set \<Rightarrow> auth_session_row list \<Rightarrow> bool" where
  "sessions_ok us rs \<longleftrightarrow> key_ok ss_id rs \<and> key_ok ss_token rs \<and> (\<forall>r\<in>set rs. ss_user r \<in> us)"

definition tenants_ok :: "site \<Rightarrow> bool" where
  "tenants_ok d \<longleftrightarrow> key_ok o_id (orgs d) \<and> key_ok o_slug (orgs d) \<and> key_ok us_id (users d) \<and> key_ok us_email (users d) \<and>
     members_ok (o_id ` set (orgs d)) (us_id ` set (users d)) (memberships d) \<and>
     invites_ok (o_id ` set (orgs d)) (us_id ` set (users d)) (invitations d) \<and>
     projects_ok (o_id ` set (orgs d)) (projects (store d)) \<and>
     ingest_keys_ok (p_id ` set (projects (store d))) (ingest_keys (store d)) \<and>
     tokens_ok (us_id ` set (users d)) (api_tokens d) \<and> sessions_ok (us_id ` set (users d)) (auth_sessions d)"

lemma map_key: "(\<And>r. key (upd r) = key r) \<Longrightarrow> map key (update_where hit upd rs) = map key rs"
  by (simp add: update_where_def)

lemma key_image: "(\<And>r. key (upd r) = key r) \<Longrightarrow> key ` set (update_where hit upd rs) = key ` set rs"
  using map_key[of key upd hit rs] by (metis set_map)

lemma key_update: "(\<And>r. key (upd r) = key r) \<Longrightarrow> key_ok key (update_where hit upd rs) \<longleftrightarrow> key_ok key rs"
  by (simp add: key_ok_def map_key)

lemma all_update:
  assumes "\<And>r. P (upd r) \<longleftrightarrow> P r"
  shows "(\<forall>x\<in>set (update_where hit upd rs). P x) \<longleftrightarrow> (\<forall>x\<in>set rs. P x)"
proof -
  have "P (if hit r then upd r else r) \<longleftrightarrow> P r" for r by (simp add: assms)
  then have "list_all P (update_where hit upd rs) \<longleftrightarrow> list_all P rs" by (simp add: update_where_def list.pred_map comp_def)
  then show ?thesis by (simp add: list_all_iff)
qed

lemmas update_simps = key_image key_update all_update

lemma bigger:
  "members_ok os us ms \<Longrightarrow> members_ok (insert x os) us ms" "members_ok os us ms \<Longrightarrow> members_ok os (insert x us) ms"
  "invites_ok os us vs \<Longrightarrow> invites_ok (insert x os) us vs" "invites_ok os us vs \<Longrightarrow> invites_ok os (insert x us) vs"
  "projects_ok os ps \<Longrightarrow> projects_ok (insert x os) ps" "ingest_keys_ok pids ks \<Longrightarrow> ingest_keys_ok (insert x pids) ks"
  "tokens_ok us ts \<Longrightarrow> tokens_ok (insert x us) ts" "sessions_ok us rs \<Longrightarrow> sessions_ok (insert x us) rs"
  by (auto simp: members_ok_def invites_ok_def projects_ok_def ingest_keys_ok_def tokens_ok_def sessions_ok_def)

lemma key_tests:
  "list_ex (\<lambda>r. f r = k) rs \<longleftrightarrow> k \<in> f ` set rs"
  "list_ex (\<lambda>r. f r = k \<or> g r = l) rs \<longleftrightarrow> k \<in> f ` set rs \<or> l \<in> g ` set rs"
  "list_ex (\<lambda>r. f r = k \<or> g r = a \<and> h r = b) rs \<longleftrightarrow> k \<in> f ` set rs \<or> (a, b) \<in> (\<lambda>r. (g r, h r)) ` set rs"
  "get_key f k rs = None \<longleftrightarrow> k \<notin> f ` set rs"
  "find (\<lambda>r. f r = k) rs = None \<longleftrightarrow> k \<notin> f ` set rs"
  "find (\<lambda>r. g r = a \<and> h r = b) rs = None \<longleftrightarrow> (a, b) \<notin> (\<lambda>r. (g r, h r)) ` set rs"
  by (auto simp: list_ex_iff get_key_None find_None_iff)

lemmas stmt_simps = key_tests with_texts_def Let_def

lemma ok_session: "stmt_keeps tenants_ok (q_create_session w h uid)" "stmt_keeps tenants_ok (q_slide w h)"
  "stmt_keeps tenants_ok (q_destroy h)" "stmt_keeps tenants_ok (q_drop_sessions uid)"
proof -
  show "stmt_keeps tenants_ok (q_create_session w h uid)"
    by (rule stmt_keepsI) (auto simp: tenants_ok_def sessions_ok_def q_create_session_def stmt_simps split: if_splits)
  show "stmt_keeps tenants_ok (q_slide w h)"
  proof -
    have "tenants_ok (d\<lparr>auth_sessions := update_where hit (\<lambda>r. r\<lparr>ss_expires := e, ss_seen := t\<rparr>) (auth_sessions d)\<rparr>)"
      if "tenants_ok d" for d hit e t using that by (simp add: tenants_ok_def sessions_ok_def update_simps)
    then show ?thesis by (auto simp: stmt_keeps_def q_slide_def)
  qed
  show "stmt_keeps tenants_ok (q_destroy h)" "stmt_keeps tenants_ok (q_drop_sessions uid)"
    by (rule stmt_keepsI, auto simp: tenants_ok_def sessions_ok_def q_destroy_def q_drop_sessions_def delete_where_def)+
qed

lemma ok_token: "stmt_keeps tenants_ok (q_touch_token w h)" "stmt_keeps tenants_ok (q_create_token w i uid name h pre scope)"
  "stmt_keeps tenants_ok (q_revoke_token i uid)"
proof -
  have "tenants_ok (d\<lparr>api_tokens := update_where hit (\<lambda>t. t\<lparr>tk_used := u\<rparr>) (api_tokens d)\<rparr>)"
    "tenants_ok (d\<lparr>api_tokens := update_where hit (\<lambda>t. t\<lparr>tk_revoked := b\<rparr>) (api_tokens d)\<rparr>)"
    if "tenants_ok d" for d hit u b using that by (simp_all add: tenants_ok_def tokens_ok_def update_simps)
  then show "stmt_keeps tenants_ok (q_touch_token w h)" "stmt_keeps tenants_ok (q_revoke_token i uid)"
    by (auto simp: stmt_keeps_def q_touch_token_def q_revoke_token_def)
  show "stmt_keeps tenants_ok (q_create_token w i uid name h pre scope)"
    by (rule stmt_keepsI) (auto simp: tenants_ok_def tokens_ok_def q_create_token_def stmt_simps split: if_splits)
qed

lemma ok_org: "stmt_keeps tenants_ok (q_create_org i name slug)" "stmt_keeps tenants_ok (q_setup_org i name slug)"
proof -
  have new: "tenants_ok (d\<lparr>orgs := orgs d @ [\<lparr>o_id = i, o_name = name, o_slug = slug\<rparr>]\<rparr>)"
    if "tenants_ok d" "i \<notin> o_id ` set (orgs d)" "slug \<notin> o_slug ` set (orgs d)" for d
    using that by (simp add: tenants_ok_def bigger)
  then show "stmt_keeps tenants_ok (q_create_org i name slug)"
    by (intro stmt_keepsI) (auto simp: q_create_org_def stmt_simps split: if_splits)
  have "tenants_ok (d\<lparr>orgs := update_where (\<lambda>og. o_slug og = slug) (\<lambda>og. og\<lparr>o_name := name\<rparr>) (orgs d)\<rparr>)"
    if "tenants_ok d" for d
    using that by (simp add: tenants_ok_def update_simps)
  with new show "stmt_keeps tenants_ok (q_setup_org i name slug)"
    by (intro stmt_keepsI) (auto simp: q_setup_org_def stmt_simps split: if_splits option.splits)
qed

lemma ok_member: "stmt_keeps tenants_ok (q_add_member w i oid uid role)" "stmt_keeps tenants_ok (q_join w i oid role uid)"
  "stmt_keeps tenants_ok (q_delete_member i)"
proof -
  have "tenants_ok (d\<lparr>memberships := memberships d @ [m]\<rparr>)"
    if "tenants_ok d" "valid_role (mb_role m)" "mb_org m \<in> o_id ` set (orgs d)" "mb_user m \<in> us_id ` set (users d)"
      "mb_id m \<notin> mb_id ` set (memberships d)" "(mb_org m, mb_user m) \<notin> (\<lambda>m. (mb_org m, mb_user m)) ` set (memberships d)" for d m
    using that by (simp add: tenants_ok_def members_ok_def)
  then show a: "stmt_keeps tenants_ok (q_add_member w i oid uid role)"
    by (intro stmt_keepsI) (auto simp: q_add_member_def stmt_simps split: if_splits)
  have "tenants_ok (d\<lparr>memberships := update_where hit (\<lambda>m. m\<lparr>mb_role := role\<rparr>) (memberships d)\<rparr>)"
    if "tenants_ok d" "valid_role role" for d hit
    using that by (auto simp: tenants_ok_def members_ok_def key_update set_update_where)
  with a show "stmt_keeps tenants_ok (q_join w i oid role uid)"
    unfolding stmt_keeps_def by (auto simp: q_join_def split: if_splits)
  show "stmt_keeps tenants_ok (q_delete_member i)"
    by (rule stmt_keepsI) (auto simp: tenants_ok_def members_ok_def q_delete_member_def delete_where_def)
qed

lemma ok_invite: "stmt_keeps tenants_ok (q_create_invite w i oid email role h uid)" "stmt_keeps tenants_ok (q_delete_invite i oid)"
  "stmt_keeps tenants_ok (q_accept w i)"
proof -
  have "tenants_ok (d\<lparr>invitations := invitations d @ [v]\<rparr>)"
    if "tenants_ok d" "iv_role v = ''admin'' \<or> iv_role v = ''member''" "iv_org v \<in> o_id ` set (orgs d)" "iv_by v \<in> us_id ` set (users d)"
      "iv_id v \<notin> iv_id ` set (invitations d)" "iv_token v \<notin> iv_token ` set (invitations d)" for d v
    using that by (simp add: tenants_ok_def invites_ok_def)
  then show "stmt_keeps tenants_ok (q_create_invite w i oid email role h uid)"
    by (intro stmt_keepsI) (auto simp: q_create_invite_def stmt_simps split: if_splits)
  show "stmt_keeps tenants_ok (q_delete_invite i oid)"
    by (rule stmt_keepsI) (auto simp: tenants_ok_def invites_ok_def q_delete_invite_def delete_where_def)
  show "stmt_keeps tenants_ok (q_accept w i)"
  proof -
    have "tenants_ok (d\<lparr>invitations := update_where hit (\<lambda>v. v\<lparr>iv_accepted := t\<rparr>) (invitations d)\<rparr>)"
      if "tenants_ok d" for d hit t using that by (simp add: tenants_ok_def invites_ok_def update_simps)
    then show ?thesis by (auto simp: stmt_keeps_def q_accept_def)
  qed
qed

lemma ok_project: "stmt_keeps tenants_ok (q_create_project i oid name slug platform)"
proof -
  have new: "tenants_ok (on_projects (\<lambda>ps. ps @ [p]) d)"
    if "tenants_ok d" "p_org p \<in> o_id ` set (orgs d)" "p_id p \<notin> p_id ` set (projects (store d))"
      "(p_org p, p_slug p) \<notin> (\<lambda>p. (p_org p, p_slug p)) ` set (projects (store d))" for d p
    using that by (simp add: tenants_ok_def projects_ok_def on_projects_def bigger)
  have "tenants_ok (on_projects (update_where hit (\<lambda>q. q\<lparr>p_name := name\<rparr>)) d)" if "tenants_ok d" for d hit
    using that by (simp add: tenants_ok_def projects_ok_def on_projects_def update_simps)
  with new show ?thesis
    by (intro stmt_keepsI) (auto simp: q_create_project_def stmt_simps split: if_splits option.splits)
qed

lemma ok_key: "stmt_keeps tenants_ok (q_create_key w i pid name)" "stmt_keeps tenants_ok (q_revoke_key i pid)"
proof -
  show "stmt_keeps tenants_ok (q_create_key w i pid name)"
    by (rule stmt_keepsI) (auto simp: tenants_ok_def ingest_keys_ok_def q_create_key_def on_keys_def project_exists_def stmt_simps
        split: if_splits)
  show "stmt_keeps tenants_ok (q_revoke_key i pid)"
  proof -
    have "tenants_ok (on_keys (update_where hit (\<lambda>k. k\<lparr>k_revoked := True\<rparr>)) d)" if "tenants_ok d" for d hit
      using that by (simp add: tenants_ok_def ingest_keys_ok_def on_keys_def update_simps)
    then show ?thesis by (auto simp: stmt_keeps_def q_revoke_key_def)
  qed
qed

lemma ok_user: "stmt_keeps tenants_ok (q_create_user i email name h verified)" "stmt_keeps tenants_ok (q_set_reset uid h t)"
  "stmt_keeps tenants_ok (q_reset w h new_hash)"
proof -
  have "tenants_ok (d\<lparr>users := users d @ [u]\<rparr>)"
    if "tenants_ok d" "us_id u \<notin> us_id ` set (users d)" "us_email u \<notin> us_email ` set (users d)" for d u
    using that by (simp add: tenants_ok_def bigger)
  then show "stmt_keeps tenants_ok (q_create_user i email name h verified)"
    by (intro stmt_keepsI) (auto simp: q_create_user_def stmt_simps split: if_splits)
  show "stmt_keeps tenants_ok (q_set_reset uid h t)" "stmt_keeps tenants_ok (q_reset w h new_hash)"
    by (rule stmt_keepsI, auto simp: tenants_ok_def q_set_reset_def q_reset_def Let_def update_simps)+
qed

interpretation tenants: every_inv tenants_ok
  by unfold_locales (auto simp: tenants_ok_def ok_session ok_token ok_org ok_member ok_invite ok_project ok_key ok_user)

subsection \<open>The handlers store only tidy rows\<close>

text \<open>What no constraint of the schema asks for: names are trimmed and not empty, addresses lower case, slugs fit in a
  path, and of passwords, tokens and links only a hash is stored (and the first 12 characters of an API token).\<close>

definition users_tidy :: "user_row list \<Rightarrow> bool" where
  "users_tidy us \<longleftrightarrow> (\<forall>u\<in>set us. named (us_name u) \<and> address (us_email u) \<and> stored_password (us_hash u) \<and>
     (case us_reset u of None \<Rightarrow> True | Some h \<Rightarrow> hashed h))"

definition projects_tidy :: "project_row list \<Rightarrow> bool" where
  "projects_tidy ps \<longleftrightarrow> (\<forall>p\<in>set ps. named (p_name p) \<and> proper_slug (p_slug p) \<and> p_platform p \<noteq> [])"

definition tokens_tidy :: "api_token_row list \<Rightarrow> bool" where
  "tokens_tidy ts \<longleftrightarrow> (\<forall>t\<in>set ts. named (tk_name t) \<and> hashed (tk_token t) \<and> token_prefix (tk_prefix t))"

definition tidy :: "site \<Rightarrow> bool" where
  "tidy d \<longleftrightarrow> (\<forall>og\<in>set (orgs d). named (o_name og) \<and> proper_slug (o_slug og)) \<and> users_tidy (users d) \<and>
     projects_tidy (projects (store d)) \<and> (\<forall>k\<in>set (ingest_keys (store d)). named (k_name k)) \<and> tokens_tidy (api_tokens d) \<and>
     (\<forall>v\<in>set (invitations d). address (iv_email v) \<and> hashed (iv_token v)) \<and> (\<forall>r\<in>set (auth_sessions d). hashed (ss_token r))"

lemma slug_proper: "proper_slug (slugify raw)"
  using slugs_proper by blast

lemma tidy_updates:
  assumes "tidy d"
  shows "tidy (d\<lparr>auth_sessions := update_where hit1 (\<lambda>r. r\<lparr>ss_expires := e, ss_seen := t\<rparr>) (auth_sessions d)\<rparr>)"
    "tidy (d\<lparr>api_tokens := update_where hit2 (\<lambda>t. t\<lparr>tk_used := u\<rparr>) (api_tokens d)\<rparr>)"
    "tidy (d\<lparr>api_tokens := update_where hit2 (\<lambda>t. t\<lparr>tk_revoked := b\<rparr>) (api_tokens d)\<rparr>)"
    "tidy (d\<lparr>invitations := update_where hit3 (\<lambda>v. v\<lparr>iv_accepted := a\<rparr>) (invitations d)\<rparr>)"
    "tidy (on_keys (update_where hit4 (\<lambda>k. k\<lparr>k_revoked := b\<rparr>)) d)"
    "named name \<Longrightarrow> tidy (on_projects (update_where hit5 (\<lambda>p. p\<lparr>p_name := name\<rparr>)) d)"
    "named name \<Longrightarrow> tidy (d\<lparr>orgs := update_where hit6 (\<lambda>og. og\<lparr>o_name := name\<rparr>) (orgs d)\<rparr>)"
    "tidy (d\<lparr>users := update_where hit7 (\<lambda>u. u\<lparr>us_reset := Some (hash_token raw), us_reset_expires := x\<rparr>) (users d)\<rparr>)"
    "stored_password h \<Longrightarrow> tidy (d\<lparr>users := update_where hit7 (\<lambda>u. u\<lparr>us_hash := h, us_reset := None, us_reset_expires := x\<rparr>) (users d)\<rparr>)"
  using assms by (auto simp: tidy_def users_tidy_def projects_tidy_def tokens_tidy_def on_keys_def on_projects_def set_update_where hashed_token)

lemma tidy_members: "tidy (d\<lparr>memberships := ms\<rparr>) = tidy d"
  by (simp add: tidy_def)

lemmas tidy_inserts = tidy_def users_tidy_def projects_tidy_def tokens_tidy_def hashed_token slug_proper named_default stmt_simps

interpretation tidied: every_inv tidy
proof unfold_locales
  show "tidy d \<Longrightarrow> tidy (d\<lparr>store := store d\<lparr>serial := k\<rparr>\<rparr>)" for d k by (simp add: tidy_def)
  show "stmt_keeps tidy (q_slide w h)" "stmt_keeps tidy (q_touch_token w h)" "stmt_keeps tidy (q_revoke_token i uid)"
    "stmt_keeps tidy (q_revoke_key i pid)" "stmt_keeps tidy (q_accept w i)" "stmt_keeps tidy (q_set_reset uid (hash_token raw) t)"
    "stored_password g \<Longrightarrow> stmt_keeps tidy (q_reset w h g)" for w h i uid pid raw t g
    by (auto simp: stmt_keeps_def q_slide_def q_touch_token_def q_revoke_token_def q_revoke_key_def q_accept_def q_set_reset_def
        q_reset_def Let_def tidy_updates)
  show "stmt_keeps tidy (q_create_token w i uid name (hash_token full) pre scope)" if "named name" "token_prefix pre" for w i uid name full pre scope
    using that by (intro stmt_keepsI) (auto simp: q_create_token_def tidy_inserts split: if_splits)
  show "stmt_keeps tidy (q_create_org i name (slugify raw))" if "named name" for i name raw
    using that by (intro stmt_keepsI) (auto simp: q_create_org_def tidy_inserts split: if_splits)
  have m: "stmt_keeps tidy (q_add_member w i oid uid role)" for w i oid uid role
    by (intro stmt_keepsI) (auto simp: q_add_member_def tidy_members split: if_splits)
  then show "stmt_keeps tidy (q_add_member w i oid uid ''owner'')" for w i oid uid .
  show "stmt_keeps tidy (q_join w i oid role uid)" for w i oid role uid
    using m unfolding stmt_keeps_def by (auto simp: q_join_def tidy_members split: if_splits)
  show "stmt_keeps tidy (q_delete_member i)" for i by (auto simp: stmt_keeps_def q_delete_member_def tidy_members)
  show "stmt_keeps tidy (q_create_invite w i oid email role (hash_token raw) uid)" if "address email" for w i oid email role raw uid
    using that by (intro stmt_keepsI) (auto simp: q_create_invite_def tidy_inserts split: if_splits)
  show "stmt_keeps tidy (q_delete_invite i oid)" "stmt_keeps tidy (q_destroy h)" "stmt_keeps tidy (q_drop_sessions uid)" for i oid h uid
    by (rule stmt_keepsI, auto simp: q_delete_invite_def q_destroy_def q_drop_sessions_def delete_where_def tidy_def)+
  show "stmt_keeps tidy (q_create_project i oid name (slugify raw) platform)" if "named name" "platform \<noteq> []" for i oid name raw platform
  proof -
    have "tidy (on_projects (\<lambda>ps. ps @ [\<lparr>p_id = i, p_org = oid, p_name = name, p_slug = slugify raw, p_platform = platform\<rparr>]) d)" if "tidy d" for d
      using that \<open>named name\<close> \<open>platform \<noteq> []\<close> by (auto simp: on_projects_def tidy_inserts)
    then show ?thesis
      by (intro stmt_keepsI) (auto simp: q_create_project_def with_texts_def tidy_updates \<open>named name\<close> split: if_splits option.splits)
  qed
  show "stmt_keeps tidy (q_create_key w i pid name)" if "named name" for w i pid name
    using that by (intro stmt_keepsI) (auto simp: q_create_key_def on_keys_def tidy_inserts split: if_splits)
  show "stmt_keeps tidy (q_create_session w (hash_token raw) uid)" for w raw uid
    by (intro stmt_keepsI) (auto simp: q_create_session_def tidy_inserts split: if_splits)
  show "stmt_keeps tidy (q_setup_org i name (slugify raw))" if "named name" for i name raw
  proof -
    have "tidy (d\<lparr>orgs := orgs d @ [\<lparr>o_id = i, o_name = name, o_slug = slugify raw\<rparr>]\<rparr>)" if "tidy d" for d
      using that \<open>named name\<close> by (auto simp: tidy_inserts)
    then show ?thesis
      by (intro stmt_keepsI) (auto simp: q_setup_org_def with_texts_def tidy_updates \<open>named name\<close> split: if_splits option.splits)
  qed
  show "stmt_keeps tidy (q_create_user i email name h verified)" if "named name" "address email" "stored_password h" for i email name h verified
    using that by (intro stmt_keepsI) (auto simp: q_create_user_def tidy_inserts split: if_splits)
qed


lemmas tenants_parts = tenants_ok_def members_ok_def invites_ok_def projects_ok_def ingest_keys_ok_def tokens_ok_def sessions_ok_def key_ok_def

lemma acme_site_ok: "tenants_ok (acme_site h)"
  by (simp add: tenants_parts acme_site_def site_of_def empty_db_def valid_role_def)

definition witness_cookie_request :: request where
  "witness_cookie_request = \<lparr>rq_method = ''DELETE'', rq_path = [(''org'', ''acme''), (''project'', ''web''), (''keyID'', ''k1'')], rq_query = [],
     rq_form = [(''email'', ''a@b''), (''password'', ''secret 1'')], rq_headers = [(''X-Csrf-Token'', ''s1'')], rq_cookies = [(''bughan_session'', ''raw'')],
     rq_length = 0, rq_body = \<lparr>st_bytes = [], st_err = False\<rparr>\<rparr>"

definition tidy_site :: site where
  "tidy_site = (acme_site (hash_token ''raw''))\<lparr>users := [\<lparr>us_id = ''u1'', us_email = ''a@b'', us_name = ''Ann'',
     us_hash = phc_text 19 ''salt'' ''key'', us_verified = True, us_reset = Some (hash_token ''link''), us_reset_expires = Some hour\<rparr>]\<rparr>"


end
