(* ===== verification/AccessProps.thy ===== *)
theory AccessProps
  imports TenancyProps
begin

section \<open>Only an admin of an organization changes it\<close>

text \<open>
  \<open>org_part\<close> is what belongs to an organization.  \<open>leads\<close> follows a handler that looks its organization up
  twice; every handler let in for another organization leaves the part alone, every guard answers before the handler runs, and
  the principal is only ever one whose credentials are live.
\<close>

subsection \<open>What belongs to an organization\<close>

definition org_part :: "uuid \<Rightarrow> site \<Rightarrow> org_row list \<times> membership_row list \<times> invitation_row list \<times> project_row list \<times> ingest_key_row list" where
  "org_part x d = (filter (\<lambda>og. o_id og = x) (orgs d), filter (\<lambda>m. mb_org m = x) (memberships d),
     filter (\<lambda>v. iv_org v = x) (invitations d), filter (\<lambda>p. p_org p = x) (projects (store d)),
     filter (\<lambda>k. k_project k \<in> p_id ` set (filter (\<lambda>p. p_org p = x) (projects (store d)))) (ingest_keys (store d)))"

text \<open>The site in the middle of a request that was let in by what \<open>look\<close> found, not part of \<open>x\<close>.\<close>

definition foot :: "uuid \<Rightarrow> (site \<Rightarrow> 'l option) \<Rightarrow> 'l option \<Rightarrow> site \<Rightarrow> site \<Rightarrow> bool" where
  "foot x look y d0 d \<longleftrightarrow> tenants_ok d \<and> org_part x d = org_part x d0 \<and> look d = y"

definition blind :: "(site \<Rightarrow> 'l) \<Rightarrow> bool" where
  "blind look \<longleftrightarrow> (\<forall>d k. look (d\<lparr>store := (store d)\<lparr>serial := k\<rparr>\<rparr>) = look d)"

lemma org_part_serial [simp]: "org_part x (d\<lparr>store := (store d)\<lparr>serial := k\<rparr>\<rparr>) = org_part x d"
  by (simp add: org_part_def)

lemma tenants_serial: "tenants_ok (d\<lparr>store := (store d)\<lparr>serial := k\<rparr>\<rparr>) \<longleftrightarrow> tenants_ok d"
  by (simp add: tenants_ok_def)

lemma foot_inv: "blind look \<Longrightarrow> site_inv (foot x look y d0)"
  by unfold_locales (simp add: foot_def tenants_serial blind_def)

lemma blind_lookups: "blind (q_org k)" "blind (q_project os ps)"
  by (simp_all add: blind_def q_org_def q_project_def)

subsection \<open>Computations whose results are known\<close>

definition leads :: "(site \<Rightarrow> bool) \<Rightarrow> ('a \<Rightarrow> bool) \<Rightarrow> (io, 'e, 'a) sm \<Rightarrow> bool" where
  "leads J Q m \<longleftrightarrow> (\<forall>s. J (io_site s) \<longrightarrow> J (io_site (snd (m s))) \<and> (\<forall>a. fst (m s) = Inr a \<longrightarrow> Q a))"

lemma leads_steady: "leads J Q m \<Longrightarrow> steady (on_site J) m"
  by (simp add: leads_def steady_def)

lemma steady_leads: "steady (on_site J) m \<Longrightarrow> leads J (\<lambda>_. True) m"
  by (simp add: leads_def steady_def)

lemma leads_bind:
  assumes "leads J Q m" "\<And>a. Q a \<Longrightarrow> steady (on_site J) (f a)"
  shows "steady (on_site J) (bind m f)"
  unfolding steady_def
proof (intro allI impI)
  fix s :: io
  assume "on_site J s"
  then have m: "J (io_site (snd (m s)))" "fst (m s) = Inr a \<Longrightarrow> Q a" for a using assms(1) by (auto simp: leads_def)
  obtain r s' where r: "m s = (r, s')" by fastforce
  show "on_site J (snd (bind m f s))"
    using m r assms(2) by (cases r) (auto simp: bind_def steady_def)
qed

lemma leads_bind_leads:
  assumes "leads J Q m" "\<And>a. Q a \<Longrightarrow> leads J R (f a)"
  shows "leads J R (bind m f)"
  unfolding leads_def
proof (intro allI impI)
  fix s :: io
  assume "J (io_site s)"
  then have m: "J (io_site (snd (m s)))" "fst (m s) = Inr a \<Longrightarrow> Q a" for a using assms(1) by (auto simp: leads_def)
  obtain r s' where r: "m s = (r, s')" by fastforce
  show "J (io_site (snd (bind m f s))) \<and> (\<forall>a. fst (bind m f s) = Inr a \<longrightarrow> R a)"
    using m r assms(2) by (cases r) (auto simp: bind_def leads_def)
qed

lemma leads_weaken: "leads J Q m \<Longrightarrow> (\<And>a. Q a \<Longrightarrow> R a) \<Longrightarrow> leads J R m"
  by (simp add: leads_def)

lemma leads_ret: "Q a \<Longrightarrow> leads J Q (ret a)"
  by (simp add: leads_def ret_def)

lemma leads_query: "(\<And>d a d'. J d \<Longrightarrow> q d = Some (a, d') \<Longrightarrow> J d' \<and> Q a) \<Longrightarrow> leads J Q (query w n q)"
  by (auto simp: leads_def query_def split: option.split)

lemma leads_select: "leads J (\<lambda>a. \<exists>d. J d \<and> a = f d) (query w n (select f))"
  by (rule leads_query) auto

lemma leads_fail: "leads J Q (fail e)"
  by (simp add: leads_def fail_def)

lemma leads_query_row:
  assumes "\<And>d a d'. J d \<Longrightarrow> q d = Some (a, d') \<Longrightarrow> J d' \<and> (\<forall>b. a = Some b \<longrightarrow> Q b)"
  shows "leads J Q (query_row w n q)"
  unfolding query_row_def
proof (rule leads_bind_leads)
  show "leads J (\<lambda>a. \<forall>b. a = Some b \<longrightarrow> Q b) (query w n q)" using assms by (rule leads_query)
  show "leads J Q (case a of None \<Rightarrow> fail no_rows | Some b \<Rightarrow> ret b)" if "\<forall>b. a = Some b \<longrightarrow> Q b" for a
    using that by (cases a) (simp_all add: leads_fail leads_ret)
qed

lemma leads_or_answer: "leads J Q m \<Longrightarrow> leads J Q (or_answer f m)"
  unfolding leads_def or_answer_def by (auto split: prod.split sum.split)

lemma leads_attempt: "leads J Q m \<Longrightarrow> leads J (\<lambda>a. \<forall>b. a = Some b \<longrightarrow> Q b) (attempt m)"
  unfolding leads_def attempt_def by (auto split: prod.split sum.split)

lemma leads_the_org: "(\<And>og. x = Some og \<Longrightarrow> Q og) \<Longrightarrow> leads J Q (the_org x)"
  by (auto simp: leads_def the_org_def fail_def ret_def split: option.split)

lemma leads_the_proj: "(\<And>p. x = Some p \<Longrightarrow> Q p) \<Longrightarrow> leads J Q (the_proj x)"
  by (auto simp: leads_def the_proj_def fail_def ret_def split: option.split)

lemma leads_look: "leads (foot x look y d0) (\<lambda>a. a = None \<or> a = y) (attempt (query_row w n (select look)))"
proof -
  have "leads (foot x look y d0) (\<lambda>a. y = Some a) (query_row w n (select look))"
    by (rule leads_query_row) (auto simp: foot_def)
  then have "leads (foot x look y d0) (\<lambda>a. \<forall>b. a = Some b \<longrightarrow> y = Some b) (attempt (query_row w n (select look)))"
    by (rule leads_attempt)
  then show ?thesis
  proof (rule leads_weaken)
    show "a = None \<or> a = y" if "\<forall>b. a = Some b \<longrightarrow> y = Some b" for a using that by (cases a) auto
  qed
qed

lemma leads_org: "leads (foot x (q_org (get_val (rq_path rq) ''org'')) y d0) (\<lambda>og. y = Some og) (bind (org_from_path w n rq) the_org)"
  unfolding org_from_path_def by (rule leads_bind_leads[OF leads_look]) (auto intro!: leads_the_org)

lemma leads_proj:
  "leads (foot x (q_project (get_val (rq_path rq) ''org'') (get_val (rq_path rq) ''project'')) y d0) (\<lambda>p. y = Some p)
     (bind (project_from_path w n rq) the_proj)"
  unfolding project_from_path_def by (rule leads_bind_leads[OF leads_look]) (auto intro!: leads_the_proj)

subsection \<open>Statements about another organization\<close>

lemma foot_keeps:
  assumes "stmt_keeps tenants_ok q" "\<And>d a d'. tenants_ok d \<Longrightarrow> org_part x d = org_part x d0 \<Longrightarrow> q d = Some (a, d') \<Longrightarrow>
      org_part x d' = org_part x d \<and> look d' = look d"
  shows "stmt_keeps (foot x look y d0) q"
  using assms unfolding stmt_keeps_def foot_def by metis

lemma foot_free:
  assumes "stmt_keeps tenants_ok q" "\<And>d a d'. q d = Some (a, d') \<Longrightarrow> org_part x d' = org_part x d \<and> look d' = look d"
  shows "stmt_keeps (foot x look y d0) q"
  using foot_keeps[of q x d0 look y] assms by blast

lemma find_mem: "find P xs = Some r \<Longrightarrow> r \<in> set xs \<and> P r"
  by (auto simp: find_Some_iff)

lemma q_membership_mem: "q_membership mid oid d = Some b \<Longrightarrow> \<exists>r\<in>set (memberships d). mb_id r = mid \<and> mb_org r = oid"
  by (auto simp: q_membership_def dest: find_mem)

lemma filter_delete: "(\<And>r. r \<in> set rs \<Longrightarrow> P r \<Longrightarrow> \<not> hit r) \<Longrightarrow> filter P (delete_where hit rs) = filter P rs"
  by (induction rs) (auto simp: delete_where_def)

lemma foot_sessions: "stmt_keeps (foot x (q_org k) y d0) (q_drop_sessions uid)"
  by (rule foot_free[OF ok_session(4)]) (auto simp: q_drop_sessions_def org_part_def q_org_def)

lemma foot_delete_member:
  assumes "mid \<notin> mb_id ` set (fst (snd (org_part x d0)))"
  shows "stmt_keeps (foot x (q_org k) y d0) (q_delete_member mid)"
proof (rule foot_keeps[OF ok_member(3)])
  fix d :: site and a d'
  assume d: "org_part x d = org_part x d0" "q_delete_member mid d = Some (a, d')"
  have "filter (\<lambda>m. mb_org m = x) (memberships d') = filter (\<lambda>m. mb_org m = x) (memberships d)"
  proof -
    have "mid \<notin> mb_id ` set (fst (snd (org_part x d)))" using assms d(1) by simp
    then have "mb_id m \<noteq> mid" if "m \<in> set (memberships d)" "mb_org m = x" for m
      using that by (auto simp: org_part_def)
    then have "filter (\<lambda>m. mb_org m = x) (delete_where (\<lambda>m. mb_id m = mid) (memberships d)) = filter (\<lambda>m. mb_org m = x) (memberships d)"
      by (intro filter_delete) auto
    then show ?thesis using d(2) by (auto simp: q_delete_member_def)
  qed
  then show "org_part x d' = org_part x d \<and> q_org k d' = q_org k d"
    using d(2) by (auto simp: q_delete_member_def org_part_def q_org_def)
qed

lemma foot_invites:
  assumes "oid \<noteq> x"
  shows "stmt_keeps (foot x (q_org k) y d0) (q_create_invite w i oid email role h uid)"
    "stmt_keeps (foot x (q_org k) y d0) (q_delete_invite i oid)"
proof -
  show "stmt_keeps (foot x (q_org k) y d0) (q_create_invite w i oid email role h uid)"
    by (rule foot_free[OF ok_invite(1)])
      (use assms in \<open>auto simp: q_create_invite_def with_texts_def org_part_def q_org_def split: if_splits\<close>)
  have "filter (\<lambda>v. iv_org v = x) (delete_where (\<lambda>v. iv_id v = i \<and> iv_org v = oid \<and> iv_accepted v = None) vs) =
      filter (\<lambda>v. iv_org v = x) vs" for vs
    by (rule filter_delete) (use assms in auto)
  then show "stmt_keeps (foot x (q_org k) y d0) (q_delete_invite i oid)"
    by (intro foot_free[OF ok_invite(2)]) (auto simp: q_delete_invite_def org_part_def q_org_def)
qed

lemma filter_other: "(\<And>r. P (upd r) \<longleftrightarrow> P r) \<Longrightarrow> (\<And>r. hit r \<Longrightarrow> \<not> P r) \<Longrightarrow> filter P (update_where hit upd rs) = filter P rs"
  by (induction rs) (auto simp: update_where_def)

lemma foot_create_project:
  assumes "oid \<noteq> x"
  shows "stmt_keeps (foot x (q_org k) y d0) (q_create_project i oid name slug platform)"
proof (rule foot_free[OF ok_project])
  fix d :: site and a d'
  assume "q_create_project i oid name slug platform d = Some (a, d')"
  moreover have "filter (\<lambda>p. p_org p = x) (update_where (\<lambda>q. p_org q = oid \<and> p_slug q = slug) (\<lambda>q. q\<lparr>p_name := name\<rparr>) ps) =
      filter (\<lambda>p. p_org p = x) ps" for ps
    by (rule filter_other) (use assms in auto)
  ultimately have p: "filter (\<lambda>p. p_org p = x) (projects (store d')) = filter (\<lambda>p. p_org p = x) (projects (store d))"
      "orgs d' = orgs d" "memberships d' = memberships d" "invitations d' = invitations d" "ingest_keys (store d') = ingest_keys (store d)"
    using assms by (auto simp: q_create_project_def with_texts_def on_projects_def split: if_splits option.splits)
  then show "org_part x d' = org_part x d \<and> q_org k d' = q_org k d" by (simp add: org_part_def q_org_def)
qed

lemma foot_key:
  assumes "pid \<notin> p_id ` set (fst (snd (snd (snd (org_part x d0)))))" "\<And>d f. look (on_keys f d) = look d"
  shows "stmt_keeps (foot x look y d0) (q_create_key w i pid name)" "stmt_keeps (foot x look y d0) (q_revoke_key i pid)"
proof -
  have p: "org_part x (on_keys f d) = org_part x d"
    if o: "org_part x d = org_part x d0"
      and f: "\<And>I ks. pid \<notin> I \<Longrightarrow> filter (\<lambda>k. k_project k \<in> I) (f ks) = filter (\<lambda>k. k_project k \<in> I) ks" for f d
  proof -
    let ?I = "p_id ` set (filter (\<lambda>p. p_org p = x) (projects (store d)))"
    have "pid \<notin> ?I" using assms(1) o by (simp add: org_part_def)
    from f[OF this] show ?thesis by (simp add: org_part_def on_keys_def)
  qed
  show "stmt_keeps (foot x look y d0) (q_create_key w i pid name)"
  proof (rule foot_keeps[OF ok_key(1)])
    fix d :: site and a d'
    assume d: "org_part x d = org_part x d0" "q_create_key w i pid name d = Some (a, d')"
    then obtain row where f: "d' = on_keys (\<lambda>ks. ks @ [row]) d" "k_project row = pid"
      by (auto simp: q_create_key_def with_texts_def split: if_splits)
    have "filter (\<lambda>k. k_project k \<in> I) (ks @ [row]) = filter (\<lambda>k. k_project k \<in> I) ks" if "pid \<notin> I" for I ks
      using that f(2) by simp
    from p[OF d(1) this] show "org_part x d' = org_part x d \<and> look d' = look d" using f(1) assms(2) by simp
  qed
  show "stmt_keeps (foot x look y d0) (q_revoke_key i pid)"
  proof (rule foot_keeps[OF ok_key(2)])
    fix d :: site and a d'
    assume d: "org_part x d = org_part x d0" "q_revoke_key i pid d = Some (a, d')"
    have "filter (\<lambda>k. k_project k \<in> I) (update_where (\<lambda>k. k_id k = i \<and> k_project k = pid \<and> \<not> k_revoked k)
        (\<lambda>k. k\<lparr>k_revoked := True\<rparr>) ks) = filter (\<lambda>k. k_project k \<in> I) ks" if "pid \<notin> I" for I ks
      by (rule filter_other) (use that in auto)
    from p[OF d(1) this] show "org_part x d' = org_part x d \<and> look d' = look d" using d(2) assms(2) by (auto simp: q_revoke_key_def)
  qed
qed

subsection \<open>Handlers of another organization\<close>

lemma foot_remove_member:
  assumes "y = Some og" "o_id og \<noteq> x"
  shows "steady (on_site (foot x (q_org (get_val (rq_path rq) ''org'')) y d0)) (handle_remove_member w n cx rq)"
proof -
  let ?J = "foot x (q_org (get_val (rq_path rq) ''org'')) y d0"
  let ?m = "get_val (rq_path rq) ''memberID''"
  let ?Q = "\<lambda>_. \<forall>mid. w_pg_uuid w ?m = Some mid \<longrightarrow> mid \<notin> mb_id ` set (fst (snd (org_part x d0)))"
  have q: "leads ?J ?Q (query_row w n (with_uuid w ?m (\<lambda>mid. select (q_membership mid (o_id og)))))"
  proof (rule leads_query_row)
    fix d :: site and a d'
    assume d: "?J d" "with_uuid w ?m (\<lambda>mid. select (q_membership mid (o_id og))) d = Some (a, d')"
    then obtain mid where m: "w_pg_uuid w ?m = Some mid" "a = q_membership mid (o_id og) d" "d' = d"
      by (auto simp: with_uuid_def split: option.splits)
    have "mid \<notin> mb_id ` set (fst (snd (org_part x d0)))" if b: "a = Some b" for b
    proof -
      obtain r where r: "r \<in> set (memberships d)" "mb_id r = mid" "mb_org r = o_id og"
        using q_membership_mem[of mid "o_id og" d b] b m(2) by auto
      have u: "key_ok mb_id (memberships d)" and o: "org_part x d = org_part x d0" using d(1) by (auto simp: foot_def tenants_ok_def members_ok_def)
      have "mid \<notin> mb_id ` set (filter (\<lambda>m. mb_org m = x) (memberships d))"
      proof
        assume "mid \<in> mb_id ` set (filter (\<lambda>m. mb_org m = x) (memberships d))"
        then obtain r' where r': "r' \<in> set (memberships d)" "mb_id r' = mid" "mb_org r' = x" by auto
        have "r' = r" using get_key_unique[OF u r'(1)] get_key_unique[OF u r(1)] unfolding r'(2) r(2) by simp
        then show False using r(3) r'(3) assms(2) by simp
      qed
      then show ?thesis unfolding o[symmetric] by (simp add: org_part_def)
    qed
    then show "?J d' \<and> (\<forall>b. a = Some b \<longrightarrow> ?Q b)" using d(1) m by auto
  qed
  have del: "stmt_keeps ?J (with_uuid w ?m q_delete_member)" if "?Q u" for u
    using foot_delete_member that unfolding stmt_keeps_def with_uuid_def by (auto split: option.splits)
  show ?thesis
    unfolding handle_remove_member_def Let_def
  proof (rule leads_bind[OF leads_org])
    fix og' assume "y = Some og'"
    then have og: "og' = og" using assms(1) by simp
    show "steady (on_site ?J) (bind (run500 w n (select (owner_count (o_id og')))) (\<lambda>owners.
       bind (or_answer (\<lambda>_. write_err 404 ''member not found'' response0)
         (query_row w n (with_uuid w ?m (\<lambda>mid. select (q_membership mid (o_id og')))))) (\<lambda>(role, uid).
       if role = ''owner'' \<and> owners \<le> 1 then deny 400 ''cannot remove the last owner''
       else bind (run500 w n (with_uuid w ?m q_delete_member)) (\<lambda>_.
         bind (attempt (query w n (with_uuid w uid q_drop_sessions))) (\<lambda>_. ret no_content)))))"
      unfolding og
      by (rule steady_bind, rule steady_run500[OF stmt_keeps_select], rule leads_bind[OF leads_or_answer[OF q]])
        (intro steady_intros del foot_sessions; simp)
  qed
qed

interpretation foot_org: site_inv "foot x (q_org k) y d0" for x k y d0
  by (rule foot_inv) (rule blind_lookups)

interpretation foot_project: site_inv "foot x (q_project os ps) y d0" for x os ps y d0
  by (rule foot_inv) (rule blind_lookups)

lemma leads_org_again: "leads (foot x (q_org (get_val (rq_path rq) ''org'')) y d0) (\<lambda>a. a = None \<or> a = y) (org_from_path w n rq)"
  unfolding org_from_path_def by (rule leads_look)

lemma leads_proj_again:
  "leads (foot x (q_project (get_val (rq_path rq) ''org'') (get_val (rq_path rq) ''project'')) y d0) (\<lambda>a. a = None \<or> a = y)
     (project_from_path w n rq)"
  unfolding project_from_path_def by (rule leads_look)

lemma leads_the: "a = None \<or> a = y \<Longrightarrow> leads J (\<lambda>og. y = Some og) (the_org a)" "b = None \<or> b = z \<Longrightarrow> leads J (\<lambda>p. z = Some p) (the_proj b)"
  by (auto intro: leads_the_org leads_the_proj)

lemma foot_invite_handlers:
  assumes "y = Some og" "o_id og \<noteq> x"
  shows "steady (on_site (foot x (q_org (get_val (rq_path rq) ''org'')) y d0)) (handle_create_invite ap w n cx rq)"
    "steady (on_site (foot x (q_org (get_val (rq_path rq) ''org'')) y d0)) (handle_delete_invite w n cx rq)"
proof -
  let ?J = "foot x (q_org (get_val (rq_path rq) ''org'')) y d0"
  show "steady (on_site ?J) (handle_delete_invite w n cx rq)"
    unfolding handle_delete_invite_def
    by (rule leads_bind[OF leads_org]) (use assms in \<open>auto intro!: steady_intros foot_invites\<close>)
  show "steady (on_site ?J) (handle_create_invite ap w n cx rq)"
    unfolding handle_create_invite_def Let_def
    by (rule leads_bind[OF leads_org_again], rule steady_bind[OF steady_decode], intro steady_if steady_ends,
        rule steady_bind[OF foot_org.steady_tokens(3)], rule steady_bind[OF foot_org.steady_uuid], rule leads_bind[OF leads_the(1)], assumption)
      (use assms in \<open>auto intro!: steady_intros foot_invites\<close>)
qed

lemma update_where_mem: "r \<in> set rs \<Longrightarrow> hit r \<Longrightarrow> upd r \<in> set (update_where hit upd rs)"
  by (induction rs) (auto simp: update_where_def)

lemma created_project_mem:
  assumes "q_create_project i oid name slug platform d = Some (a, d')"
  shows "\<exists>p\<in>set (projects (store d')). p_id p = snd a \<and> p_org p = oid"
proof (cases "find (\<lambda>p. p_org p = oid \<and> p_slug p = slug) (projects (store d))")
  case None
  then show ?thesis using assms by (auto simp: q_create_project_def with_texts_def on_projects_def split: if_splits)
next
  case (Some p)
  then have p: "p \<in> set (projects (store d))" "p_org p = oid \<and> p_slug p = slug" by (auto dest: find_mem)
  have "p\<lparr>p_name := name\<rparr> \<in> set (projects (store d'))" "snd a = p_id p"
    using assms Some update_where_mem[OF p(1), where hit = "\<lambda>q. p_org q = oid \<and> p_slug q = slug" and upd = "\<lambda>q. q\<lparr>p_name := name\<rparr>"] p(2)
    by (auto simp: q_create_project_def with_texts_def on_projects_def split: if_splits)
  then show ?thesis using p(2) by (intro bexI[of _ "p\<lparr>p_name := name\<rparr>"]) simp_all
qed

lemma foot_create_project_handler:
  assumes "y = Some og" "o_id og \<noteq> x"
  shows "steady (on_site (foot x (q_org (get_val (rq_path rq) ''org'')) y d0)) (handle_create_project ap w n cx rq)"
proof -
  let ?J = "foot x (q_org (get_val (rq_path rq) ''org'')) y d0"
  let ?Q = "\<lambda>(slug, pid). pid \<notin> p_id ` set (fst (snd (snd (snd (org_part x d0)))))"
  have q: "leads ?J ?Q (query w n (q_create_project i (o_id og) name slug platform))" for i name slug platform
  proof (rule leads_query)
    fix d :: site and a d'
    assume d: "?J d" "q_create_project i (o_id og) name slug platform d = Some (a, d')"
    have J: "?J d'" using foot_create_project[OF assms(2)] d unfolding stmt_keeps_def by metis
    obtain p where p: "p \<in> set (projects (store d'))" "p_id p = snd a" "p_org p = o_id og"
      using created_project_mem[OF d(2)] by blast
    have u: "key_ok p_id (projects (store d'))" and e: "org_part x d' = org_part x d0"
      using J by (auto simp: foot_def tenants_ok_def projects_ok_def)
    have "snd a \<notin> p_id ` set (filter (\<lambda>p. p_org p = x) (projects (store d')))"
    proof
      assume "snd a \<in> p_id ` set (filter (\<lambda>p. p_org p = x) (projects (store d')))"
      then obtain p' where p': "p' \<in> set (projects (store d'))" "p_id p' = snd a" "p_org p' = x" by auto
      have "p' = p" using get_key_unique[OF u p'(1)] get_key_unique[OF u p(1)] unfolding p'(2) p(2) by simp
      then show False using p(3) p'(3) assms(2) by simp
    qed
    then show "?J d' \<and> ?Q a" using J unfolding e[symmetric] by (simp add: org_part_def split_beta)
  qed
  have k: "stmt_keeps ?J (q_create_key w i pid nm)" if "?Q (slug, pid)" for i slug pid nm
    using that by (intro foot_key) (simp_all add: on_keys_def q_org_def)
  have tx: "steady (on_site ?J) (bind (the_org a) (\<lambda>og. bind (or_answer f (query w n (q_create_project i (o_id og) name slug platform)))
      (\<lambda>(slug, pid). bind (new_uuid w) (\<lambda>kid. bind (run500 w n (q_create_key w kid pid ''Default'')) (\<lambda>_. ret (slug, pid, kid))))))"
    if "a = None \<or> a = y" for a f i name slug platform
  proof (rule leads_bind[OF leads_the(1)[OF that]])
    fix og' assume "y = Some og'"
    then have og: "og' = og" using assms(1) by simp
    show "steady (on_site ?J) (bind (or_answer f (query w n (q_create_project i (o_id og') name slug platform)))
      (\<lambda>(slug, pid). bind (new_uuid w) (\<lambda>kid. bind (run500 w n (q_create_key w kid pid ''Default'')) (\<lambda>_. ret (slug, pid, kid)))))"
      unfolding og
    proof (rule leads_bind[OF leads_or_answer[OF q]])
      fix r :: "string \<times> uuid" assume r: "?Q r"
      obtain slug pid where sp: "r = (slug, pid)" by (cases r)
      show "steady (on_site ?J) (case r of (slug, pid) \<Rightarrow> bind (new_uuid w) (\<lambda>kid. bind (run500 w n (q_create_key w kid pid ''Default''))
          (\<lambda>_. ret (slug, pid, kid))))"
        unfolding sp prod.case
        by (rule steady_bind[OF foot_org.steady_uuid], rule steady_bind[OF steady_run500[OF k[of slug pid]]])
          (use r sp in \<open>auto intro: steady_ret\<close>)
    qed
  qed
  show ?thesis
    unfolding handle_create_project_def Let_def
    by (rule leads_bind[OF leads_org_again], rule steady_bind[OF steady_decode], rule steady_if, rule steady_ret,
        rule steady_bind[OF foot_org.steady_uuid], rule steady_bind, rule foot_org.steady_tx, rule tx, assumption)
      (intro steady_intros)
qed

lemma q_project_mem: "q_project os ps d = Some p \<Longrightarrow> \<exists>r og. r \<in> set (projects (store d)) \<and> p_id r = pj_id p \<and> p_org r = pj_org p \<and>
    og \<in> set (orgs d) \<and> o_id og = pj_org p \<and> o_slug og = pj_org_slug p"
proof -
  assume "q_project os ps d = Some p"
  moreover define l where "l = concat (map (\<lambda>p. case get_key o_id (p_org p) (orgs d) of None \<Rightarrow> []
      | Some og \<Rightarrow> if o_slug og = os \<and> (p_slug p = ps \<or> p_id p = ps) then [proj_of og p] else []) (projects (store d)))"
  ultimately have "(case l of [] \<Rightarrow> None | x # _ \<Rightarrow> Some x) = Some p" by (simp add: q_project_def)
  then have "p \<in> set l" by (auto split: list.splits)
  then obtain x og where x: "x \<in> set (projects (store d))" "get_key o_id (p_org x) (orgs d) = Some og" "p = proj_of og x"
    by (auto simp: l_def split: option.splits if_splits dest!: sym[of "Some _"])
  show ?thesis using get_key_Some[OF x(2)] x(1,3) by (auto simp: proj_of_def)
qed

lemma foot_key_handlers:
  assumes "tenants_ok d0" "q_project (get_val (rq_path rq) ''org'') (get_val (rq_path rq) ''project'') d0 = Some p" "pj_org p \<noteq> x"
  shows "steady (on_site (foot x (q_project (get_val (rq_path rq) ''org'') (get_val (rq_path rq) ''project'')) (Some p) d0)) (handle_create_key ap w n cx rq)"
    "steady (on_site (foot x (q_project (get_val (rq_path rq) ''org'') (get_val (rq_path rq) ''project'')) (Some p) d0)) (handle_revoke_key w n cx rq)"
proof -
  let ?J = "foot x (q_project (get_val (rq_path rq) ''org'') (get_val (rq_path rq) ''project'')) (Some p) d0"
  obtain r where r: "r \<in> set (projects (store d0))" "p_id r = pj_id p" "p_org r = pj_org p" using q_project_mem[OF assms(2)] by blast
  have u: "key_ok p_id (projects (store d0))" using assms(1) by (simp add: tenants_ok_def projects_ok_def)
  have "pj_id p \<notin> p_id ` set (filter (\<lambda>p. p_org p = x) (projects (store d0)))"
  proof
    assume "pj_id p \<in> p_id ` set (filter (\<lambda>p. p_org p = x) (projects (store d0)))"
    then obtain r' where r': "r' \<in> set (projects (store d0))" "p_id r' = pj_id p" "p_org r' = x" by auto
    have "r' = r" using get_key_unique[OF u r'(1)] get_key_unique[OF u r(1)] unfolding r'(2) r(2) by simp
    then show False using r(3) r'(3) assms(3) by simp
  qed
  then have n: "pj_id p \<notin> p_id ` set (fst (snd (snd (snd (org_part x d0)))))" by (simp add: org_part_def)
  have look: "q_project os ps (on_keys f d) = q_project os ps d" for os ps f d by (simp add: q_project_def on_keys_def)
  note keys = foot_key[OF n look]
  show "steady (on_site ?J) (handle_revoke_key w n cx rq)"
    unfolding handle_revoke_key_def
    by (rule leads_bind[OF leads_proj]) (auto intro!: steady_intros keys)
  show "steady (on_site ?J) (handle_create_key ap w n cx rq)"
    unfolding handle_create_key_def Let_def
    by (rule leads_bind[OF leads_proj_again], rule steady_bind[OF foot_project.steady_uuid], rule leads_bind[OF leads_the(2)], assumption)
      (auto intro!: steady_intros keys)
qed

subsection \<open>Handlers that are not about one organization\<close>

definition org_there :: "uuid \<Rightarrow> site \<Rightarrow> unit option" where
  "org_there x d = (if x \<in> o_id ` set (orgs d) then Some () else None)"

interpretation foot_any: site_inv "foot x (org_there x) y d0" for x y d0
  by (rule foot_inv) (simp add: blind_def org_there_def)

lemma foot_create_org:
  "steady (on_site (foot x (org_there x) (Some ()) d0)) (handle_create_org ap w n cx rq)"
proof -
  let ?J = "foot x (org_there x) (Some ()) d0"
  have q: "leads ?J (\<lambda>r. r = Inl () \<or> i \<noteq> x) (query w n (q_create_org i name slug))" for i name slug
  proof (rule leads_query)
    fix d :: site and a d'
    assume d: "?J d" "q_create_org i name slug d = Some (a, d')"
    then have x: "x \<in> o_id ` set (orgs d)" by (simp add: foot_def org_there_def split: if_splits)
    have t: "tenants_ok d'" using ok_org(1) d by (auto simp: stmt_keeps_def foot_def)
    have "a = Inl () \<and> d' = d \<or> i \<notin> o_id ` set (orgs d) \<and> d' = d\<lparr>orgs := orgs d @ [\<lparr>o_id = i, o_name = name, o_slug = slug\<rparr>]\<rparr>"
      using d(2) unfolding q_create_org_def with_texts_def key_tests(2) by (auto simp del: image_iff split: if_splits)
    then show "?J d' \<and> (a = Inl () \<or> i \<noteq> x)"
    proof
      assume 2: "i \<notin> o_id ` set (orgs d) \<and> d' = d\<lparr>orgs := orgs d @ [\<lparr>o_id = i, o_name = name, o_slug = slug\<rparr>]\<rparr>"
      then have "i \<noteq> x" using x by auto
      then have "org_part x d' = org_part x d" "org_there x d' = org_there x d" using 2 by (simp_all add: org_part_def org_there_def)
      then show ?thesis using d(1) t \<open>i \<noteq> x\<close> by (simp add: foot_def)
    qed (use d in simp)
  qed
  have m: "stmt_keeps ?J (with_uuid w u (\<lambda>uid. q_add_member w mid i uid ''owner''))" if "i \<noteq> x" for i u mid
    by (rule stmt_keeps_uuid, rule foot_free[OF ok_member(1)])
      (use that in \<open>auto simp: q_add_member_def org_part_def org_there_def split: if_splits\<close>)
  have c: "steady (on_site ?J) (case r of Inl _ \<Rightarrow> deny 400 msg | Inr slug \<Rightarrow>
      bind (new_uuid w) (\<lambda>mid. bind (the_user cx) (\<lambda>u.
      bind (run500 w n (with_uuid w (u_id u) (\<lambda>uid. q_add_member w mid i uid ''owner''))) (\<lambda>_. ret (R slug)))))"
    if "r = Inl () \<or> i \<noteq> x" for r i R msg
  proof (cases r)
    case (Inr slug)
    then have "i \<noteq> x" using that by simp
    then show ?thesis unfolding Inr sum.case by (intro steady_intros foot_any.steady_uuid m)
  qed (simp add: steady_ends)
  have l: "leads ?J (\<lambda>r. r = Inl () \<or> i \<noteq> x) (run500 w n (q_create_org i name slug))" for i name slug
    unfolding run500_def by (rule leads_or_answer[OF q])
  show ?thesis
    unfolding handle_create_org_def
    by (rule steady_bind[OF steady_decode], rule steady_if, rule steady_ret, rule steady_bind, intro steady_intros, rule steady_if,
        rule steady_ends, rule steady_bind[OF foot_any.steady_uuid], rule leads_bind[OF l], rule c)
qed

lemma foot_token_handlers:
  "steady (on_site (foot x (org_there x) y d0)) (handle_create_token ap w n cx rq)"
  "steady (on_site (foot x (org_there x) y d0)) (handle_revoke_token w n cx rq)"
proof -
  have q: "stmt_keeps (foot x (org_there x) y d0) (q_create_token w i uid name h pre scope)" for i uid name h pre scope
    by (rule foot_free[OF ok_token(2)]) (auto simp: q_create_token_def with_texts_def org_part_def org_there_def split: if_splits)
  have r: "stmt_keeps (foot x (org_there x) y d0) (q_revoke_token i uid)" for i uid
    by (rule foot_free[OF ok_token(3)]) (auto simp: q_revoke_token_def org_part_def org_there_def)
  show "steady (on_site (foot x (org_there x) y d0)) (handle_create_token ap w n cx rq)"
    "steady (on_site (foot x (org_there x) y d0)) (handle_revoke_token w n cx rq)"
    unfolding handle_create_token_def handle_revoke_token_def Let_def
    by (intro steady_intros foot_any.draws q r)+
qed

lemma read_only:
  "steady (on_site J) (handle_not_found cx rq)" "steady (on_site J) (handle_whoami ap cx rq)"
  "steady (on_site J) (handle_list_orgs ap w n cx rq)" "steady (on_site J) (handle_org_detail w n cx rq)"
  "steady (on_site J) (handle_list_members ap w n cx rq)" "steady (on_site J) (handle_list_invites ap w n cx rq)"
  "steady (on_site J) (handle_list_projects ap w n cx rq)" "steady (on_site J) (handle_project_detail ap w n cx rq)"
  "steady (on_site J) (handle_list_keys ap w n cx rq)" "steady (on_site J) (handle_list_tokens ap w n cx rq)"
  unfolding handle_not_found_def handle_whoami_def handle_list_orgs_def handle_org_detail_def handle_list_members_def
    handle_list_invites_def handle_list_projects_def handle_project_detail_def handle_list_keys_def handle_list_tokens_def
  by (intro steady_intros)+

lemma read_guards:
  "(\<And>cx rq. steady (on_site J) (h cx rq)) \<Longrightarrow> steady (on_site J) (require_auth h cx rq)"
  "(\<And>cx rq. steady (on_site J) (h cx rq)) \<Longrightarrow> steady (on_site J) (require_org w n mr h cx rq)"
  "(\<And>cx rq. steady (on_site J) (h cx rq)) \<Longrightarrow> steady (on_site J) (require_project w n mr h cx rq)"
  unfolding require_auth_def require_org_def require_project_def by (intro steady_intros; simp)+

subsection \<open>The guards\<close>

lemma lookup_result: "\<exists>a. attempt (query_row w n (select look)) s = (Inr a, called s) \<and> (a = None \<or> a = look (io_site s))"
  by (auto simp: attempt_def query_row_def query_def bind_def select_def fail_def ret_def called_def split: option.split)

definition given_csrf :: "request \<Rightarrow> string" where
  "given_csrf rq = first_non_empty (get_val (rq_headers rq) ''X-Csrf-Token'') (get_val (rq_form rq) ''csrf_token'')"

definition may_admin :: "ctx \<Rightarrow> uuid \<Rightarrow> site \<Rightarrow> bool" where
  "may_admin cx x d \<longleftrightarrow> cx_user cx \<noteq> None \<and> (\<exists>og\<in>set (orgs d). o_id og = x \<and> role_at_least (org_role cx (o_slug og)) ''admin'')"

definition changes :: "uuid \<Rightarrow> 'a act \<Rightarrow> io \<Rightarrow> bool" where
  "changes x m s \<longleftrightarrow> org_part x (io_site (snd (m s))) \<noteq> org_part x (io_site s)"

lemma deny_changes [simp]: "\<not> changes x (deny c msg) s"
  by (simp add: changes_def deny_def fail_def)

lemma csrf_changes: "changes x (require_csrf h cx rq) s \<Longrightarrow> (cx_csrf cx = [] \<or> given_csrf rq = cx_csrf cx) \<and> changes x (h cx rq) s"
  by (auto simp: require_csrf_def given_csrf_def first_non_empty_def Let_def split: if_splits)

lemma steady_changes: "steady (on_site (foot x look (look (io_site s)) (io_site s))) m \<Longrightarrow> tenants_ok (io_site s) \<Longrightarrow> \<not> changes x m s"
  by (auto simp: steady_def changes_def foot_def)

lemma org_guard:
  assumes "tenants_ok (io_site s)" "changes x (require_org w n ''admin'' h cx rq) s"
    "\<And>y og. y = Some og \<Longrightarrow> o_id og \<noteq> x \<Longrightarrow>
       steady (on_site (foot x (q_org (get_val (rq_path rq) ''org'')) y (io_site s))) (h cx rq)"
  shows "may_admin cx x (io_site s)"
proof -
  let ?k = "get_val (rq_path rq) ''org''"
  obtain a where a: "org_from_path w n rq s = (Inr a, called s)" "a = None \<or> a = q_org ?k (io_site s)"
    using lookup_result[of w n "q_org ?k" s] by (auto simp: org_from_path_def)
  have u: "cx_user cx \<noteq> None" using assms(2) by (auto simp: require_org_def require_auth_def split: if_splits)
  then obtain og where og: "a = Some og" "role_at_least (org_role cx (o_slug og)) ''admin''" "changes x (h cx rq) (called s)"
    using assms(2) a(1)
    by (cases a) (auto simp: require_org_def require_auth_def changes_def bind_def deny_def fail_def split: if_splits)
  have y: "q_org ?k (io_site s) = Some og" using a(2) og(1) by auto
  have "o_id og = x"
  proof (rule ccontr)
    assume "o_id og \<noteq> x"
    from assms(3)[OF refl this] have "steady (on_site (foot x (q_org ?k) (q_org ?k (io_site (called s))) (io_site (called s)))) (h cx rq)"
      using y by simp
    from steady_changes[OF this] show False using og(3) assms(1) by simp
  qed
  moreover have "og \<in> set (orgs (io_site s))" using y by (auto simp: q_org_def dest: find_mem)
  ultimately show ?thesis using og(2) u by (auto simp: may_admin_def)
qed

lemma project_guard:
  assumes "tenants_ok (io_site s)" "changes x (require_project w n ''admin'' h cx rq) s"
    "\<And>p. q_project (get_val (rq_path rq) ''org'') (get_val (rq_path rq) ''project'') (io_site s) = Some p \<Longrightarrow> pj_org p \<noteq> x \<Longrightarrow>
       steady (on_site (foot x (q_project (get_val (rq_path rq) ''org'') (get_val (rq_path rq) ''project'')) (Some p) (io_site s))) (h cx rq)"
  shows "may_admin cx x (io_site s)"
proof -
  let ?l = "q_project (get_val (rq_path rq) ''org'') (get_val (rq_path rq) ''project'')"
  obtain a where a: "project_from_path w n rq s = (Inr a, called s)" "a = None \<or> a = ?l (io_site s)"
    using lookup_result[of w n ?l s] by (auto simp: project_from_path_def)
  have u: "cx_user cx \<noteq> None" using assms(2) by (auto simp: require_project_def require_auth_def split: if_splits)
  then obtain p where p: "a = Some p" "role_at_least (org_role cx (pj_org_slug p)) ''admin''" "changes x (h cx rq) (called s)"
    using assms(2) a(1)
    by (cases a) (auto simp: require_project_def require_auth_def changes_def bind_def deny_def fail_def split: if_splits)
  have y: "?l (io_site s) = Some p" using a(2) p(1) by auto
  have "pj_org p = x"
  proof (rule ccontr)
    assume "pj_org p \<noteq> x"
    from assms(3)[OF y this] have "steady (on_site (foot x ?l (?l (io_site (called s))) (io_site (called s)))) (h cx rq)"
      using y by simp
    from steady_changes[OF this] show False using p(3) assms(1) by simp
  qed
  then show ?thesis using q_project_mem[OF y] p(2) u by (auto simp: may_admin_def)
qed

lemma free_changes:
  assumes "tenants_ok (io_site s)" "x \<in> o_id ` set (orgs (io_site s))"
    "steady (on_site (foot x (org_there x) (Some ()) (io_site s))) m"
  shows "\<not> changes x m s"
proof -
  have "org_there x (io_site s) = Some ()" using assms(2) by (simp add: org_there_def)
  then show ?thesis using steady_changes[of x "org_there x" s m] assms by simp
qed

lemma tenancy_changes:
  assumes "tenants_ok (io_site s)" "x \<in> o_id ` set (orgs (io_site s))" "changes x (tenancy ap w n r cx rq) s"
  shows "may_admin cx x (io_site s) \<and> (cx_csrf cx = [] \<or> given_csrf rq = cx_csrf cx)"
proof -
  note free = free_changes[OF assms(1,2)]
  note org = org_guard[OF assms(1)] and proj = project_guard[OF assms(1)]
  note hs = foot_remove_member foot_invite_handlers foot_create_project_handler foot_key_handlers[OF assms(1)]
  have auth: "steady (on_site (foot x (org_there x) (Some ()) (io_site s))) (require_auth (handle_create_org ap w n) cx rq)"
    "steady (on_site (foot x (org_there x) (Some ()) (io_site s))) (require_auth (handle_create_token ap w n) cx rq)"
    "steady (on_site (foot x (org_there x) (Some ()) (io_site s))) (require_auth (handle_revoke_token w n) cx rq)"
    by (rule read_guards(1), rule foot_create_org foot_token_handlers)+
  show ?thesis
  proof (cases r)
    case Remove_member
    with assms(3) have "changes x (require_csrf (require_org w n ''admin'' (handle_remove_member w n)) cx rq) s" by (simp add: tenancy_def)
    from csrf_changes[OF this] show ?thesis using org hs(1) by blast
  next
    case Create_invite
    with assms(3) have "changes x (require_csrf (require_org w n ''admin'' (handle_create_invite ap w n)) cx rq) s" by (simp add: tenancy_def)
    from csrf_changes[OF this] show ?thesis using org hs(2) by blast
  next
    case Delete_invite
    with assms(3) have "changes x (require_csrf (require_org w n ''admin'' (handle_delete_invite w n)) cx rq) s" by (simp add: tenancy_def)
    from csrf_changes[OF this] show ?thesis using org hs(3) by blast
  next
    case Create_project
    with assms(3) have "changes x (require_csrf (require_org w n ''admin'' (handle_create_project ap w n)) cx rq) s" by (simp add: tenancy_def)
    from csrf_changes[OF this] show ?thesis using org hs(4) by blast
  next
    case Create_key
    with assms(3) have "changes x (require_csrf (require_project w n ''admin'' (handle_create_key ap w n)) cx rq) s" by (simp add: tenancy_def)
    from csrf_changes[OF this] show ?thesis using proj hs(5) by blast
  next
    case Revoke_key
    with assms(3) have "changes x (require_csrf (require_project w n ''admin'' (handle_revoke_key w n)) cx rq) s" by (simp add: tenancy_def)
    from csrf_changes[OF this] show ?thesis using proj hs(6) by blast
  next
    case Create_org
    with assms(3) have "changes x (require_csrf (require_auth (handle_create_org ap w n)) cx rq) s" by (simp add: tenancy_def)
    from csrf_changes[OF this] show ?thesis using free[OF auth(1)] by blast
  next
    case Create_token
    with assms(3) have "changes x (require_csrf (require_auth (handle_create_token ap w n)) cx rq) s" by (simp add: tenancy_def)
    from csrf_changes[OF this] show ?thesis using free[OF auth(2)] by blast
  next
    case Revoke_token
    with assms(3) have "changes x (require_csrf (require_auth (handle_revoke_token w n)) cx rq) s" by (simp add: tenancy_def)
    from csrf_changes[OF this] show ?thesis using free[OF auth(3)] by blast
  qed (use assms(3) in \<open>simp_all add: tenancy_def free read_guards read_only\<close>)
qed

subsection \<open>The principal\<close>

definition bearer_text :: "request \<Rightarrow> string" where "bearer_text rq = get_val (rq_headers rq) ''Authorization''"

definition speaks_for :: "world \<Rightarrow> request \<Rightarrow> site \<Rightarrow> uuid \<Rightarrow> bool" where
  "speaks_for w rq d v \<longleftrightarrow>
     (if has_prefix (bearer_text rq) bearer
      then \<exists>t\<in>set (api_tokens d). tk_token t = hash_token (trim_space (trim_prefix (bearer_text rq) bearer)) \<and> \<not> tk_revoked t \<and> tk_user t = v
      else cookie_of rq \<noteq> [] \<and> (\<exists>r\<in>set (auth_sessions d). ss_token r = hash_token (cookie_of rq) \<and> w_now w < ss_expires r \<and>
        w_pg_uuid w (ss_user r) = Some v))"

definition noted :: "world \<Rightarrow> site \<Rightarrow> site \<Rightarrow> bool" where
  "noted w d d' \<longleftrightarrow> d' = d \<or> (\<exists>h. q_slide w h d = Some ((), d')) \<or> (\<exists>h. q_touch_token w h d = Some ((), d'))"

lemma noted_facts:
  assumes "noted w d d'"
  shows "org_part x d' = org_part x d" "orgs d' = orgs d" "principal_rows v d' = principal_rows v d"
    "q_csrf h d' = q_csrf h d" "tenants_ok d \<Longrightarrow> tenants_ok d'"
proof -
  have f: "map_option ss_id (find (\<lambda>r. ss_token r = h) (update_where (\<lambda>r. ss_token r = g) (\<lambda>r. r\<lparr>ss_expires := e, ss_seen := t\<rparr>) rs)) =
      map_option ss_id (find (\<lambda>r. ss_token r = h) rs)" for h g e t rs
    by (induction rs) (auto simp: update_where_def)
  have e: "orgs d' = orgs d" "users d' = users d" "memberships d' = memberships d"
    using assms by (auto simp: noted_def q_slide_def q_touch_token_def)
  show "orgs d' = orgs d" by (rule e)
  show "principal_rows v d' = principal_rows v d" unfolding principal_rows_def e ..
  show "org_part x d' = org_part x d" "q_csrf h d' = q_csrf h d"
    using assms by (auto simp: noted_def q_slide_def q_touch_token_def org_part_def q_csrf_def f)
  show "tenants_ok d \<Longrightarrow> tenants_ok d'"
    using assms ok_session(2) ok_token(1) unfolding noted_def stmt_keeps_def by metis
qed

definition principal_ok :: "world \<Rightarrow> request \<Rightarrow> site \<Rightarrow> ctx \<Rightarrow> bool" where
  "principal_ok w rq d cx \<longleftrightarrow> (case cx_user cx of None \<Rightarrow> True | Some u \<Rightarrow>
     (\<exists>v. speaks_for w rq d v \<and> scan_member_rows (principal_rows v d) = Some u) \<and>
     (calm w \<and> \<not> has_prefix (bearer_text rq) bearer \<longrightarrow>
        (\<exists>r\<in>set (auth_sessions d). ss_token r = hash_token (cookie_of rq) \<and> cx_csrf cx = ss_id r)))"

lemma anonymous_ok: "principal_ok w rq d anonymous"
  by (simp add: principal_ok_def anonymous_def)

lemma run_query: "query w n (select f) s = (if w_fault w (io_calls s) then (Inl (n_text n (io_calls s)), called s) else (Inr (f (io_site s)), called s))"
  by (simp add: query_def select_def called_def)

lemma attempt_query: "attempt (query w n q) s = (case (if w_fault w (io_calls s) then None else q (io_site s)) of
    None \<Rightarrow> (Inr None, called s) | Some (a, d) \<Rightarrow> (Inr (Some a), called s\<lparr>io_site := d\<rparr>))"
  by (auto simp: attempt_def query_def split: option.split)

lemma noted_attempt:
  assumes "\<And>d. \<exists>d'. q d = Some ((), d') \<and> noted w d d'"
  shows "\<exists>x s2. attempt (query w n q) s = (Inr x, s2) \<and> noted w (io_site s) (io_site s2)"
proof (cases "w_fault w (io_calls s)")
  case True
  then show ?thesis by (simp add: attempt_query noted_def)
next
  case False
  obtain d' where "q (io_site s) = Some ((), d')" "noted w (io_site s) d'" using assms by blast
  then show ?thesis using False by (simp add: attempt_query)
qed

lemma noted_stmts: "\<exists>d'. q_slide w h d = Some ((), d') \<and> noted w d d'" "\<exists>d'. q_touch_token w h d = Some ((), d') \<and> noted w d d'"
proof -
  have "\<exists>d'. q_slide w h d = Some ((), d')" "\<exists>d'. q_touch_token w h d = Some ((), d')" by (simp_all add: q_slide_def q_touch_token_def)
  then show "\<exists>d'. q_slide w h d = Some ((), d') \<and> noted w d d'" "\<exists>d'. q_touch_token w h d = Some ((), d') \<and> noted w d d'"
    unfolding noted_def by blast+
qed

lemma called_site: "called s\<lparr>io_site := io_site s\<rparr> = called s"
  by (simp add: called_def)

lemma attempt_select: "attempt (query w n (select f)) s = (Inr (if w_fault w (io_calls s) then None else Some (f (io_site s))), called s)"
  by (simp add: attempt_query select_def called_site)

lemma attempt_select_row: "attempt (query_row w n (select f)) s = (Inr (if w_fault w (io_calls s) then None else f (io_site s)), called s)"
  by (simp add: attempt_def query_row_def run_query bind_def fail_def ret_def split: option.split)

lemma attempt_select_uuid: "attempt (query w n (with_uuid w u (\<lambda>v. select (f v)))) s =
    (Inr (if w_fault w (io_calls s) then None else map_option (\<lambda>v. f v (io_site s)) (w_pg_uuid w u)), called s)"
  by (simp add: attempt_query with_uuid_def select_def called_site split: option.split)

lemma q_session_user_mem: "q_session_user w h d = Some (uid, e) \<Longrightarrow> \<exists>r\<in>set (auth_sessions d). ss_token r = h \<and> w_now w < ss_expires r \<and> ss_user r = uid"
  by (auto simp: q_session_user_def dest: find_mem)

lemma session_user_result:
  "\<exists>uid s1. (session_user w n rq :: (io, 'e, string) sm) s = (Inr uid, s1) \<and> noted w (io_site s) (io_site s1) \<and>
     (uid \<noteq> [] \<longrightarrow> cookie_of rq \<noteq> [] \<and> (\<exists>r\<in>set (auth_sessions (io_site s)). ss_token r = hash_token (cookie_of rq) \<and> w_now w < ss_expires r \<and> ss_user r = uid))"
proof (cases "cookie_of rq = []")
  case True
  then show ?thesis by (simp add: session_user_def ret_def noted_def)
next
  case False
  let ?h = "hash_token (cookie_of rq)"
  obtain a where a: "(attempt (query_row w n (select (q_session_user w ?h))) :: (io, 'e, (uuid \<times> time) option) sm) s = (Inr a, called s)" "a = None \<or> a = q_session_user w ?h (io_site s)"
    using lookup_result[of w n "q_session_user w ?h" s] by auto
  show ?thesis
  proof (cases a)
    case None
    then show ?thesis using a(1) False by (simp add: session_user_def bind_def ret_def noted_def Let_def)
  next
    case (Some ue)
    obtain uid e where ue: "ue = (uid, e)" by (cases ue)
    have r: "\<exists>r\<in>set (auth_sessions (io_site s)). ss_token r = ?h \<and> w_now w < ss_expires r \<and> ss_user r = uid"
      using a(2) Some ue q_session_user_mem[of w ?h "io_site s" uid e] by auto
    obtain x s2 where x: "(attempt (query w n (q_slide w ?h)) :: (io, 'e, unit option) sm) (called s) = (Inr x, s2)" "noted w (io_site s) (io_site s2)"
      using noted_attempt[of "q_slide w ?h" w n "called s"] noted_stmts(1) by auto
    show ?thesis
      using a(1) Some ue r x False
      by (cases "e - w_now w < sliding_window") (auto simp: session_user_def bind_def ret_def noted_def Let_def)
  qed
qed

lemma q_csrf_mem: "q_csrf h d = Some c \<Longrightarrow> \<exists>r\<in>set (auth_sessions d). ss_token r = h \<and> ss_id r = c"
  by (auto simp: q_csrf_def dest: find_mem)

lemma user_for_session_result:
  "\<exists>x s1. (user_for_session w n rq uid :: (io, 'e, (user \<times> string) option) sm) s = (Inr x, s1) \<and> io_site s1 = io_site s \<and>
     (\<forall>u csrf. x = Some (u, csrf) \<longrightarrow> (\<exists>v. w_pg_uuid w uid = Some v \<and> scan_member_rows (principal_rows v (io_site s)) = Some u) \<and>
       (calm w \<longrightarrow> csrf = (case q_csrf (hash_token (cookie_of rq)) (io_site s) of None \<Rightarrow> [] | Some c \<Rightarrow> c)))"
proof -
  let ?q = "with_uuid w uid (\<lambda>u. select (principal_rows u))"
  define rows where "rows = (if w_fault w (io_calls s) then None else map_option (\<lambda>v. principal_rows v (io_site s)) (w_pg_uuid w uid))"
  have rows: "(attempt (query w n ?q) :: (io, 'e, member_row list option) sm) s = (Inr rows, called s)"
    "\<forall>rs. rows = Some rs \<longrightarrow> (\<exists>v. w_pg_uuid w uid = Some v \<and> rs = principal_rows v (io_site s))"
    by (auto simp: attempt_select_uuid rows_def split: if_splits)
  define c where "c = (if w_fault w (io_calls (called s)) then None else q_csrf (hash_token (cookie_of rq)) (io_site s))"
  have c: "(attempt (query_row w n (select (q_csrf (hash_token (cookie_of rq))))) :: (io, 'e, uuid option) sm) (called s)
      = (Inr c, called (called s))" "calm w \<longrightarrow> c = q_csrf (hash_token (cookie_of rq)) (io_site s)"
    by (simp_all add: attempt_select_row c_def calm_def)
  show ?thesis
  proof (cases rows)
    case None
    then show ?thesis using rows(1) by (simp add: user_for_session_def bind_def ret_def)
  next
    case (Some rs)
    then show ?thesis using rows c
      by (cases "scan_member_rows rs") (auto simp: user_for_session_def bind_def ret_def split: option.split)
  qed
qed

lemma user_for_token_result:
  "\<exists>x s1. (user_for_token w n token :: (io, 'e, (user \<times> string) option) sm) s = (Inr x, s1) \<and> noted w (io_site s) (io_site s1) \<and>
     (\<forall>u scope. x = Some (u, scope) \<longrightarrow> (\<exists>t\<in>set (api_tokens (io_site s)). tk_token t = hash_token token \<and> \<not> tk_revoked t \<and>
       scan_member_rows (principal_rows (tk_user t) (io_site s)) = Some u))"
proof -
  let ?h = "hash_token token"
  obtain y where y: "(attempt (query w n (select (q_token_user ?h))) :: (io, 'e, (member_row list \<times> string) option) sm) s = (Inr y, called s)"
    "y = None \<or> y = Some (q_token_user ?h (io_site s))"
    by (auto simp: attempt_select)
  obtain z s2 where z: "(attempt (query w n (q_touch_token w ?h)) :: (io, 'e, unit option) sm) (called s) = (Inr z, s2)"
    "noted w (io_site s) (io_site s2)"
    using noted_attempt[of "q_touch_token w ?h" w n "called s"] noted_stmts(2) by auto
  show ?thesis
  proof (cases y)
    case None
    then show ?thesis using y(1) by (simp add: user_for_token_def bind_def ret_def noted_def)
  next
    case (Some rs)
    obtain rows scope where rs: "rs = (rows, scope)" by (cases rs)
    have t: "\<exists>t\<in>set (api_tokens (io_site s)). tk_token t = ?h \<and> \<not> tk_revoked t \<and>
        scan_member_rows (principal_rows (tk_user t) (io_site s)) = Some u" if "scan_member_rows rows = Some u" for u
      using y(2) Some rs that by (auto simp: q_token_user_def split: option.splits dest: find_mem)
    show ?thesis
      using y(1) Some rs t z
      by (cases "scan_member_rows rows") (auto simp: user_for_token_def bind_def ret_def noted_def)
  qed
qed

lemma load_principal_result:
  "(\<exists>s1. load_principal w n inner rq s = (Inl (Answer bad_token), s1) \<and> noted w (io_site s) (io_site s1)) \<or>
   (\<exists>cx s1. load_principal w n inner rq s = inner cx s1 \<and> noted w (io_site s) (io_site s1) \<and> principal_ok w rq (io_site s) cx)"
proof (cases "has_prefix (bearer_text rq) bearer")
  case True
  let ?t = "trim_space (trim_prefix (bearer_text rq) bearer)"
  obtain x s1 where x: "(user_for_token w n ?t :: (user \<times> string) option act) s = (Inr x, s1)" "noted w (io_site s) (io_site s1)"
    "\<forall>u scope. x = Some (u, scope) \<longrightarrow> (\<exists>t\<in>set (api_tokens (io_site s)). tk_token t = hash_token ?t \<and> \<not> tk_revoked t \<and>
       scan_member_rows (principal_rows (tk_user t) (io_site s)) = Some u)"
    using user_for_token_result[where 'e = abort, of w n ?t s] by blast
  show ?thesis
  proof (cases "valid_api_token_shape ?t \<and> x \<noteq> None")
    case False
    then show ?thesis using True x(1,2)
      by (intro disjI1, cases x) (auto simp: load_principal_def bearer_text_def Let_def bind_def ret_def fail_def noted_def)
  next
    case valid: True
    then obtain u scope where u: "x = Some (u, scope)" by auto
    let ?cx = "\<lparr>cx_user = Some u, cx_csrf = [], cx_scope = scope\<rparr>"
    have "load_principal w n inner rq s = inner ?cx s1"
      using True x(1) valid u by (simp add: load_principal_def bearer_text_def Let_def bind_def)
    moreover have "principal_ok w rq (io_site s) ?cx"
      using x(3) u True by (auto simp: principal_ok_def speaks_for_def)
    ultimately show ?thesis using x(2) by blast
  qed
next
  case False
  obtain uid s1 where a: "(session_user w n rq :: string act) s = (Inr uid, s1)" "noted w (io_site s) (io_site s1)"
    "uid \<noteq> [] \<longrightarrow> cookie_of rq \<noteq> [] \<and> (\<exists>r\<in>set (auth_sessions (io_site s)). ss_token r = hash_token (cookie_of rq) \<and>
       w_now w < ss_expires r \<and> ss_user r = uid)"
    using session_user_result[where 'e = abort, of w n rq s] by blast
  have l: "load_principal w n inner rq s = (if uid = [] then inner anonymous s1 else
      bind (user_for_session w n rq uid) (\<lambda>p. case p of None \<Rightarrow> inner anonymous
        | Some (u, csrf) \<Rightarrow> inner \<lparr>cx_user = Some u, cx_csrf = csrf, cx_scope = []\<rparr>) s1)"
    using False a(1) by (simp add: load_principal_def bearer_text_def Let_def bind_def)
  show ?thesis
  proof (cases "uid = []")
    case True
    then have "load_principal w n inner rq s = inner anonymous s1" using l by simp
    then show ?thesis using a(2) anonymous_ok by blast
  next
    case uid: False
    obtain x s2 where x: "(user_for_session w n rq uid :: (user \<times> string) option act) s1 = (Inr x, s2)" "io_site s2 = io_site s1"
      "\<forall>u csrf. x = Some (u, csrf) \<longrightarrow> (\<exists>v. w_pg_uuid w uid = Some v \<and> scan_member_rows (principal_rows v (io_site s1)) = Some u) \<and>
         (calm w \<longrightarrow> csrf = (case q_csrf (hash_token (cookie_of rq)) (io_site s1) of None \<Rightarrow> [] | Some c \<Rightarrow> c))"
      using user_for_session_result[where 'e = abort, of w n rq uid s1] by blast
    show ?thesis
    proof (cases x)
      case None
      then have "load_principal w n inner rq s = inner anonymous s2" using l uid x(1) by (simp add: bind_def)
      moreover have "noted w (io_site s) (io_site s2)" using x(2) a(2) by simp
      ultimately show ?thesis using anonymous_ok by blast
    next
      case (Some uc)
      obtain u csrf where uc: "uc = (u, csrf)" by (cases uc)
      let ?cx = "\<lparr>cx_user = Some u, cx_csrf = csrf, cx_scope = []\<rparr>"
      obtain v where v: "w_pg_uuid w uid = Some v" "scan_member_rows (principal_rows v (io_site s)) = Some u"
        using x(3) Some uc noted_facts(3)[OF a(2)] by auto
      obtain r where r: "r \<in> set (auth_sessions (io_site s))" "ss_token r = hash_token (cookie_of rq)" "w_now w < ss_expires r" "ss_user r = uid"
        using a(3) uid by blast
      have c: "\<exists>r\<in>set (auth_sessions (io_site s)). ss_token r = hash_token (cookie_of rq) \<and> csrf = ss_id r" if "calm w"
      proof -
        have "q_csrf (hash_token (cookie_of rq)) (io_site s) \<noteq> None" using r(1,2) by (auto simp: q_csrf_def find_None_iff)
        then obtain c where c: "q_csrf (hash_token (cookie_of rq)) (io_site s) = Some c" by auto
        have "csrf = c" using that x(3) Some uc noted_facts(4)[OF a(2)] c by simp
        then show ?thesis using q_csrf_mem[OF c] by auto
      qed
      have "speaks_for w rq (io_site s) v" using False a(3) uid r v(1) by (auto simp: speaks_for_def)
      then have "principal_ok w rq (io_site s) ?cx" using v c by (auto simp: principal_ok_def)
      moreover have "load_principal w n inner rq s = inner ?cx s2" using l uid x(1) Some uc by (simp add: bind_def)
      moreover have "noted w (io_site s) (io_site s2)" using x(2) a(2) by simp
      ultimately show ?thesis by blast
    qed
  qed
qed

subsection \<open>Roles\<close>

lemma fold_roles:
  "map_of (u_roles (fold add_role rows u)) k = Some r \<Longrightarrow>
   map_of (u_roles u) k = Some r \<or> (\<exists>m\<in>set rows. m_org m \<noteq> [] \<and> m_role m = r \<and> (m_org m = k \<or> m_slug m = k))"
proof (induction rows arbitrary: u)
  case (Cons m rows)
  then have "map_of (u_roles (add_role m u)) k = Some r \<or> (\<exists>m\<in>set rows. m_org m \<noteq> [] \<and> m_role m = r \<and> (m_org m = k \<or> m_slug m = k))"
    by simp
  then show ?case by (auto simp: add_role_def map_of_alist_put split: if_splits)
qed simp

lemma principal_role:
  assumes "scan_member_rows (principal_rows v d) = Some u" "map_of (u_roles u) k = Some r"
  shows "\<exists>m\<in>set (memberships d). mb_user m = v \<and> mb_role m = r \<and>
    (mb_org m = k \<or> (case get_key o_id (mb_org m) (orgs d) of None \<Rightarrow> [] | Some og \<Rightarrow> o_slug og) = k)"
proof -
  obtain m ms where rows: "principal_rows v d = m # ms"
    and u: "u = fold add_role (m # ms) \<lparr>u_id = m_id m, u_email = m_email m, u_name = m_name m, u_roles = []\<rparr>"
    using assms(1) by (cases "principal_rows v d") auto
  obtain row where "row \<in> set (principal_rows v d)" "m_org row \<noteq> []" "m_role row = r" "m_org row = k \<or> m_slug row = k"
    using fold_roles[OF assms(2)[unfolded u]] rows by auto
  then show ?thesis by (auto simp: principal_rows_def Let_def split: if_splits)
qed

lemma admin_member:
  assumes "tenants_ok d" "\<And>a b. a \<in> set (orgs d) \<Longrightarrow> b \<in> set (orgs d) \<Longrightarrow> o_id a = x \<Longrightarrow> o_id b = o_slug a \<Longrightarrow> b = a"
    "scan_member_rows (principal_rows v d) = Some u" "og \<in> set (orgs d)" "o_id og = x"
    "role_at_least (get_val (u_roles u) (o_slug og)) ''admin''"
  shows "\<exists>m\<in>set (memberships d). mb_org m = x \<and> mb_user m = v \<and> mb_role m \<in> {''admin'', ''owner''}"
proof -
  obtain r where r: "map_of (u_roles u) (o_slug og) = Some r" "r \<in> {''admin'', ''owner''}"
    using assms(6) by (auto simp: role_at_least_def role_rank_def get_val_def split: option.splits if_splits)
  obtain m where m: "m \<in> set (memberships d)" "mb_user m = v" "mb_role m = r"
    and o: "mb_org m = o_slug og \<or> (case get_key o_id (mb_org m) (orgs d) of None \<Rightarrow> [] | Some og \<Rightarrow> o_slug og) = o_slug og"
    using principal_role[OF assms(3) r(1)] by blast
  have "mb_org m \<in> o_id ` set (orgs d)" using assms(1) m(1) by (simp add: tenants_ok_def members_ok_def)
  then obtain b where b: "b \<in> set (orgs d)" "o_id b = mb_org m" by auto
  have keys: "key_ok o_id (orgs d)" "key_ok o_slug (orgs d)" using assms(1) by (simp_all add: tenants_ok_def)
  have "b = og"
    using o
  proof
    assume "mb_org m = o_slug og"
    then show ?thesis using assms(2)[OF assms(4) b(1) assms(5)] b(2) by simp
  next
    assume s: "(case get_key o_id (mb_org m) (orgs d) of None \<Rightarrow> [] | Some og \<Rightarrow> o_slug og) = o_slug og"
    have "get_key o_id (mb_org m) (orgs d) = Some b" using get_key_unique[OF keys(1) b(1)] b(2) by simp
    with s have "o_slug b = o_slug og" by simp
    then show ?thesis using get_key_unique[OF keys(2) b(1)] get_key_unique[OF keys(2) assms(4)] by (metis option.inject)
  qed
  then show ?thesis using m r(2) b(2) assms(5) by auto
qed

text \<open>C2: A request to the tenancy API changes what belongs to an organization (its row, members, invitations,
  projects, ingest keys) only if it carries the live session cookie or unrevoked API token of a user who is
  an admin or owner of that organization at that moment, and, when no statement fails, a cookie request only with the
  CSRF token of its session; whatever the route, the body and the failing statements.  The id of another organization must not
  be the slug of this one: roles are looked up in one map by slug and by id.\<close>

theorem only_admins_change:
  assumes "tenants_ok (io_site s)" "x \<in> o_id ` set (orgs (io_site s))"
    "\<And>a b. a \<in> set (orgs (io_site s)) \<Longrightarrow> b \<in> set (orgs (io_site s)) \<Longrightarrow> o_id a = x \<Longrightarrow> o_id b = o_slug a \<Longrightarrow> b = a"
    "\<And>r. r \<in> set (auth_sessions (io_site s)) \<Longrightarrow> ss_id r \<noteq> []"
    "org_part x (io_site (snd (serve_tenancy ap w n rt rq s))) \<noteq> org_part x (io_site s)"
  shows "\<exists>m\<in>set (memberships (io_site s)). mb_org m = x \<and> mb_role m \<in> {''admin'', ''owner''} \<and> speaks_for w rq (io_site s) (mb_user m) \<and>
    (calm w \<longrightarrow> has_prefix (bearer_text rq) bearer \<or>
       (\<exists>r\<in>set (auth_sessions (io_site s)). ss_token r = hash_token (cookie_of rq) \<and> given_csrf rq = ss_id r))"
proof -
  have f: "io_site (snd (finish m s)) = io_site (snd (m s))" for m
    by (auto simp: finish_def split: prod.split sum.split abort.split)
  let ?inner = "\<lambda>cx. tenancy ap w n rt cx rq"
  have c: "org_part x (io_site (snd (load_principal w n ?inner rq s))) \<noteq> org_part x (io_site s)"
    using assms(5) by (simp add: serve_tenancy_def f)
  obtain cx s1 where l: "load_principal w n ?inner rq s = tenancy ap w n rt cx rq s1" "noted w (io_site s) (io_site s1)"
      "principal_ok w rq (io_site s) cx"
    using load_principal_result[of w n ?inner rq s] c noted_facts(1) by fastforce
  note nf = noted_facts[OF l(2)]
  have "changes x (tenancy ap w n rt cx rq) s1" using c l(1) nf(1) by (simp add: changes_def)
  then have m: "may_admin cx x (io_site s1)" "cx_csrf cx = [] \<or> given_csrf rq = cx_csrf cx"
    using tenancy_changes[OF nf(5)[OF assms(1)]] assms(2) nf(2) by auto
  obtain u og where u: "cx_user cx = Some u" "og \<in> set (orgs (io_site s))" "o_id og = x"
      "role_at_least (get_val (u_roles u) (o_slug og)) ''admin''"
    using m(1) nf(2) by (auto simp: may_admin_def org_role_def)
  obtain v where v: "speaks_for w rq (io_site s) v" "scan_member_rows (principal_rows v (io_site s)) = Some u"
    using l(3) u(1) by (auto simp: principal_ok_def)
  have k: "has_prefix (bearer_text rq) bearer \<or>
       (\<exists>r\<in>set (auth_sessions (io_site s)). ss_token r = hash_token (cookie_of rq) \<and> given_csrf rq = ss_id r)" if calm: "calm w"
  proof (cases "has_prefix (bearer_text rq) bearer")
    case False
    then obtain r where r: "r \<in> set (auth_sessions (io_site s))" "ss_token r = hash_token (cookie_of rq)" "cx_csrf cx = ss_id r"
      using l(3) u(1) calm by (auto simp: principal_ok_def)
    then have "given_csrf rq = ss_id r" using m(2) assms(4)[OF r(1)] by simp
    then show ?thesis using r(1,2) by blast
  qed simp
  show ?thesis using admin_member[OF assms(1,3) v(2) u(2-4)] v(1) k by blast
qed

text \<open>The owner revokes the key with the cookie and the CSRF token, step by step.\<close>

lemmas acme_simps = acme_site_def site_of_def empty_db_def witness_cookie_request_def witness_world_def

lemma acme_session:
  assumes "io_site s = acme_site (hash_token ''raw'')"
  shows "session_user (witness_world 0) n witness_cookie_request s = (Inr ''u1'', called s)"
proof -
  have "q_session_user (witness_world 0) (hash_token ''raw'') (io_site s) = Some (''u1'', 60 * day)"
    by (simp add: assms q_session_user_def acme_simps)
  moreover have "cookie_of witness_cookie_request = ''raw''"
    by (simp add: cookie_of_def session_cookie_def get_val_def witness_cookie_request_def)
  ultimately show ?thesis
    by (simp add: session_user_def bind_def attempt_select_row Let_def ret_def witness_world_def sliding_window_def day_def hour_def)
qed

lemma acme_user:
  assumes "io_site s = acme_site (hash_token ''raw'')"
  shows "user_for_session (witness_world 0) n witness_cookie_request ''u1'' s = (Inr (Some (
    \<lparr>u_id = ''u1'', u_email = ''a@b'', u_name = ''Ann'', u_roles = [(''o1'', ''owner''), (''acme'', ''owner'')]\<rparr>, ''s1'')), called (called s))"
proof -
  have "scan_member_rows (principal_rows ''u1'' (io_site s)) =
      Some \<lparr>u_id = ''u1'', u_email = ''a@b'', u_name = ''Ann'', u_roles = [(''o1'', ''owner''), (''acme'', ''owner'')]\<rparr>"
    by (simp add: assms principal_rows_def acme_simps get_key_def add_role_def)
  moreover have "q_csrf (hash_token ''raw'') (io_site s) = Some ''s1''" by (simp add: assms q_csrf_def acme_simps)
  moreover have "cookie_of witness_cookie_request = ''raw''"
    by (simp add: cookie_of_def session_cookie_def get_val_def witness_cookie_request_def)
  ultimately show ?thesis
    by (simp add: user_for_session_def bind_def attempt_select_row attempt_select_uuid ret_def witness_world_def)
qed

lemma acme_project:
  assumes "io_site s = acme_site (hash_token ''raw'')"
  shows "project_from_path (witness_world 0) n witness_cookie_request s = (Inr (Some \<lparr>pj_id = ''p1'', pj_org = ''o1'',
    pj_org_slug = ''acme'', pj_org_name = ''Acme'', pj_name = ''Web'', pj_slug = ''web'', pj_platform = ''javascript''\<rparr>), called s)"
proof -
  have "q_project ''acme'' ''web'' (io_site s) = Some \<lparr>pj_id = ''p1'', pj_org = ''o1'',
      pj_org_slug = ''acme'', pj_org_name = ''Acme'', pj_name = ''Web'', pj_slug = ''web'', pj_platform = ''javascript''\<rparr>"
    by (simp add: assms q_project_def acme_simps get_key_def proj_of_def)
  then show ?thesis
    by (simp add: project_from_path_def attempt_select_row witness_cookie_request_def get_val_def witness_world_def)
qed

lemma acme_revoke:
  assumes "io_site s = acme_site (hash_token ''raw'')"
  shows "handle_revoke_key (witness_world 0) n cx witness_cookie_request s = (Inr no_content, (called (called s))\<lparr>io_site :=
    on_keys (\<lambda>_. [\<lparr>k_id = ''k1'', k_project = ''p1'', k_name = ''Default'', k_created = 0, k_revoked = True\<rparr>]) (acme_site (hash_token ''raw''))\<rparr>)"
proof -
  have "q_revoke_key ''k1'' ''p1'' (acme_site (hash_token ''raw'')) = Some ((),
      on_keys (\<lambda>_. [\<lparr>k_id = ''k1'', k_project = ''p1'', k_name = ''Default'', k_created = 0, k_revoked = True\<rparr>]) (acme_site (hash_token ''raw'')))"
    by (simp add: q_revoke_key_def on_keys_def update_where_def acme_simps)
  moreover have "w_pg_uuid (witness_world 0) = Some" "w_fault (witness_world 0) = (\<lambda>_. False)"
    "get_val (rq_path witness_cookie_request) ''keyID'' = ''k1''"
    by (simp_all add: witness_world_def witness_cookie_request_def get_val_def)
  ultimately show ?thesis
    by (simp add: handle_revoke_key_def bind_def acme_project[OF assms] the_proj_def ret_def run500_def or_answer_def query_def assms
        with_uuid_def)
qed

lemma witness_revoked:
  "org_part ''o1'' (io_site (snd (serve_tenancy witness_app (witness_world 0) witness_net Revoke_key witness_cookie_request
     (io_of (acme_site (hash_token ''raw'')))))) \<noteq> org_part ''o1'' (acme_site (hash_token ''raw''))"
proof -
  let ?s = "io_of (acme_site (hash_token ''raw''))"
  have h: "get_val (rq_headers witness_cookie_request) ''Authorization'' = []"
    "get_val (rq_headers witness_cookie_request) ''X-Csrf-Token'' = ''s1''"
    by (simp_all add: witness_cookie_request_def get_val_def)
  have g: "get_val [(''o1'', ''owner''), (''acme'', ''owner'')] ''acme'' = ''owner''" by (simp add: get_val_def)
  have s: "io_site ?s = acme_site (hash_token ''raw'')" by (simp add: io_of_def)
  have "io_site (snd (serve_tenancy witness_app (witness_world 0) witness_net Revoke_key witness_cookie_request ?s)) =
      on_keys (\<lambda>_. [\<lparr>k_id = ''k1'', k_project = ''p1'', k_name = ''Default'', k_created = 0, k_revoked = True\<rparr>]) (acme_site (hash_token ''raw''))"
    by (simp add: serve_tenancy_def finish_def load_principal_def Let_def h has_prefix_def bearer_def bind_def acme_session acme_user acme_project s
        tenancy_def require_csrf_def require_project_def require_auth_def role_at_least_def org_role_def role_rank_def g acme_revoke)
  then show ?thesis by (simp add: org_part_def on_keys_def acme_simps)
qed

lemma only_admins_change_witness:
  "\<exists>m\<in>set (memberships (acme_site (hash_token ''raw''))). mb_org m = ''o1'' \<and> mb_role m \<in> {''admin'', ''owner''} \<and>
     speaks_for (witness_world 0) witness_cookie_request (acme_site (hash_token ''raw'')) (mb_user m)"
proof -
  let ?s = "io_of (acme_site (hash_token ''raw''))"
  have "\<exists>m\<in>set (memberships (io_site ?s)). mb_org m = ''o1'' \<and> mb_role m \<in> {''admin'', ''owner''} \<and>
      speaks_for (witness_world 0) witness_cookie_request (io_site ?s) (mb_user m) \<and> (calm (witness_world 0) \<longrightarrow>
      has_prefix (bearer_text witness_cookie_request) bearer \<or> (\<exists>r\<in>set (auth_sessions (io_site ?s)).
        ss_token r = hash_token (cookie_of witness_cookie_request) \<and> given_csrf witness_cookie_request = ss_id r))"
    by (rule only_admins_change[where ap = witness_app and n = witness_net and rt = Revoke_key])
      (use acme_site_ok witness_revoked in \<open>auto simp: io_of_def acme_site_def site_of_def\<close>)
  then show ?thesis by (auto simp: io_of_def)
qed

end
