(* ===== verification/AccountProps.thy ===== *)
theory AccountProps
  imports AccessProps
begin

section \<open>Owners, invitations, revoked credentials and sessions\<close>

text \<open>
  Invariants over sequences of requests: an organization keeps an owner under the tenancy API, and revoked keys
  and tokens stay revoked under every route.
\<close>

subsection \<open>An organization keeps an owner\<close>

definition has_owner :: "uuid \<Rightarrow> site \<Rightarrow> bool" where
  "has_owner x d \<longleftrightarrow> (\<exists>m\<in>set (memberships d). mb_org m = x \<and> mb_role m = ''owner'')"

interpretation owned: tenancy_inv "has_owner x" for x
  by unfold_locales (auto simp: has_owner_def stmt_keeps_def q_slide_def q_touch_token_def q_create_token_def q_revoke_token_def
      q_create_org_def q_add_member_def q_create_invite_def q_delete_invite_def q_create_project_def q_create_key_def q_revoke_key_def
      on_projects_def on_keys_def with_texts_def split: if_splits option.splits)

lemma run_select: "run500 w n (select f) s =
    (if w_fault w (io_calls s) then (Inl (Answer (server_error (n_text n (io_calls s)))), called s) else (Inr (f (io_site s)), called s))"
  by (simp add: run500_def or_answer_def run_query)

text \<open>The end of the handler, once it has found the membership.\<close>

lemma removal:
  "memberships (io_site (snd (bind (run500 w n (with_uuid w mem q_delete_member)) (\<lambda>_.
      bind (attempt (query w n (with_uuid w uid q_drop_sessions))) (\<lambda>_. ret no_content)) s))) = memberships (io_site s) \<or>
   (\<exists>mid. w_pg_uuid w mem = Some mid \<and> memberships (io_site (snd (bind (run500 w n (with_uuid w mem q_delete_member)) (\<lambda>_.
      bind (attempt (query w n (with_uuid w uid q_drop_sessions))) (\<lambda>_. ret no_content)) s))) =
      delete_where (\<lambda>m. mb_id m = mid) (memberships (io_site s)))"
proof -
  have d: "memberships (io_site (snd ((bind (attempt (query w n (with_uuid w uid q_drop_sessions))) (\<lambda>_. ret no_content) :: response act) t))) =
      memberships (io_site t)" for t
    by (auto simp: bind_def attempt_query with_uuid_def q_drop_sessions_def ret_def split: option.split)
  show ?thesis
  proof (cases "w_fault w (io_calls s) \<or> w_pg_uuid w mem = None")
    case True
    then show ?thesis by (auto simp: bind_def run500_def or_answer_def query_def with_uuid_def)
  next
    case False
    then obtain mid where "\<not> w_fault w (io_calls s)" "w_pg_uuid w mem = Some mid" by auto
    then show ?thesis using d
      by (simp add: bind_def[of "run500 _ _ _"] run500_def bind_def[of "or_answer _ _"] or_answer_def query_def[of w n "with_uuid w mem _"] with_uuid_def[of w mem]
          q_delete_member_def)
  qed
qed

lemma remove_member_effect:
  "memberships (io_site (snd (handle_remove_member w n cx rq s))) = memberships (io_site s) \<or>
   (\<exists>oid mid role uid. q_membership mid oid (io_site s) = Some (role, uid) \<and> \<not> (role = ''owner'' \<and> owner_count oid (io_site s) \<le> 1) \<and>
      memberships (io_site (snd (handle_remove_member w n cx rq s))) = delete_where (\<lambda>m. mb_id m = mid) (memberships (io_site s)))"
proof -
  obtain a where a: "org_from_path w n rq s = (Inr a, called s)"
    using lookup_result[of w n "q_org (get_val (rq_path rq) ''org'')" s] by (auto simp: org_from_path_def)
  let ?mem = "get_val (rq_path rq) ''memberID''"
  show ?thesis
  proof (cases a)
    case None
    then show ?thesis using a by (simp add: handle_remove_member_def bind_def the_org_def fail_def Let_def)
  next
    case (Some og)
    let ?s1 = "called s" and ?s2 = "called (called s)" and ?s3 = "called (called (called s))"
    let ?look = "query_row w n (with_uuid w ?mem (\<lambda>mid. select (q_membership mid (o_id og)))) ?s2"
    have l: "?look = (Inl (n_text n (io_calls ?s2)), ?s3) \<or> ?look = (Inl no_rows, ?s3) \<or>
        (\<exists>mid role uid. w_pg_uuid w ?mem = Some mid \<and> q_membership mid (o_id og) (io_site s) = Some (role, uid) \<and> ?look = (Inr (role, uid), ?s3))"
      by (auto simp: query_row_def bind_def query_def with_uuid_def select_def fail_def ret_def called_site split: option.split)
    have h: "handle_remove_member w n cx rq s = (if w_fault w (io_calls ?s1) then (Inl (Answer (server_error (n_text n (io_calls ?s1)))), ?s2) else
        bind (or_answer (\<lambda>_. write_err 404 ''member not found'' response0) (query_row w n (with_uuid w ?mem (\<lambda>mid. select (q_membership mid (o_id og))))))
          (\<lambda>(role, uid). if role = ''owner'' \<and> owner_count (o_id og) (io_site s) \<le> 1 then deny 400 ''cannot remove the last owner''
           else bind (run500 w n (with_uuid w ?mem q_delete_member)) (\<lambda>_.
             bind (attempt (query w n (with_uuid w uid q_drop_sessions))) (\<lambda>_. ret no_content))) ?s2)"
      using a Some by (simp add: handle_remove_member_def Let_def bind_def[of "bind _ _"] bind_def[of "org_from_path _ _ _"] the_org_def ret_def
        bind_def[of "run500 _ _ (select _)"] run_select)
    show ?thesis
    proof (cases "w_fault w (io_calls ?s1)")
      case True
      then show ?thesis using h by simp
    next
      case False
      show ?thesis
        using l
      proof (elim disjE exE conjE)
        fix mid role uid
        assume m: "w_pg_uuid w ?mem = Some mid" "q_membership mid (o_id og) (io_site s) = Some (role, uid)" "?look = (Inr (role, uid), ?s3)"
        show ?thesis
        proof (cases "role = ''owner'' \<and> owner_count (o_id og) (io_site s) \<le> 1")
          case True
          then show ?thesis using h False m by (simp add: bind_def or_answer_def deny_def fail_def)
        next
          case safe: False
          have e: "handle_remove_member w n cx rq s = bind (run500 w n (with_uuid w ?mem q_delete_member)) (\<lambda>_.
             bind (attempt (query w n (with_uuid w uid q_drop_sessions))) (\<lambda>_. ret no_content)) ?s3"
          proof -
            have "(if role = ''owner'' \<and> owner_count (o_id og) (io_site s) \<le> 1 then deny 400 ''cannot remove the last owner''
                else bind (run500 w n (with_uuid w ?mem q_delete_member)) (\<lambda>_.
                  bind (attempt (query w n (with_uuid w uid q_drop_sessions))) (\<lambda>_. ret no_content))) =
              bind (run500 w n (with_uuid w ?mem q_delete_member)) (\<lambda>_.
                  bind (attempt (query w n (with_uuid w uid q_drop_sessions))) (\<lambda>_. ret no_content))"
              using safe by (rule if_not_P)
            then show ?thesis using h False m(3) by (simp only: bind_def[of "or_answer _ _"] or_answer_def m(3) prod.case sum.case if_False)
          qed
          show ?thesis unfolding e using removal[of w n ?mem uid ?s3] m(1,2) safe by fastforce
        qed
      qed (use h False in \<open>simp_all add: bind_def or_answer_def\<close>)
    qed
  qed
qed

lemma owner_remove_member:
  assumes "tenants_ok (io_site s)" "has_owner x (io_site s)"
  shows "has_owner x (io_site (snd (handle_remove_member w n cx rq s)))"
  using remove_member_effect[of w n cx rq s]
proof (elim disjE exE conjE)
  fix oid mid role uid
  let ?ms = "memberships (io_site s)"
  assume q: "q_membership mid oid (io_site s) = Some (role, uid)" "\<not> (role = ''owner'' \<and> owner_count oid (io_site s) \<le> 1)"
    and e: "memberships (io_site (snd (handle_remove_member w n cx rq s))) = delete_where (\<lambda>m. mb_id m = mid) ?ms"
  obtain r where r: "r \<in> set ?ms" "mb_id r = mid" "mb_org r = oid" "mb_role r = role"
    using q(1) by (auto simp: q_membership_def dest: find_mem)
  have u: "key_ok mb_id ?ms" using assms(1) by (simp add: tenants_ok_def members_ok_def)
  have same: "m = r" if "m \<in> set ?ms" "mb_id m = mid" for m
    using get_key_unique[OF u that(1)] get_key_unique[OF u r(1)] unfolding that(2) r(2) by simp
  obtain m where m: "m \<in> set ?ms" "mb_org m = x" "mb_role m = ''owner''" using assms(2) by (auto simp: has_owner_def)
  have "\<exists>m'\<in>set ?ms. mb_org m' = x \<and> mb_role m' = ''owner'' \<and> mb_id m' \<noteq> mid"
  proof (cases "mb_id m = mid")
    case True
    then have mr: "m = r" using same m(1) by blast
    then have two: "2 \<le> length (filter (\<lambda>m. mb_org m = x \<and> mb_role m = ''owner'') ?ms)"
      using q(2) m r by (simp add: owner_count_def)
    have "distinct (filter (\<lambda>m. mb_org m = x \<and> mb_role m = ''owner'') ?ms)"
      using u by (simp add: key_ok_def distinct_map)
    then have "2 \<le> card (set (filter (\<lambda>m. mb_org m = x \<and> mb_role m = ''owner'') ?ms))" using two by (simp only: distinct_card)
    then have "\<not> set (filter (\<lambda>m. mb_org m = x \<and> mb_role m = ''owner'') ?ms) \<subseteq> {r}"
      using card_mono[of "{r}" "set (filter (\<lambda>m. mb_org m = x \<and> mb_role m = ''owner'') ?ms)"] by fastforce
    then obtain m' where "m' \<in> set ?ms" "mb_org m' = x" "mb_role m' = ''owner''" "m' \<noteq> r" by auto
    then show ?thesis using same by blast
  qed (use m in blast)
  then show ?thesis unfolding has_owner_def e by (auto simp: delete_where_def)
qed (use assms(2) in \<open>simp add: has_owner_def\<close>)

lemma stmt_keeps_both: "stmt_keeps J q \<Longrightarrow> stmt_keeps K q \<Longrightarrow> stmt_keeps (\<lambda>d. J d \<and> K d) q"
  unfolding stmt_keeps_def by blast

interpretation kept: tenancy_inv "\<lambda>d. tenants_ok d \<and> has_owner x d" for x
  by unfold_locales (use tenants.J_serial owned.J_serial in blast,
      simp_all add: stmt_keeps_both tenants.J_seen tenants.J_token tenants.J_org tenants.J_invite tenants.J_project tenants.J_key
        owned.J_seen owned.J_token owned.J_org owned.J_invite owned.J_project owned.J_key)

lemma owner_kept: "steady (on_site (\<lambda>d. tenants_ok d \<and> has_owner x d)) (handle_remove_member w n cx rq)"
proof -
  have "steady (on_site tenants_ok) (handle_remove_member w n cx rq)" by (rule tenants.steady_rest)
  then show ?thesis using owner_remove_member by (auto simp: steady_def)
qed

fun serve_requests :: "app \<Rightarrow> net \<Rightarrow> (world \<times> tenancy_route \<times> request) list \<Rightarrow> io \<Rightarrow> io" where
  "serve_requests ap n [] s = s"
| "serve_requests ap n ((w, rt, rq) # cs) s = serve_requests ap n cs (snd (serve_tenancy ap w n rt rq s))"

lemma serve_owner: "tenants_ok (io_site s) \<and> has_owner x (io_site s) \<Longrightarrow>
    tenants_ok (io_site (snd (serve_tenancy ap w n rt rq s))) \<and> has_owner x (io_site (snd (serve_tenancy ap w n rt rq s)))"
  unfolding serve_tenancy_def by (rule kept.principal_keeps[OF kept.steady_tenancy[OF owner_kept]])

text \<open>C6: No sequence of requests to the tenancy API leaves an organization without an owner once it has one, whatever the
  routes, the callers and the failing statements: the last owner cannot be removed.\<close>

theorem owners_stay:
  assumes "tenants_ok (io_site s)" "has_owner x (io_site s)"
  shows "has_owner x (io_site (serve_requests ap n cs s))"
proof -
  have "tenants_ok (io_site s) \<and> has_owner x (io_site s) \<Longrightarrow> has_owner x (io_site (serve_requests ap n cs s))"
    by (induction ap n cs s rule: serve_requests.induct) (use serve_owner in auto)
  then show ?thesis using assms by blast
qed

lemma owners_stay_witness:
  "has_owner ''o1'' (io_site (serve_requests witness_app witness_net [(witness_world 0, Remove_member, witness_cookie_request)]
     (io_of (acme_site (hash_token ''raw'')))))"
  by (rule owners_stay) (simp_all add: io_of_def acme_site_ok has_owner_def acme_site_def[of "hash_token ''raw''"] acme_site_ok[unfolded acme_site_def])

subsection \<open>Revoked credentials stay revoked\<close>

definition dead_key :: "uuid \<Rightarrow> site \<Rightarrow> bool" where
  "dead_key i d \<longleftrightarrow> (\<exists>k\<in>set (ingest_keys (store d)). k_id k = i \<and> k_revoked k)"

definition dead_token :: "string \<Rightarrow> site \<Rightarrow> bool" where
  "dead_token h d \<longleftrightarrow> (\<exists>t\<in>set (api_tokens d). tk_token t = h \<and> tk_revoked t)"

lemma update_where_ex:
  "(\<And>r. P r \<Longrightarrow> P (upd r)) \<Longrightarrow> \<exists>r\<in>set rs. P r \<Longrightarrow> \<exists>r\<in>set (update_where hit upd rs). P r"
  by (auto simp: update_where_def image_iff)

lemma dead_statements:
  "stmt_keeps (dead_key i) (q_revoke_key j pid)" "stmt_keeps (dead_token h) (q_revoke_token j uid)"
  "stmt_keeps (dead_token h) (q_touch_token w g)"
proof -
  have "\<exists>k\<in>set (update_where hit (\<lambda>k. k\<lparr>k_revoked := True\<rparr>) ks). k_id k = i \<and> k_revoked k" if "\<exists>k\<in>set ks. k_id k = i \<and> k_revoked k" for hit ks
    by (rule update_where_ex[OF _ that]) simp
  then show "stmt_keeps (dead_key i) (q_revoke_key j pid)"
    by (auto simp: stmt_keeps_def dead_key_def q_revoke_key_def on_keys_def)
  have "dead_token h (d\<lparr>api_tokens := update_where hit (\<lambda>t. t\<lparr>tk_revoked := True\<rparr>) (api_tokens d)\<rparr>)"
    "dead_token h (d\<lparr>api_tokens := update_where hit (\<lambda>t. t\<lparr>tk_used := u\<rparr>) (api_tokens d)\<rparr>)" if "dead_token h d" for d hit u
    using update_where_ex[of "\<lambda>t. tk_token t = h \<and> tk_revoked t" "\<lambda>t. t\<lparr>tk_revoked := True\<rparr>" "api_tokens d" hit]
      update_where_ex[of "\<lambda>t. tk_token t = h \<and> tk_revoked t" "\<lambda>t. t\<lparr>tk_used := u\<rparr>" "api_tokens d" hit] that
    by (simp_all add: dead_token_def)
  then show "stmt_keeps (dead_token h) (q_revoke_token j uid)" "stmt_keeps (dead_token h) (q_touch_token w g)"
    by (auto simp: stmt_keeps_def q_revoke_token_def q_touch_token_def)
qed

lemmas all_statements = q_slide_def q_touch_token_def q_create_token_def q_revoke_token_def q_create_org_def q_add_member_def
  q_create_invite_def q_delete_invite_def q_create_project_def q_create_key_def q_revoke_key_def q_create_session_def q_destroy_def
  q_setup_org_def q_create_user_def q_set_reset_def q_delete_member_def q_drop_sessions_def q_join_def q_accept_def q_reset_def
  on_projects_def on_keys_def with_texts_def Let_def

interpretation dead_keys: every_inv "dead_key i" for i
  by unfold_locales (auto simp: dead_statements, auto simp: stmt_keeps_def dead_key_def all_statements split: if_splits option.splits)

interpretation dead_tokens: every_inv "dead_token h" for h
  by unfold_locales (auto simp: dead_statements, auto simp: stmt_keeps_def dead_token_def all_statements split: if_splits option.splits)

text \<open>Any request to the tenancy API or the account pages.\<close>

datatype call = Api tenancy_route | Page account_route

definition serve_call :: "app \<Rightarrow> world \<Rightarrow> net \<Rightarrow> call \<Rightarrow> request \<Rightarrow> io \<Rightarrow> io" where
  "serve_call ap w n c rq s = snd (case c of Api r \<Rightarrow> serve_tenancy ap w n r rq s | Page r \<Rightarrow> serve_account ap w n r rq s)"

fun serve_calls :: "app \<Rightarrow> net \<Rightarrow> (world \<times> call \<times> request) list \<Rightarrow> io \<Rightarrow> io" where
  "serve_calls ap n [] s = s"
| "serve_calls ap n ((w, c, rq) # cs) s = serve_calls ap n cs (serve_call ap w n c rq s)"

lemma serve_calls_keep:
  assumes "\<And>w c rq s. J (io_site s) \<Longrightarrow> J (io_site (serve_call ap w n c rq s))" "J (io_site s)"
  shows "J (io_site (serve_calls ap n cs s))"
  using assms(2)
proof (induction cs arbitrary: s)
  case (Cons c cs)
  obtain w k rq where "c = (w, k, rq)" by (cases c)
  then show ?case using Cons.IH[OF assms(1)[OF Cons.prems]] by simp
qed simp

lemma calls_keep:
  "tenants_ok (io_site s) \<Longrightarrow> tenants_ok (io_site (serve_calls ap n cs s))"
  "dead_key i (io_site s) \<Longrightarrow> dead_key i (io_site (serve_calls ap n cs s))"
  "dead_token h (io_site s) \<Longrightarrow> dead_token h (io_site (serve_calls ap n cs s))"
  by (rule serve_calls_keep; auto simp: serve_call_def tenants.serve_keeps dead_keys.serve_keeps dead_tokens.serve_keeps split: call.split)+

lemma dead_token_refused:
  assumes "tenants_ok (io_site s)" "dead_token (hash_token (trim_space (trim_prefix (bearer_text rq) bearer))) (io_site s)"
    "has_prefix (bearer_text rq) bearer"
  shows "fst (load_principal w n inner rq s) = Inl (Answer bad_token)"
proof -
  let ?t = "trim_space (trim_prefix (bearer_text rq) bearer)"
  have u: "key_ok tk_token (api_tokens (io_site s))" using assms(1) by (simp add: tenants_ok_def tokens_ok_def)
  obtain t where t: "t \<in> set (api_tokens (io_site s))" "tk_token t = hash_token ?t" "tk_revoked t"
    using assms(2) by (auto simp: dead_token_def)
  have only: "t' = t" if "t' \<in> set (api_tokens (io_site s))" "tk_token t' = hash_token ?t" for t'
    using get_key_unique[OF u that(1)] get_key_unique[OF u t(1)] unfolding that(2) t(2) by simp
  obtain x s1 where x: "(user_for_token w n ?t :: (user \<times> string) option act) s = (Inr x, s1)"
    "\<forall>u scope. x = Some (u, scope) \<longrightarrow> (\<exists>t\<in>set (api_tokens (io_site s)). tk_token t = hash_token ?t \<and> \<not> tk_revoked t)"
    using user_for_token_result[where 'e = abort, of w n ?t s] by blast
  have "x = None" using x(2) only t(3) by (cases x) auto
  then show ?thesis using x(1) assms(3) by (simp add: load_principal_def bearer_text_def Let_def bind_def fail_def ret_def)
qed

text \<open>C7: Once an API token or an ingest key is revoked, no later sequence of requests brings it back: the token is
  answered with 401 before any handler runs, on every route, and no active key has the id of the revoked one.\<close>

theorem revoked_for_good:
  assumes "tenants_ok (io_site s)" "dead_key i (io_site s)"
    "dead_token (hash_token (trim_space (trim_prefix (bearer_text rq) bearer))) (io_site s)" "has_prefix (bearer_text rq) bearer"
  shows "fst (serve_tenancy ap w n r rq (serve_calls ap n cs s)) = Some bad_token \<and>
    fst (serve_account ap w n r' rq (serve_calls ap n cs s)) = Some bad_token \<and>
    i \<notin> k_id ` set (filter (\<lambda>k. \<not> k_revoked k) (ingest_keys (store (io_site (serve_calls ap n cs s)))))"
proof -
  let ?s = "serve_calls ap n cs s"
  have ok: "tenants_ok (io_site ?s)" by (rule calls_keep(1)[OF assms(1)])
  have f: "fst (finish (load_principal w n inner rq) ?s) = Some bad_token" for inner
    using dead_token_refused[OF ok calls_keep(3)[OF assms(3)] assms(4), of w n inner]
    by (cases "load_principal w n inner rq ?s") (simp add: finish_def)
  obtain k where k: "k \<in> set (ingest_keys (store (io_site ?s)))" "k_id k = i" "k_revoked k"
    using calls_keep(2)[OF assms(2), of ap n cs] by (auto simp: dead_key_def)
  have u: "key_ok k_id (ingest_keys (store (io_site ?s)))" using ok by (simp add: tenants_ok_def ingest_keys_ok_def)
  have "k' = k" if "k' \<in> set (ingest_keys (store (io_site ?s)))" "k_id k' = i" for k'
    using get_key_unique[OF u that(1)] get_key_unique[OF u k(1)] unfolding that(2) k(2) by simp
  then have "i \<notin> k_id ` set (filter (\<lambda>k. \<not> k_revoked k) (ingest_keys (store (io_site ?s))))" using k(3) by auto
  then show ?thesis using f by (simp add: serve_tenancy_def serve_account_def)
qed

definition witness_bearer_request :: request where
  "witness_bearer_request = witness_cookie_request\<lparr>rq_headers := [(''Authorization'', ''Bearer old'')]\<rparr>"

definition revoked_site :: site where
  "revoked_site = (on_keys (map (\<lambda>k. k\<lparr>k_revoked := True\<rparr>)) (acme_site ''h''))\<lparr>api_tokens := [\<lparr>tk_id = ''t1'', tk_user = ''u1'',
     tk_name = ''ci'', tk_token = hash_token ''old'', tk_prefix = ''bghan_'', tk_scope = ''write'', tk_created = 0, tk_revoked = True, tk_used = None\<rparr>]\<rparr>"

lemma revoked_for_good_witness:
  "fst (serve_tenancy witness_app (witness_world 1) witness_net List_orgs witness_bearer_request
     (serve_calls witness_app witness_net [(witness_world 0, Page Post_login, witness_cookie_request)] (io_of revoked_site))) = Some bad_token"
proof -
  have "bearer_text witness_bearer_request = ''Bearer old''"
    by (simp add: bearer_text_def witness_bearer_request_def get_val_def)
  moreover have "has_prefix ''Bearer old'' bearer" "trim_space (trim_prefix ''Bearer old'' bearer) = ''old''" by code_simp+
  moreover have "tenants_ok revoked_site"
    by (simp add: tenants_parts revoked_site_def on_keys_def acme_site_def site_of_def empty_db_def valid_role_def)
  moreover have "dead_key ''k1'' revoked_site" "dead_token (hash_token ''old'') revoked_site"
    by (simp_all add: dead_key_def dead_token_def revoked_site_def on_keys_def acme_site_def site_of_def empty_db_def)
  ultimately show ?thesis
    by (intro revoked_for_good[where i = "''k1''", THEN conjunct1]) (simp_all add: io_of_def)
qed

end
