(* ===== verification/Command.thy ===== *)
theory Command
  imports Accounts
begin

section \<open>Commands of the operator (cmd/bughan/main.go)\<close>

text \<open>
  \<open>bughan reset-password\<close> and \<open>bughan create-org\<close>, computations that end or exit with a code.  \<open>args\<close> is \<open>os.Args\<close>; the new
  password is the environment's (\<open>env\<close>, empty when unset) or typed.  Opening the pool pings the server: one call that may fail.
\<close>

type_synonym 'a command = "(io, int, 'a) sm"

definition or_exit :: "'a iom \<Rightarrow> 'a command" where
  "or_exit m s = (case m s of (Inl _, s') \<Rightarrow> (Inl 1, s') | (Inr a, s') \<Rightarrow> (Inr a, s'))"

definition open_database :: "world \<Rightarrow> net \<Rightarrow> unit command" where
  "open_database w n = or_exit (query w n (select (\<lambda>_. ())))"

definition arg_email :: "string \<Rightarrow> string" where "arg_email a = to_lower (trim_space a)"

subsection \<open>reset-password\<close>

definition q_reset_by_email :: "string \<Rightarrow> string \<Rightarrow> nat query" where
  "q_reset_by_email email h = with_texts [email] (\<lambda>d.
     Some (length (filter (\<lambda>u. us_email u = email) (users d)), d\<lparr>users := update_where (\<lambda>u. us_email u = email)
       (\<lambda>u. u\<lparr>us_hash := h, us_reset := None\<rparr>) (users d)\<rparr>))"

definition run_reset_password :: "app \<Rightarrow> world \<Rightarrow> net \<Rightarrow> string list \<Rightarrow> string \<Rightarrow> string \<Rightarrow> unit command" where
  "run_reset_password ap w n args env typed =
     (if length args < 3 then fail 2
      else
      let email = arg_email (args ! 2); pw = (if env = [] then typed else env) in
      bind (open_database w n) (\<lambda>_.
      if length pw < 8 then fail 1
      else
      bind (or_exit (hash_password ap pw)) (\<lambda>h.
      bind (or_exit (query w n (q_reset_by_email email h))) (\<lambda>k.
      if k = 0 then fail 1 else ret ()))))"

subsection \<open>create-org\<close>

text \<open>An organization with the same slug is renamed instead, and the user made its owner.\<close>

definition q_command_org :: "world \<Rightarrow> string \<Rightarrow> string \<Rightarrow> (uuid \<times> string) query" where
  "q_command_org w name slug = with_texts [name, slug] (\<lambda>d.
     let i = w_fresh w (serial (store d)); d = d\<lparr>store := (store d)\<lparr>serial := Suc (serial (store d))\<rparr>\<rparr> in
     case find (\<lambda>og. o_slug og = slug) (orgs d) of
       Some og \<Rightarrow> Some ((o_id og, o_slug og), d\<lparr>orgs := update_where (\<lambda>og. o_slug og = slug) (\<lambda>og. og\<lparr>o_name := name\<rparr>) (orgs d)\<rparr>)
     | None \<Rightarrow>
         if list_ex (\<lambda>og. o_id og = i) (orgs d) then None
         else Some ((i, slug), d\<lparr>orgs := orgs d @ [\<lparr>o_id = i, o_name = name, o_slug = slug\<rparr>]\<rparr>))"

definition q_grant :: "world \<Rightarrow> uuid \<Rightarrow> uuid \<Rightarrow> unit query" where
  "q_grant w oid uid d =
     (let i = w_fresh w (serial (store d)) in
      q_join w i oid ''owner'' uid (d\<lparr>store := (store d)\<lparr>serial := Suc (serial (store d))\<rparr>\<rparr>))"

definition run_create_org :: "world \<Rightarrow> net \<Rightarrow> string list \<Rightarrow> unit command" where
  "run_create_org w n args =
     (if length args < 4 then fail 2
      else
      let name = args ! 2; email = arg_email (args ! 3) in
      bind (open_database w n) (\<lambda>_.
      bind (or_exit (query_row w n (select (q_user_by_email email)))) (\<lambda>uid.
      bind (or_exit (query w n (q_command_org w name (slugify name)))) (\<lambda>(oid, slug).
      or_exit (query w n (with_uuid w uid (q_grant w oid)))))))"

end
