(* ===== verification/LoginProps.thy ===== *)
theory LoginProps
  imports AccountProps Command
begin

section \<open>Passwords, sessions and what the account pages let a visitor do\<close>

text \<open>
  Who can change a password hash: the routes one by one, through the invariants of \<open>account_inv\<close>.
\<close>

subsection \<open>Password hashes\<close>

text \<open>No user of \<open>d0\<close> is gone, and those that are left have the hash they had.\<close>

definition hashes_kept :: "site \<Rightarrow> site \<Rightarrow> bool" where
  "hashes_kept d0 d \<longleftrightarrow> us_id ` set (users d0) \<subseteq> us_id ` set (users d) \<and>
     (\<forall>u\<in>set (users d). us_id u \<in> us_id ` set (users d0) \<longrightarrow> (us_id u, us_hash u) \<in> (\<lambda>u. (us_id u, us_hash u)) ` set (users d0))"

interpretation hashes: account_inv "hashes_kept d0" for d0
proof unfold_locales
  have "hashes_kept d0 (d\<lparr>users := update_where hit (\<lambda>u. u\<lparr>us_reset := a, us_reset_expires := b\<rparr>) (users d)\<rparr>)"
    if "hashes_kept d0 d" for d hit a b
    using that by (simp add: hashes_kept_def key_image all_update)
  then show "stmt_keeps (hashes_kept d0) (q_set_reset uid h t)" for uid h t
    by (auto simp: stmt_keeps_def q_set_reset_def)
  have "hashes_kept d0 (d\<lparr>users := users d @ [u]\<rparr>)" if "hashes_kept d0 d" "us_id u \<notin> us_id ` set (users d)" for d u
    using that unfolding hashes_kept_def by auto
  then show "stmt_keeps (hashes_kept d0) (q_create_user i email name h verified)" for i email name h verified
    by (intro stmt_keepsI) (auto simp: q_create_user_def stmt_simps split: if_splits)
qed (auto simp: stmt_keeps_def hashes_kept_def all_statements split: if_splits option.splits)

lemma hashes_accept: "steady (on_site (hashes_kept d0)) (post_accept_invite ap w n cx rq)"
proof -
  have "stmt_keeps (hashes_kept d0) (q_join w i oid role uid)" "stmt_keeps (hashes_kept d0) (q_accept w i)" for i oid role uid
    by (auto simp: stmt_keeps_def hashes_kept_def all_statements split: if_splits option.splits)
  then show ?thesis unfolding post_accept_invite_def Let_def by (intro steady_intros hashes.draws)
qed

lemma attempt_query_site: "io_site (snd ((attempt (query w n q) :: 'a option act) s)) = io_site s \<or>
    (\<exists>a. q (io_site s) = Some (a, io_site (snd ((attempt (query w n q) :: 'a option act) s))))"
  by (auto simp: attempt_query split: option.split)

lemma hash_password_site: "users (io_site (snd (hash_password ap pw s))) = users (io_site s)"
  by (auto simp: hash_password_def bind_def draw_def next_serial_def Let_def ret_def split: option.split)

lemma attempt_result: obtains k s2 where "attempt m s = (Inr k, s2)"
  by (cases "m s", cases "fst (m s)") (auto simp: attempt_def)

lemma or_answer_site: "io_site (snd (or_answer f m s)) = io_site (snd (m s))"
  by (auto simp: or_answer_def split: prod.split sum.split)

lemma bind_Inl: "fst (m s) = Inl e \<Longrightarrow> bind m f s = (Inl e, snd (m s))"
  by (cases "m s") (simp add: bind_def)

lemma post_reset_users:
  "users (io_site (snd (post_reset ap w n cx rq s))) = users (io_site s) \<or>
   8 \<le> length (form rq ''password'') \<and>
   (\<exists>h k d d'. users d = users (io_site s) \<and> q_reset w (hash_token (form rq ''token'')) h d = Some (k, d') \<and>
     users (io_site (snd (post_reset ap w n cx rq s))) = users d')"
proof (cases "length (form rq ''password'') < 8")
  case True
  then show ?thesis by (simp add: post_reset_def Let_def fail_def)
next
  case False
  let ?hash = "or_answer server_error (hash_password ap (form rq ''password''))"
  obtain r s1 where r: "?hash s = (r, s1)" by fastforce
  have u: "users (io_site s1) = users (io_site s)"
    using or_answer_site[of server_error "hash_password ap (form rq ''password'')" s] hash_password_site[of ap "form rq ''password''" s] r by simp
  show ?thesis
  proof (cases r)
    case (Inl e)
    then show ?thesis using False r u by (simp add: post_reset_def Let_def bind_def)
  next
    case (Inr h)
    let ?q = "q_reset w (hash_token (form rq ''token'')) h"
    let ?m = "attempt (query w n ?q) :: nat option act"
    obtain k s2 where k: "?m s1 = (Inr k, s2)" by (rule attempt_result)
    have "post_reset ap w n cx rq s = (if k = None \<or> k = Some 0
        then error_page ap 400 ''forgot.html'' ''Forgot password'' ''That reset link is invalid or expired.''
        else ret (redirect ''/auth/login/'' rq response0)) s2"
      using False r Inr k by (simp add: post_reset_def Let_def bind_def)
    then have s2: "snd (post_reset ap w n cx rq s) = s2" by (simp add: error_page_def fail_def ret_def)
    have "io_site s2 = io_site s1 \<or> (\<exists>a. ?q (io_site s1) = Some (a, io_site s2))"
      using attempt_query_site[of w n ?q s1] k by simp
    then show ?thesis
    proof
      assume "\<exists>a. ?q (io_site s1) = Some (a, io_site s2)"
      then obtain a where "?q (io_site s1) = Some (a, io_site s2)" by blast
      then show ?thesis using u False s2 by (intro disjI2) (metis not_less)
    qed (simp add: s2 u)
  qed
qed

lemma reset_hashes:
  assumes "q_reset w g h d = Some (k, d')"
  shows "(\<lambda>u. (us_id u, us_hash u)) ` set (users d') \<subseteq> (\<lambda>u. (us_id u, us_hash u)) ` set (users d) \<union>
    {(i, h). \<exists>u\<in>set (users d). us_id u = i \<and> us_reset u = Some g \<and> (\<exists>t. us_reset_expires u = Some t \<and> w_now w < t)}"
proof -
  have "users d' = update_where (\<lambda>u. us_reset u = Some g \<and> (case us_reset_expires u of None \<Rightarrow> False | Some t \<Rightarrow> w_now w < t))
      (\<lambda>u. u\<lparr>us_hash := h, us_reset := None, us_reset_expires := None\<rparr>) (users d)"
    using assms by (auto simp: q_reset_def Let_def)
  then show ?thesis by (auto simp: update_where_def image_iff split: option.splits if_splits)
qed

lemma noted_users: "noted w d d' \<Longrightarrow> users d' = users d"
  by (auto simp: noted_def q_slide_def q_touch_token_def)

lemma finish_site: "io_site (snd (finish m s)) = io_site (snd (m s))"
  by (auto simp: finish_def split: prod.split sum.split abort.split)

lemma hashes_sub: "hashes_kept d0 d \<Longrightarrow> (\<lambda>u. (us_id u, us_hash u)) ` set (users d) \<subseteq>
    (\<lambda>u. (us_id u, us_hash u)) ` set (users d0) \<union> {(i, h). i \<notin> us_id ` set (users d0)}"
  by (auto simp: hashes_kept_def)

lemma page_hashes:
  "(\<lambda>u. (us_id u, us_hash u)) ` set (users (io_site (snd (serve_account ap w n r rq s)))) \<subseteq>
     (\<lambda>u. (us_id u, us_hash u)) ` set (users (io_site s)) \<union> {(i, h). i \<notin> us_id ` set (users (io_site s))} \<union>
     {(i, h). r = Post_reset \<and> 8 \<le> length (form rq ''password'') \<and> (\<exists>u\<in>set (users (io_site s)). us_id u = i \<and>
        us_reset u = Some (hash_token (form rq ''token'')) \<and> (\<exists>t. us_reset_expires u = Some t \<and> w_now w < t))}"
proof (cases "r = Post_reset")
  case True
  let ?inner = "\<lambda>cx. accounts ap w n r cx rq"
  have "users (io_site (snd (serve_account ap w n r rq s))) = users (io_site s) \<or>
      (\<exists>cx s1. users (io_site s1) = users (io_site s) \<and> io_site (snd (serve_account ap w n r rq s)) = io_site (snd (post_reset ap w n cx rq s1)))"
    using load_principal_result[of w n ?inner rq s]
  proof (elim disjE exE conjE)
    fix cx s1 assume "load_principal w n ?inner rq s = ?inner cx s1" "noted w (io_site s) (io_site s1)"
    then have "io_site (snd (serve_account ap w n r rq s)) = io_site (snd (post_reset ap w n cx rq s1))" "users (io_site s1) = users (io_site s)"
      using True noted_users by (simp_all add: serve_account_def finish_site accounts_def)
    then show ?thesis by blast
  qed (simp add: serve_account_def finish_site noted_users)
  then show ?thesis
  proof (elim disjE exE conjE)
    fix cx s1 assume s1: "users (io_site s1) = users (io_site s)"
      "io_site (snd (serve_account ap w n r rq s)) = io_site (snd (post_reset ap w n cx rq s1))"
    show ?thesis
      using post_reset_users[of ap w n cx rq s1]
    proof (elim disjE exE conjE)
      fix h k d d' assume p: "8 \<le> length (form rq ''password'')" "users d = users (io_site s1)"
        "q_reset w (hash_token (form rq ''token'')) h d = Some (k, d')" "users (io_site (snd (post_reset ap w n cx rq s1))) = users d'"
      show ?thesis using reset_hashes[OF p(3)] unfolding s1(2) p(4) p(2) s1(1) using True p(1) by blast
    qed (simp add: s1 Un_upper1 sup.coboundedI1)
  qed (simp add: sup.coboundedI1)
next
  case reset: False
  have "hashes_kept (io_site s) (io_site (snd (serve_account ap w n r rq s)))"
    unfolding serve_account_def
    by (rule hashes.principal_keeps[OF hashes.steady_accounts[OF hashes_accept]]) (use reset in \<open>auto simp: hashes_kept_def\<close>)
  then show ?thesis by (auto simp: hashes_kept_def)
qed

text \<open>No account is ever deleted.\<close>

definition accounts_stay :: "uuid set \<Rightarrow> site \<Rightarrow> bool" where
  "accounts_stay ids d \<longleftrightarrow> ids \<subseteq> us_id ` set (users d)"

interpretation staying: every_inv "accounts_stay ids" for ids
proof unfold_locales
  have upd: "accounts_stay ids (d\<lparr>users := update_where hit f (users d)\<rparr>)"
    if "accounts_stay ids d" "\<And>u. us_id (f u) = us_id u" for d hit f
    using that by (simp add: accounts_stay_def key_image)
  show "stmt_keeps (accounts_stay ids) (q_set_reset uid h t)" for uid h t
    by (auto simp: stmt_keeps_def q_set_reset_def intro: upd)
  show "stmt_keeps (accounts_stay ids) (q_reset w h g)" for w h g
    by (auto simp: stmt_keeps_def q_reset_def Let_def intro: upd)
  have "accounts_stay ids (d\<lparr>users := users d @ [u]\<rparr>)" if "accounts_stay ids d" for d u
    using that unfolding accounts_stay_def by auto
  then show "stmt_keeps (accounts_stay ids) (q_create_user i email name h verified)" for i email name h verified
    by (intro stmt_keepsI) (auto simp: q_create_user_def stmt_simps split: if_splits)
qed (auto simp: stmt_keeps_def accounts_stay_def all_statements split: if_splits option.splits)

lemma call_ids: "us_id ` set (users (io_site s)) \<subseteq> us_id ` set (users (io_site (serve_call ap w n c rq s)))"
  using staying.serve_keeps[of "us_id ` set (users (io_site s))" s]
  by (cases c) (simp_all add: serve_call_def accounts_stay_def)

lemma hashes_remove: "steady (on_site (hashes_kept d0)) (handle_remove_member w n cx rq)"
proof -
  have "stmt_keeps (hashes_kept d0) (q_delete_member i)" "stmt_keeps (hashes_kept d0) (q_drop_sessions uid)" for i uid
    by (auto simp: stmt_keeps_def hashes_kept_def all_statements split: if_splits option.splits)
  then show ?thesis unfolding handle_remove_member_def Let_def by (intro steady_intros hashes.draws)
qed

lemma api_hashes: "hashes_kept (io_site s) (io_site (snd (serve_tenancy ap w n r rq s)))"
  unfolding serve_tenancy_def
  by (rule hashes.principal_keeps[OF hashes.steady_tenancy[OF hashes_remove]]) (auto simp: hashes_kept_def)

subsection \<open>The operator's commands\<close>

lemma or_exit_site: "io_site (snd (or_exit m s)) = io_site (snd (m s))"
  by (auto simp: or_exit_def split: prod.split sum.split)

lemma steady_or_exit [steady_intros]: "steady (on_site J) m \<Longrightarrow> steady (on_site J) (or_exit m)"
  by (simp add: steady_def or_exit_site)

lemma steady_open [steady_intros]: "steady (on_site J) (open_database w n)"
  unfolding open_database_def by (intro steady_intros)

text \<open>The accounts and addresses of \<open>d0\<close>, with new passwords for the address \<open>a\<close> at most.\<close>

definition reset_only :: "string \<Rightarrow> site \<Rightarrow> site \<Rightarrow> bool" where
  "reset_only a d0 d \<longleftrightarrow> list_all2 (\<lambda>u v. us_id v = us_id u \<and> us_email v = us_email u \<and>
     (us_hash v = us_hash u \<or> us_email u = a)) (users d0) (users d)"

lemma reset_only_refl: "reset_only a d d"
  by (simp add: reset_only_def list.rel_refl)

lemma keeps_reset_by_email: "stmt_keeps (reset_only a d0) (q_reset_by_email a h)"
proof -
  have "list_all2 (\<lambda>u v. us_id v = us_id u \<and> us_email v = us_email u \<and> (us_hash v = us_hash u \<or> us_email u = a)) us
      (update_where (\<lambda>u. us_email u = a) (\<lambda>u. u\<lparr>us_hash := h, us_reset := None\<rparr>) vs)"
    if "list_all2 (\<lambda>u v. us_id v = us_id u \<and> us_email v = us_email u \<and> (us_hash v = us_hash u \<or> us_email u = a)) us vs" for us vs
    using that by (induction rule: list_all2_induct) (auto simp: update_where_def)
  then show ?thesis by (auto simp: stmt_keeps_def q_reset_by_email_def reset_only_def with_texts_def split: if_splits)
qed

lemma steady_hash: "steady (on_site (reset_only a d0)) (hash_password ap pw)"
  by (auto simp: steady_def reset_only_def hash_password_site)

lemma reset_command:
  "reset_only (arg_email (args ! 2)) (io_site s) (io_site (snd (run_reset_password ap w n args env typed s)))"
proof -
  have "steady (on_site (reset_only (arg_email (args ! 2)) (io_site s))) (run_reset_password ap w n args env typed)"
    unfolding run_reset_password_def Let_def by (intro steady_intros keeps_reset_by_email steady_hash)
  then show ?thesis using reset_only_refl by (auto simp: steady_def)
qed

lemma reset_command_short:
  assumes "length args < 3 \<or> length (if env = [] then typed else env) < 8"
  shows "io_site (snd (run_reset_password ap w n args env typed s)) = io_site s"
proof -
  have "steady (on_site (\<lambda>d. d = io_site s)) (run_reset_password ap w n args env typed)"
    using assms unfolding run_reset_password_def Let_def by (auto intro!: steady_intros)
  then show ?thesis by (simp add: steady_def)
qed

lemma reset_only_hashes:
  assumes "reset_only a d0 d"
  shows "(\<lambda>u. (us_id u, us_hash u)) ` set (users d) \<subseteq> (\<lambda>u. (us_id u, us_hash u)) ` set (users d0) \<union>
      {(i, h). \<exists>u\<in>set (users d0). us_id u = i \<and> us_email u = a}"
    "us_id ` set (users d) = us_id ` set (users d0)"
proof -
  have "list_all2 (\<lambda>u v. us_id v = us_id u) (users d0) (users d)"
    by (rule list_all2_mono[OF assms[unfolded reset_only_def]]) simp
  then have "map us_id (users d) = map us_id (users d0)"
    by (induction rule: list_all2_induct) simp_all
  then show "us_id ` set (users d) = us_id ` set (users d0)" by (metis set_map)
  show "(\<lambda>u. (us_id u, us_hash u)) ` set (users d) \<subseteq> (\<lambda>u. (us_id u, us_hash u)) ` set (users d0) \<union>
      {(i, h). \<exists>u\<in>set (users d0). us_id u = i \<and> us_email u = a}"
    using assms unfolding reset_only_def by (fastforce simp: list_all2_conv_all_nth in_set_conv_nth image_iff)
qed

lemma create_org_users: "users (io_site (snd (run_create_org w n args s))) = users (io_site s)"
proof -
  have "stmt_keeps (\<lambda>d. users d = users (io_site s)) (q_command_org w name slug)" for name slug
    by (auto simp: stmt_keeps_def q_command_org_def with_texts_def Let_def split: if_splits option.splits)
  moreover have "stmt_keeps (\<lambda>d. users d = users (io_site s)) (q_grant w oid uid)" for oid uid
    by (auto simp: stmt_keeps_def q_grant_def all_statements split: if_splits option.splits)
  ultimately have "steady (on_site (\<lambda>d. users d = users (io_site s))) (run_create_org w n args)"
    unfolding run_create_org_def Let_def by (auto intro!: steady_intros split: prod.splits)
  then show ?thesis by (simp add: steady_def)
qed

text \<open>C9: who can change a stored password.  Whatever the request, its route, the visitor and the faults, a request to the tenancy API
  or to an account page deletes no account, and changes the hash of an account that exists only when it is the reset form, with a
  password of at least eight bytes and the unexpired reset token of that very account.  Of the operator's commands, \<open>create-org\<close> leaves
  the accounts as they are, and \<open>reset-password\<close>, which asks for no token, keeps the accounts and changes hashes only of the account with the address
  it was given, when the new password has at least eight bytes.  (The statements of these two files, \<open>auth_handlers.go\<close> and
  \<open>main.go\<close>, are the only ones in the program that write \<open>password_hash\<close>.)\<close>

theorem password_changes:
  "(\<lambda>u. (us_id u, us_hash u)) ` set (users (io_site (serve_call ap w n c rq s))) \<subseteq>
     (\<lambda>u. (us_id u, us_hash u)) ` set (users (io_site s)) \<union> {(i, h). i \<notin> us_id ` set (users (io_site s))} \<union>
     {(i, h). c = Page Post_reset \<and> 8 \<le> length (form rq ''password'') \<and> (\<exists>u\<in>set (users (io_site s)). us_id u = i \<and>
        us_reset u = Some (hash_token (form rq ''token'')) \<and> (\<exists>t. us_reset_expires u = Some t \<and> w_now w < t))} \<and>
   us_id ` set (users (io_site s)) \<subseteq> us_id ` set (users (io_site (serve_call ap w n c rq s))) \<and>
   (\<lambda>u. (us_id u, us_hash u)) ` set (users (io_site (snd (run_reset_password ap w n args env typed s)))) \<subseteq>
     (\<lambda>u. (us_id u, us_hash u)) ` set (users (io_site s)) \<union>
     {(i, h). 3 \<le> length args \<and> 8 \<le> length (if env = [] then typed else env) \<and>
        (\<exists>u\<in>set (users (io_site s)). us_id u = i \<and> us_email u = arg_email (args ! 2))} \<and>
   us_id ` set (users (io_site (snd (run_reset_password ap w n args env typed s)))) = us_id ` set (users (io_site s)) \<and>
   users (io_site (snd (run_create_org w n args s))) = users (io_site s)"
proof (intro conjI call_ids create_org_users reset_only_hashes(2)[OF reset_command])
  show "(\<lambda>u. (us_id u, us_hash u)) ` set (users (io_site (serve_call ap w n c rq s))) \<subseteq>
     (\<lambda>u. (us_id u, us_hash u)) ` set (users (io_site s)) \<union> {(i, h). i \<notin> us_id ` set (users (io_site s))} \<union>
     {(i, h). c = Page Post_reset \<and> 8 \<le> length (form rq ''password'') \<and> (\<exists>u\<in>set (users (io_site s)). us_id u = i \<and>
        us_reset u = Some (hash_token (form rq ''token'')) \<and> (\<exists>t. us_reset_expires u = Some t \<and> w_now w < t))}"
  proof (cases c)
    case (Page r)
    then show ?thesis using page_hashes[of ap w n r rq s] by (simp add: serve_call_def)
  next
    case (Api r)
    then show ?thesis using hashes_sub[OF api_hashes[of s ap w n r rq]] by (simp add: serve_call_def sup.coboundedI1)
  qed
  let ?s = "snd (run_reset_password ap w n args env typed s)"
  show "(\<lambda>u. (us_id u, us_hash u)) ` set (users (io_site ?s)) \<subseteq> (\<lambda>u. (us_id u, us_hash u)) ` set (users (io_site s)) \<union>
     {(i, h). 3 \<le> length args \<and> 8 \<le> length (if env = [] then typed else env) \<and>
        (\<exists>u\<in>set (users (io_site s)). us_id u = i \<and> us_email u = arg_email (args ! 2))}"
  proof (cases "length args < 3 \<or> length (if env = [] then typed else env) < 8")
    case True
    show ?thesis unfolding reset_command_short[OF True] by (rule Un_upper1)
  next
    case False
    then show ?thesis using reset_only_hashes(1)[OF reset_command[of args s ap w n env typed]] by (simp add: not_less)
  qed
qed

end
