(* ===== verification/Visitors.thy ===== *)
theory Visitors
  imports LoginProps
begin

section \<open>What a visitor can do without an account\<close>

text \<open>
  Logging in, and the requests of a visitor without credentials: what opens a session, what the forgotten-password form
  tells, who can insert an organization, and what accepting an invitation does to an owner.
\<close>

subsection \<open>Sessions\<close>

definition session_users :: "site \<Rightarrow> (uuid \<times> uuid) set" where
  "session_users d = (\<lambda>r. (ss_id r, ss_user r)) ` set (auth_sessions d)"

interpretation opened: site_inv "\<lambda>d. session_users d \<subseteq> S" for S
  by unfold_locales (simp add: session_users_def)

lemma steady_create:
  assumes "\<And>i v. w_pg_uuid w uid = Some v \<Longrightarrow> (i, v) \<in> S"
  shows "steady (on_site (\<lambda>d. session_users d \<subseteq> S)) (log_in ap w n uid rq)"
proof -
  have c: "stmt_keeps (\<lambda>d. session_users d \<subseteq> S) (with_uuid w uid (q_create_session w h))" for h
    using assms by (auto simp: stmt_keeps_def with_uuid_def q_create_session_def session_users_def Let_def split: option.splits if_splits)
  then show ?thesis unfolding log_in_def create_session_def
    by (intro steady_bind steady_attempt opened.steady_tokens steady_stmt c steady_ret)
qed

lemma noted_sessions: "noted w d d' \<Longrightarrow> session_users d' = session_users d"
proof -
  have "session_users (d\<lparr>auth_sessions := update_where hit (\<lambda>r. r\<lparr>ss_expires := e, ss_seen := t\<rparr>) (auth_sessions d)\<rparr>) = session_users d"
    "session_users (d\<lparr>api_tokens := ts\<rparr>) = session_users d" for hit e t ts
    by (simp_all add: session_users_def key_image)
  then show "noted w d d' \<Longrightarrow> session_users d' = session_users d"
    by (auto simp: noted_def q_slide_def q_touch_token_def)
qed

text \<open>C10: The login form opens a session only for the account with the submitted email address and only if the
  submitted password verifies against its stored hash; no session of another account appears.\<close>

theorem login_needs_password:
  "session_users (io_site (snd (serve_account ap w n Post_login rq s))) \<subseteq> session_users (io_site s) \<union>
     {(i, v). \<exists>u\<in>set (users (io_site s)). us_email u = form_email rq \<and> w_pg_uuid w (us_id u) = Some v \<and>
        verify_password ap (form rq ''password'') (us_hash u) = Some True}"
    (is "_ \<subseteq> ?S")
proof -
  have p: "session_users (io_site (snd (post_login ap w n cx rq t))) \<subseteq> ?S"
    if t: "session_users (io_site t) = session_users (io_site s)" "users (io_site t) = users (io_site s)" for cx t
  proof -
    define row where "row = (if w_fault w (io_calls t) then None else q_login (form_email rq) (io_site t))"
    have r: "attempt (query_row w n (select (q_login (form_email rq)))) t = (Inr row, called t)"
      unfolding row_def by (rule attempt_select_row)
    show ?thesis
    proof (cases "\<exists>uid h. row = Some (uid, h) \<and> verify_password ap (form rq ''password'') h = Some True")
      case False
      then have "snd (post_login ap w n cx rq t) = called t"
        by (cases row) (auto simp: post_login_def bind_def r login_error_def error_page_def fail_def)
      then show ?thesis using t(1) by auto
    next
      case True
      then obtain uid h where h: "row = Some (uid, h)" "verify_password ap (form rq ''password'') h = Some True" by blast
      then have "get_key us_email (form_email rq) (users (io_site s)) \<noteq> None" "q_login (form_email rq) (io_site t) = Some (uid, h)"
        using t(2) by (auto simp: row_def q_login_def split: if_splits)
      then obtain u where u: "u \<in> set (users (io_site s))" "us_email u = form_email rq" "us_id u = uid" "us_hash u = h"
        using t(2) by (auto simp: q_login_def dest: get_key_Some)
      have "steady (on_site (\<lambda>d. session_users d \<subseteq> ?S)) (log_in ap w n uid rq)"
        using u h(2) by (intro steady_create) auto
      moreover have "session_users (io_site (called t)) \<subseteq> ?S" using t(1) by auto
      ultimately have "session_users (io_site (snd (log_in ap w n uid rq (called t)))) \<subseteq> ?S" by (simp add: steady_def)
      then show ?thesis using h by (simp add: post_login_def bind_def r)
    qed
  qed
  let ?inner = "\<lambda>cx. accounts ap w n Post_login cx rq"
  show ?thesis
    using load_principal_result[of w n ?inner rq s]
  proof (elim disjE exE conjE)
    fix cx t assume "load_principal w n ?inner rq s = ?inner cx t" "noted w (io_site s) (io_site t)"
    then show ?thesis using p[of t cx] noted_sessions noted_users by (simp add: serve_account_def finish_site accounts_def)
  qed (auto simp: serve_account_def finish_site dest: noted_sessions)
qed

subsection \<open>A visitor without credentials\<close>

definition visitor :: "request \<Rightarrow> bool" where "visitor rq \<longleftrightarrow> cookie_of rq = [] \<and> bearer_text rq = []"

lemma visitor_principal: "visitor rq \<Longrightarrow> load_principal w n inner rq s = inner anonymous s"
  by (simp add: visitor_def load_principal_def bearer_text_def has_prefix_def bearer_def session_user_def bind_def ret_def Let_def)

text \<open>C38: Without SMTP the forgotten-password form shows a valid reset link of an existing account to any visitor who submits its
  email address: the answer holds the token whose hash the account now waits for.\<close>

theorem reset_link_shown:
  assumes "visitor rq" "calm w" "\<not> smtp_enabled (ap_cfg ap)" "q_user_by_email (form_email rq) (io_site s) = Some uid"
    "w_pg_uuid w uid = Some uid" "ap_rand ap (serial (store (io_site s))) 32 = Some b"
  shows "fst (serve_account ap w n Post_forgot rq s) = Some (page ap 200 ''forgot.html'' ''Forgot password'' []
      (''SMTP is not configured'' @ em_dash @ ''use this link to reset the password: '' @ reset_link ap (hex_encode b)) []) \<and>
    (\<exists>u\<in>set (users (io_site (snd (serve_account ap w n Post_forgot rq s)))). us_email u = form_email rq \<and>
       us_reset u = Some (hash_token (hex_encode b)) \<and> us_reset_expires u = Some (pg_time (w_now w + hour)))"
proof -
  let ?s1 = "snd (next_serial (called s))"
  let ?s2 = "(called ?s1)\<lparr>io_site := snd (the (q_set_reset uid (hash_token (hex_encode b)) (w_now w + hour) (io_site ?s1)))\<rparr>"
  have q: "attempt (query_row w n (select (q_user_by_email (form_email rq)))) s = (Inr (Some uid), called s)"
    using assms(2,4) by (simp add: attempt_select_row calm_def)
  have t: "token_or_empty ap (called s) = (Inr (hex_encode b), ?s1)"
    using assms(6) by (simp add: token_or_empty_def bind_def attempt_def new_token_def draw_def next_serial_def Let_def ret_def)
  have u: "attempt (query w n (with_uuid w uid (\<lambda>u. q_set_reset u (hash_token (hex_encode b)) (w_now w + hour)))) ?s1 = (Inr (Some ()), ?s2)"
    using assms(2,5) by (simp add: attempt_query with_uuid_def calm_def q_set_reset_def)
  have m: "attempt (send_mail n (ap_cfg ap) rcpt subj body) t = (Inr (Some ()), t\<lparr>io_out := io_out t @ [Log_mail rcpt subj body]\<rparr>)" for rcpt subj body t
    using assms(3) by (simp add: attempt_def send_mail_def)
  have r: "post_forgot ap w n cx rq s = (Inr (page ap 200 ''forgot.html'' ''Forgot password'' []
      (''SMTP is not configured'' @ em_dash @ ''use this link to reset the password: '' @ reset_link ap (hex_encode b)) []),
      ?s2\<lparr>io_out := io_out ?s2 @ [Log_mail (form_email rq) ''BugHan password reset'' (reset_text (reset_link ap (hex_encode b)))]\<rparr>)" for cx
    using assms(3) by (simp add: post_forgot_def Let_def bind_def q t u m ret_def)
  obtain r0 where r0: "r0 \<in> set (users (io_site s))" "us_email r0 = form_email rq" "us_id r0 = uid"
    using assms(4) by (auto simp: q_user_by_email_def dest: get_key_Some)
  have m0: "r0\<lparr>us_reset := Some (hash_token (hex_encode b)), us_reset_expires := Some (pg_time (w_now w + hour))\<rparr> \<in>
      set (users (snd (the (q_set_reset uid (hash_token (hex_encode b)) (w_now w + hour) (io_site ?s1)))))"
    using update_where_mem[OF r0(1), where hit = "\<lambda>u. us_id u = uid"
        and upd = "\<lambda>u. u\<lparr>us_reset := Some (hash_token (hex_encode b)), us_reset_expires := Some (pg_time (w_now w + hour))\<rparr>"] r0(3)
    by (simp add: q_set_reset_def next_serial_def Let_def)
  have e: "fst (serve_account ap w n Post_forgot rq s) = Some (page ap 200 ''forgot.html'' ''Forgot password'' []
      (''SMTP is not configured'' @ em_dash @ ''use this link to reset the password: '' @ reset_link ap (hex_encode b)) [])"
    "io_site (snd (serve_account ap w n Post_forgot rq s)) =
      snd (the (q_set_reset uid (hash_token (hex_encode b)) (w_now w + hour) (io_site ?s1)))"
    by (simp_all add: serve_account_def visitor_principal[OF assms(1)] accounts_def finish_def r)
  show ?thesis unfolding e by (intro conjI refl bexI[OF _ m0]) (simp_all add: r0(2))
qed

lemma reset_link_shown_witness:
  "fst (serve_account witness_app (witness_world 0) witness_net Post_forgot
     (witness_cookie_request\<lparr>rq_cookies := []\<rparr>) (io_of (acme_site ''h''))) =
   Some (page witness_app 200 ''forgot.html'' ''Forgot password'' [] (''SMTP is not configured'' @ em_dash @
     ''use this link to reset the password: '' @ reset_link witness_app (hex_encode (replicate 32 CHR ''r''))) [])"
proof -
  let ?rq = "witness_cookie_request\<lparr>rq_cookies := []\<rparr>"
  have "visitor ?rq"
    by (simp add: visitor_def cookie_of_def bearer_text_def get_val_def witness_cookie_request_def)
  moreover have "form_email ?rq = ''a@b''"
  proof -
    have "form ?rq ''email'' = ''a@b''" by (simp add: form_def get_val_def witness_cookie_request_def)
    moreover have "to_lower (trim_space ''a@b'') = ''a@b''" by code_simp
    ultimately show ?thesis by (simp add: form_email_def)
  qed
  moreover have "q_user_by_email ''a@b'' (acme_site ''h'') = Some ''u1''"
    by (simp add: q_user_by_email_def acme_simps get_key_def)
  moreover have "\<not> smtp_enabled (ap_cfg witness_app)" by (simp add: witness_app_def smtp_enabled_def load_config_def get_env_def)
  ultimately show ?thesis
    by (intro reset_link_shown[where uid = "''u1''", THEN conjunct1])
      (simp_all add: io_of_def witness_calm witness_world_def[of 0] witness_app_def[of] calm_def)
qed

subsection \<open>Organizations of nobody\<close>

lemma slug_text: "list_all slug_char t \<Longrightarrow> pg_text t"
proof (induction t)
  case (Cons c t)
  then have "byte_nat c < 128" "c \<noteq> CHR 0x00"
    by (auto simp: slug_char_def is_lower_c_def is_digit_def byte_nat_def)
  then show ?case using Cons by (simp add: pg_text_def)
qed (simp add: pg_text_def)

lemma named_body:
  assumes "utf8_ok name"
  shows "decode_body ap dec_named [] (rq\<lparr>rq_body := \<lparr>st_bytes = json_print (jstrs [(''name'', name)]), st_err = False\<rparr>\<rparr>) = ret name"
proof -
  let ?v = "jstrs [(''name'', name)]"
  have "utf8_ok ''name''" and f: "equal_fold ''Name'' ''name''" by code_simp+
  then have j: "json_ok ?v" using assms by (simp add: jstrs_def)
  have "pval (json_fuel (json_print ?v)) (json_print ?v) = Some (?v, [])" by (rule pval_print[OF j])
  moreover have "dec_named ?v [] = Some name"
    by (simp add: jstrs_def dec_named_def dec_struct_def on_def dec_string_def f)
  ultimately show ?thesis by (simp add: decode_body_def decode_first_def jstrs_def)
qed

text \<open>C39: The form for a new organization needs no login: a visitor's request inserts an organization without any
  member, then fails on the missing user, and the row stays.\<close>

theorem visitor_makes_org:
  assumes "visitor rq" "calm w" "\<not> cf_single_org (ap_cfg ap)" "name = trim_space (form rq ''name'')" "name \<noteq> []" "pg_text name"
    "slugify name \<notin> o_slug ` set (orgs (io_site s))" "w_fresh w (serial (store (io_site s))) \<notin> o_id ` set (orgs (io_site s))"
  shows "fst (serve_account ap w n Post_new_org rq s) = None \<and>
    orgs (io_site (snd (serve_account ap w n Post_new_org rq s))) =
      orgs (io_site s) @ [\<lparr>o_id = w_fresh w (serial (store (io_site s))), o_name = name, o_slug = slugify name\<rparr>] \<and>
    memberships (io_site (snd (serve_account ap w n Post_new_org rq s))) = memberships (io_site s)"
proof -
  let ?i = "w_fresh w (serial (store (io_site s)))" and ?s1 = "snd (next_serial s)"
  let ?og = "\<lparr>o_id = ?i, o_name = name, o_slug = slugify name\<rparr>"
  have u: "new_uuid w t = (Inr (w_fresh w (serial (store (io_site t)))), snd (next_serial t))" for t
    by (simp add: new_uuid_def next_serial_def Let_def)
  have ns: "orgs (io_site (snd (next_serial t))) = orgs (io_site t)" "memberships (io_site (snd (next_serial t))) = memberships (io_site t)" for t
    by (simp_all add: next_serial_def Let_def)
  have "pg_text (slugify name)" using slugs_proper by (intro slug_text) (simp add: proper_slug_def)
  then have q: "q_create_org ?i name (slugify name) (io_site ?s1) = Some (Inr (slugify name), (io_site ?s1)\<lparr>orgs := orgs (io_site s) @ [?og]\<rparr>)"
    using assms(6-8) by (simp add: q_create_org_def with_texts_def stmt_simps ns)
  let ?s2 = "(called ?s1)\<lparr>io_site := (io_site ?s1)\<lparr>orgs := orgs (io_site s) @ [?og]\<rparr>\<rparr>"
  have r: "run500 w n (q_create_org ?i name (slugify name)) ?s1 = (Inr (Inr (slugify name)), ?s2)"
    using q assms(2) by (simp add: run500_def or_answer_def query_def calm_def)
  have t: "trim_space name = name" using assms(4) by simp
  have h: "handle_create_org ap w n anonymous (rq\<lparr>rq_body := \<lparr>st_bytes = json_print (jstrs [(''name'', name)]), st_err = False\<rparr>\<rparr>) s =
      (Inl Crash, snd (next_serial ?s2))"
    using assms(3,5,6)
    by (simp add: handle_create_org_def bind_def named_body pg_text_def t ret_def u r the_user_def anonymous_def fail_def)
  have p: "accounts ap w n Post_new_org anonymous rq s = (Inl Crash, snd (next_serial ?s2))"
    using h assms(4,5) by (simp add: accounts_def require_csrf_def anonymous_def post_new_org_def Let_def)
  show ?thesis using p by (simp add: serve_account_def visitor_principal[OF assms(1)] finish_def ns)
qed

definition new_org_request :: request where
  "new_org_request = \<lparr>rq_method = ''POST'', rq_path = [], rq_query = [], rq_form = [(''name'', ''Mine'')], rq_headers = [], rq_cookies = [],
     rq_length = 0, rq_body = \<lparr>st_bytes = [], st_err = False\<rparr>\<rparr>"

lemma visitor_makes_org_witness:
  "fst (serve_account witness_app (witness_world 0) witness_net Post_new_org new_org_request (io_of (acme_site ''h''))) = None \<and>
   length (orgs (io_site (snd (serve_account witness_app (witness_world 0) witness_net Post_new_org new_org_request (io_of (acme_site ''h'')))))) = 2"
proof -
  have "visitor new_org_request"
    by (simp add: visitor_def cookie_of_def bearer_text_def get_val_def new_org_request_def)
  moreover have "form new_org_request ''name'' = ''Mine''" by (simp add: form_def get_val_def new_org_request_def)
  moreover have "trim_space ''Mine'' = ''Mine''" "pg_text ''Mine''" "slugify ''Mine'' = ''mine''" by code_simp+
  moreover have "\<not> cf_single_org (ap_cfg witness_app)" by (simp add: witness_app_def load_config_def get_env_bool_def get_env_def)
  moreover have "w_fresh (witness_world 0) 0 = ''u''" by (simp add: witness_world_def)
  ultimately have "fst (serve_account witness_app (witness_world 0) witness_net Post_new_org new_org_request (io_of (acme_site ''h''))) = None \<and>
      orgs (io_site (snd (serve_account witness_app (witness_world 0) witness_net Post_new_org new_org_request (io_of (acme_site ''h''))))) =
      orgs (io_site (io_of (acme_site ''h''))) @ [\<lparr>o_id = w_fresh (witness_world 0) (serial (store (io_site (io_of (acme_site ''h''))))),
        o_name = ''Mine'', o_slug = slugify ''Mine''\<rparr>] \<and>
      memberships (io_site (snd (serve_account witness_app (witness_world 0) witness_net Post_new_org new_org_request (io_of (acme_site ''h''))))) =
      memberships (io_site (io_of (acme_site ''h'')))"
    by (intro visitor_makes_org) (simp_all add: io_of_def witness_calm, simp_all add: acme_site_def site_of_def empty_db_def)
  then show ?thesis by (simp add: io_of_def acme_site_def)
qed

subsection \<open>Invitations and owners\<close>

lemma joined_owners:
  assumes "mb \<in> set ms" "mb_org mb = x" "mb_user mb = v" "filter (\<lambda>m. mb_org m = x \<and> mb_role m = ''owner'') ms = [mb]"
    "key_ok (\<lambda>m. (mb_org m, mb_user m)) ms"
  shows "filter (\<lambda>m. mb_org m = x \<and> mb_role m = ''owner'') (update_where (\<lambda>m. mb_org m = x \<and> mb_user m = v) (\<lambda>m. m\<lparr>mb_role := ''member''\<rparr>) ms) = []"
proof -
  have "m = mb" if "m \<in> set ms" "mb_org m = x" "mb_role m = ''owner''" for m
  proof -
    have "m \<in> set (filter (\<lambda>m. mb_org m = x \<and> mb_role m = ''owner'') ms)" using that by simp
    then show ?thesis unfolding assms(4) by simp
  qed
  then show ?thesis using assms(2,3) by (auto simp: filter_empty_conv set_update_where)
qed

text \<open>C40: Accepting an invitation replaces the role of an existing membership, an owner's too: when the only owner of an
  organization accepts an invitation to be a member of it, the organization is left without an owner.\<close>

theorem invite_demotes:
  assumes "calm w" "tenants_ok (io_site s)" "cx_user cx = Some u" "w_pg_uuid w (u_id u) = Some (u_id u)"
    "q_invite w (hash_token (get_val (rq_path rq) ''token'')) (to_lower (u_email u)) (io_site s) = Some (i, x, ''member'')"
    "filter (\<lambda>m. mb_org m = x \<and> mb_role m = ''owner'') (memberships (io_site s)) = [mb]" "mb_user mb = u_id u"
  shows "fst (post_accept_invite ap w n cx rq s) = Inr (redirect ''/'' rq response0) \<and>
    has_owner x (io_site s) \<and> \<not> has_owner x (io_site (snd (post_accept_invite ap w n cx rq s)))"
proof -
  let ?ms = "memberships (io_site s)"
  have mb: "mb \<in> set ?ms" "mb_org mb = x" "mb_role mb = ''owner''"
    using arg_cong[OF assms(6), of set] by auto
  have k: "key_ok (\<lambda>m. (mb_org m, mb_user m)) ?ms" using assms(2) by (simp add: tenants_ok_def members_ok_def)
  let ?new = "update_where (\<lambda>m. mb_org m = x \<and> mb_user m = u_id u) (\<lambda>m. m\<lparr>mb_role := ''member''\<rparr>) ?ms"
  have ex: "list_ex (\<lambda>m. mb_org m = x \<and> mb_user m = u_id u) ?ms" using mb assms(7) by (auto simp: list_ex_iff)
  have n: "filter (\<lambda>m. mb_org m = x \<and> mb_role m = ''owner'') ?new = []" by (rule joined_owners[OF mb(1,2) assms(7,6) k])
  have j: "q_join w mid x ''member'' (u_id u) d = Some ((), d\<lparr>memberships := ?new\<rparr>)" if "memberships d = ?ms" for mid d
    using ex that by (simp add: q_join_def valid_role_def)
  have c: "w_fault w k = False" for k using assms(1) by (simp add: calm_def)
  have q: "attempt (query_row w n (select (q_invite w (hash_token (get_val (rq_path rq) ''token'')) (to_lower (u_email u))))) s =
      (Inr (Some (i, x, ''member'')), called s)"
    by (simp add: attempt_select_row c assms(5))
  have t: "memberships (io_site (snd (next_serial t))) = memberships (io_site t)" for t by (simp add: next_serial_def Let_def)
  have nu: "new_uuid w t = (Inr (w_fresh w (serial (store (io_site t)))), snd (next_serial t))" for t
    by (simp add: new_uuid_def next_serial_def Let_def)
  have r: "fst (post_accept_invite ap w n cx rq s) = Inr (redirect ''/'' rq response0)"
    "memberships (io_site (snd (post_accept_invite ap w n cx rq s))) = ?new"
    by (simp_all add: post_accept_invite_def assms(3) bind_def q in_tx_def c nu run500_def or_answer_def query_def with_uuid_def
        assms(4) j t q_accept_def ret_def)
  have "has_owner x (io_site s)" using mb by (auto simp: has_owner_def)
  moreover have "\<not> has_owner x (io_site (snd (post_accept_invite ap w n cx rq s)))"
    using n by (auto simp: has_owner_def r(2) filter_empty_conv)
  ultimately show ?thesis using r(1) by simp
qed

text \<open>The owner of the sample organization follows a link sent to its own address.\<close>

definition invited_site :: site where
  "invited_site = (acme_site ''h'')\<lparr>invitations := [\<lparr>iv_id = ''i1'', iv_org = ''o1'', iv_email = ''a@b'', iv_role = ''member'',
     iv_token = hash_token ''raw'', iv_by = ''u1'', iv_expires = 7 * day, iv_accepted = None, iv_created = 0\<rparr>]\<rparr>"

lemma invite_demotes_witness:
  "has_owner ''o1'' invited_site \<and> \<not> has_owner ''o1'' (io_site (snd (post_accept_invite witness_app (witness_world 0) witness_net
     \<lparr>cx_user = Some \<lparr>u_id = ''u1'', u_email = ''a@b'', u_name = ''Ann'', u_roles = []\<rparr>, cx_csrf = [], cx_scope = []\<rparr>
     (new_org_request\<lparr>rq_path := [(''token'', ''raw'')]\<rparr>) (io_of invited_site))))"
proof -
  let ?u = "\<lparr>u_id = ''u1'', u_email = ''a@b'', u_name = ''Ann'', u_roles = []\<rparr>"
  let ?rq = "new_org_request\<lparr>rq_path := [(''token'', ''raw'')]\<rparr>"
  let ?mb = "\<lparr>mb_id = ''m1'', mb_org = ''o1'', mb_user = ''u1'', mb_role = ''owner'', mb_created = 0\<rparr>"
  have "to_lower ''a@b'' = ''a@b''" by code_simp
  moreover have "(0 :: int) < 7 * day" by (simp add: day_def hour_def minute_def second_def millisecond_def nanosecond_def)
  ultimately have q: "q_invite (witness_world 0) (hash_token (get_val (rq_path ?rq) ''token'')) (to_lower (u_email ?u)) (io_site (io_of invited_site)) =
      Some (''i1'', ''o1'', ''member'')"
    by (simp add: q_invite_def open_invite_def invited_site_def io_of_def get_val_def witness_world_def)
  have t: "tenants_ok (io_site (io_of invited_site))"
    by (simp add: io_of_def tenants_parts invited_site_def acme_site_def site_of_def empty_db_def valid_role_def)
  have "filter (\<lambda>m. mb_org m = ''o1'' \<and> mb_role m = ''owner'') (memberships (io_site (io_of invited_site))) = [?mb]"
    by (simp add: io_of_def invited_site_def acme_site_def)
  from invite_demotes[OF witness_calm t _ _ q this, where cx = "\<lparr>cx_user = Some ?u, cx_csrf = [], cx_scope = []\<rparr>"
      and ap = witness_app and n = witness_net]
  show ?thesis by (simp add: io_of_def witness_world_def)
qed

end
