(* ===== verification/Spec2Isabelle.thy ===== *)
theory Spec2Isabelle
  imports SessionLife SourceMap IngestAuth RateLimit AlertProps RetentionProps JobLoop SymbolicateProps HttpIngestProps
    Visitors
begin

text \<open>
  A model of BugHan, a self-hosted error tracker that speaks the Sentry ingest protocol: one Go binary beside a
  Postgres server.  Everything below is about the code under \<open>src/internal\<close> (and the registry of jobs and
  the admin commands in \<open>src/cmd/bughan/main.go\<close>).

  \<^bold>\<open>How the program works.\<close>  A browser SDK posts an envelope to \<open>httpapi/ingest.go\<close>.  The handler reads and
  decompresses the body, frames it, resolves the ingest key through a cache, takes a slot of the project's quota and
  hands the envelope to \<open>ingest.Processor.Process\<close>, which stores every item in one transaction: events are
  grouped into issues, transactions and sessions update partitioned tables and hourly rollups, feedback is linked to
  issues.  The signals that come out become rows of the \<open>jobs\<close> table.  The worker polls that table and evaluates alert
  rules (mails and webhooks), rolls transactions up, and sweeps old rows and partitions.  Viewing an event
  symbolicates its frames against uploaded source maps and caches the result on the row.  People log in through
  the account pages and administer organizations, members, projects, keys and tokens through the tenancy API.

  \<^bold>\<open>State.\<close>  A table of the migrations is a list of records; \<open>db\<close> (Db) holds the tables the ingest transaction
  touches and \<open>site\<close> (Site) the others beside it.  A statement is a function from the tables to an outcome and the tables after;
  \<open>world\<close> fixes what the environment decides (the clock, fresh uuids, uuid and number syntax of the driver and
  the server, and by \<open>w_fault\<close> which statements fail).  An operation of the pipeline is a computation on a
  transaction that may be aborted (\<open>txm\<close>), one of the worker or the handlers a computation on \<open>io\<close>: the site, the number of
  calls made so far and the messages sent (\<open>net\<close> gives the outcomes of mails and requests).  Errors are
  values of a sum type; a panic of a handler is \<open>Crash\<close>.

  \<^bold>\<open>The theories, by the code they model.\<close>
  \<^item> Go and Postgres: Prelude (package strings), Json and JsonPrint (encoding/json), Jsonb, GoTime and Calendar
    (package time, float64), Sha256 (crypto), Regex (regexp), Tables (SQL statements), Db, Site, Http.
  \<^item> \<open>ingest\<close>: Envelope (envelope.go), IngestAuth (auth.go), RateLimit (ratelimit.go, decompress.go), Grouping
    (grouping.go), Payload, Store and Process (pipeline.go, store.go); HttpIngest (httpapi/ingest.go) composes them.
  \<^item> \<open>hll\<close>: Hll.  \<open>sourcemap\<close>: Vlq, SourceMap, Artifacts (extract.go, resolve.go, symbolicate.go), Symbolicate (event.go).
  \<^item> \<open>worker\<close>, \<open>alerts\<close>, \<open>config\<close>, \<open>mail\<close>: Jobs (worker.go and the registry of main.go), Alerts, AlertWorker, Rollup, Retention
    (with db/partitions.go), Config.
  \<^item> \<open>auth\<close> and \<open>httpapi\<close>: Auth (tokens.go, password.go, session.go), Principal (middleware.go, helpers.go), Tenancy
    (api_tenancy.go), Accounts (auth_handlers.go).  \<open>cmd/bughan\<close>: Command (reset-password and create-org of main.go).

  Definitions keep the Go names in snake case; a SQL statement is \<open>q_\<close> and what it does, its inserted row \<open>..._new\<close>, its
  \<open>ON CONFLICT\<close> update \<open>..._upd\<close>.  The order within a theory is that of the file.

  \<^bold>\<open>What the lemmas show.\<close>
  \<^item> Pipeline, StoreInv, SessionLife: an envelope is stored completely or not at all and keeps the ledger of issues,
    counters and rollups; a redelivered event changes nothing; the state machine of an issue; sessions and the sketches they
    refine; what blocks an event or a transaction for ever.
  \<^item> IngestAuth, RateLimit, HttpIngestProps: a revoked key dies within the cache lifetime under any interleaving of
    requests; the quota is exact; a refused request stores nothing; which alert signals become jobs, and that the worker
    runs exactly their evaluations.
  \<^item> AlertProps, JobProps, JobLoop, RetentionProps, Rollup: the quiet period between deliveries, the exact messages
    of an evaluation; a job is claimed at most three times, by one worker at a time, and one tick of the worker returns;
    sweeps keep young rows and drop old months; rollups equal the batch aggregate.
  \<^item> Hll, Envelope, SourceMap, Frames, SymbolicateProps, AuthProps: round trips with reference encoders, bounds, and the
    cache of a symbolicated event.
  \<^item> TenancyProps: the locales \<open>site_inv\<close>, \<open>request_inv\<close>, \<open>tenancy_inv\<close>, \<open>account_inv\<close> and \<open>every_inv\<close> lift an
    invariant of the statements to the requests that send them, with the arguments as the handlers prepare them; interpreted for
    the constraints of the schema and for what only the handlers see to (\<open>tidy\<close>: trimmed names, lower-case addresses, proper slugs,
    nothing but hashes of secrets; TenancyProps), for owners and revoked credentials (AccountProps), for password hashes and
    accounts (LoginProps, with the admin commands) and sessions (Visitors).  AccessProps
    proves by the footprint of one organization that only its admins change it.  Visitors shows what
    the account pages do for someone without an account, and how an invitation removes the last owner.

  \<^bold>\<open>Bounds and fuel.\<close>  The JSON parser runs with fuel \<open>2 * length + 2\<close>, enough for every text (\<open>json_parse_fuel\<close>).
  Loops over a body, a list of rows or the 63 bits of a hash are structural or have a measure.  An envelope has at most 1000 items, a
  body at most the configured size, the key cache 10001 entries, a result 20 missing maps, a rollup pass 24 hours.  The
  worker's loops (\<open>run_due\<close>, \<open>poll\<close>) are partial functions, where \<open>None\<close> is not returning; \<open>poll_drains\<close> shows that they return.  Machine integers are words
  where they wrap (VLQ, HyperLogLog, SHA-256, backoff) and integers with their range check where Go or Postgres rejects them.

  \<^bold>\<open>Parameters.\<close>  Code outside the repository is an argument: decompressors, uuid syntax, the outcome and error texts of SQL,
  SMTP and HTTP, net/url's resolution of references, \<open>percentile_cont\<close>, the server's text of a partition bound,
  of a timestamp and its collation, random bytes, Argon2 and the HTML of a template.  The hypotheses about them
  are stated where they are used (a canonical uuid is its own text, Argon2 returns as many bytes as asked for).

  \<^bold>\<open>Not modelled.\<close>
  \<^item> Non-ASCII case folding and white space, and float64 beyond parsing, negation, multiplication and rounding.
  \<^item> The estimate of a sketch (\<open>hll.Estimate\<close>) and the scores of \<open>perf/vitals.go\<close>: float64 formulas.
  \<^item> \<open>httpapi/issues.go\<close>, \<open>releases.go\<close>, \<open>alerts.go\<close>, \<open>alerts_ui.go\<close>, \<open>performance.go\<close>, \<open>perf/store.go\<close>: CRUD and read-only
    aggregates written as dynamic SQL; what they change is covered only where the pipeline or the worker changes it too.
    The read scope of an API token, which only these handlers look at, is carried in the context and not read.
  \<^item> \<open>httpapi/web_ui.go\<close>, \<open>web_perf.go\<close>, \<open>web/render.go\<close>: views around html/template, and in web_ui.go also forms that change
    rows by statements of their own (triage and comments of issues, projects, keys, invitations, members, alert rules, release
    files, profiles and API tokens).  A property of the requests to the tenancy API and the account pages says nothing of these forms.
  \<^item> \<open>db/migrate.go\<close>, \<open>db/db.go\<close>, \<open>httpapi/server.go\<close>, \<open>health.go\<close>, the rest of \<open>main.go\<close>, \<open>testdb\<close>: start-up, the mux, signals, pools.
    Matching of paths is the mux's: a route is a constructor, its path values an argument.
  \<^item> Concurrency between handlers outside the key cache and the job queue: the tenancy and account properties are about sequences of requests.
    Rows of a member or key that two requests change at once are not interleaved.

  \<^bold>\<open>Where the model is simpler than the server.\<close>
  \<^item> The keys, references and checks of \<open>db/migrations\<close> are written into the statements that insert or update: such a statement fails
    (\<open>None\<close>) where the constraint would.
  \<^item> A text with a zero byte or invalid UTF-8 fails a statement of the account, tenancy and job tables where it is sent (\<open>with_texts\<close>,
    \<open>has_nul\<close>).  The statements of the ingest pipeline, and \<open>q_mark\<close> with the text of an error, do not look: such a failure is one of \<open>w_fault\<close>.
  \<^item> Times are unbounded integers: \<open>pg_time\<close> does not wrap at the microseconds of the driver, nor does \<open>in_window\<close> fail for a
    timestamp out of the range of \<open>to_timestamp\<close>.
  \<^item> A COMMIT that fails has not committed (\<open>run_tx\<close>, \<open>in_tx\<close>).
  \<^item> One tick of the worker (\<open>poll\<close>) reads one clock, and no other process enqueues during it; the deliveries of one evaluation share a moment.
  \<^item> An array under a key that occurs twice in a JSON object starts anew (\<open>dec_list\<close>), where Go decodes into the elements of the first.
\<close>

end
